(* ===== verification/Prelude.thy ===== *)
theory Prelude
  imports Main "HOL-Library.Word" "HOL-Library.Sublist"
begin

unbundle bit_operations_syntax

text \<open>
  Shared vocabulary of the development.  Go's fixed-width integers are modelled as \<open>int\<close>
  with the wrap-around written out (\<open>int64\<close>, \<open>int32\<close>, \<open>uint32\<close>) where a value is read
  from bytes or where a sum may overflow, and as \<open>64 word\<close> where the code works on bits.
  Byte slices are lists of \<open>8 word\<close>.  The generic lemmas on lists and association lists
  used by several components are collected here.
\<close>

named_theorems go_int \<open>rewrite rules for Go integer conversions on values in range\<close>
named_theorems bytes_simps \<open>lengths and projections of encoded byte sequences\<close>

type_synonym byte = "8 word"
type_synonym bytes = "byte list"

subsection \<open>Fixed-width integers\<close>

definition int64 :: "int \<Rightarrow> int" where
  "int64 x = signed_take_bit 63 x"

definition int32 :: "int \<Rightarrow> int" where
  "int32 x = signed_take_bit 31 x"

definition uint64 :: "int \<Rightarrow> int" where
  "uint64 x = take_bit 64 x"

definition uint32 :: "int \<Rightarrow> int" where
  "uint32 x = take_bit 32 x"

definition in_int64 :: "int \<Rightarrow> bool" where
  "in_int64 x \<longleftrightarrow> - (2 ^ 63) \<le> x \<and> x < 2 ^ 63"

definition in_int32 :: "int \<Rightarrow> bool" where
  "in_int32 x \<longleftrightarrow> - (2 ^ 31) \<le> x \<and> x < 2 ^ 31"

lemma int64_id [go_int]: "in_int64 x \<Longrightarrow> int64 x = x"
  unfolding int64_def in_int64_def by (simp add: signed_take_bit_int_eq_self)

lemma int32_id [go_int]: "in_int32 x \<Longrightarrow> int32 x = x"
  unfolding int32_def in_int32_def by (simp add: signed_take_bit_int_eq_self)

lemma uint32_id [go_int]: "0 \<le> x \<Longrightarrow> x < 2 ^ 32 \<Longrightarrow> uint32 x = x"
  unfolding uint32_def by (simp add: take_bit_int_eq_self)

lemma uint64_id [go_int]: "0 \<le> x \<Longrightarrow> x < 2 ^ 64 \<Longrightarrow> uint64 x = x"
  unfolding uint64_def by (simp add: take_bit_int_eq_self)

lemma in_int64_int64 [simp]: "in_int64 (int64 x)"
  unfolding int64_def in_int64_def
  using signed_take_bit_int_greater_eq_minus_exp [of 63 x] signed_take_bit_int_less_exp [of 63 x]
  by simp

lemma in_int32_int32 [simp]: "in_int32 (int32 x)"
  unfolding int32_def in_int32_def
  using signed_take_bit_int_greater_eq_minus_exp [of 31 x] signed_take_bit_int_less_exp [of 31 x]
  by simp

lemma int64_mod [simp]: "int64 (x mod 2 ^ 64) = int64 x"
proof -
  have "signed_take_bit 63 (take_bit 64 x) = signed_take_bit 63 x"
    by (simp add: signed_take_bit_take_bit)
  then show ?thesis by (simp add: int64_def take_bit_eq_mod)
qed

lemma int32_mod [simp]: "int32 (x mod 2 ^ 32) = int32 x"
proof -
  have "signed_take_bit 31 (take_bit 32 x) = signed_take_bit 31 x"
    by (simp add: signed_take_bit_take_bit)
  then show ?thesis by (simp add: int32_def take_bit_eq_mod)
qed

lemmas int_mod_numeral [simp] = int64_mod [simplified] int32_mod [simplified]

lemma in_int64_of_nonneg: "0 \<le> x \<Longrightarrow> x < 2 ^ 63 \<Longrightarrow> in_int64 x"
  by (simp add: in_int64_def)

lemma in_int32_of_nonneg: "0 \<le> x \<Longrightarrow> x < 2 ^ 31 \<Longrightarrow> in_int32 x"
  by (simp add: in_int32_def)

text \<open>Go's integer division and remainder truncate towards zero.\<close>

definition go_div :: "int \<Rightarrow> int \<Rightarrow> int" where
  "go_div a b = sgn a * sgn b * (\<bar>a\<bar> div \<bar>b\<bar>)"

definition go_mod :: "int \<Rightarrow> int \<Rightarrow> int" where
  "go_mod a b = a - b * go_div a b"

lemma go_div_nonneg [go_int]: "0 \<le> a \<Longrightarrow> 0 < b \<Longrightarrow> go_div a b = a div b"
  by (cases "a = 0") (auto simp: go_div_def)

lemma go_mod_nonneg [go_int]: "0 \<le> a \<Longrightarrow> 0 < b \<Longrightarrow> go_mod a b = a mod b"
  by (simp add: go_mod_def go_div_nonneg minus_mult_div_eq_mod)

subsection \<open>Big-endian encoding (encoding/binary)\<close>

fun be_bytes :: "nat \<Rightarrow> int \<Rightarrow> bytes" where
  "be_bytes 0 n = []"
| "be_bytes (Suc k) n = be_bytes k (n div 256) @ [word_of_int n]"

definition be_int :: "bytes \<Rightarrow> int" where
  "be_int bs = foldl (\<lambda>acc b. acc * 256 + uint b) 0 bs"

lemma length_be_bytes [simp, bytes_simps]: "length (be_bytes k n) = k"
  by (induction k arbitrary: n) auto

lemma be_int_Nil [simp]: "be_int [] = 0"
  by (simp add: be_int_def)

lemma be_int_snoc [simp]: "be_int (bs @ [b]) = be_int bs * 256 + uint b"
  by (simp add: be_int_def)

lemma uint_byte_mod: "uint (word_of_int n :: byte) = n mod 256"
  by (simp add: uint_word_of_int)

lemma be_int_be_bytes: "be_int (be_bytes k n) = n mod 256 ^ k"
proof (induction k arbitrary: n)
  case 0
  then show ?case by simp
next
  case (Suc k)
  have "be_int (be_bytes (Suc k) n) = (n div 256 mod 256 ^ k) * 256 + n mod 256"
    by (simp add: Suc uint_byte_mod)
  also have "\<dots> = n mod (256 * 256 ^ k)"
    by (simp add: zmod_zmult2_eq mult.commute)
  finally show ?case by simp
qed

lemma be_int_8 [bytes_simps]: "be_int (be_bytes 8 n) = n mod 2 ^ 64"
  by (simp add: be_int_be_bytes)

lemma be_int_4 [bytes_simps]: "be_int (be_bytes 4 n) = n mod 2 ^ 32"
  by (simp add: be_int_be_bytes)

lemma be_int_nonneg: "0 \<le> be_int bs"
  by (induction bs rule: rev_induct) auto

lemma be_int_less: "be_int bs < 256 ^ length bs"
proof (induction bs rule: rev_induct)
  case Nil
  then show ?case by simp
next
  case (snoc b bs)
  have "uint b < 256" using uint_lt2p [of b] by simp
  then show ?case using snoc by simp
qed

lemma be_bytes_be_int: "be_bytes (length bs) (be_int bs) = bs"
proof (induction bs rule: rev_induct)
  case Nil
  then show ?case by simp
next
  case (snoc b bs)
  have b: "0 \<le> uint b" "uint b < 256" using uint_lt2p [of b] by simp_all
  have "(be_int bs * 256 + uint b) div 256 = be_int bs" using b by simp
  moreover have "(word_of_int (be_int bs * 256 + uint b) :: byte) = b"
  proof (rule word_uint_eqI)
    show "uint (word_of_int (be_int bs * 256 + uint b) :: byte) = uint b"
      by (simp only: uint_byte_mod) (use b in simp)
  qed
  ultimately show ?case using snoc by simp
qed

text \<open>\<open>slc xs i j\<close> is Go's \<open>xs[i:j]\<close>; callers check the bounds.\<close>

definition slc :: "'a list \<Rightarrow> nat \<Rightarrow> nat \<Rightarrow> 'a list" where
  "slc xs i j = take (j - i) (drop i xs)"

lemma length_slc [simp, bytes_simps]: "length (slc xs i j) = min (j - i) (length xs - i)"
  by (simp add: slc_def)

lemma slc_append1 [bytes_simps]: "j \<le> length xs \<Longrightarrow> slc (xs @ ys) i j = slc xs i j"
  by (simp add: slc_def)

lemma slc_append2 [bytes_simps]:
  "length xs \<le> i \<Longrightarrow> slc (xs @ ys) i j = slc ys (i - length xs) (j - length xs)"
  by (simp add: slc_def)

lemma slc_full [bytes_simps]: "n = length xs \<Longrightarrow> slc xs 0 n = xs"
  by (simp add: slc_def)

lemma slc_take: "j \<le> n \<Longrightarrow> slc (take n xs) i j = slc xs i j"
  by (simp add: slc_def drop_take min_def)

lemma slc_drop: "slc (drop n xs) i j = slc xs (n + i) (n + j)"
  by (simp add: slc_def add.commute)

text \<open>Overwriting \<open>length ys\<close> elements at position \<open>i\<close>, as \<open>copy(xs[i:], ys)\<close> does.\<close>

definition overwrite :: "'a list \<Rightarrow> nat \<Rightarrow> 'a list \<Rightarrow> 'a list" where
  "overwrite xs i ys = take i xs @ ys @ drop (i + length ys) xs"

lemma length_overwrite [simp, bytes_simps]:
  "i + length ys \<le> length xs \<Longrightarrow> length (overwrite xs i ys) = length xs"
  by (simp add: overwrite_def)

lemma slc_overwrite_same:
  "i + length ys \<le> length xs \<Longrightarrow> slc (overwrite xs i ys) i (i + length ys) = ys"
  by (simp add: slc_def overwrite_def)

lemma slc_overwrite_before:
  assumes "j \<le> i" "i \<le> length xs"
  shows "slc (overwrite xs i ys) k j = slc xs k j"
proof -
  have "slc (overwrite xs i ys) k j = slc (take i xs) k j"
    using assms by (simp add: overwrite_def slc_append1)
  then show ?thesis using assms by (simp add: slc_take)
qed

section \<open>Small numbers as words, and cursors into a slice\<close>

lemma of_nat_small [go_int]:
  assumes "n < 2 ^ 31"
  shows "uint (of_nat n :: 64 word) = int n" "sint (of_nat n :: 64 word) = int n"
    "unat (of_nat n :: 64 word) = n"
proof -
  have n: "n < 2 ^ 63" "n < 2 ^ 64" using assms by simp_all
  show u: "uint (of_nat n :: 64 word) = int n"
    using n by (simp add: unsigned_of_nat take_bit_nat_eq_self)
  show "sint (of_nat n :: 64 word) = int n"
    using n by (simp add: signed_of_nat signed_take_bit_int_eq_self)
  show "unat (of_nat n :: 64 word) = n"
    using n by (simp add: unsigned_of_nat take_bit_nat_eq_self)
qed

lemma int64_small [go_int]: "n < 2 ^ 62 \<Longrightarrow> int64 (int n) = int n"
  by (rule int64_id) (simp add: in_int64_def)

lemma drop_step: "drop pos data = xs @ rest \<Longrightarrow> drop (pos + length xs) data = rest"
  by (metis add.commute append_eq_conv_conj drop_drop)

lemma drop_len:
  assumes "drop pos data = xs @ rest" "xs \<noteq> []"
  shows "pos + length xs \<le> length data"
proof -
  have "length data - pos = length xs + length rest"
    using arg_cong [OF assms(1), of length] by simp
  moreover have "0 < length xs" using assms(2) by simp
  ultimately show ?thesis by linarith
qed

lemma drop_slc: "drop pos data = xs @ rest \<Longrightarrow> slc data pos (pos + length xs) = xs"
  by (simp add: slc_def)

lemma word_of_int_mod32: "word_of_int (x mod 4294967296) = (word_of_int x :: 32 word)"
  by transfer (simp add: take_bit_eq_mod)

lemma word_of_int_mod64: "word_of_int (x mod 18446744073709551616) = (word_of_int x :: 64 word)"
  by transfer (simp add: take_bit_eq_mod)

end
