(* ===== verification/Errors.thy ===== *)
theory Errors
  imports Prelude
begin

text \<open>
  Go error values.  A sentinel error is a package-level pointer compared by identity, so every
  package contributes its own constructors even where two packages use the same message text.
  \<open>fmt.Errorf("...: %w", err)\<close> is \<open>Wrapped\<close>, and \<open>errors_Is\<close> follows the chain as
  \<open>errors.Is\<close> does.  A run-time panic is the error value \<open>GoPanic\<close>.
\<close>

datatype storage_err =
    ErrCRCMismatch
  | ErrSegmentReadOnly
  | ErrIndexFull
  | ErrOffsetOutOfRange
  | ErrTimestampNotFound
  | ErrStorageClosed

datatype cluster_err =
    CErrInvalidArgument
  | CErrTopicAlreadyExists
  | CErrTopicNotFound

datatype group_err =
    ErrNotGroupMember
  | GErrNotFound
  | GErrInvalidArgument
  | ErrStaleGeneration

datatype data_err =
    ErrPartitionNotFound
  | DErrUnavailable
  | ErrOffsetNotFound
  | DErrOffsetOutOfRange

datatype mgmt_err =
    MErrTopicNotFound
  | MErrTopicAlreadyExists
  | MErrInvalidArgument
  | MErrUnavailable

datatype go_error =
    StorageE storage_err
  | MetadataErrNotFound
  | ClusterE cluster_err
  | GroupE group_err
  | DataE data_err
  | MgmtE mgmt_err
  | NotLeaderError int string
  | ErrUnexpectedEOF
  | SysErr string
  | ContextErr
  | NewError string
  | Wrapped string go_error
  | GoPanic string

fun errors_Is :: "go_error \<Rightarrow> go_error \<Rightarrow> bool" where
  "errors_Is (Wrapped m e) t \<longleftrightarrow> Wrapped m e = t \<or> errors_Is e t"
| "errors_Is e t \<longleftrightarrow> e = t"

fun is_panic :: "go_error \<Rightarrow> bool" where
  "is_panic (GoPanic m) = True"
| "is_panic _ = False"

text \<open>
  The operating system.  Each operation that makes system calls takes an \<open>os_env\<close>: for every
  call site whether that call fails, with the error text and the number of bytes that were
  transferred before the failure, and the page size.  \<open>os_ok\<close> says that no call fails.
\<close>

datatype call_site =
    SysWrite
  | SysOpenLog
  | SysStatLog
  | SysTruncateLog
  | SysSyncLog
  | SysCloseLog
  | SysOpenIndex
  | SysStatIndex
  | SysPreallocIndex
  | SysMmapIndex
  | SysTruncateIndex
  | SysMsyncIndex
  | SysMunmapIndex
  | SysRemapIndex
  | SysCloseIndex
  | SysOpenTimeIndex
  | SysStatTimeIndex
  | SysPreallocTimeIndex
  | SysMmapTimeIndex
  | SysTruncateTimeIndex
  | SysMsyncTimeIndex
  | SysMunmapTimeIndex
  | SysRemapTimeIndex
  | SysCloseTimeIndex
  | SysScanOpen
  | SysScanStat
  | SysTruncateScan
  | SysGlob
  | SysReadSidecar
  | SysWriteSidecar

record os_env =
  os_fails :: "call_site \<Rightarrow> (string \<times> nat) option"
  os_pagesize :: int

definition os_ok :: "os_env \<Rightarrow> bool" where
  "os_ok os \<longleftrightarrow> (\<forall>c. os_fails os c = None) \<and> 0 < os_pagesize os"

lemma os_ok_call [simp]: "os_ok os \<Longrightarrow> os_fails os c = None"
  by (simp add: os_ok_def)

definition sys :: "os_env \<Rightarrow> call_site \<Rightarrow> go_error option" where
  "sys os c = map_option (\<lambda>(m, n). SysErr m) (os_fails os c)"

lemma sys_ok [simp]: "os_ok os \<Longrightarrow> sys os c = None"
  by (simp add: sys_def)

text \<open>
  \<open>make([]T, n)\<close> panics when \<open>n\<close> is negative or \<open>n\<close> elements of \<open>sz\<close> bytes
  exceed the address space of the run time (\<open>2^48\<close> bytes on the supported 64-bit platforms).
\<close>

definition go_make_ok :: "int \<Rightarrow> int \<Rightarrow> bool" where
  "go_make_ok n sz \<longleftrightarrow> 0 \<le> n \<and> n * sz \<le> 2 ^ 48"

lemma errors_Is_refl [simp]: "errors_Is e e"
  by (cases e) auto

end
