(* ===== verification/Batch.thy ===== *)
theory Batch
  imports Errors
begin

text \<open>
  The batch codec of \<open>internal/storage/batch.go\<close>: the 38-byte header, the varint-framed
  records, and the CRC-32C over the record bytes.  \<open>int64\<close> and \<open>uint64\<close> fields are
  \<open>64 word\<close>s (read with \<open>sint\<close> or \<open>uint\<close>), positions in a slice are \<open>nat\<close>, and
  a \<open>nil\<close> key is \<open>None\<close>.  The first part defines the codec, the second shows that
  decoding inverts encoding, also after the storage layer has overwritten the base offset.
\<close>

section \<open>Data\<close>

record RecordHeader =
  rh_Key :: bytes
  rh_Value :: bytes

record Record =
  TimestampMs :: "64 word"
  Key :: "bytes option"
  Value :: bytes
  Headers :: "RecordHeader list"

record BatchHeader =
  BaseOffset :: "64 word"
  BatchLength :: "32 word"
  RecordCount :: "32 word"
  CRC32 :: "32 word"
  Attributes :: "16 word"
  BaseTimestamp :: "64 word"
  MaxTimestamp :: "64 word"

record Batch = BatchHeader +
  Records :: "Record list"

section \<open>CRC-32C\<close>

text \<open>
  \<open>hash/crc32\<close> with the Castagnoli table: the reflected polynomial, one bit at a time.
\<close>

definition crc_bit :: "32 word \<Rightarrow> 32 word" where
  "crc_bit c = (if bit c 0 then drop_bit 1 c XOR 0x82F63B78 else drop_bit 1 c)"

definition crc_byte :: "32 word \<Rightarrow> byte \<Rightarrow> 32 word" where
  "crc_byte c b = (crc_bit ^^ 8) (c XOR ucast b)"

definition crc32c :: "bytes \<Rightarrow> 32 word" where
  "crc32c bs = NOT (foldl crc_byte 0xFFFFFFFF bs)"

section \<open>Varints\<close>

function appendUvarint :: "bytes \<Rightarrow> 64 word \<Rightarrow> bytes" where
  "appendUvarint b v =
     (if v \<ge> 0x80 then appendUvarint (b @ [ucast v OR 0x80]) (drop_bit 7 v)
      else b @ [ucast v])"
  by pat_completeness auto
termination
proof (relation "measure (\<lambda>(b, v). unat v)")
  fix b :: bytes and v :: "64 word"
  assume "v \<ge> 0x80"
  then have "unat v > 0" by (simp add: word_le_nat_alt)
  moreover have "unat (drop_bit 7 v) = unat v div 128"
    by (simp only: unat_drop_bit_eq) (simp add: drop_bit_eq_div)
  ultimately have "unat (drop_bit 7 v) < unat v" by simp
  then show "((b @ [ucast v OR 0x80], drop_bit 7 v), b, v) \<in> measure (\<lambda>(b, v). unat v)"
    by simp
qed simp

declare appendUvarint.simps [simp del]

definition zigzag :: "64 word \<Rightarrow> 64 word" where
  "zigzag n = push_bit 1 n XOR signed_drop_bit 63 n"

definition unzigzag :: "64 word \<Rightarrow> 64 word" where
  "unzigzag n = drop_bit 1 n XOR - (n AND 1)"

definition appendZigzagVarint :: "bytes \<Rightarrow> 64 word \<Rightarrow> bytes" where
  "appendZigzagVarint b n = appendUvarint b (zigzag n)"

function decodeUvarint_loop ::
    "bytes \<Rightarrow> nat \<Rightarrow> 64 word \<Rightarrow> nat \<Rightarrow> go_error + (64 word \<times> nat)" where
  "decodeUvarint_loop data pos v shift =
     (if pos \<ge> length data then Inl (NewError ''truncated varint'')
      else let b = data ! pos;
               v' = v OR push_bit shift (ucast (b AND 0x7F))
           in if b < 0x80 then Inr (v', Suc pos)
              else if shift + 7 \<ge> 64 then Inl (NewError ''varint overflow'')
              else decodeUvarint_loop data (Suc pos) v' (shift + 7))"
  by pat_completeness auto
termination
  by (relation "measure (\<lambda>(data, pos, v, shift). length data - pos)") auto

declare decodeUvarint_loop.simps [simp del]

definition decodeUvarint :: "bytes \<Rightarrow> nat \<Rightarrow> go_error + (64 word \<times> nat)" where
  "decodeUvarint data pos = decodeUvarint_loop data pos 0 0"

section \<open>Records\<close>

fun appendHeaders :: "bytes \<Rightarrow> RecordHeader list \<Rightarrow> bytes" where
  "appendHeaders body [] = body"
| "appendHeaders body (h # hs) =
     (let body1 = appendUvarint body (of_nat (length (rh_Key h))) @ rh_Key h;
          body2 = appendUvarint body1 (of_nat (length (rh_Value h))) @ rh_Value h
      in appendHeaders body2 hs)"

definition appendRecord :: "bytes \<Rightarrow> Record \<Rightarrow> 64 word \<Rightarrow> 64 word \<Rightarrow> bytes" where
  "appendRecord buf rec baseTimestamp offsetDelta =
     (let body0 = [0];
          tsDelta = TimestampMs rec - baseTimestamp;
          body1 = appendZigzagVarint body0 tsDelta;
          body2 = appendZigzagVarint body1 offsetDelta;
          body3 = (case Key rec of
                     None \<Rightarrow> appendZigzagVarint body2 (- 1)
                   | Some k \<Rightarrow> appendZigzagVarint body2 (of_nat (length k)) @ k);
          body4 = appendUvarint body3 (of_nat (length (Value rec))) @ Value rec;
          body5 = appendUvarint body4 (of_nat (length (Headers rec)));
          body = appendHeaders body5 (Headers rec)
      in appendUvarint buf (of_nat (length body)) @ body)"

text \<open>
  One length-prefixed field of a record, read as \<open>decodeRecord\<close> reads header keys, header
  values and the record value: the length, the bounds check against \<open>end\<close>, the allocation,
  the copy.
\<close>

definition decodeBytes :: "string \<Rightarrow> bytes \<Rightarrow> int \<Rightarrow> nat \<Rightarrow> go_error + (bytes \<times> nat)" where
  "decodeBytes msg data end pos =
     (case decodeUvarint data pos of
        Inl e \<Rightarrow> Inl e
      | Inr (len, pos) \<Rightarrow>
          if int64 (int pos + sint len) > end then Inl (NewError msg)
          else if \<not> go_make_ok (uint len) 1 then Inl (GoPanic ''makeslice: len out of range'')
          else Inr (slc data pos (pos + unat len), pos + unat len))"

fun decodeHeaders :: "bytes \<Rightarrow> int \<Rightarrow> nat \<Rightarrow> nat \<Rightarrow> go_error + (RecordHeader list \<times> nat)" where
  "decodeHeaders data end 0 pos = Inr ([], pos)"
| "decodeHeaders data end (Suc n) pos =
     (case decodeBytes ''header key extends beyond record'' data end pos of
        Inl e \<Rightarrow> Inl e
      | Inr (hKey, pos) \<Rightarrow>
          (case decodeBytes ''header value extends beyond record'' data end pos of
             Inl e \<Rightarrow> Inl e
           | Inr (hVal, pos) \<Rightarrow>
               (case decodeHeaders data end n pos of
                  Inl e \<Rightarrow> Inl e
                | Inr (hs, pos) \<Rightarrow> Inr (\<lparr>rh_Key = hKey, rh_Value = hVal\<rparr> # hs, pos))))"

definition decodeKey :: "bytes \<Rightarrow> int \<Rightarrow> nat \<Rightarrow> go_error + (bytes option \<times> nat)" where
  "decodeKey data end pos =
     (case decodeUvarint data pos of
        Inl e \<Rightarrow> Inl e
      | Inr (keyLenRaw, pos) \<Rightarrow>
          (let keyLen = sint (unzigzag keyLenRaw)
           in if keyLen \<ge> 0
              then if int64 (int pos + keyLen) > end
                   then Inl (NewError ''key extends beyond record'')
                   else if \<not> go_make_ok keyLen 1
                   then Inl (GoPanic ''makeslice: len out of range'')
                   else Inr (Some (slc data pos (pos + nat keyLen)), pos + nat keyLen)
              else Inr (None, pos)))"

definition decodeRecord :: "bytes \<Rightarrow> nat \<Rightarrow> 64 word \<Rightarrow> go_error + (Record \<times> nat)" where
  "decodeRecord data pos baseTimestamp =
     (case decodeUvarint data pos of
        Inl e \<Rightarrow> Inl e
      | Inr (length_, pos) \<Rightarrow>
          (let end = int64 (int pos + sint length_)
           in if end > int (length data) then Inl (NewError ''record extends beyond data'')
              else if int pos \<ge> end then Inl (NewError ''truncated record'')
              else
     (case decodeUvarint data (Suc pos) of
        Inl e \<Rightarrow> Inl e
      | Inr (tsDeltaRaw, pos) \<Rightarrow>
     (case decodeUvarint data pos of
        Inl e \<Rightarrow> Inl e
      | Inr (_, pos) \<Rightarrow>
     (case decodeKey data end pos of
        Inl e \<Rightarrow> Inl e
      | Inr (key, pos) \<Rightarrow>
     (case decodeBytes ''value extends beyond record'' data end pos of
        Inl e \<Rightarrow> Inl e
      | Inr (val, pos) \<Rightarrow>
     (case decodeUvarint data pos of
        Inl e \<Rightarrow> Inl e
      | Inr (headersCount, pos) \<Rightarrow>
          if \<not> go_make_ok (uint headersCount) 48
          then Inl (GoPanic ''makeslice: len out of range'')
          else
     (case decodeHeaders data end (unat headersCount) pos of
        Inl e \<Rightarrow> Inl e
      | Inr (headers, pos) \<Rightarrow>
          Inr (\<lparr>TimestampMs = baseTimestamp + unzigzag tsDeltaRaw, Key = key,
                Value = val, Headers = headers\<rparr>, nat end)))))))))"

section \<open>Batches\<close>

fun encodeRecords :: "bytes \<Rightarrow> Record list \<Rightarrow> 64 word \<Rightarrow> nat \<Rightarrow> bytes" where
  "encodeRecords recsBuf [] baseTimestamp i = recsBuf"
| "encodeRecords recsBuf (rec # recs) baseTimestamp i =
     encodeRecords (appendRecord recsBuf rec baseTimestamp (of_nat i)) recs baseTimestamp (Suc i)"

definition EncodeBatch :: "Record list \<Rightarrow> go_error + bytes" where
  "EncodeBatch records =
     (if records = [] then Inl (NewError ''records must not be empty'')
      else let baseTimestamp = TimestampMs (hd records);
               maxTimestamp = TimestampMs (last records);
               recsBuf = encodeRecords [] records baseTimestamp 0;
               batchLength = int32 (38 + int (length recsBuf));
               crc = crc32c recsBuf
           in Inr (be_bytes 8 0 @ be_bytes 4 batchLength @ be_bytes 4 (int (length records)) @
                   be_bytes 4 (uint crc) @ be_bytes 2 0 @ be_bytes 8 (uint baseTimestamp) @
                   be_bytes 8 (uint maxTimestamp) @ recsBuf))"

definition decodeHeader :: "bytes \<Rightarrow> BatchHeader" where
  "decodeHeader data =
     \<lparr>BaseOffset = word_of_int (be_int (slc data 0 8)),
      BatchLength = word_of_int (be_int (slc data 8 12)),
      RecordCount = word_of_int (be_int (slc data 12 16)),
      CRC32 = word_of_int (be_int (slc data 16 20)),
      Attributes = word_of_int (be_int (slc data 20 22)),
      BaseTimestamp = word_of_int (be_int (slc data 22 30)),
      MaxTimestamp = word_of_int (be_int (slc data 30 38))\<rparr>"

lemma decodeUvarint_loop_progress:
  "decodeUvarint_loop data pos v shift = Inr (w, p) \<Longrightarrow> pos < p \<and> p \<le> length data"
proof (induction data pos v shift rule: decodeUvarint_loop.induct)
  case (1 data pos v shift)
  show ?case
  proof (cases "pos < length data \<and> \<not> data ! pos < 0x80 \<and> shift + 7 < 64")
    case True
    then show ?thesis
      using "1.IH" [OF _ refl refl] "1.prems"
      by (auto simp: decodeUvarint_loop.simps [of data pos v shift] Let_def)
  next
    case False
    with "1.prems" show ?thesis
      by (auto simp: decodeUvarint_loop.simps [of data pos v shift] Let_def split: if_splits)
  qed
qed

lemma decodeUvarint_progress:
  "decodeUvarint data pos = Inr (w, p) \<Longrightarrow> pos < p \<and> p \<le> length data"
  unfolding decodeUvarint_def by (rule decodeUvarint_loop_progress)

text \<open>Every record that decodes consumes at least one byte and stays inside the data.\<close>

lemma decodeRecord_progress:
  assumes "decodeRecord data pos base = Inr (rec, p)"
  shows "pos < p \<and> p \<le> length data"
proof -
  from assms obtain len q where q: "decodeUvarint data pos = Inr (len, q)"
    by (auto simp: decodeRecord_def split: sum.splits)
  with assms have "int q < int p \<and> int p \<le> int (length data)"
    by (auto simp: decodeRecord_def Let_def split: sum.splits if_splits prod.splits)
  with decodeUvarint_progress [OF q] show ?thesis by simp
qed

function decodeRecords :: "bytes \<Rightarrow> nat \<Rightarrow> 64 word \<Rightarrow> Record list \<Rightarrow> go_error + Record list" where
  "decodeRecords recsData pos base records =
     (if pos < length recsData
      then (case decodeRecord recsData pos base of
              Inl e \<Rightarrow> Inl e
            | Inr (rec, newPos) \<Rightarrow> decodeRecords recsData newPos base (records @ [rec]))
      else Inr records)"
  by pat_completeness auto
termination
  by (relation "measure (\<lambda>(d, pos, b, rs). length d - pos)") (auto dest: decodeRecord_progress)

declare decodeRecords.simps [simp del]

definition DecodeBatch :: "bytes \<Rightarrow> go_error + Batch" where
  "DecodeBatch data =
     (if length data < 38 then Inl (NewError ''batch too short'')
      else let bh = decodeHeader data;
               bl = sint (BatchLength bh)
           in if bl < 38 \<or> bl > int (length data) then Inl (NewError ''batch data truncated'')
              else let recsData = slc data 38 (nat bl)
                   in if crc32c recsData \<noteq> CRC32 bh then Inl (StorageE ErrCRCMismatch)
                      else if \<not> go_make_ok (sint (RecordCount bh)) 80
                      then Inl (GoPanic ''makeslice: cap out of range'')
                      else (case decodeRecords recsData 0 (BaseTimestamp bh) [] of
                              Inl e \<Rightarrow> Inl e
                            | Inr records \<Rightarrow> Inr (BatchHeader.extend bh (Batch.fields records))))"

definition DecodeNextBatch :: "bytes \<Rightarrow> nat \<Rightarrow> go_error + (Batch \<times> nat)" where
  "DecodeNextBatch data pos =
     (if pos \<ge> length data then Inl (NewError ''no more batches'')
      else (case DecodeBatch (drop pos data) of
              Inl e \<Rightarrow> Inl e
            | Inr batch \<Rightarrow> Inr (batch, pos + nat (sint (BatchLength batch)))))"


section \<open>Varint round trips\<close>

lemma appendUvarint_append: "appendUvarint (a @ b) v = a @ appendUvarint b v"
proof (induction b v arbitrary: a rule: appendUvarint.induct)
  case (1 b v)
  show ?case
  proof (cases "v \<ge> 0x80")
    case True
    from "1.IH" [OF True, of a] show ?thesis
      using True by (simp add: appendUvarint.simps [of "a @ b" v] appendUvarint.simps [of b v])
  next
    case False
    then show ?thesis by (simp add: appendUvarint.simps)
  qed
qed

definition uvarint :: "64 word \<Rightarrow> bytes" where
  "uvarint v = appendUvarint [] v"

lemma appendUvarint_eq: "appendUvarint b v = b @ uvarint v"
  using appendUvarint_append [of b "[]" v] by (simp add: uvarint_def)

lemma and_1_if: "(x::64 word) AND 1 = (if bit x 0 then 1 else 0)"
  by (simp add: and_one_eq mod2_eq_if bit_0)

lemma zigzag_bit: "bit (zigzag n) i \<longleftrightarrow> i < 64 \<and> ((i > 0 \<and> bit n (i - 1)) \<noteq> bit n 63)"
proof (cases "i < 64")
  case True
  have "bit (zigzag n) i \<longleftrightarrow> (1 \<le> i \<and> bit n (i - 1)) \<noteq> bit n 63"
    unfolding zigzag_def using True
    by (cases "i = 0") (simp_all only: bit_xor_iff bit_push_bit_iff bit_signed_drop_bit_iff, auto)
  with True show ?thesis by (simp add: Suc_le_eq)
next
  case False
  then show ?thesis using bit_imp_le_length [of "zigzag n" i] by auto
qed

lemma unzigzag_zigzag: "unzigzag (zigzag n) = n"
proof (rule bit_word_eqI)
  fix i assume "i < LENGTH(64)"
  then have i: "i < 64" by simp
  show "bit (unzigzag (zigzag n)) i = bit n i"
    unfolding unzigzag_def using i
    by (cases "bit n 63"; cases "i = 63")
       (auto simp: and_1_if zigzag_bit bit_simps)
qed

lemma mask7: "(0x7F::'a::len word) = mask 7"
  by (simp add: mask_eq_exp_minus_1)

lemma Uvarint_step: "(v AND 0x7F) OR push_bit 7 (drop_bit 7 v) = (v::64 word)"
proof (rule bit_word_eqI)
  fix n
  show "bit ((v AND 0x7F) OR push_bit 7 (drop_bit 7 v)) n = bit v n"
    by (cases "n < 7")
       (auto simp add: mask7 bit_and_iff bit_or_iff bit_push_bit_iff bit_drop_bit_eq bit_mask_iff
         dest: bit_imp_le_length)
qed

lemma bit7: "(0x80::'a::len word) = push_bit 7 1"
  by simp

lemma small_bits: "unat (w::'a::len word) < 128 \<Longrightarrow> bit w n \<Longrightarrow> n < 7"
proof -
  assume w: "unat w < 128" and b: "bit w n"
  have "unat w = take_bit 7 (unat w)" using w by (simp add: take_bit_nat_eq_self)
  moreover have "bit (unat w) n" using b by (simp add: bit_unsigned_iff)
  ultimately have "bit (take_bit 7 (unat w)) n" by simp
  then show ?thesis by (simp add: bit_take_bit_iff)
qed

lemma cont_byte_ge: "\<not> (b OR 0x80 < (0x80::byte))"
proof
  assume a: "b OR 0x80 < (0x80::byte)"
  have "bit (b OR 0x80) 7" by (simp only: bit7 bit_or_iff bit_push_bit_iff) simp
  moreover have "unat (b OR 0x80) < 128" using a by (simp add: word_less_nat_alt)
  ultimately show False using small_bits by blast
qed

lemma cont_byte_payload: "(ucast ((ucast v OR 0x80 :: byte) AND 0x7F) :: 64 word) = v AND 0x7F"
proof (rule bit_word_eqI)
  fix n
  show "bit (ucast ((ucast v OR 0x80 :: byte) AND 0x7F) :: 64 word) n = bit (v AND 0x7F) n"
    by (simp only: bit7 mask7 bit_or_iff bit_push_bit_iff bit_and_iff bit_mask_iff bit_ucast_iff) auto
qed

lemma last_byte: "v < 0x80 \<Longrightarrow> (ucast ((ucast v :: byte) AND 0x7F) :: 64 word) = v"
proof (rule bit_word_eqI)
  fix n assume v: "v < 0x80" and "n < LENGTH(64)"
  have "unat v < 128" using v by (simp add: word_less_nat_alt)
  then have "bit v n \<Longrightarrow> n < 7" by (rule small_bits)
  then show "bit (ucast ((ucast v :: byte) AND 0x7F) :: 64 word) n = bit v n"
    by (simp only: mask7 bit_and_iff bit_mask_iff bit_ucast_iff possible_bit_word) auto
qed

lemma last_byte_less: "v < (0x80::64 word) \<Longrightarrow> (ucast v :: byte) < 0x80"
  by (simp add: word_less_nat_alt unsigned_ucast_eq take_bit_nat_eq_self)

lemma uvarint_small: "v < 0x80 \<Longrightarrow> uvarint v = [ucast v]"
  by (simp add: uvarint_def appendUvarint.simps)

lemma uvarint_big: "\<not> v < 0x80 \<Longrightarrow> uvarint v = (ucast v OR 0x80) # uvarint (drop_bit 7 v)"
  using appendUvarint_eq [of "[ucast v OR 0x80]" "drop_bit 7 v"]
  by (simp add: uvarint_def appendUvarint.simps [of "[]" v] not_less)

lemma uvarint_nonempty [simp]: "uvarint v \<noteq> []"
  by (cases "v < 0x80") (simp_all add: uvarint_small uvarint_big)

lemma decodeUvarint_loop_enc:
  assumes "drop pos data = uvarint v @ rest" "s < 64" "unat v < 2 ^ (64 - s)"
  shows "decodeUvarint_loop data pos a s =
           Inr (a OR push_bit s v, pos + length (uvarint v))"
  using assms
proof (induction "unat v" arbitrary: v pos s a rule: less_induct)
  case less
  show ?case
  proof (cases "v < 0x80")
    case False
    let ?w = "drop_bit 7 v"
    note enc = uvarint_big [OF False]
    have dr': "drop pos data = (ucast v OR 0x80) # uvarint ?w @ rest"
      using less.prems(1) enc by simp
    then have pos: "pos < length data" by (metis drop_all leI list.distinct(1))
    have b: "data ! pos = ucast v OR 0x80"
      using dr' pos by (metis hd_drop_conv_nth list.sel(1))
    have dr: "drop (Suc pos) data = uvarint ?w @ rest"
      using dr' by (metis drop_Suc list.sel(3) tl_drop)
    have v128: "128 \<le> unat v" using False by (simp add: word_less_nat_alt)
    have "(2::nat) ^ 7 \<le> unat v" using v128 by simp
    then have "(2::nat) ^ 7 < 2 ^ (64 - s)" using less.prems(3) by (rule le_less_trans)
    then have s: "s + 7 < 64" by (subst (asm) power_strict_increasing_iff) auto
    have uw: "unat ?w = unat v div 2 ^ 7"
      by (simp only: unat_drop_bit_eq) (simp add: drop_bit_eq_div)
    have "(2::nat) ^ (64 - s) = 2 ^ 7 * 2 ^ (64 - (s + 7))"
      using s by (simp only: power_add [symmetric]) simp
    then have w: "unat ?w < 2 ^ (64 - (s + 7))"
      using less.prems(3) uw by (simp add: less_mult_imp_div_less mult.commute)
    have "unat ?w < unat v" using uw v128 by simp
    from less.hyps [OF this dr s w]
    have IH: "decodeUvarint_loop data (Suc pos) a' (s + 7) =
        Inr (a' OR push_bit (s + 7) ?w, Suc pos + length (uvarint ?w))" for a' .
    have "push_bit s v = push_bit s (v AND 0x7F) OR push_bit (s + 7) ?w"
      by (subst Uvarint_step [of v, symmetric]) (simp only: push_bit_or push_bit_push_bit)
    then show ?thesis using pos s
      by (simp add: decodeUvarint_loop.simps [of data pos a s] b cont_byte_ge cont_byte_payload
          IH enc Let_def or.assoc)
  next
    case True
    note enc = uvarint_small [OF True]
    have dr': "drop pos data = ucast v # rest" using less.prems(1) enc by simp
    then have pos: "pos < length data" by (metis drop_all leI list.distinct(1))
    have b: "data ! pos = ucast v" using dr' pos by (metis hd_drop_conv_nth list.sel(1))
    show ?thesis using True pos
      by (simp add: decodeUvarint_loop.simps [of data pos a s] enc b last_byte last_byte_less Let_def)
  qed
qed

lemma decodeUvarint_enc:
  assumes "drop pos data = uvarint v @ rest"
  shows "decodeUvarint data pos = Inr (v, pos + length (uvarint v))"
proof -
  have "unat v < 2 ^ 64" using unsigned_less [of v] by simp
  then show ?thesis
    unfolding decodeUvarint_def using decodeUvarint_loop_enc [OF assms, of 0 0] by simp
qed

section \<open>Record and batch round trips\<close>

lemma decodeBytes_enc:
  assumes d: "drop pos data = uvarint (of_nat (length xs)) @ xs @ rest"
    and e: "int (pos + length (uvarint (of_nat (length xs))) + length xs) \<le> end"
    and l: "length data < 2 ^ 31"
  shows "decodeBytes msg data end pos =
    Inr (xs, pos + length (uvarint (of_nat (length xs))) + length xs)"
proof -
  let ?u = "uvarint (of_nat (length xs))"
  let ?p = "pos + length ?u"
  have "?p + length xs \<le> length data"
    using drop_len [of pos data "?u @ xs" rest] d by simp
  then have small: "length xs < 2 ^ 31" "?p + length xs < 2 ^ 62" using l by simp_all
  have dec: "decodeUvarint data pos = Inr (of_nat (length xs), ?p)"
    by (rule decodeUvarint_enc [OF d])
  have xs: "slc data ?p (?p + length xs) = xs"
    by (rule drop_slc) (rule drop_step [OF d])
  have i: "int64 (int ?p + int (length xs)) = int ?p + int (length xs)"
    using int64_small [OF small(2)] by simp
  have m: "go_make_ok (int (length xs)) 1" using small(1) by (simp add: go_make_ok_def)
  show ?thesis
    unfolding decodeBytes_def dec using e xs i m
    by (simp add: of_nat_small [OF small(1)] del: of_nat_add) 
qed

definition headers_bytes :: "RecordHeader list \<Rightarrow> bytes" where
  "headers_bytes hs =
     concat (map (\<lambda>h. uvarint (of_nat (length (rh_Key h))) @ rh_Key h @
                       uvarint (of_nat (length (rh_Value h))) @ rh_Value h) hs)"

lemma appendHeaders_eq: "appendHeaders b hs = b @ headers_bytes hs"
  by (induction hs arbitrary: b) (simp_all add: Let_def appendUvarint_eq headers_bytes_def)

lemma decodeHeaders_enc:
  assumes "drop pos data = headers_bytes hs @ rest"
    and "int (pos + length (headers_bytes hs)) \<le> end"
    and "length data < 2 ^ 31"
  shows "decodeHeaders data end (length hs) pos = Inr (hs, pos + length (headers_bytes hs))"
  using assms
proof (induction hs arbitrary: pos)
  case Nil
  then show ?case by (simp add: headers_bytes_def)
next
  case (Cons h hs)
  let ?k = "rh_Key h" and ?v = "rh_Value h"
  let ?uk = "uvarint (of_nat (length ?k))" and ?uv = "uvarint (of_nat (length ?v))"
  let ?p1 = "pos + length ?uk + length ?k"
  let ?p2 = "?p1 + length ?uv + length ?v"
  have d: "drop pos data = ?uk @ ?k @ ?uv @ ?v @ headers_bytes hs @ rest"
    using Cons.prems(1) by (simp add: headers_bytes_def)
  have len: "length (headers_bytes (h # hs)) =
      length ?uk + length ?k + length ?uv + length ?v + length (headers_bytes hs)"
    by (simp add: headers_bytes_def)
  have 1: "decodeBytes m data end pos = Inr (?k, ?p1)" for m
    by (rule decodeBytes_enc [OF d]) (use Cons.prems len in simp_all)
  have d1: "drop ?p1 data = ?uv @ ?v @ headers_bytes hs @ rest"
    using drop_step [of pos data "?uk @ ?k"] d by (simp add: add.assoc)
  have 2: "decodeBytes m data end ?p1 = Inr (?v, ?p2)" for m
    by (rule decodeBytes_enc [OF d1]) (use Cons.prems len in simp_all)
  have d2: "drop ?p2 data = headers_bytes hs @ rest"
    using drop_step [of ?p1 data "?uv @ ?v"] d1 by (simp add: add.assoc)
  have 3: "decodeHeaders data end (length hs) ?p2 = Inr (hs, ?p2 + length (headers_bytes hs))"
    by (rule Cons.IH [OF d2]) (use Cons.prems len in simp_all)
  show ?case
    by (simp add: 1 2 3 len)
qed

text \<open>The byte layout of one record.\<close>

definition key_bytes :: "bytes option \<Rightarrow> bytes" where
  "key_bytes k = (case k of None \<Rightarrow> uvarint (zigzag (- 1))
                  | Some k \<Rightarrow> uvarint (zigzag (of_nat (length k))) @ k)"

definition record_body :: "Record \<Rightarrow> 64 word \<Rightarrow> 64 word \<Rightarrow> bytes" where
  "record_body rec base od =
     [0] @ uvarint (zigzag (TimestampMs rec - base)) @ uvarint (zigzag od) @
     key_bytes (Key rec) @
     uvarint (of_nat (length (Value rec))) @ Value rec @
     uvarint (of_nat (length (Headers rec))) @ headers_bytes (Headers rec)"

lemma appendRecord_layout:
  "appendRecord buf rec base od =
     buf @ uvarint (of_nat (length (record_body rec base od))) @ record_body rec base od"
  unfolding appendRecord_def record_body_def key_bytes_def Let_def appendZigzagVarint_def
    appendUvarint_eq appendHeaders_eq
  by (cases "Key rec") (simp_all only: option.case append_assoc)

lemma length_headers_bytes: "length hs \<le> length (headers_bytes hs)"
proof (induction hs)
  case (Cons h hs)
  moreover have "0 < length (uvarint (of_nat (length (rh_Key h))))" by simp
  ultimately show ?case by (simp add: headers_bytes_def del: length_greater_0_conv)
qed simp

lemma decodeKey_enc:
  assumes d: "drop pos data = key_bytes key @ rest"
    and e: "int (pos + length (key_bytes key)) \<le> end"
    and l: "length data < 2 ^ 31"
  shows "decodeKey data end pos = Inr (key, pos + length (key_bytes key))"
proof (cases key)
  case None
  have "decodeUvarint data pos = Inr (zigzag (- 1), pos + length (uvarint (zigzag (- 1))))"
    using d None by (intro decodeUvarint_enc) (simp add: key_bytes_def)
  then show ?thesis by (simp add: decodeKey_def None key_bytes_def unzigzag_zigzag Let_def)
next
  case (Some k)
  let ?u = "uvarint (zigzag (of_nat (length k)))"
  let ?p = "pos + length ?u"
  have d': "drop pos data = ?u @ k @ rest" using d Some by (simp add: key_bytes_def)
  have "?p + length k \<le> length data"
    using drop_len [of pos data "?u @ k" rest] d' by simp
  then have small: "length k < 2 ^ 31" "?p + length k < 2 ^ 62" using l by simp_all
  have dec: "decodeUvarint data pos = Inr (zigzag (of_nat (length k)), ?p)"
    by (rule decodeUvarint_enc [OF d'])
  have k: "slc data ?p (?p + length k) = k"
    by (rule drop_slc) (rule drop_step [OF d'])
  have i: "int64 (int ?p + int (length k)) = int ?p + int (length k)"
    using int64_small [OF small(2)] by simp
  have m: "go_make_ok (int (length k)) 1" using small(1) by (simp add: go_make_ok_def)
  show ?thesis
    unfolding decodeKey_def dec using e k i m Some
    by (simp add: key_bytes_def of_nat_small [OF small(1)] unzigzag_zigzag Let_def del: of_nat_add)
qed

lemma decodeRecord_enc:
  assumes d: "drop pos data = appendRecord [] rec base od @ rest"
    and l: "length data < 2 ^ 31"
  shows "decodeRecord data pos base = Inr (rec, pos + length (appendRecord [] rec base od))"
proof -
  let ?b = "record_body rec base od"
  let ?u = "uvarint (of_nat (length ?b))"
  let ?ts = "uvarint (zigzag (TimestampMs rec - base))" and ?od = "uvarint (zigzag od)"
  let ?k = "key_bytes (Key rec)" and ?v = "Value rec" and ?hs = "Headers rec"
  let ?uv = "uvarint (of_nat (length ?v))" and ?uh = "uvarint (of_nat (length ?hs))"
  let ?hb = "headers_bytes ?hs"
  let ?p0 = "pos + length ?u"
  let ?p1 = "Suc ?p0 + length ?ts"
  let ?p2 = "?p1 + length ?od"
  let ?p3 = "?p2 + length ?k"
  let ?p4 = "?p3 + length ?uv + length ?v"
  let ?p5 = "?p4 + length ?uh"
  let ?e = "int (?p0 + length ?b)"
  have lay: "appendRecord [] rec base od = ?u @ ?b" by (simp add: appendRecord_layout)
  have d0: "drop ?p0 data = ?b @ rest" using drop_step d lay by simp
  have b: "?b = 0 # ?ts @ ?od @ ?k @ ?uv @ ?v @ ?uh @ ?hb" by (simp add: record_body_def)
  have lb: "length ?b = Suc (length ?ts + length ?od + length ?k + length ?uv + length ?v
      + length ?uh + length ?hb)" by (simp add: b)
  have d1: "drop (Suc ?p0) data = ?ts @ ?od @ ?k @ ?uv @ ?v @ ?uh @ ?hb @ rest"
    using drop_step [of ?p0 data "[0]"] d0 b by simp
  note d2 = drop_step [OF d1]
  note d3 = drop_step [OF d2]
  note d4 = drop_step [OF d3]
  have d5: "drop ?p4 data = ?uh @ ?hb @ rest"
    using drop_step [of ?p3 data "?uv @ ?v"] d4 by (simp add: add.assoc)
  note d6 = drop_step [OF d5]
  have le: "?p0 + length ?b \<le> length data"
    by (rule drop_len [OF d0]) (simp add: b)
  have hs: "length ?hs < 2 ^ 31"
    using le lb l length_headers_bytes [of ?hs] by linarith
  have bs: "length ?b < 2 ^ 31" "?p0 + length ?b < 2 ^ 62" using le l by simp_all
  have e: "int64 (int ?p0 + int (length ?b)) = ?e"
    using int64_small [OF bs(2)] by simp
  have 0: "decodeUvarint data pos = Inr (of_nat (length ?b), ?p0)"
    using d lay by (intro decodeUvarint_enc) simp
  have 3: "decodeKey data ?e ?p2 = Inr (Key rec, ?p3)"
    by (rule decodeKey_enc [OF d3 _ l]) (simp add: lb)
  have 4: "decodeBytes m data ?e ?p3 = Inr (?v, ?p4)" for m
    by (rule decodeBytes_enc [OF d4 _ l]) (simp add: lb)
  have 6: "decodeHeaders data ?e (length ?hs) ?p5 = Inr (?hs, ?p5 + length ?hb)"
    by (rule decodeHeaders_enc [OF d6 _ l]) (simp add: lb)
  have g: "go_make_ok (int (length ?hs)) 48" using hs by (simp add: go_make_ok_def)
  have b0: "0 < length ?b" by (simp add: b)
  show ?thesis
    unfolding decodeRecord_def 0 sum.case prod.case Let_def of_nat_small(2) [OF bs(1)] e
      decodeUvarint_enc [OF d1] decodeUvarint_enc [OF d2] 3 4 decodeUvarint_enc [OF d5]
      of_nat_small(1) [OF hs] of_nat_small(3) [OF hs] 6
    using le b0 g by (simp add: unzigzag_zigzag lay)
qed

primrec records_bytes :: "64 word \<Rightarrow> Record list \<Rightarrow> nat \<Rightarrow> bytes" where
  "records_bytes base [] i = []"
| "records_bytes base (rec # recs) i =
     appendRecord [] rec base (of_nat i) @ records_bytes base recs (Suc i)"

lemma encodeRecords_eq: "encodeRecords buf recs base i = buf @ records_bytes base recs i"
  by (induction recs arbitrary: buf i) (simp_all add: appendRecord_layout)

lemma appendRecord_nonempty: "appendRecord [] rec base od \<noteq> []"
  by (simp add: appendRecord_layout)

lemma length_records_bytes: "length recs \<le> length (records_bytes base recs i)"
proof (induction recs arbitrary: i)
  case (Cons rec recs)
  moreover have "0 < length (appendRecord [] rec base (of_nat i))"
    using appendRecord_nonempty by blast
  ultimately show ?case
    using Cons.IH [of "Suc i"] unfolding records_bytes.simps length_append list.size by linarith
qed simp

lemma decodeRecords_enc:
  assumes "drop pos data = records_bytes base recs i" and "length data < 2 ^ 31"
  shows "decodeRecords data pos base acc = Inr (acc @ recs)"
  using assms
proof (induction recs arbitrary: pos i acc)
  case Nil
  then show ?case by (simp add: decodeRecords.simps)
next
  case (Cons rec recs)
  let ?r = "appendRecord [] rec base (of_nat i)"
  have d: "drop pos data = ?r @ records_bytes base recs (Suc i)" using Cons.prems by simp
  have "drop pos data \<noteq> []" using d appendRecord_nonempty by simp
  then have "pos < length data" by simp
  moreover have "decodeRecord data pos base = Inr (rec, pos + length ?r)"
    by (rule decodeRecord_enc [OF d Cons.prems(2)])
  moreover have "decodeRecords data (pos + length ?r) base (acc @ [rec]) = Inr ((acc @ [rec]) @ recs)"
    by (rule Cons.IH [OF drop_step [OF d] Cons.prems(2)])
  ultimately show ?case by (simp add: decodeRecords.simps [of data pos])
qed

text \<open>The header fields of a batch, read from the concatenation that wrote them.\<close>

definition batch_bytes :: "int \<Rightarrow> int \<Rightarrow> int \<Rightarrow> 32 word \<Rightarrow> 64 word \<Rightarrow> 64 word \<Rightarrow> bytes \<Rightarrow> bytes" where
  "batch_bytes off bl n crc base mx recs =
     be_bytes 8 off @ be_bytes 4 bl @ be_bytes 4 n @ be_bytes 4 (uint crc) @ be_bytes 2 0 @
     be_bytes 8 (uint base) @ be_bytes 8 (uint mx) @ recs"

lemma length_batch_bytes [simp]: "length (batch_bytes off bl n crc base mx recs) = 38 + length recs"
  by (simp add: batch_bytes_def)

lemma batch_bytes_off: "be_bytes 8 off @ drop 8 (batch_bytes off' bl n crc base mx recs) @ rest
    = batch_bytes off bl n crc base mx (recs @ rest)"
  by (simp add: batch_bytes_def)

lemma decodeHeader_batch_bytes:
  "decodeHeader (batch_bytes off bl n crc base mx recs) =
     \<lparr>BaseOffset = word_of_int off, BatchLength = word_of_int bl, RecordCount = word_of_int n,
      CRC32 = crc, Attributes = 0, BaseTimestamp = base, MaxTimestamp = mx\<rparr>"
  by (simp add: decodeHeader_def batch_bytes_def slc_def be_int_be_bytes word_of_int_mod32 word_of_int_mod64)

lemma EncodeBatch_layout:
  assumes "EncodeBatch rs = Inr b" "length b < 2 ^ 31"
  shows "rs \<noteq> []" "b = batch_bytes 0 (int (length b)) (int (length rs)) (crc32c (drop 38 b))
     (TimestampMs (hd rs)) (TimestampMs (last rs)) (drop 38 b)"
    "drop 38 b = records_bytes (TimestampMs (hd rs)) rs 0"
proof -
  let ?r = "records_bytes (TimestampMs (hd rs)) rs 0"
  show ne: "rs \<noteq> []" using assms(1) by (auto simp: EncodeBatch_def)
  have b: "b = batch_bytes 0 (int32 (38 + int (length ?r))) (int (length rs)) (crc32c ?r)
     (TimestampMs (hd rs)) (TimestampMs (last rs)) ?r"
    using assms(1) ne by (simp add: EncodeBatch_def Let_def encodeRecords_eq batch_bytes_def)
  then have l: "length b = 38 + length ?r" by (metis length_batch_bytes)
  have i: "int32 (38 + int (length ?r)) = int (length b)"
    using assms(2) l by (simp add: int32_id in_int32_def)
  have d: "drop 38 b = ?r" by (subst b) (simp add: batch_bytes_def)
  show "drop 38 b = ?r" by (fact d)
  show "b = batch_bytes 0 (int (length b)) (int (length rs)) (crc32c (drop 38 b))
     (TimestampMs (hd rs)) (TimestampMs (last rs)) (drop 38 b)"
    using b unfolding d i .
qed

text \<open>Decoding inverts encoding, also with the base offset overwritten and with bytes following.\<close>

lemma DecodeBatch_EncodeBatch:
  assumes "EncodeBatch rs = Inr b" "length b < 2 ^ 31"
  shows "DecodeBatch (be_bytes 8 off @ drop 8 b @ rest) =
    Inr \<lparr>BaseOffset = word_of_int off, BatchLength = word_of_nat (length b),
         RecordCount = word_of_nat (length rs), CRC32 = crc32c (drop 38 b), Attributes = 0,
         BaseTimestamp = TimestampMs (hd rs), MaxTimestamp = TimestampMs (last rs), Records = rs\<rparr>"
proof -
  define r where "r = drop 38 b"
  let ?n = "int (length rs)" and ?l = "int (length b)" and ?t = "TimestampMs (hd rs)"
  let ?bb = "batch_bytes off ?l ?n (crc32c r) ?t (TimestampMs (last rs)) (r @ rest)"
  note L = EncodeBatch_layout [OF assms, folded r_def]
  have eq: "be_bytes 8 off @ drop 8 b @ rest = ?bb" by (subst L(2)) (rule batch_bytes_off)
  have lb: "length b = 38 + length r" by (subst L(2)) (simp only: length_batch_bytes)
  have n: "length rs < 2 ^ 31"
    using length_records_bytes [of rs ?t 0] L(3) lb assms(2) by simp
  have s: "sint (word_of_nat (length b) :: 32 word) = ?l"
      "sint (word_of_nat (length rs) :: 32 word) = ?n"
    using assms(2) n by (simp_all add: signed_of_nat signed_take_bit_int_eq_self)
  have sl: "slc ?bb 38 (length b) = r" by (simp add: slc_def batch_bytes_def lb)
  have dr: "decodeRecords r 0 ?t [] = Inr rs"
    using decodeRecords_enc [of 0 r ?t rs 0 "[]"] L(3) lb assms(2) by simp
  have g: "go_make_ok ?n 80" using n by (simp add: go_make_ok_def)
  have l: "length ?bb = length b + length rest" "38 \<le> length b" using lb by simp_all
  show ?thesis
    unfolding eq DecodeBatch_def decodeHeader_batch_bytes Let_def BatchHeader.simps
      of_int_of_nat_eq s nat_int sl dr l(1) r_def [symmetric]
    using g l(2) by (simp add: BatchHeader.defs Batch.defs)
qed

end
