(* ===== verification/LogSegment.thy ===== *)
theory LogSegment
  imports Batch
begin

text \<open>
  \<open>internal/storage/log_segment.go\<close>: one \<open>.log\<close> file.  The record owns the bytes of the file;
  \<open>logSizeVal\<close> is the in-memory size, which agrees with the file as long as no write fails
  half-way.  \<open>ScanFrom\<close> threads the state of the callback explicitly.
\<close>

record LogSegment =
  ls_file :: bytes
  ls_open :: bool
  logSizeVal :: int
  ls_baseOffset :: int
  readonly :: bool

text \<open>\<open>contents\<close> is the file before the call; \<open>None\<close> when it does not exist.\<close>

definition OpenLogSegment ::
    "os_env \<Rightarrow> bytes option \<Rightarrow> int \<Rightarrow> bool \<Rightarrow> go_error + LogSegment" where
  "OpenLogSegment os contents baseOffset create =
     (case sys os SysOpenLog of
        Some e \<Rightarrow> Inl e
      | None \<Rightarrow>
          (case (if create then Some (case contents of None \<Rightarrow> [] | Some f \<Rightarrow> f) else contents) of
             None \<Rightarrow> Inl (SysErr ''no such file or directory'')
           | Some f \<Rightarrow>
               (case sys os SysStatLog of
                  Some e \<Rightarrow> Inl e
                | None \<Rightarrow>
                    Inr \<lparr>ls_file = f, ls_open = True, logSizeVal = int (length f),
                         ls_baseOffset = baseOffset, readonly = \<not> create\<rparr>)))"

definition LogSegment_Append ::
    "os_env \<Rightarrow> bytes \<Rightarrow> LogSegment \<Rightarrow> (go_error + int) \<times> LogSegment" where
  "LogSegment_Append os batch s =
     (if readonly s then (Inl (StorageE ErrSegmentReadOnly), s)
      else let startPos = logSizeVal s
           in if \<not> ls_open s then (Inl (SysErr ''file already closed''), s)
              else (case os_fails os SysWrite of
                      Some (m, n) \<Rightarrow>
                        (Inl (SysErr m), s\<lparr>ls_file := ls_file s @ take n batch\<rparr>)
                    | None \<Rightarrow>
                        (Inr startPos,
                         s\<lparr>ls_file := ls_file s @ batch,
                           logSizeVal := int64 (logSizeVal s + int (length batch))\<rparr>)))"

definition LogSegment_ReadAt :: "LogSegment \<Rightarrow> int \<Rightarrow> int \<Rightarrow> go_error + bytes" where
  "LogSegment_ReadAt s pos len =
     (if \<not> go_make_ok len 1 then Inl (GoPanic ''makeslice: len out of range'')
      else if \<not> ls_open s then Inl (SysErr ''file already closed'')
      else if pos < 0 then Inl (SysErr ''negative offset'')
      else let buf = slc (ls_file s) (nat pos) (nat pos + nat len)
           in if int (length buf) = len then Inr buf else Inl ErrUnexpectedEOF)"

text \<open>
  The callback gets the bytes of one batch, its position and the caller's state; \<open>Inr (True, st)\<close>
  asks for the next batch, \<open>Inr (False, st)\<close> stops the scan, \<open>Inl\<close> is a panic inside it.
\<close>

type_synonym 'st scan_cb = "bytes \<Rightarrow> int \<Rightarrow> 'st \<Rightarrow> go_error + (bool \<times> 'st)"

function ScanFrom_loop ::
    "LogSegment \<Rightarrow> int \<Rightarrow> int \<Rightarrow> 'st scan_cb \<Rightarrow> 'st \<Rightarrow> go_error option \<times> 'st" where
  "ScanFrom_loop s logSize pos callback st =
     (if \<not> pos < logSize then (None, st)
      else (case LogSegment_ReadAt s pos 12 of
              Inl e \<Rightarrow> if errors_Is e ErrUnexpectedEOF then (None, st) else (Some e, st)
            | Inr header \<Rightarrow>
                (let batchLen = be_int (slc header 8 12)
                 in if batchLen < 12 \<or> pos + batchLen > logSize then (None, st)
                    else (case LogSegment_ReadAt s pos batchLen of
                            Inl e \<Rightarrow> (Some e, st)
                          | Inr batch \<Rightarrow>
                              (case callback batch pos st of
                                 Inl p \<Rightarrow> (Some p, st)
                               | Inr (False, st) \<Rightarrow> (None, st)
                               | Inr (True, st) \<Rightarrow>
                                   ScanFrom_loop s logSize (pos + batchLen) callback st)))))"
  by pat_completeness auto
termination
  by (relation "measure (\<lambda>(s, logSize, pos, cb, st). nat (logSize - pos))") auto

declare ScanFrom_loop.simps [simp del]

definition LogSegment_ScanFrom ::
    "LogSegment \<Rightarrow> int \<Rightarrow> 'st scan_cb \<Rightarrow> 'st \<Rightarrow> go_error option \<times> 'st" where
  "LogSegment_ScanFrom s startPos callback st = ScanFrom_loop s (logSizeVal s) startPos callback st"

text \<open>\<open>ftruncate\<close> to a size beyond the end fills with zeros.\<close>

definition resize :: "nat \<Rightarrow> bytes \<Rightarrow> bytes" where
  "resize n xs = take n xs @ replicate (n - length xs) 0"

definition LogSegment_Truncate ::
    "os_env \<Rightarrow> int \<Rightarrow> LogSegment \<Rightarrow> go_error option \<times> LogSegment" where
  "LogSegment_Truncate os pos s =
     (if \<not> ls_open s then (Some (SysErr ''file already closed''), s)
      else if pos < 0 \<or> readonly s then (Some (SysErr ''invalid argument''), s)
      else (case sys os SysTruncateLog of
              Some e \<Rightarrow> (Some e, s)
            | None \<Rightarrow> (None, s\<lparr>ls_file := resize (nat pos) (ls_file s), logSizeVal := pos\<rparr>)))"

definition LogSegment_Sync :: "os_env \<Rightarrow> LogSegment \<Rightarrow> go_error option" where
  "LogSegment_Sync os s =
     (if \<not> ls_open s then Some (SysErr ''file already closed'') else sys os SysSyncLog)"

definition LogSegment_Close :: "os_env \<Rightarrow> LogSegment \<Rightarrow> go_error option \<times> LogSegment" where
  "LogSegment_Close os s =
     (if \<not> ls_open s then (Some (SysErr ''file already closed''), s)
      else (sys os SysCloseLog, s\<lparr>ls_open := False\<rparr>))"

section \<open>Logs as lists of batches\<close>

text \<open>
  What the storage layer knows of a batch: the header fields it reads.  A framed batch carries
  its own length; a well-formed one also has a header, at least one record, no more records than
  bytes after the header (every record takes at least one byte), and the 4 MiB at most that
  the data API admits.
\<close>

definition boff :: "bytes \<Rightarrow> int" where
  "boff b = int64 (be_int (slc b 0 8))"

definition bcount :: "bytes \<Rightarrow> int" where
  "bcount b = be_int (slc b 12 16)"

definition bmaxts :: "bytes \<Rightarrow> int" where
  "bmaxts b = int64 (be_int (slc b 30 38))"

definition framed :: "bytes \<Rightarrow> bool" where
  "framed b \<longleftrightarrow> 38 \<le> length b \<and> be_int (slc b 8 12) = int (length b)"

definition wf_batch :: "bytes \<Rightarrow> bool" where
  "wf_batch b \<longleftrightarrow>
     framed b \<and> 0 < bcount b \<and> bcount b \<le> int (length b) - 38 \<and> length b \<le> 4194304"

lemma wf_batch_framed: "wf_batch b \<Longrightarrow> framed b"
  by (simp add: wf_batch_def)

text \<open>The scan of a log that is a concatenation of framed batches is a fold over them.\<close>

fun scan_batches ::
    "'st scan_cb \<Rightarrow> bytes list \<Rightarrow> int \<Rightarrow> 'st \<Rightarrow> go_error option \<times> 'st" where
  "scan_batches cb [] pos st = (None, st)"
| "scan_batches cb (b # bs) pos st =
     (case cb b pos st of
        Inl p \<Rightarrow> (Some p, st)
      | Inr (False, st) \<Rightarrow> (None, st)
      | Inr (True, st) \<Rightarrow> scan_batches cb bs (pos + int (length b)) st)"

lemma ReadAt_exact:
  assumes "ls_open s" "ls_file s = pre @ xs @ post" "length xs < 2 ^ 47"
  shows "LogSegment_ReadAt s (int (length pre)) (int (length xs)) = Inr xs"
  using assms by (simp add: LogSegment_ReadAt_def go_make_ok_def slc_def Let_def)

lemma framed_length: "framed b \<Longrightarrow> 38 \<le> length b" "framed b \<Longrightarrow> length b < 2 ^ 32"
proof -
  assume f: "framed b"
  show "38 \<le> length b" using f by (simp add: framed_def)
  have "be_int (slc b 8 12) < 256 ^ length (slc b 8 12)" by (rule be_int_less)
  also have "\<dots> \<le> 256 ^ 4" by (rule power_increasing) simp_all
  finally show "length b < 2 ^ 32" using f by (simp add: framed_def)
qed

lemma ReadAt_header:
  assumes "ls_open s" "ls_file s = pre @ b @ post" "12 \<le> length b"
  shows "LogSegment_ReadAt s (int (length pre)) 12 = Inr (take 12 b)"
  using ReadAt_exact [of s pre "take 12 b" "drop 12 b @ post"] assms by simp

lemma ScanFrom_loop_batches:
  assumes "ls_open s" "ls_file s = pre @ concat bs @ post" "list_all framed bs"
    "logSize = int (length pre + length (concat bs))"
  shows "ScanFrom_loop s logSize (int (length pre)) cb st =
    scan_batches cb bs (int (length pre)) st"
  using assms
proof (induction bs arbitrary: pre st)
  case Nil
  then show ?case by (simp add: ScanFrom_loop.simps)
next
  case (Cons b bs)
  have f: "framed b" and lf: "ls_file s = pre @ b @ concat bs @ post" using Cons.prems by simp_all
  note fl = framed_length [OF f]
  have h: "LogSegment_ReadAt s (int (length pre)) 12 = Inr (take 12 b)"
    by (rule ReadAt_header [OF Cons.prems(1) lf]) (use fl in simp)
  have bl: "be_int (slc (take 12 b) 8 12) = int (length b)"
    using f by (simp add: slc_take framed_def)
  have r: "LogSegment_ReadAt s (int (length pre)) (int (length b)) = Inr b"
    by (rule ReadAt_exact [OF Cons.prems(1) lf]) (use fl in simp)
  have IH: "ScanFrom_loop s logSize (int (length pre) + int (length b)) cb st' =
      scan_batches cb bs (int (length pre) + int (length b)) st'" for st'
    using Cons.IH [of "pre @ b" st'] Cons.prems by simp
  have c: "int (length pre) < logSize" "int (length pre) + int (length b) \<le> logSize"
    using fl Cons.prems(4) by auto
  show ?case
    by (subst ScanFrom_loop.simps)
      (use c fl in \<open>simp add: h bl r IH Let_def split: sum.split bool.split\<close>)
qed

end
