(* ===== verification/IndexSearch.thy ===== *)
theory IndexSearch
  imports Errors
begin

text \<open>
  What the two memory-mapped indexes share.  \<open>floor_loop\<close> and \<open>ceil_loop\<close> are the binary
  searches of \<open>OffsetIndexSegment.Lookup\<close> and \<open>TimeIndexSegment.Lookup\<close>, over a probe that
  reads the key of an entry; the references \<open>floor_entry\<close> and \<open>ceil_entry\<close> say what they must
  find.  The locale \<open>entry_index\<close> is the contract an index gives to the segment that owns it.
\<close>

section \<open>The binary searches\<close>

lemma go_div2_between:
  assumes "lo \<le> hi"
  shows "lo \<le> go_div (lo + hi) 2" "go_div (lo + hi) 2 \<le> hi"
proof -
  have "0 \<le> a \<Longrightarrow> go_div a 2 = a div 2" for a by (simp add: go_div_nonneg)
  moreover have "a < 0 \<Longrightarrow> go_div a 2 = - ((- a) div 2)" for a by (simp add: go_div_def)
  ultimately show "lo \<le> go_div (lo + hi) 2" "go_div (lo + hi) 2 \<le> hi"
    using assms by (cases "0 \<le> lo + hi"; simp; linarith)+
qed

function floor_loop :: "(int \<Rightarrow> go_error + int) \<Rightarrow> int \<Rightarrow> int \<Rightarrow> int \<Rightarrow> int \<Rightarrow> go_error + int" where
  "floor_loop probe target lo hi result =
     (if lo \<le> hi
      then let mid = go_div (lo + hi) 2
           in (case probe mid of
                 Inl e \<Rightarrow> Inl e
               | Inr entryKey \<Rightarrow>
                   if entryKey \<le> target then floor_loop probe target (mid + 1) hi mid
                   else floor_loop probe target lo (mid - 1) result)
      else Inr result)"
  by pat_completeness auto
termination
  by (relation "measure (\<lambda>(p, t, lo, hi, r). nat (hi - lo + 1))") (use go_div2_between in \<open>auto simp: not_le\<close>)

function ceil_loop :: "(int \<Rightarrow> go_error + int) \<Rightarrow> int \<Rightarrow> int \<Rightarrow> int \<Rightarrow> int \<Rightarrow> go_error + int" where
  "ceil_loop probe target lo hi result =
     (if lo \<le> hi
      then let mid = go_div (lo + hi) 2
           in (case probe mid of
                 Inl e \<Rightarrow> Inl e
               | Inr entryKey \<Rightarrow>
                   if entryKey \<ge> target then ceil_loop probe target lo (mid - 1) mid
                   else ceil_loop probe target (mid + 1) hi result)
      else Inr result)"
  by pat_completeness auto
termination
  by (relation "measure (\<lambda>(p, t, lo, hi, r). nat (hi - lo + 1))") (use go_div2_between in \<open>auto simp: not_le\<close>)

declare floor_loop.simps [simp del] ceil_loop.simps [simp del]

lemma floor_loop_boundary:
  assumes "\<And>i. 0 \<le> i \<Longrightarrow> i < n \<Longrightarrow> \<exists>k. probe i = Inr k \<and> (k \<le> t \<longleftrightarrow> i < m)"
    and "0 \<le> lo" "lo \<le> m" "m \<le> hi + 1" "hi < n"
  shows "floor_loop probe t lo hi (lo - 1) = Inr (m - 1)"
  using assms(2-)
proof (induction "nat (hi - lo + 1)" arbitrary: lo hi rule: less_induct)
  case less
  show ?case
  proof (cases "lo \<le> hi")
    case True
    let ?mid = "go_div (lo + hi) 2"
    note b = go_div2_between [OF True]
    obtain k where k: "probe ?mid = Inr k" "k \<le> t \<longleftrightarrow> ?mid < m"
      using assms(1) [of ?mid] b less.prems by auto
    show ?thesis
    proof (cases "?mid < m")
      case True
      have "floor_loop probe t (?mid + 1) hi (?mid + 1 - 1) = Inr (m - 1)"
        by (rule less.hyps) (use b True less.prems in auto)
      then show ?thesis using k True \<open>lo \<le> hi\<close> by (simp add: floor_loop.simps [of probe t lo] Let_def)
    next
      case False
      have "floor_loop probe t lo (?mid - 1) (lo - 1) = Inr (m - 1)"
        by (rule less.hyps) (use b False less.prems in auto)
      then show ?thesis using k False \<open>lo \<le> hi\<close> by (simp add: floor_loop.simps [of probe t lo] Let_def)
    qed
  next
    case False
    then show ?thesis using less.prems by (simp add: floor_loop.simps [of probe t lo])
  qed
qed

lemma ceil_loop_boundary:
  assumes "\<And>i. 0 \<le> i \<Longrightarrow> i < n \<Longrightarrow> \<exists>k. probe i = Inr k \<and> (t \<le> k \<longleftrightarrow> m \<le> i)"
    and "0 \<le> lo" "lo \<le> m" "m \<le> hi + 1" "hi < n"
  shows "ceil_loop probe t lo hi (if hi + 1 < n then hi + 1 else - 1) =
    Inr (if m < n then m else - 1)"
  using assms(2-)
proof (induction "nat (hi - lo + 1)" arbitrary: lo hi rule: less_induct)
  case less
  show ?case
  proof (cases "lo \<le> hi")
    case True
    let ?mid = "go_div (lo + hi) 2"
    note b = go_div2_between [OF True]
    obtain k where k: "probe ?mid = Inr k" "t \<le> k \<longleftrightarrow> m \<le> ?mid"
      using assms(1) [of ?mid] b less.prems by auto
    show ?thesis
    proof (cases "m \<le> ?mid")
      case True
      have "ceil_loop probe t lo (?mid - 1) (if ?mid - 1 + 1 < n then ?mid - 1 + 1 else - 1) =
          Inr (if m < n then m else - 1)"
        by (rule less.hyps) (use b True less.prems in auto)
      then show ?thesis using k True \<open>lo \<le> hi\<close> b less.prems
        by (simp add: ceil_loop.simps [of probe t lo] Let_def)
    next
      case False
      have "ceil_loop probe t (?mid + 1) hi (if hi + 1 < n then hi + 1 else - 1) =
          Inr (if m < n then m else - 1)"
        by (rule less.hyps) (use b False less.prems in auto)
      then show ?thesis using k False \<open>lo \<le> hi\<close> by (simp add: ceil_loop.simps [of probe t lo] Let_def)
    qed
  next
    case False
    then show ?thesis using less.prems by (simp add: ceil_loop.simps [of probe t lo])
  qed
qed

section \<open>What a lookup must find\<close>

definition floor_entry :: "(int \<times> int) list \<Rightarrow> int \<Rightarrow> int option" where
  "floor_entry es t =
     (case filter (\<lambda>e. fst e \<le> t) es of [] \<Rightarrow> None | fs \<Rightarrow> Some (snd (last fs)))"

definition ceil_entry :: "(int \<times> int) list \<Rightarrow> int \<Rightarrow> int option" where
  "ceil_entry es t = map_option snd (find (\<lambda>e. t \<le> fst e) es)"

definition lookup_result :: "int option \<Rightarrow> int \<times> bool" where
  "lookup_result r = (case r of None \<Rightarrow> (0, False) | Some v \<Rightarrow> (v, True))"

lemma takeWhile_boundary:
  assumes down: "\<And>i j. i \<le> j \<Longrightarrow> j < length es \<Longrightarrow> P (es ! j) \<Longrightarrow> P (es ! i)"
    and i: "i < length es"
  shows "P (es ! i) \<longleftrightarrow> i < length (takeWhile P es)"
proof
  assume lt: "i < length (takeWhile P es)"
  then have "P (takeWhile P es ! i)" by (meson nth_mem set_takeWhileD)
  then show "P (es ! i)" using lt by (simp add: takeWhile_nth)
next
  assume a: "P (es ! i)"
  show "i < length (takeWhile P es)"
  proof (rule ccontr)
    assume "\<not> i < length (takeWhile P es)"
    then have "P (es ! length (takeWhile P es))"
      using down [of "length (takeWhile P es)" i] a i by simp
    then show False
      using nth_length_takeWhile [of P es] \<open>\<not> i < length (takeWhile P es)\<close> i by simp
  qed
qed

lemma sorted_takeWhile_le:
  fixes t :: int
  assumes "sorted (map fst es)" "i < length es"
  shows "fst (es ! i) \<le> t \<longleftrightarrow> i < length (takeWhile (\<lambda>e. fst e \<le> t) es)"
  by (rule takeWhile_boundary [OF _ assms(2)])
    (use sorted_nth_mono [OF assms(1)] in \<open>force\<close>)

lemma sorted_takeWhile_less:
  fixes t :: int
  assumes "sorted (map fst es)" "i < length es"
  shows "t \<le> fst (es ! i) \<longleftrightarrow> length (takeWhile (\<lambda>e. fst e < t) es) \<le> i"
proof -
  have "fst (es ! i) < t \<longleftrightarrow> i < length (takeWhile (\<lambda>e. fst e < t) es)"
    by (rule takeWhile_boundary [OF _ assms(2)])
      (use sorted_nth_mono [OF assms(1)] in \<open>force\<close>)
  then show ?thesis by linarith
qed

lemma filter_sorted_takeWhile:
  fixes t :: int
  assumes "sorted (map fst es)"
  shows "filter (\<lambda>e. fst e \<le> t) es = takeWhile (\<lambda>e. fst e \<le> t) es"
  using assms
proof (induction es)
  case (Cons e es)
  have "\<not> fst e \<le> t \<Longrightarrow> filter (\<lambda>e. fst e \<le> t) es = []"
    using Cons.prems by (force simp: filter_empty_conv)
  then show ?case using Cons by simp
qed simp

lemma floor_entry_sorted:
  assumes "sorted (map fst es)"
  shows "floor_entry es t =
    (let m = length (takeWhile (\<lambda>e. fst e \<le> t) es) in if m = 0 then None else Some (snd (es ! (m - 1))))"
proof (cases "takeWhile (\<lambda>e. fst e \<le> t) es = []")
  case False
  let ?w = "takeWhile (\<lambda>e. fst e \<le> t) es"
  have "last ?w = es ! (length ?w - 1)"
    using False by (simp add: last_conv_nth takeWhile_nth)
  then show ?thesis
    unfolding floor_entry_def filter_sorted_takeWhile [OF assms] Let_def
    using False by (cases ?w) (simp_all only: list.case list.distinct simp_thms length_0_conv if_False)
qed (simp add: floor_entry_def filter_sorted_takeWhile [OF assms])

lemma ceil_entry_index:
  "ceil_entry es t =
    (let m = length (takeWhile (\<lambda>e. fst e < t) es) in if m < length es then Some (snd (es ! m)) else None)"
  by (induction es) (auto simp: ceil_entry_def Let_def not_less)

section \<open>Tables of fixed-width entries\<close>

definition chunk :: "nat \<Rightarrow> bytes \<Rightarrow> nat \<Rightarrow> bytes" where
  "chunk w data i = slc data (w * i) (w * i + w)"

lemma slc_slc: "j \<le> n \<Longrightarrow> slc (slc xs a (a + n)) i j = slc xs (a + i) (a + j)"
  by (simp add: slc_def drop_take min_def add.commute)

lemma slc_chunk: "j \<le> w \<Longrightarrow> slc (chunk w data n) i j = slc data (w * n + i) (w * n + j)"
  unfolding chunk_def by (rule slc_slc)

lemma overwrite_overwrite:
  assumes "i + length ys + length zs \<le> length xs"
  shows "overwrite (overwrite xs i ys) (i + length ys) zs = overwrite xs i (ys @ zs)"
proof -
  have "length xs \<le> i \<Longrightarrow> ys = []" using assms by (cases ys) auto
  then show ?thesis using assms by (auto simp: overwrite_def min_def ac_simps)
qed

lemma chunk_overwrite:
  assumes "length e = w" "w * Suc i \<le> length data" "j \<le> i"
  shows "chunk w (overwrite data (w * i) e) j = (if j = i then e else chunk w data j)"
proof (cases "j = i")
  case True
  then show ?thesis using assms slc_overwrite_same [of "w * i" e data] by (simp add: chunk_def add.commute)
next
  case False
  then have "w * Suc j \<le> w * i" using assms(3) by (intro mult_le_mono2) simp
  then show ?thesis
    using False assms(2) slc_overwrite_before [of "w * j + w" "w * i" data e "w * j"]
    by (simp add: chunk_def add.commute)
qed

text \<open>Writing a whole list of entries from the start, as the two \<open>Rebuild\<close> loops do.\<close>

fun write_entries :: "nat \<Rightarrow> ('e \<Rightarrow> bytes) \<Rightarrow> 'e list \<Rightarrow> nat \<Rightarrow> bytes \<Rightarrow> bytes" where
  "write_entries w enc [] i data = data"
| "write_entries w enc (e # es) i data =
     write_entries w enc es (Suc i) (overwrite data (w * i) (enc e))"

lemma length_write_entries:
  assumes "\<And>e. length (enc e) = w" "w * (i + length es) \<le> length data"
  shows "length (write_entries w enc es i data) = length data"
  using assms(2)
proof (induction es arbitrary: i data)
  case (Cons e es)
  have "w * i + w \<le> length data" "w * (Suc i + length es) \<le> length data"
    using Cons.prems by (simp_all add: algebra_simps)
  then show ?case using Cons.IH [of "Suc i" "overwrite data (w * i) (enc e)"] by (simp add: assms(1))
qed simp

lemma chunk_write_entries:
  assumes enc: "\<And>e. length (enc e) = w"
    and "w * (i + length es) \<le> length data" "j < i + length es"
  shows "chunk w (write_entries w enc es i data) j =
    (if j < i then chunk w data j else enc (es ! (j - i)))"
  using assms(2,3)
proof (induction es arbitrary: i data)
  case (Cons e es)
  let ?d = "overwrite data (w * i) (enc e)"
  have le: "w * Suc i \<le> length data" "w * (Suc i + length es) \<le> length data"
    using Cons.prems(1) by (simp_all add: algebra_simps)
  then have "length ?d = length data" by (simp add: enc)
  then have IH: "chunk w (write_entries w enc es (Suc i) ?d) j =
      (if j < Suc i then chunk w ?d j else enc (es ! (j - Suc i)))"
    using Cons.IH [of "Suc i" ?d] le Cons.prems(2) by simp
  show ?case
    using IH chunk_overwrite [OF enc le(1), of j e]
    by (auto simp: less_Suc_eq nth_Cons' Suc_diff_Suc)
qed simp

section \<open>The contract of an index\<close>

text \<open>
  An index holds a list of entries \<open>(key, value)\<close> and has room for \<open>cap\<close> of them.  \<open>fits\<close>
  says that an entry survives the fixed-width encoding.  \<open>append\<close> and \<open>rebuild\<close> are the two
  ways entries get in; a client that appends entries one by one ends with the same table as one
  that rebuilds it.
\<close>

locale entry_index =
  fixes ok :: "'s \<Rightarrow> bool"
    and entries :: "'s \<Rightarrow> (int \<times> int) list"
    and cap :: "'s \<Rightarrow> int"
    and fits :: "int \<times> int \<Rightarrow> bool"
    and append :: "int \<Rightarrow> int \<Rightarrow> 's \<Rightarrow> go_error option \<times> 's"
    and rebuild :: "(int \<times> int) list \<Rightarrow> 's \<Rightarrow> go_error option \<times> 's"
  assumes append_entry:
      "ok s \<Longrightarrow> int (length (entries s)) < cap s \<Longrightarrow> fits (k, v) \<Longrightarrow>
       \<exists>s'. append k v s = (None, s') \<and> ok s' \<and> entries s' = entries s @ [(k, v)] \<and> cap s' = cap s"
    and append_full:
      "ok s \<Longrightarrow> cap s \<le> int (length (entries s)) \<Longrightarrow>
       append k v s = (Some (StorageE ErrIndexFull), s)"
    and rebuild_entries:
      "ok s \<Longrightarrow> int (length es) \<le> cap s \<Longrightarrow> list_all fits es \<Longrightarrow>
       \<exists>s'. rebuild es s = (None, s') \<and> ok s' \<and> entries s' = es \<and> cap s' = cap s"
begin

primrec append_all :: "(int \<times> int) list \<Rightarrow> 's \<Rightarrow> go_error option \<times> 's" where
  "append_all [] s = (None, s)"
| "append_all (e # es) s =
     (case append (fst e) (snd e) s of
        (Some err, s) \<Rightarrow> (Some err, s)
      | (None, s) \<Rightarrow> append_all es s)"

lemma append_all_entries:
  assumes "ok s" "int (length (entries s) + length es) \<le> cap s" "list_all fits es"
  shows "\<exists>s'. append_all es s = (None, s') \<and> ok s' \<and> entries s' = entries s @ es \<and> cap s' = cap s"
  using assms
proof (induction es arbitrary: s)
  case (Cons e es)
  obtain s1 where s1: "append (fst e) (snd e) s = (None, s1)" "ok s1"
    "entries s1 = entries s @ [e]" "cap s1 = cap s"
    using append_entry [of s "fst e" "snd e"] Cons.prems by auto
  show ?case using Cons.IH [of s1] s1 Cons.prems by auto
qed simp

lemma rebuild_append_all:
  assumes "ok s" "ok t" "entries s = []" "int (length es) \<le> cap s" "cap t = cap s" "list_all fits es"
  shows "entries (snd (append_all es s)) = entries (snd (rebuild es t))"
  using append_all_entries [of s es] rebuild_entries [of t es] assms by auto

end

locale floor_index = entry_index +
  fixes lookup :: "int \<Rightarrow> 'a \<Rightarrow> go_error + (int \<times> bool)"
  assumes lookup_floor:
    "ok s \<Longrightarrow> sorted (map fst (entries s)) \<Longrightarrow>
     lookup k s = Inr (lookup_result (floor_entry (entries s) k))"

locale ceil_index = entry_index +
  fixes lookup :: "int \<Rightarrow> 'a \<Rightarrow> go_error + (int \<times> bool)"
  assumes lookup_ceil:
    "ok s \<Longrightarrow> sorted (map fst (entries s)) \<Longrightarrow>
     lookup k s = Inr (lookup_result (ceil_entry (entries s) k))"

end
