(* ===== verification/OffsetIndex.thy ===== *)
theory OffsetIndex
  imports IndexSearch
begin

text \<open>
  \<open>internal/storage/offset_index.go\<close> and the read-only open of \<open>segment_storage.go\<close>: a memory-mapped
  table of 8-byte big-endian entries.  The record owns the mapped bytes.  The index meets the
  contract \<open>floor_index\<close>: appends and rebuilds store exactly the given entries and
  \<open>Lookup\<close> finds the floor entry.
\<close>

record OffsetIndexSegment =
  oi_data :: bytes
  oi_mapped :: bool
  oi_open :: bool
  oi_entryCount :: int
  oi_baseOffset :: int
  oi_maxEntries :: int

definition OpenOffsetIndex ::
    "os_env \<Rightarrow> bytes option \<Rightarrow> int \<Rightarrow> int \<Rightarrow> int \<Rightarrow> go_error + OffsetIndexSegment" where
  "OpenOffsetIndex os contents baseOffset segMaxBytes indexSampleBytes =
     (case sys os SysOpenIndex of
        Some e \<Rightarrow> Inl e
      | None \<Rightarrow>
     (case sys os SysStatIndex of
        Some e \<Rightarrow> Inl e
      | None \<Rightarrow>
          let f = (case contents of None \<Rightarrow> [] | Some f \<Rightarrow> f);
              existingSize = int (length f)
          in if indexSampleBytes = 0 then Inl (GoPanic ''integer divide by zero'')
             else
               let maxEntries = go_div (segMaxBytes + indexSampleBytes - 1) indexSampleBytes;
                   entryBytes = maxEntries * 8;
                   pageSize = os_pagesize os;
                   allocSize = go_div (entryBytes + pageSize - 1) pageSize * pageSize
               in (case (if existingSize < allocSize then sys os SysPreallocIndex else None) of
                     Some e \<Rightarrow> Inl e
                   | None \<Rightarrow>
                       if allocSize \<le> 0 then Inl (SysErr ''invalid argument'')
                       else (case sys os SysMmapIndex of
                               Some e \<Rightarrow> Inl e
                             | None \<Rightarrow>
                                 Inr \<lparr>oi_data = take (nat allocSize)
                                        (f @ replicate (nat allocSize - length f) 0),
                                      oi_mapped = True, oi_open = True,
                                      oi_entryCount = existingSize div 8,
                                      oi_baseOffset = baseOffset,
                                      oi_maxEntries = maxEntries\<rparr>))))"

definition openOffsetIndexReadOnly ::
    "os_env \<Rightarrow> bytes option \<Rightarrow> int \<Rightarrow> go_error + OffsetIndexSegment" where
  "openOffsetIndexReadOnly os contents baseOffset =
     (case sys os SysOpenIndex of
        Some e \<Rightarrow> Inl e
      | None \<Rightarrow>
     (case contents of
        None \<Rightarrow> Inl (SysErr ''no such file or directory'')
      | Some f \<Rightarrow>
     (case sys os SysStatIndex of
        Some e \<Rightarrow> Inl e
      | None \<Rightarrow>
          let size = int (length f)
          in (case (if size > 0 then sys os SysMmapIndex else None) of
                Some e \<Rightarrow> Inl e
              | None \<Rightarrow>
                  Inr \<lparr>oi_data = f, oi_mapped = (size > 0), oi_open = True,
                       oi_entryCount = size div 8, oi_baseOffset = baseOffset,
                       oi_maxEntries = size div 8\<rparr>))))"

text \<open>
  Slicing the mapped region out of range panics; this includes the \<open>nil\<close> slice of an index
  that has been closed, where \<open>oi_data\<close> is empty.
\<close>

definition OffsetIndex_Append :: "int \<Rightarrow> int \<Rightarrow> OffsetIndexSegment \<Rightarrow> go_error option \<times> OffsetIndexSegment" where
  "OffsetIndex_Append relativeOffset position s =
     (let count = oi_entryCount s
      in if count \<ge> oi_maxEntries s then (Some (StorageE ErrIndexFull), s)
         else let off = nat (count * 8)
              in if count < 0 \<or> off + 8 > length (oi_data s)
                 then (Some (GoPanic ''slice bounds out of range''), s)
                 else (None,
                   s\<lparr>oi_data := overwrite (overwrite (oi_data s) off (be_bytes 4 relativeOffset))
                                   (off + 4) (be_bytes 4 position),
                     oi_entryCount := count + 1\<rparr>))"

definition OffsetIndex_probe :: "OffsetIndexSegment \<Rightarrow> int \<Rightarrow> go_error + int" where
  "OffsetIndex_probe s mid =
     (let off = mid * 8
      in if off < 0 \<or> off + 4 > int (length (oi_data s))
         then Inl (GoPanic ''slice bounds out of range'')
         else Inr (int32 (be_int (slc (oi_data s) (nat off) (nat off + 4)))))"

definition OffsetIndex_Lookup :: "int \<Rightarrow> OffsetIndexSegment \<Rightarrow> go_error + (int \<times> bool)" where
  "OffsetIndex_Lookup relativeOffset s =
     (let count = oi_entryCount s
      in if count = 0 then Inr (0, False)
         else (case floor_loop (OffsetIndex_probe s) relativeOffset 0 (count - 1) (- 1) of
                 Inl e \<Rightarrow> Inl e
               | Inr result \<Rightarrow>
                   if result < 0 then Inr (0, False)
                   else let off = result * 8
                        in if off + 8 > int (length (oi_data s))
                           then Inl (GoPanic ''slice bounds out of range'')
                           else Inr (int32 (be_int (slc (oi_data s) (nat off + 4)
                                                     (nat off + 8))), True)))"

definition OffsetIndex_Seal :: "os_env \<Rightarrow> OffsetIndexSegment \<Rightarrow> go_error option \<times> OffsetIndexSegment" where
  "OffsetIndex_Seal os s =
     (let count = oi_entryCount s;
          actualSize = count * 8
      in if \<not> oi_open s then (Some (SysErr ''file already closed''), s)
         else (case sys os SysTruncateIndex of
           Some e \<Rightarrow> (Some e, s)
         | None \<Rightarrow>
         if actualSize > int (length (oi_data s))
         then (Some (GoPanic ''slice bounds out of range''), s)
         else (case (if actualSize > 0 then sys os SysMsyncIndex else None) of
           Some e \<Rightarrow> (Some e, s)
         | None \<Rightarrow>
         if \<not> oi_mapped s then (Some (SysErr ''invalid argument''), s)
         else (case sys os SysMunmapIndex of
           Some e \<Rightarrow> (Some e, s)
         | None \<Rightarrow>
             (let s1 = s\<lparr>oi_data := [], oi_mapped := False\<rparr>
              in if actualSize > 0
                 then (case sys os SysRemapIndex of
                         Some e \<Rightarrow> (Some e, s1)
                       | None \<Rightarrow>
                           (None, s1\<lparr>oi_data := take (nat actualSize) (oi_data s),
                                    oi_mapped := True, oi_maxEntries := count\<rparr>))
                 else (None, s1\<lparr>oi_maxEntries := count\<rparr>))))))"

definition OffsetIndex_encode :: "int \<times> int \<Rightarrow> bytes" where
  "OffsetIndex_encode e = be_bytes 4 (fst e) @ be_bytes 4 (snd e)"

definition OffsetIndex_Rebuild ::
    "(int \<times> int) list \<Rightarrow> OffsetIndexSegment \<Rightarrow> go_error option \<times> OffsetIndexSegment" where
  "OffsetIndex_Rebuild es s =
     (let s0 = s\<lparr>oi_entryCount := 0\<rparr>
      in if 8 * length es > length (oi_data s)
         then (Some (GoPanic ''slice bounds out of range''), s0)
         else (None, s0\<lparr>oi_data := write_entries 8 OffsetIndex_encode es 0 (oi_data s),
                        oi_entryCount := int (length es)\<rparr>))"

definition OffsetIndex_Close :: "os_env \<Rightarrow> OffsetIndexSegment \<Rightarrow> go_error option \<times> OffsetIndexSegment" where
  "OffsetIndex_Close os s =
     (case (if oi_mapped s then sys os SysMunmapIndex else None) of
        Some e \<Rightarrow> (Some e, s)
      | None \<Rightarrow>
          let s1 = s\<lparr>oi_data := [], oi_mapped := False\<rparr>
          in if \<not> oi_open s then (Some (SysErr ''file already closed''), s1)
             else (sys os SysCloseIndex, s1\<lparr>oi_open := False\<rparr>))"

section \<open>The entries of the table\<close>

definition OffsetIndex_decode :: "bytes \<Rightarrow> int \<times> int" where
  "OffsetIndex_decode c = (int32 (be_int (slc c 0 4)), int32 (be_int (slc c 4 8)))"

definition OffsetIndex_entries :: "OffsetIndexSegment \<Rightarrow> (int \<times> int) list" where
  "OffsetIndex_entries s =
     map (\<lambda>i. OffsetIndex_decode (chunk 8 (oi_data s) i)) [0..<nat (oi_entryCount s)]"

definition OffsetIndex_ok :: "OffsetIndexSegment \<Rightarrow> bool" where
  "OffsetIndex_ok s \<longleftrightarrow>
     0 \<le> oi_entryCount s \<and> oi_entryCount s \<le> oi_maxEntries s \<and>
     8 * oi_maxEntries s \<le> int (length (oi_data s))"

definition OffsetIndex_fits :: "int \<times> int \<Rightarrow> bool" where
  "OffsetIndex_fits e \<longleftrightarrow> in_int32 (fst e) \<and> in_int32 (snd e)"

lemma length_OffsetIndex_encode [simp]: "length (OffsetIndex_encode e) = 8"
  by (simp add: OffsetIndex_encode_def)

lemma OffsetIndex_decode_encode: "OffsetIndex_fits e \<Longrightarrow> OffsetIndex_decode (OffsetIndex_encode e) = e"
  by (cases e)
    (simp add: OffsetIndex_decode_def OffsetIndex_encode_def OffsetIndex_fits_def slc_def be_int_4
      int32_id int64_id)

lemma length_OffsetIndex_entries:
  "OffsetIndex_ok s \<Longrightarrow> int (length (OffsetIndex_entries s)) = oi_entryCount s"
  by (simp add: OffsetIndex_entries_def OffsetIndex_ok_def)

lemma nth_OffsetIndex_entries:
  "i < length (OffsetIndex_entries s) \<Longrightarrow>
   OffsetIndex_entries s ! i = OffsetIndex_decode (chunk 8 (oi_data s) i)"
  by (simp add: OffsetIndex_entries_def)

lemma OffsetIndex_Append_entry:
  assumes "OffsetIndex_ok s" "int (length (OffsetIndex_entries s)) < oi_maxEntries s" "OffsetIndex_fits (k, v)"
  shows "\<exists>s'. OffsetIndex_Append k v s = (None, s') \<and> OffsetIndex_ok s' \<and>
    OffsetIndex_entries s' = OffsetIndex_entries s @ [(k, v)] \<and> oi_maxEntries s' = oi_maxEntries s"
proof -
  define n where "n = nat (oi_entryCount s)"
  have c: "oi_entryCount s = int n" using assms(1) by (simp add: n_def OffsetIndex_ok_def)
  have lt: "int n < oi_maxEntries s" using length_OffsetIndex_entries assms c by simp
  then have room: "8 * Suc n \<le> length (oi_data s)" using assms(1) by (simp add: OffsetIndex_ok_def)
  let ?e = "OffsetIndex_encode (k, v)"
  let ?d = "overwrite (oi_data s) (8 * n) ?e"
  let ?s = "s\<lparr>oi_data := ?d, oi_entryCount := int n + 1\<rparr>"
  have "overwrite (overwrite (oi_data s) (8 * n) (be_bytes 4 k)) (8 * n + 4) (be_bytes 4 v) = ?d"
    using overwrite_overwrite [of "8 * n" "be_bytes 4 k" "be_bytes 4 v" "oi_data s"] room
    by (simp add: OffsetIndex_encode_def)
  then have app: "OffsetIndex_Append k v s = (None, ?s)"
    using lt room by (simp add: OffsetIndex_Append_def c Let_def nat_mult_distrib mult.commute)
  have ok: "OffsetIndex_ok ?s" using assms(1) lt room by (simp add: OffsetIndex_ok_def)
  have ch: "chunk 8 ?d j = (if j = n then ?e else chunk 8 (oi_data s) j)" if "j \<le> n" for j
    by (rule chunk_overwrite) (use room that in simp_all)
  have "nat (int n + 1) = Suc n" by simp
  then have "OffsetIndex_entries ?s = OffsetIndex_entries s @ [(k, v)]"
    using OffsetIndex_decode_encode [OF assms(3)] ch by (simp add: OffsetIndex_entries_def c)
  then show ?thesis using app ok by simp
qed

lemma OffsetIndex_Append_full:
  assumes "OffsetIndex_ok s" "oi_maxEntries s \<le> int (length (OffsetIndex_entries s))"
  shows "OffsetIndex_Append k v s = (Some (StorageE ErrIndexFull), s)"
  using assms length_OffsetIndex_entries by (simp add: OffsetIndex_Append_def Let_def)

lemma OffsetIndex_Rebuild_entries:
  assumes "OffsetIndex_ok s" "int (length es) \<le> oi_maxEntries s" "list_all OffsetIndex_fits es"
  shows "\<exists>s'. OffsetIndex_Rebuild es s = (None, s') \<and> OffsetIndex_ok s' \<and> OffsetIndex_entries s' = es \<and>
    oi_maxEntries s' = oi_maxEntries s"
proof -
  let ?d = "write_entries 8 OffsetIndex_encode es 0 (oi_data s)"
  let ?s = "s\<lparr>oi_data := ?d, oi_entryCount := int (length es)\<rparr>"
  have room: "8 * (0 + length es) \<le> length (oi_data s)"
    using assms(1,2) by (simp add: OffsetIndex_ok_def)
  have reb: "OffsetIndex_Rebuild es s = (None, ?s)"
    using room by (simp add: OffsetIndex_Rebuild_def Let_def)
  have ok: "OffsetIndex_ok ?s"
    using assms(1,2) room length_write_entries [of OffsetIndex_encode 8 0 es "oi_data s"]
    by (simp add: OffsetIndex_ok_def)
  have ch: "chunk 8 ?d j = OffsetIndex_encode (es ! j)" if "j < length es" for j
    using chunk_write_entries [of OffsetIndex_encode 8 0 es "oi_data s" j] room that by simp
  have "OffsetIndex_decode (chunk 8 ?d j) = es ! j" if "j < length es" for j
    using OffsetIndex_decode_encode assms(3) ch [OF that] that by (simp add: list_all_length)
  then have "OffsetIndex_entries ?s = es" 
    by (intro nth_equalityI) (simp_all add: OffsetIndex_entries_def)
  then show ?thesis using reb ok by simp
qed

lemma OffsetIndex_probe_entry:
  assumes "OffsetIndex_ok s" "0 \<le> i" "i < oi_entryCount s"
  shows "OffsetIndex_probe s i = Inr (fst (OffsetIndex_entries s ! nat i))"
    "8 * i + 8 \<le> int (length (oi_data s))"
    "int32 (be_int (slc (oi_data s) (8 * nat i + 4) (8 * nat i + 8))) =
      snd (OffsetIndex_entries s ! nat i)"
proof -
  have "8 * (i + 1) \<le> 8 * oi_maxEntries s" using assms by (simp add: OffsetIndex_ok_def)
  then show b: "8 * i + 8 \<le> int (length (oi_data s))"
    using assms by (simp add: OffsetIndex_ok_def)
  have n: "nat i < length (OffsetIndex_entries s)" using length_OffsetIndex_entries [OF assms(1)] assms by simp
  have "nat (i * 8) = 8 * nat i" using assms by (simp add: nat_mult_distrib mult.commute)
  then show "OffsetIndex_probe s i = Inr (fst (OffsetIndex_entries s ! nat i))"
    using assms b nth_OffsetIndex_entries [OF n]
    by (simp add: OffsetIndex_probe_def Let_def OffsetIndex_decode_def slc_chunk mult.commute)
  show "int32 (be_int (slc (oi_data s) (8 * nat i + 4) (8 * nat i + 8))) =
      snd (OffsetIndex_entries s ! nat i)"
    using nth_OffsetIndex_entries [OF n] by (simp add: OffsetIndex_decode_def slc_chunk)
qed

lemma OffsetIndex_Lookup_floor:
  assumes ok: "OffsetIndex_ok s" and sorted: "sorted (map fst (OffsetIndex_entries s))"
  shows "OffsetIndex_Lookup t s = Inr (lookup_result (floor_entry (OffsetIndex_entries s) t))"
proof (cases "oi_entryCount s = 0")
  case True
  then show ?thesis
    by (simp add: OffsetIndex_Lookup_def lookup_result_def floor_entry_def OffsetIndex_entries_def)
next
  case False
  let ?es = "OffsetIndex_entries s"
  define m where "m = length (takeWhile (\<lambda>e. fst e \<le> t) ?es)"
  have n: "int (length ?es) = oi_entryCount s" by (rule length_OffsetIndex_entries [OF ok])
  have m: "m \<le> length ?es" unfolding m_def by (rule length_takeWhile_le)
  have "floor_loop (OffsetIndex_probe s) t 0 (oi_entryCount s - 1) (0 - 1) = Inr (int m - 1)"
  proof (rule floor_loop_boundary [where n = "oi_entryCount s"])
    fix i assume i: "0 \<le> i" "i < oi_entryCount s"
    have "fst (?es ! nat i) \<le> t \<longleftrightarrow> i < int m"
      using sorted_takeWhile_le [OF sorted, of "nat i" t] i n by (simp add: m_def nat_less_iff le_nat_iff)
    then show "\<exists>k. OffsetIndex_probe s i = Inr k \<and> (k \<le> t \<longleftrightarrow> i < int m)"
      using OffsetIndex_probe_entry(1) [OF ok i] by auto
  qed (use m n in simp_all)
  then have loop: "floor_loop (OffsetIndex_probe s) t 0 (oi_entryCount s - 1) (- 1) = Inr (int m - 1)"
    by simp
  have e: "floor_entry ?es t = (if m = 0 then None else Some (snd (?es ! (m - 1))))"
    using floor_entry_sorted [OF sorted, of t] by (simp add: m_def Let_def)
  show ?thesis
  proof (cases "m = 0")
    case True
    then show ?thesis using loop e n False m by (simp add: OffsetIndex_Lookup_def Let_def lookup_result_def)
  next
    case Some: False
    let ?i = "int (m - 1)"
    have i: "0 \<le> ?i" "?i < oi_entryCount s" using Some m n by auto
    have r: "(int m - 1) = ?i" using Some n by auto
    have o: "nat (?i * 8) = 8 * nat ?i" by simp
    show ?thesis
      unfolding OffsetIndex_Lookup_def Let_def loop r sum.case o OffsetIndex_probe_entry(3) [OF ok i, simplified nat_int] e
        nat_int
      using Some False OffsetIndex_probe_entry(2) [OF ok i]
      by (simp add: lookup_result_def mult.commute)
  qed
qed

section \<open>Opening and sealing\<close>

lemma OpenOffsetIndex_fresh:
  assumes "os_ok os" "0 < segMax" "0 < sample"
  shows "\<exists>s. OpenOffsetIndex os None base segMax sample = Inr s \<and> OffsetIndex_ok s \<and>
    OffsetIndex_entries s = [] \<and> oi_maxEntries s = (segMax + sample - 1) div sample \<and>
    oi_open s \<and> oi_mapped s"
proof -
  let ?m = "(segMax + sample - 1) div sample" and ?pg = "os_pagesize os"
  let ?a = "(?m * 8 + ?pg - 1) div ?pg * ?pg"
  have pg: "0 < ?pg" using assms(1) by (simp add: os_ok_def)
  have "sample div sample \<le> ?m" by (rule zdiv_mono1) (use assms in simp_all)
  then have m: "1 \<le> ?m" using assms(3) by simp
  have m': "go_div (segMax + sample - 1) sample = ?m" by (rule go_div_nonneg) (use assms in simp_all)
  have a': "go_div (?m * 8 + ?pg - 1) ?pg = (?m * 8 + ?pg - 1) div ?pg"
    by (rule go_div_nonneg) (use m pg in simp_all)
  have "?a = (?m * 8 + ?pg - 1) - (?m * 8 + ?pg - 1) mod ?pg"
    by (simp add: minus_mod_eq_div_mult)
  moreover have "(?m * 8 + ?pg - 1) mod ?pg < ?pg" using pg by simp
  ultimately have a: "?m * 8 \<le> ?a" by linarith
  then have "0 < ?a" using m by linarith
  then show ?thesis
    unfolding OpenOffsetIndex_def Let_def m' a'
    using assms m a pg by (simp add: OffsetIndex_ok_def OffsetIndex_entries_def)
qed

lemma OffsetIndex_Seal_ok:
  assumes "os_ok os" "OffsetIndex_ok s" "oi_open s" "oi_mapped s"
  shows "\<exists>s'. OffsetIndex_Seal os s = (None, s') \<and> OffsetIndex_ok s' \<and> OffsetIndex_entries s' = OffsetIndex_entries s \<and>
    oi_maxEntries s' = oi_entryCount s \<and> oi_open s' \<and>
    int (length (oi_data s')) = 8 * oi_entryCount s \<and> oi_entryCount s' = oi_entryCount s"
proof -
  define n where "n = nat (oi_entryCount s)"
  have c: "oi_entryCount s = int n" using assms(2) by (simp add: n_def OffsetIndex_ok_def)
  have room: "8 * n \<le> length (oi_data s)" using assms(2) c by (simp add: OffsetIndex_ok_def)
  let ?s = "s\<lparr>oi_data := take (8 * n) (oi_data s), oi_mapped := (0 < n), oi_maxEntries := int n\<rparr>"
  have seal: "OffsetIndex_Seal os s = (None, ?s)"
    using assms room by (cases "n = 0") (simp_all add: OffsetIndex_Seal_def Let_def c nat_mult_distrib mult.commute)
  have "chunk 8 (take (8 * n) (oi_data s)) i = chunk 8 (oi_data s) i" if "i < n" for i
  proof -
    have "8 * i + 8 \<le> 8 * n" using that by simp
    then show ?thesis unfolding chunk_def by (rule slc_take)
  qed
  then have "OffsetIndex_entries ?s = OffsetIndex_entries s" by (simp add: OffsetIndex_entries_def c)
  moreover have "OffsetIndex_ok ?s" using room c by (simp add: OffsetIndex_ok_def)
  ultimately show ?thesis using seal c room assms(3) by (simp add: min_absorb2)
qed

lemma openOffsetIndexReadOnly_sealed:
  assumes "os_ok os" "OffsetIndex_ok s" "int (length (oi_data s)) = 8 * oi_entryCount s"
  shows "\<exists>s'. openOffsetIndexReadOnly os (Some (oi_data s)) base = Inr s' \<and> OffsetIndex_ok s' \<and>
    OffsetIndex_entries s' = OffsetIndex_entries s \<and> oi_maxEntries s' = oi_entryCount s \<and>
    oi_data s' = oi_data s \<and> oi_entryCount s' = oi_entryCount s \<and> oi_open s'"
  using assms
  by (auto simp: openOffsetIndexReadOnly_def Let_def OffsetIndex_ok_def OffsetIndex_entries_def)

interpretation oix: floor_index OffsetIndex_ok OffsetIndex_entries oi_maxEntries OffsetIndex_fits
    OffsetIndex_Append OffsetIndex_Rebuild OffsetIndex_Lookup
  by unfold_locales
    (rule OffsetIndex_Append_entry OffsetIndex_Append_full OffsetIndex_Rebuild_entries OffsetIndex_Lookup_floor; assumption)+

end
