(* ===== verification/TimeIndex.thy ===== *)
theory TimeIndex
  imports IndexSearch
begin

text \<open>
  \<open>internal/storage/time_index.go\<close> and the read-only open of \<open>segment_storage.go\<close>: a memory-mapped
  table of 12-byte big-endian entries.  The record owns the mapped bytes.  The index meets the
  contract \<open>ceil_index\<close>: appends and rebuilds store exactly the given entries and
  \<open>Lookup\<close> finds the ceil entry.
\<close>

record TimeIndexSegment =
  ti_data :: bytes
  ti_mapped :: bool
  ti_open :: bool
  ti_entryCount :: int
  ti_baseOffset :: int
  ti_maxEntries :: int

definition OpenTimeIndex ::
    "os_env \<Rightarrow> bytes option \<Rightarrow> int \<Rightarrow> int \<Rightarrow> int \<Rightarrow> go_error + TimeIndexSegment" where
  "OpenTimeIndex os contents baseOffset segMaxBytes indexSampleBytes =
     (case sys os SysOpenTimeIndex of
        Some e \<Rightarrow> Inl e
      | None \<Rightarrow>
     (case sys os SysStatTimeIndex of
        Some e \<Rightarrow> Inl e
      | None \<Rightarrow>
          let f = (case contents of None \<Rightarrow> [] | Some f \<Rightarrow> f);
              existingSize = int (length f)
          in if indexSampleBytes = 0 then Inl (GoPanic ''integer divide by zero'')
             else
               let maxEntries = go_div (segMaxBytes + indexSampleBytes - 1) indexSampleBytes;
                   entryBytes = maxEntries * 12;
                   pageSize = os_pagesize os;
                   allocSize = go_div (entryBytes + pageSize - 1) pageSize * pageSize
               in (case (if existingSize < allocSize then sys os SysPreallocTimeIndex else None) of
                     Some e \<Rightarrow> Inl e
                   | None \<Rightarrow>
                       if allocSize \<le> 0 then Inl (SysErr ''invalid argument'')
                       else (case sys os SysMmapTimeIndex of
                               Some e \<Rightarrow> Inl e
                             | None \<Rightarrow>
                                 Inr \<lparr>ti_data = take (nat allocSize)
                                        (f @ replicate (nat allocSize - length f) 0),
                                      ti_mapped = True, ti_open = True,
                                      ti_entryCount = existingSize div 12,
                                      ti_baseOffset = baseOffset,
                                      ti_maxEntries = maxEntries\<rparr>))))"

definition openTimeIndexReadOnly ::
    "os_env \<Rightarrow> bytes option \<Rightarrow> int \<Rightarrow> go_error + TimeIndexSegment" where
  "openTimeIndexReadOnly os contents baseOffset =
     (case sys os SysOpenTimeIndex of
        Some e \<Rightarrow> Inl e
      | None \<Rightarrow>
     (case contents of
        None \<Rightarrow> Inl (SysErr ''no such file or directory'')
      | Some f \<Rightarrow>
     (case sys os SysStatTimeIndex of
        Some e \<Rightarrow> Inl e
      | None \<Rightarrow>
          let size = int (length f)
          in (case (if size > 0 then sys os SysMmapTimeIndex else None) of
                Some e \<Rightarrow> Inl e
              | None \<Rightarrow>
                  Inr \<lparr>ti_data = f, ti_mapped = (size > 0), ti_open = True,
                       ti_entryCount = size div 12, ti_baseOffset = baseOffset,
                       ti_maxEntries = size div 12\<rparr>))))"

text \<open>
  Slicing the mapped region out of range panics; this includes the \<open>nil\<close> slice of an index
  that has been closed, where \<open>ti_data\<close> is empty.
\<close>

definition TimeIndex_Append :: "int \<Rightarrow> int \<Rightarrow> TimeIndexSegment \<Rightarrow> go_error option \<times> TimeIndexSegment" where
  "TimeIndex_Append timestampMs relativeOffset s =
     (let count = ti_entryCount s
      in if count \<ge> ti_maxEntries s then (Some (StorageE ErrIndexFull), s)
         else let off = nat (count * 12)
              in if count < 0 \<or> off + 12 > length (ti_data s)
                 then (Some (GoPanic ''slice bounds out of range''), s)
                 else (None,
                   s\<lparr>ti_data := overwrite (overwrite (ti_data s) off (be_bytes 8 timestampMs))
                                   (off + 8) (be_bytes 4 relativeOffset),
                     ti_entryCount := count + 1\<rparr>))"

definition TimeIndex_probe :: "TimeIndexSegment \<Rightarrow> int \<Rightarrow> go_error + int" where
  "TimeIndex_probe s mid =
     (let off = mid * 12
      in if off < 0 \<or> off + 8 > int (length (ti_data s))
         then Inl (GoPanic ''slice bounds out of range'')
         else Inr (int64 (be_int (slc (ti_data s) (nat off) (nat off + 8)))))"

definition TimeIndex_Lookup :: "int \<Rightarrow> TimeIndexSegment \<Rightarrow> go_error + (int \<times> bool)" where
  "TimeIndex_Lookup timestampMs s =
     (let count = ti_entryCount s
      in if count = 0 then Inr (0, False)
         else (case ceil_loop (TimeIndex_probe s) timestampMs 0 (count - 1) (- 1) of
                 Inl e \<Rightarrow> Inl e
               | Inr result \<Rightarrow>
                   if result < 0 then Inr (0, False)
                   else let off = result * 12
                        in if off + 12 > int (length (ti_data s))
                           then Inl (GoPanic ''slice bounds out of range'')
                           else Inr (int32 (be_int (slc (ti_data s) (nat off + 8)
                                                     (nat off + 12))), True)))"

definition TimeIndex_Seal :: "os_env \<Rightarrow> TimeIndexSegment \<Rightarrow> go_error option \<times> TimeIndexSegment" where
  "TimeIndex_Seal os s =
     (let count = ti_entryCount s;
          actualSize = count * 12
      in if \<not> ti_open s then (Some (SysErr ''file already closed''), s)
         else (case sys os SysTruncateTimeIndex of
           Some e \<Rightarrow> (Some e, s)
         | None \<Rightarrow>
         if actualSize > int (length (ti_data s))
         then (Some (GoPanic ''slice bounds out of range''), s)
         else (case (if actualSize > 0 then sys os SysMsyncTimeIndex else None) of
           Some e \<Rightarrow> (Some e, s)
         | None \<Rightarrow>
         if \<not> ti_mapped s then (Some (SysErr ''invalid argument''), s)
         else (case sys os SysMunmapTimeIndex of
           Some e \<Rightarrow> (Some e, s)
         | None \<Rightarrow>
             (let s1 = s\<lparr>ti_data := [], ti_mapped := False\<rparr>
              in if actualSize > 0
                 then (case sys os SysRemapTimeIndex of
                         Some e \<Rightarrow> (Some e, s1)
                       | None \<Rightarrow>
                           (None, s1\<lparr>ti_data := take (nat actualSize) (ti_data s),
                                    ti_mapped := True, ti_maxEntries := count\<rparr>))
                 else (None, s1\<lparr>ti_maxEntries := count\<rparr>))))))"

definition TimeIndex_encode :: "int \<times> int \<Rightarrow> bytes" where
  "TimeIndex_encode e = be_bytes 8 (fst e) @ be_bytes 4 (snd e)"

definition TimeIndex_Rebuild ::
    "(int \<times> int) list \<Rightarrow> TimeIndexSegment \<Rightarrow> go_error option \<times> TimeIndexSegment" where
  "TimeIndex_Rebuild es s =
     (let s0 = s\<lparr>ti_entryCount := 0\<rparr>
      in if 12 * length es > length (ti_data s)
         then (Some (GoPanic ''slice bounds out of range''), s0)
         else (None, s0\<lparr>ti_data := write_entries 12 TimeIndex_encode es 0 (ti_data s),
                        ti_entryCount := int (length es)\<rparr>))"

definition TimeIndex_Close :: "os_env \<Rightarrow> TimeIndexSegment \<Rightarrow> go_error option \<times> TimeIndexSegment" where
  "TimeIndex_Close os s =
     (case (if ti_mapped s then sys os SysMunmapTimeIndex else None) of
        Some e \<Rightarrow> (Some e, s)
      | None \<Rightarrow>
          let s1 = s\<lparr>ti_data := [], ti_mapped := False\<rparr>
          in if \<not> ti_open s then (Some (SysErr ''file already closed''), s1)
             else (sys os SysCloseTimeIndex, s1\<lparr>ti_open := False\<rparr>))"

section \<open>The entries of the table\<close>

definition TimeIndex_decode :: "bytes \<Rightarrow> int \<times> int" where
  "TimeIndex_decode c = (int64 (be_int (slc c 0 8)), int32 (be_int (slc c 8 12)))"

definition TimeIndex_entries :: "TimeIndexSegment \<Rightarrow> (int \<times> int) list" where
  "TimeIndex_entries s =
     map (\<lambda>i. TimeIndex_decode (chunk 12 (ti_data s) i)) [0..<nat (ti_entryCount s)]"

definition TimeIndex_ok :: "TimeIndexSegment \<Rightarrow> bool" where
  "TimeIndex_ok s \<longleftrightarrow>
     0 \<le> ti_entryCount s \<and> ti_entryCount s \<le> ti_maxEntries s \<and>
     12 * ti_maxEntries s \<le> int (length (ti_data s))"

definition TimeIndex_fits :: "int \<times> int \<Rightarrow> bool" where
  "TimeIndex_fits e \<longleftrightarrow> in_int64 (fst e) \<and> in_int32 (snd e)"

lemma length_TimeIndex_encode [simp]: "length (TimeIndex_encode e) = 12"
  by (simp add: TimeIndex_encode_def)

lemma TimeIndex_decode_encode: "TimeIndex_fits e \<Longrightarrow> TimeIndex_decode (TimeIndex_encode e) = e"
  by (cases e)
    (simp add: TimeIndex_decode_def TimeIndex_encode_def TimeIndex_fits_def slc_def be_int_8 be_int_4
      int32_id int64_id)

lemma length_TimeIndex_entries:
  "TimeIndex_ok s \<Longrightarrow> int (length (TimeIndex_entries s)) = ti_entryCount s"
  by (simp add: TimeIndex_entries_def TimeIndex_ok_def)

lemma nth_TimeIndex_entries:
  "i < length (TimeIndex_entries s) \<Longrightarrow>
   TimeIndex_entries s ! i = TimeIndex_decode (chunk 12 (ti_data s) i)"
  by (simp add: TimeIndex_entries_def)

lemma TimeIndex_Append_entry:
  assumes "TimeIndex_ok s" "int (length (TimeIndex_entries s)) < ti_maxEntries s" "TimeIndex_fits (k, v)"
  shows "\<exists>s'. TimeIndex_Append k v s = (None, s') \<and> TimeIndex_ok s' \<and>
    TimeIndex_entries s' = TimeIndex_entries s @ [(k, v)] \<and> ti_maxEntries s' = ti_maxEntries s"
proof -
  define n where "n = nat (ti_entryCount s)"
  have c: "ti_entryCount s = int n" using assms(1) by (simp add: n_def TimeIndex_ok_def)
  have lt: "int n < ti_maxEntries s" using length_TimeIndex_entries assms c by simp
  then have room: "12 * Suc n \<le> length (ti_data s)" using assms(1) by (simp add: TimeIndex_ok_def)
  let ?e = "TimeIndex_encode (k, v)"
  let ?d = "overwrite (ti_data s) (12 * n) ?e"
  let ?s = "s\<lparr>ti_data := ?d, ti_entryCount := int n + 1\<rparr>"
  have "overwrite (overwrite (ti_data s) (12 * n) (be_bytes 8 k)) (12 * n + 8) (be_bytes 4 v) = ?d"
    using overwrite_overwrite [of "12 * n" "be_bytes 8 k" "be_bytes 4 v" "ti_data s"] room
    by (simp add: TimeIndex_encode_def)
  then have app: "TimeIndex_Append k v s = (None, ?s)"
    using lt room by (simp add: TimeIndex_Append_def c Let_def nat_mult_distrib mult.commute)
  have ok: "TimeIndex_ok ?s" using assms(1) lt room by (simp add: TimeIndex_ok_def)
  have ch: "chunk 12 ?d j = (if j = n then ?e else chunk 12 (ti_data s) j)" if "j \<le> n" for j
    by (rule chunk_overwrite) (use room that in simp_all)
  have "nat (int n + 1) = Suc n" by simp
  then have "TimeIndex_entries ?s = TimeIndex_entries s @ [(k, v)]"
    using TimeIndex_decode_encode [OF assms(3)] ch by (simp add: TimeIndex_entries_def c)
  then show ?thesis using app ok by simp
qed

lemma TimeIndex_Append_full:
  assumes "TimeIndex_ok s" "ti_maxEntries s \<le> int (length (TimeIndex_entries s))"
  shows "TimeIndex_Append k v s = (Some (StorageE ErrIndexFull), s)"
  using assms length_TimeIndex_entries by (simp add: TimeIndex_Append_def Let_def)

lemma TimeIndex_Rebuild_entries:
  assumes "TimeIndex_ok s" "int (length es) \<le> ti_maxEntries s" "list_all TimeIndex_fits es"
  shows "\<exists>s'. TimeIndex_Rebuild es s = (None, s') \<and> TimeIndex_ok s' \<and> TimeIndex_entries s' = es \<and>
    ti_maxEntries s' = ti_maxEntries s"
proof -
  let ?d = "write_entries 12 TimeIndex_encode es 0 (ti_data s)"
  let ?s = "s\<lparr>ti_data := ?d, ti_entryCount := int (length es)\<rparr>"
  have room: "12 * (0 + length es) \<le> length (ti_data s)"
    using assms(1,2) by (simp add: TimeIndex_ok_def)
  have reb: "TimeIndex_Rebuild es s = (None, ?s)"
    using room by (simp add: TimeIndex_Rebuild_def Let_def)
  have ok: "TimeIndex_ok ?s"
    using assms(1,2) room length_write_entries [of TimeIndex_encode 12 0 es "ti_data s"]
    by (simp add: TimeIndex_ok_def)
  have ch: "chunk 12 ?d j = TimeIndex_encode (es ! j)" if "j < length es" for j
    using chunk_write_entries [of TimeIndex_encode 12 0 es "ti_data s" j] room that by simp
  have "TimeIndex_decode (chunk 12 ?d j) = es ! j" if "j < length es" for j
    using TimeIndex_decode_encode assms(3) ch [OF that] that by (simp add: list_all_length)
  then have "TimeIndex_entries ?s = es" 
    by (intro nth_equalityI) (simp_all add: TimeIndex_entries_def)
  then show ?thesis using reb ok by simp
qed

lemma TimeIndex_probe_entry:
  assumes "TimeIndex_ok s" "0 \<le> i" "i < ti_entryCount s"
  shows "TimeIndex_probe s i = Inr (fst (TimeIndex_entries s ! nat i))"
    "12 * i + 12 \<le> int (length (ti_data s))"
    "int32 (be_int (slc (ti_data s) (12 * nat i + 8) (12 * nat i + 12))) =
      snd (TimeIndex_entries s ! nat i)"
proof -
  have "12 * (i + 1) \<le> 12 * ti_maxEntries s" using assms by (simp add: TimeIndex_ok_def)
  then show b: "12 * i + 12 \<le> int (length (ti_data s))"
    using assms by (simp add: TimeIndex_ok_def)
  have n: "nat i < length (TimeIndex_entries s)" using length_TimeIndex_entries [OF assms(1)] assms by simp
  have "nat (i * 12) = 12 * nat i" using assms by (simp add: nat_mult_distrib mult.commute)
  then show "TimeIndex_probe s i = Inr (fst (TimeIndex_entries s ! nat i))"
    using assms b nth_TimeIndex_entries [OF n]
    by (simp add: TimeIndex_probe_def Let_def TimeIndex_decode_def slc_chunk mult.commute)
  show "int32 (be_int (slc (ti_data s) (12 * nat i + 8) (12 * nat i + 12))) =
      snd (TimeIndex_entries s ! nat i)"
    using nth_TimeIndex_entries [OF n] by (simp add: TimeIndex_decode_def slc_chunk)
qed

lemma TimeIndex_Lookup_ceil:
  assumes ok: "TimeIndex_ok s" and sorted: "sorted (map fst (TimeIndex_entries s))"
  shows "TimeIndex_Lookup t s = Inr (lookup_result (ceil_entry (TimeIndex_entries s) t))"
proof (cases "ti_entryCount s = 0")
  case True
  then show ?thesis
    by (simp add: TimeIndex_Lookup_def lookup_result_def ceil_entry_def TimeIndex_entries_def)
next
  case False
  let ?es = "TimeIndex_entries s"
  define m where "m = length (takeWhile (\<lambda>e. fst e < t) ?es)"
  have n: "int (length ?es) = ti_entryCount s" by (rule length_TimeIndex_entries [OF ok])
  have m: "m \<le> length ?es" unfolding m_def by (rule length_takeWhile_le)
  have "ceil_loop (TimeIndex_probe s) t 0 (ti_entryCount s - 1) (if ti_entryCount s - 1 + 1 < ti_entryCount s then ti_entryCount s - 1 + 1 else - 1) = Inr (if int m < ti_entryCount s then int m else - 1)"
  proof (rule ceil_loop_boundary [where n = "ti_entryCount s"])
    fix i assume i: "0 \<le> i" "i < ti_entryCount s"
    have "t \<le> fst (?es ! nat i) \<longleftrightarrow> int m \<le> i"
      using sorted_takeWhile_less [OF sorted, of "nat i" t] i n by (simp add: m_def nat_less_iff le_nat_iff)
    then show "\<exists>k. TimeIndex_probe s i = Inr k \<and> (t \<le> k \<longleftrightarrow> int m \<le> i)"
      using TimeIndex_probe_entry(1) [OF ok i] by auto
  qed (use m n in simp_all)
  then have loop: "ceil_loop (TimeIndex_probe s) t 0 (ti_entryCount s - 1) (- 1) = Inr (if int m < ti_entryCount s then int m else - 1)"
    by simp
  have e: "ceil_entry ?es t = (if length ?es \<le> m then None else Some (snd (?es ! m)))"
    using ceil_entry_index [of ?es t] by (simp add: m_def Let_def)
  show ?thesis
  proof (cases "length ?es \<le> m")
    case True
    then show ?thesis using loop e n False m by (simp add: TimeIndex_Lookup_def Let_def lookup_result_def)
  next
    case Some: False
    let ?i = "int (m)"
    have i: "0 \<le> ?i" "?i < ti_entryCount s" using Some m n by auto
    have r: "(if int m < ti_entryCount s then int m else - 1) = ?i" using Some n by auto
    have o: "nat (?i * 12) = 12 * nat ?i" by simp
    show ?thesis
      unfolding TimeIndex_Lookup_def Let_def loop r sum.case o TimeIndex_probe_entry(3) [OF ok i, simplified nat_int] e
        nat_int
      using Some False TimeIndex_probe_entry(2) [OF ok i]
      by (simp add: lookup_result_def mult.commute)
  qed
qed

section \<open>Opening and sealing\<close>

lemma OpenTimeIndex_fresh:
  assumes "os_ok os" "0 < segMax" "0 < sample"
  shows "\<exists>s. OpenTimeIndex os None base segMax sample = Inr s \<and> TimeIndex_ok s \<and>
    TimeIndex_entries s = [] \<and> ti_maxEntries s = (segMax + sample - 1) div sample \<and>
    ti_open s \<and> ti_mapped s"
proof -
  let ?m = "(segMax + sample - 1) div sample" and ?pg = "os_pagesize os"
  let ?a = "(?m * 12 + ?pg - 1) div ?pg * ?pg"
  have pg: "0 < ?pg" using assms(1) by (simp add: os_ok_def)
  have "sample div sample \<le> ?m" by (rule zdiv_mono1) (use assms in simp_all)
  then have m: "1 \<le> ?m" using assms(3) by simp
  have m': "go_div (segMax + sample - 1) sample = ?m" by (rule go_div_nonneg) (use assms in simp_all)
  have a': "go_div (?m * 12 + ?pg - 1) ?pg = (?m * 12 + ?pg - 1) div ?pg"
    by (rule go_div_nonneg) (use m pg in simp_all)
  have "?a = (?m * 12 + ?pg - 1) - (?m * 12 + ?pg - 1) mod ?pg"
    by (simp add: minus_mod_eq_div_mult)
  moreover have "(?m * 12 + ?pg - 1) mod ?pg < ?pg" using pg by simp
  ultimately have a: "?m * 12 \<le> ?a" by linarith
  then have "0 < ?a" using m by linarith
  then show ?thesis
    unfolding OpenTimeIndex_def Let_def m' a'
    using assms m a pg by (simp add: TimeIndex_ok_def TimeIndex_entries_def)
qed

lemma TimeIndex_Seal_ok:
  assumes "os_ok os" "TimeIndex_ok s" "ti_open s" "ti_mapped s"
  shows "\<exists>s'. TimeIndex_Seal os s = (None, s') \<and> TimeIndex_ok s' \<and> TimeIndex_entries s' = TimeIndex_entries s \<and>
    ti_maxEntries s' = ti_entryCount s \<and> ti_open s' \<and>
    int (length (ti_data s')) = 12 * ti_entryCount s \<and> ti_entryCount s' = ti_entryCount s"
proof -
  define n where "n = nat (ti_entryCount s)"
  have c: "ti_entryCount s = int n" using assms(2) by (simp add: n_def TimeIndex_ok_def)
  have room: "12 * n \<le> length (ti_data s)" using assms(2) c by (simp add: TimeIndex_ok_def)
  let ?s = "s\<lparr>ti_data := take (12 * n) (ti_data s), ti_mapped := (0 < n), ti_maxEntries := int n\<rparr>"
  have seal: "TimeIndex_Seal os s = (None, ?s)"
    using assms room by (cases "n = 0") (simp_all add: TimeIndex_Seal_def Let_def c nat_mult_distrib mult.commute)
  have "chunk 12 (take (12 * n) (ti_data s)) i = chunk 12 (ti_data s) i" if "i < n" for i
  proof -
    have "12 * i + 12 \<le> 12 * n" using that by simp
    then show ?thesis unfolding chunk_def by (rule slc_take)
  qed
  then have "TimeIndex_entries ?s = TimeIndex_entries s" by (simp add: TimeIndex_entries_def c)
  moreover have "TimeIndex_ok ?s" using room c by (simp add: TimeIndex_ok_def)
  ultimately show ?thesis using seal c room assms(3) by (simp add: min_absorb2)
qed

lemma openTimeIndexReadOnly_sealed:
  assumes "os_ok os" "TimeIndex_ok s" "int (length (ti_data s)) = 12 * ti_entryCount s"
  shows "\<exists>s'. openTimeIndexReadOnly os (Some (ti_data s)) base = Inr s' \<and> TimeIndex_ok s' \<and>
    TimeIndex_entries s' = TimeIndex_entries s \<and> ti_maxEntries s' = ti_entryCount s \<and>
    ti_data s' = ti_data s \<and> ti_entryCount s' = ti_entryCount s \<and> ti_open s'"
  using assms
  by (auto simp: openTimeIndexReadOnly_def Let_def TimeIndex_ok_def TimeIndex_entries_def)

interpretation tix: ceil_index TimeIndex_ok TimeIndex_entries ti_maxEntries TimeIndex_fits
    TimeIndex_Append TimeIndex_Rebuild TimeIndex_Lookup
  by unfold_locales
    (rule TimeIndex_Append_entry TimeIndex_Append_full TimeIndex_Rebuild_entries TimeIndex_Lookup_ceil; assumption)+

end
