(* ===== verification/LogModel.thy ===== *)
theory LogModel
  imports LogSegment OffsetIndex TimeIndex
begin

text \<open>
  The abstract view of one segment: a list of well-formed batches with consecutive offsets, and
  the sparse index the code derives from it.  \<open>index_step\<close> is the sampling that
  \<open>SegmentStorage.Append\<close> and the recovery scans share; the lemmas show that the entries are
  sorted, name true batch positions and never exceed the room of the index files.
\<close>

section \<open>Offsets in a log\<close>

definition log_end :: "int \<Rightarrow> bytes list \<Rightarrow> int" where
  "log_end off bs = off + sum_list (map bcount bs)"

primrec chain :: "int \<Rightarrow> bytes list \<Rightarrow> bool" where
  "chain off [] = True"
| "chain off (b # bs) = (boff b = off \<and> chain (off + bcount b) bs)"

lemma log_end_simps [simp]:
  "log_end off [] = off" "log_end off (b # bs) = log_end (off + bcount b) bs"
  "log_end off (xs @ ys) = log_end (log_end off xs) ys"
  by (simp_all add: log_end_def)

lemma chain_append [simp]: "chain off (xs @ ys) \<longleftrightarrow> chain off xs \<and> chain (log_end off xs) ys"
  by (induction xs arbitrary: off) auto

lemma wf_log_end:
  assumes "list_all wf_batch bs"
  shows "off \<le> log_end off bs" "log_end off bs - off \<le> int (length (concat bs))"
    "bs \<noteq> [] \<Longrightarrow> off < log_end off bs"
proof -
  have "0 \<le> sum_list (map bcount bs) \<and> sum_list (map bcount bs) \<le> int (length (concat bs))
     \<and> (bs \<noteq> [] \<longrightarrow> 0 < sum_list (map bcount bs))"
    using assms by (induction bs) (auto simp: wf_batch_def)
  then show "off \<le> log_end off bs" "log_end off bs - off \<le> int (length (concat bs))"
    "bs \<noteq> [] \<Longrightarrow> off < log_end off bs"
    by (auto simp: log_end_def)
qed

section \<open>The sparse index of a log\<close>

text \<open>
  One step of the sampling: an entry when at least \<open>sample\<close> bytes have gone by since the last
  one, otherwise the bytes are counted.
\<close>

type_synonym index_st = "(int \<times> int) list \<times> (int \<times> int) list \<times> int"

definition index_step :: "int \<Rightarrow> int \<Rightarrow> bytes \<Rightarrow> int \<Rightarrow> index_st \<Rightarrow> index_st" where
  "index_step sample base b pos st =
     (let (oes, tes, since) = st;
          rel = int32 (boff b - base)
      in if since \<ge> sample
         then (oes @ [(rel, int32 pos)], tes @ [(bmaxts b, rel)], 0)
         else (oes, tes, since + int (length b)))"

fun index_from :: "int \<Rightarrow> int \<Rightarrow> bytes list \<Rightarrow> int \<Rightarrow> index_st \<Rightarrow> index_st" where
  "index_from sample base [] pos st = st"
| "index_from sample base (b # bs) pos st =
     index_from sample base bs (pos + int (length b)) (index_step sample base b pos st)"

definition index_of :: "int \<Rightarrow> int \<Rightarrow> bytes list \<Rightarrow> index_st" where
  "index_of sample base bs = index_from sample base bs 0 ([], [], 0)"

lemma index_from_append:
  "index_from sample base (xs @ ys) pos st =
   index_from sample base ys (pos + int (length (concat xs))) (index_from sample base xs pos st)"
  by (induction xs arbitrary: pos st) (simp_all add: add.assoc)

lemma index_of_Nil [simp]: "index_of sample base [] = ([], [], 0)"
  by (simp add: index_of_def)

lemma index_of_snoc:
  "index_of sample base (bs @ [b]) =
   index_step sample base b (int (length (concat bs))) (index_of sample base bs)"
  by (simp add: index_of_def index_from_append)

abbreviation off_entries :: "int \<Rightarrow> int \<Rightarrow> bytes list \<Rightarrow> (int \<times> int) list" where
  "off_entries sample base bs \<equiv> fst (index_of sample base bs)"

abbreviation time_entries :: "int \<Rightarrow> int \<Rightarrow> bytes list \<Rightarrow> (int \<times> int) list" where
  "time_entries sample base bs \<equiv> fst (snd (index_of sample base bs))"

abbreviation since_index :: "int \<Rightarrow> int \<Rightarrow> bytes list \<Rightarrow> int" where
  "since_index sample base bs \<equiv> snd (snd (index_of sample base bs))"

lemma index_budget:
  assumes "0 < sample"
  shows "0 \<le> since_index sample base bs \<and>
    sample * int (length (off_entries sample base bs)) + since_index sample base bs
      \<le> int (length (concat bs)) \<and>
    length (time_entries sample base bs) = length (off_entries sample base bs)"
proof (induction bs rule: rev_induct)
  case (snoc b bs)
  then show ?case
    by (auto simp: index_of_snoc index_step_def Let_def split_beta algebra_simps)
qed simp

text \<open>The index is never full: the sampling budget stays below the segment size.\<close>

lemma le_div_of_mult: "0 < (s :: int) \<Longrightarrow> s * n \<le> m \<Longrightarrow> n \<le> m div s"
  using zdiv_mono1 [of "s * n" m s] by simp

lemma index_room:
  assumes "0 < sample" "sample \<le> since_index sample base bs" "int (length (concat bs)) < mx"
  shows "int (length (off_entries sample base bs)) < (mx + sample - 1) div sample"
proof -
  let ?n = "int (length (off_entries sample base bs))"
  have "sample * (?n + 1) < mx"
    using index_budget [OF assms(1), of base bs] assms(2,3) by (simp add: algebra_simps)
  then have "sample * (?n + 1) \<le> mx + sample - 1" using assms(1) by simp
  then have "?n + 1 \<le> (mx + sample - 1) div sample"
    by (rule le_div_of_mult [OF assms(1)])
  then show ?thesis by simp
qed

lemma index_fits:
  assumes "0 < sample" "0 < mx" "bs \<noteq> [] \<Longrightarrow> int (length (concat (butlast bs))) < mx"
  shows "int (length (off_entries sample base bs)) \<le> (mx + sample - 1) div sample"
proof (cases bs rule: rev_cases)
  case Nil
  then show ?thesis using assms by (simp add: pos_imp_zdiv_nonneg_iff)
next
  case (snoc cs b)
  have lt: "int (length (concat cs)) < mx" using assms(3) snoc by simp
  show ?thesis
  proof (cases "sample \<le> since_index sample base cs")
    case True
    then show ?thesis using index_room [OF assms(1) True lt] snoc
      by (simp add: index_of_snoc index_step_def Let_def split_beta)
  next
    case False
    let ?n = "int (length (off_entries sample base cs))"
    have "sample * ?n \<le> mx + sample - 1"
      using index_budget [OF assms(1), of base cs] lt assms(1) by linarith
    then have "?n \<le> (mx + sample - 1) div sample"
      by (rule le_div_of_mult [OF assms(1)])
    then show ?thesis using False snoc by (simp add: index_of_snoc index_step_def Let_def split_beta)
  qed
qed

lemma off_entries_sound:
  assumes "e \<in> set (off_entries sample base bs)"
  shows "\<exists>xs b ys. bs = xs @ b # ys \<and> e = (int32 (boff b - base), int32 (int (length (concat xs))))"
  using assms
proof (induction bs rule: rev_induct)
  case (snoc b bs)
  then consider "e \<in> set (off_entries sample base bs)"
    | "e = (int32 (boff b - base), int32 (int (length (concat bs))))"
    by (auto simp: index_of_snoc index_step_def Let_def split_beta split: if_splits)
  then show ?case
  proof cases
    case 1
    then show ?thesis using snoc.IH by (metis append_Cons append_assoc)
  next
    case 2
    then show ?thesis by blast
  qed
qed simp

text \<open>
  A log whose batches carry consecutive offsets from \<open>base\<close> on and all start below \<open>mx\<close>.
\<close>

definition log_ok :: "int \<Rightarrow> int \<Rightarrow> bytes list \<Rightarrow> bool" where
  "log_ok mx base bs \<longleftrightarrow>
     list_all wf_batch bs \<and> chain base bs \<and> 0 \<le> base \<and> log_end base bs < 2 ^ 63 \<and>
     (bs \<noteq> [] \<longrightarrow> int (length (concat (butlast bs))) < mx)"

lemma log_ok_split:
  assumes "log_ok mx base (xs @ b # ys)"
  shows "boff b = log_end base xs" "list_all wf_batch xs" "wf_batch b" "list_all wf_batch ys"
    "int (length (concat xs)) < mx" "chain base xs" "chain (boff b) (b # ys)"
    "log_end base xs < 2 ^ 63"
proof -
  have "length (concat xs) \<le> length (concat (butlast (xs @ b # ys)))"
    by (simp add: butlast_append)
  then show "int (length (concat xs)) < mx" using assms by (auto simp: log_ok_def)
  have w: "list_all wf_batch (b # ys)" using assms by (simp add: log_ok_def)
  have "log_end base xs \<le> log_end base (xs @ b # ys)"
    using wf_log_end(1) [OF w, of "log_end base xs"] by simp
  then show "log_end base xs < 2 ^ 63" using assms by (simp add: log_ok_def)
qed (use assms in \<open>simp_all add: log_ok_def\<close>)

lemma log_ok_rel:
  assumes "log_ok mx base (xs @ b # ys)" "mx \<le> 2 ^ 31"
  shows "int32 (boff b - base) = boff b - base" "0 \<le> boff b - base"
    "int32 (int (length (concat xs))) = int (length (concat xs))"
proof -
  note l = log_ok_split [OF assms(1)]
  note w = wf_log_end [OF l(2), of base]
  show "0 \<le> boff b - base" using w l(1) by simp
  show "int32 (boff b - base) = boff b - base"
    using w l(1,5) assms(2) by (intro int32_id in_int32_of_nonneg) simp_all
  show "int32 (int (length (concat xs))) = int (length (concat xs))"
    using l(5) assms(2) by (intro int32_id in_int32_of_nonneg) simp_all
qed

lemma log_ok_prefix:
  assumes "log_ok mx base (xs @ ys)"
  shows "log_ok mx base xs"
proof (cases ys)
  case (Cons b zs)
  have l: "log_ok mx base (xs @ b # zs)" using assms Cons by simp
  have "length (concat (butlast xs)) \<le> length (concat xs)"
    by (cases xs rule: rev_cases) simp_all
  then have "int (length (concat (butlast xs))) < mx" using log_ok_split(5) [OF l] by simp
  moreover have "0 \<le> base" using assms by (simp add: log_ok_def)
  ultimately show ?thesis
    unfolding log_ok_def using log_ok_split(2,6,8) [OF l] by simp
qed (use assms in simp)

lemma off_entries_rel:
  assumes "log_ok mx base bs" "mx \<le> 2 ^ 31" "e \<in> set (off_entries sample base bs)"
  shows "\<exists>xs b ys. bs = xs @ b # ys \<and> e = (boff b - base, int (length (concat xs)))"
proof -
  obtain xs b ys where s: "bs = xs @ b # ys"
    "e = (int32 (boff b - base), int32 (int (length (concat xs))))"
    using off_entries_sound [OF assms(3)] by blast
  then have "e = (boff b - base, int (length (concat xs)))"
    using log_ok_rel [of mx base xs b ys] assms(1,2) by simp
  then show ?thesis using s(1) by blast
qed

lemma off_entries_sorted:
  assumes "log_ok mx base bs" "mx \<le> 2 ^ 31"
  shows "sorted (map fst (off_entries sample base bs))"
  using assms(1)
proof (induction bs rule: rev_induct)
  case (snoc b bs)
  have ok: "log_ok mx base bs" using snoc.prems by (rule log_ok_prefix)
  note rel = log_ok_rel [OF snoc.prems assms(2)]
  have "fst e \<le> boff b - base" if i: "e \<in> set (off_entries sample base bs)" for e
  proof -
    obtain xs c ys where bs: "bs = xs @ c # ys" and e: "fst e = boff c - base"
      using off_entries_rel [OF ok assms(2) i] by auto
    have w: "list_all wf_batch (c # ys)" using ok bs by (simp add: log_ok_def)
    have "boff c \<le> log_end base bs"
      using wf_log_end(1) [OF w, of "log_end base xs"] log_ok_split(1) [of mx base xs c ys] ok bs by simp
    then show ?thesis using e log_ok_split(1) [OF snoc.prems] by simp
  qed
  then show ?case
    using snoc.IH [OF ok] rel
    by (auto simp: index_of_snoc index_step_def Let_def split_beta sorted_append)
qed simp

lemma index_entries_fit:
  "list_all OffsetIndex_fits (off_entries sample base bs)"
  "list_all TimeIndex_fits (time_entries sample base bs)"
proof -
  have "list_all OffsetIndex_fits (off_entries sample base bs) \<and>
      list_all TimeIndex_fits (time_entries sample base bs)"
    by (induction bs rule: rev_induct)
      (auto simp: index_of_snoc index_step_def Let_def split_beta OffsetIndex_fits_def
        TimeIndex_fits_def bmaxts_def)
  then show "list_all OffsetIndex_fits (off_entries sample base bs)"
    "list_all TimeIndex_fits (time_entries sample base bs)" by simp_all
qed

end
