(* ===== verification/GoStrings.thy ===== *)
theory GoStrings
  imports Errors "HOL-Library.Char_ord" "HOL-Library.List_Lexorder"
begin

text \<open>
  The pieces of \<open>strconv\<close> and \<open>fmt\<close> the program uses: decimal printing (\<open>%d\<close>,
  \<open>%020d\<close>, \<open>FormatInt\<close>), \<open>ParseInt\<close> and \<open>ParseUint\<close> in base 10, with the round
  trips the program relies on.
\<close>

section \<open>Decimal numbers\<close>

definition digit_char :: "nat \<Rightarrow> char" where
  "digit_char d = char_of (48 + d)"

definition is_digit :: "char \<Rightarrow> bool" where
  "is_digit c \<longleftrightarrow> 48 \<le> (of_char c :: nat) \<and> (of_char c :: nat) \<le> 57"

definition digit_val :: "char \<Rightarrow> nat" where
  "digit_val c = of_char c - 48"

fun format_nat :: "nat \<Rightarrow> string" where
  "format_nat n = (if n < 10 then [digit_char n] else format_nat (n div 10) @ [digit_char (n mod 10)])"

declare format_nat.simps [simp del]

definition format_int :: "int \<Rightarrow> string" where
  "format_int i = (if i < 0 then ''-'' @ format_nat (nat (- i)) else format_nat (nat i))"

text \<open>\<open>%020d\<close> on a number: zero-padded to width 20, the sign counted in the width.\<close>

definition pad_left :: "nat \<Rightarrow> string \<Rightarrow> string" where
  "pad_left w s = replicate (w - length s) (CHR ''0'') @ s"

definition format_020 :: "int \<Rightarrow> string" where
  "format_020 i = (if i < 0 then ''-'' @ pad_left 19 (format_nat (nat (- i)))
                   else pad_left 20 (format_nat (nat i)))"

definition digits_val :: "string \<Rightarrow> nat" where
  "digits_val s = foldl (\<lambda>a c. a * 10 + digit_val c) 0 s"

definition parse_nat :: "string \<Rightarrow> nat option" where
  "parse_nat s = (if s = [] \<or> \<not> list_all is_digit s then None else Some (digits_val s))"

definition ParseUint :: "string \<Rightarrow> go_error + int" where
  "ParseUint s =
     (case parse_nat s of
        None \<Rightarrow> Inl (NewError ''invalid syntax'')
      | Some n \<Rightarrow> if int n < 2 ^ 64 then Inr (int n) else Inl (NewError ''value out of range''))"

definition ParseInt :: "string \<Rightarrow> go_error + int" where
  "ParseInt s =
     (let (neg, ds) = (case s of [] \<Rightarrow> (False, [])
                       | c # cs \<Rightarrow> if c = CHR ''-'' then (True, cs)
                                   else if c = CHR ''+'' then (False, cs) else (False, c # cs))
      in (case parse_nat ds of
            None \<Rightarrow> Inl (NewError ''invalid syntax'')
          | Some n \<Rightarrow>
              let v = (if neg then - int n else int n)
              in if in_int64 v then Inr v else Inl (NewError ''value out of range'')))"

lemma digit_char: "d < 10 \<Longrightarrow> is_digit (digit_char d) \<and> digit_val (digit_char d) = d"
  by (simp add: is_digit_def digit_char_def digit_val_def)

lemma digits_val_snoc [simp]: "digits_val (s @ [c]) = digits_val s * 10 + digit_val c"
  by (simp add: digits_val_def)

lemma digits_val_Nil [simp]: "digits_val [] = 0"
  by (simp add: digits_val_def)

lemma format_nat_digits: "list_all is_digit (format_nat n) \<and> format_nat n \<noteq> [] \<and> digits_val (format_nat n) = n"
proof (induction n rule: format_nat.induct)
  case (1 n)
  show ?case
  proof (cases "n < 10")
    case True
    then show ?thesis
      using digit_char [OF True] by (simp add: format_nat.simps [of n] digits_val_def)
  next
    case False
    then show ?thesis
      using 1 digit_char [of "n mod 10"] by (simp add: format_nat.simps [of n])
  qed
qed

lemma parse_format_nat [simp]: "parse_nat (format_nat n) = Some n"
  using format_nat_digits by (simp add: parse_nat_def)

lemma digits_val_zeros: "digits_val (replicate k (CHR ''0'') @ s) = digits_val s"
proof (induction k)
  case (Suc k)
  have "foldl (\<lambda>a c. a * 10 + digit_val c) 0 (replicate k (CHR ''0'') @ s) =
      foldl (\<lambda>a c. a * 10 + digit_val c) (digit_val (CHR ''0'')) (replicate k (CHR ''0'') @ s)"
    by (simp add: digit_val_def)
  then show ?case using Suc by (simp add: digits_val_def digit_val_def)
qed simp

lemma parse_pad_left [simp]: "parse_nat (pad_left w (format_nat n)) = Some n"
proof -
  have "is_digit (CHR ''0'')" by (simp add: is_digit_def)
  then have "list_all is_digit (replicate k (CHR ''0''))" for k by (simp add: list_all_iff)
  then show ?thesis
    using format_nat_digits [of n] by (simp add: parse_nat_def pad_left_def digits_val_zeros)
qed

text \<open>Zero-padded names sort like the numbers they print, and parse back to them.\<close>

lemma digits_val_Cons: "digits_val (c # s) = digit_val c * 10 ^ length s + digits_val s"
proof (induction s rule: rev_induct)
  case Nil
  then show ?case by (simp add: digits_val_def)
next
  case (snoc d s)
  have "digits_val ((c # s) @ [d]) = digits_val (c # s) * 10 + digit_val d" by (rule digits_val_snoc)
  then show ?case using snoc by (simp add: algebra_simps)
qed

lemma digits_val_bound: "list_all is_digit s \<Longrightarrow> digits_val s < 10 ^ length s"
proof (induction s)
  case (Cons c s)
  then have "is_digit c" by simp
  then have "digit_val c \<le> 9" unfolding is_digit_def digit_val_def by linarith
  then have "digit_val c * 10 ^ length s \<le> 9 * 10 ^ length s" by (rule mult_le_mono1)
  moreover have "digits_val s < 10 ^ length s" using Cons by simp
  ultimately show ?case unfolding digits_val_Cons length_Cons power_Suc by linarith
qed simp

lemma digits_less:
  assumes "list_all is_digit s" "list_all is_digit t" "length s = length t" "digits_val s < digits_val t"
  shows "s < t"
  using assms
proof (induction s arbitrary: t)
  case (Cons c s)
  obtain d u where t: "t = d # u" using Cons.prems(3) by (cases t) auto
  have l: "length u = length s" using Cons.prems(3) t by simp
  have b: "digits_val u < 10 ^ length s"
    using digits_val_bound [of u] Cons.prems(2) t l by simp
  have v: "digit_val c * 10 ^ length s + digits_val s < digit_val d * 10 ^ length s + digits_val u"
    using Cons.prems(4) t l by (simp add: digits_val_Cons)
  have cd: "digit_val c \<le> digit_val d"
  proof (rule ccontr)
    assume "\<not> digit_val c \<le> digit_val d"
    then have "(digit_val d + 1) * 10 ^ length s \<le> digit_val c * 10 ^ length s"
      by (intro mult_le_mono1) simp
    then show False using v b by (simp add: algebra_simps)
  qed
  have dig: "is_digit c" "is_digit d" using Cons.prems t by simp_all
  show ?case
  proof (cases "digit_val c = digit_val d")
    case True
    then have "(of_char c :: nat) = of_char d" using dig unfolding digit_val_def is_digit_def by linarith
    then have "c = d" by simp
    moreover have "s < u" by (rule Cons.IH) (use Cons.prems t l v True in simp_all)
    ultimately show ?thesis using t by simp
  next
    case False
    then have "(of_char c :: nat) < of_char d" using cd dig unfolding digit_val_def is_digit_def by linarith
    then have "c < d" by (simp add: less_char_def)
    then show ?thesis using t by simp
  qed
qed simp

lemma length_format_nat: "0 < k \<Longrightarrow> n < 10 ^ k \<Longrightarrow> length (format_nat n) \<le> k"
proof (induction n arbitrary: k rule: format_nat.induct)
  case (1 n)
  show ?case
  proof (cases "n < 10")
    case True
    then show ?thesis using 1 by (simp add: format_nat.simps [of n])
  next
    case False
    then obtain j where j: "k = Suc j" "0 < j" using 1 by (cases k; cases "k = 1") auto
    have "n div 10 < 10 ^ j" using 1 j by (simp add: less_mult_imp_div_less mult.commute)
    then show ?thesis using 1 False j by (simp add: format_nat.simps [of n])
  qed
qed

lemma format_020_digits:
  assumes "0 \<le> i" "i < 2 ^ 63"
  shows "list_all is_digit (format_020 i)" "length (format_020 i) = 20" "digits_val (format_020 i) = nat i"
proof -
  have "nat i < 10 ^ 20" using assms by simp
  then have l: "length (format_nat (nat i)) \<le> 20" by (intro length_format_nat) simp_all
  have "is_digit (CHR ''0'')" by (simp add: is_digit_def)
  then have z: "list_all is_digit (replicate k (CHR ''0''))" for k by (simp add: list_all_iff)
  show "list_all is_digit (format_020 i)" "length (format_020 i) = 20" "digits_val (format_020 i) = nat i"
    using assms l z format_nat_digits [of "nat i"]
    by (simp_all add: format_020_def pad_left_def digits_val_zeros)
qed

lemma format_020_less:
  assumes "0 \<le> i" "i < j" "j < 2 ^ 63"
  shows "format_020 i < format_020 j"
  by (rule digits_less) (use assms format_020_digits [of i] format_020_digits [of j] in simp_all)

lemma ParseInt_format_020:
  assumes "0 \<le> i" "i < 2 ^ 63"
  shows "ParseInt (format_020 i) = Inr i"
proof -
  obtain c s where f: "format_020 i = c # s" using format_020_digits(2) [OF assms] by (cases "format_020 i") auto
  have "is_digit c" using format_020_digits(1) [OF assms] f by simp
  then have "c \<noteq> CHR ''-''" "c \<noteq> CHR ''+''" by (auto simp: is_digit_def)
  moreover have "parse_nat (format_020 i) = Some (nat i)" using assms by (simp add: format_020_def)
  ultimately show ?thesis using f assms by (simp add: ParseInt_def in_int64_def)
qed

end
