(* ===== verification/Config.thy ===== *)
theory Config
  imports GoStrings
begin

text \<open>
  \<open>internal/config/config.go\<close>: the broker configuration and its construction from environment
  variables.  The environment is a function from names to values; an unset variable reads as the
  empty string.
\<close>

record StorageConfig =
  SegmentMaxBytes :: int
  IndexSampleBytes :: int
  RetentionCheckIntervalMs :: int
  DefaultRetentionMs :: int
  DefaultRetentionBytes :: int

record CoordinatorConfig =
  ReconcileIntervalMs :: int
  LeaderCheckIntervalMs :: int
  BootstrapTimeoutMs :: int
  EagerReconcileOnCreate :: bool
  GroupSweepIntervalMs :: int

end
