(* ===== verification/Segment.thy ===== *)
theory Segment
  imports LogModel Config
begin

text \<open>
  \<open>internal/storage/segment_storage.go\<close>: one segment, a log with its offset index and its time
  index.  The files of the segment are owned by the record; the opening operations take the
  contents the directory holds for the three names (\<open>None\<close> for a missing file).
\<close>

record SegmentStorage =
  seg_log :: LogSegment
  offsetIdx :: OffsetIndexSegment
  timeIdx :: TimeIndexSegment
  seg_baseOffset :: int
  sealed :: bool
  bytesSinceLastIndex :: int

text \<open>The base name of the three files; \<open>filepath.Join\<close> with the directory is left implicit.\<close>

definition segmentBasePath :: "int \<Rightarrow> string" where
  "segmentBasePath baseOffset = format_020 baseOffset"

definition NewSegmentStorage ::
    "os_env \<Rightarrow> (string \<Rightarrow> bytes option) \<Rightarrow> int \<Rightarrow> StorageConfig \<Rightarrow> go_error + SegmentStorage" where
  "NewSegmentStorage os dir baseOffset cfg =
     (let base = segmentBasePath baseOffset
      in (case OpenLogSegment os (dir (base @ ''.log'')) baseOffset True of
            Inl e \<Rightarrow> Inl e
          | Inr log \<Rightarrow>
         (case OpenOffsetIndex os (dir (base @ ''.index'')) baseOffset
                 (SegmentMaxBytes cfg) (IndexSampleBytes cfg) of
            Inl e \<Rightarrow> Inl e
          | Inr oidx \<Rightarrow>
         (case OpenTimeIndex os (dir (base @ ''.timeindex'')) baseOffset
                 (SegmentMaxBytes cfg) (IndexSampleBytes cfg) of
            Inl e \<Rightarrow> Inl e
          | Inr tidx \<Rightarrow>
              Inr \<lparr>seg_log = log, offsetIdx = oidx, timeIdx = tidx, seg_baseOffset = baseOffset,
                   sealed = False, bytesSinceLastIndex = 0\<rparr>))))"

definition OpenSegmentStorage ::
    "os_env \<Rightarrow> (string \<Rightarrow> bytes option) \<Rightarrow> int \<Rightarrow> StorageConfig \<Rightarrow> bool \<Rightarrow> go_error + SegmentStorage" where
  "OpenSegmentStorage os dir baseOffset cfg ro =
     (let base = segmentBasePath baseOffset
      in (case OpenLogSegment os (dir (base @ ''.log'')) baseOffset (\<not> ro) of
            Inl e \<Rightarrow> Inl e
          | Inr log \<Rightarrow>
         (case (if ro then openOffsetIndexReadOnly os (dir (base @ ''.index'')) baseOffset
                else OpenOffsetIndex os (dir (base @ ''.index'')) baseOffset
                       (SegmentMaxBytes cfg) (IndexSampleBytes cfg)) of
            Inl e \<Rightarrow> Inl e
          | Inr oidx \<Rightarrow>
         (case (if ro then openTimeIndexReadOnly os (dir (base @ ''.timeindex'')) baseOffset
                else OpenTimeIndex os (dir (base @ ''.timeindex'')) baseOffset
                       (SegmentMaxBytes cfg) (IndexSampleBytes cfg)) of
            Inl e \<Rightarrow> Inl e
          | Inr tidx \<Rightarrow>
              Inr \<lparr>seg_log = log, offsetIdx = oidx, timeIdx = tidx, seg_baseOffset = baseOffset,
                   sealed = ro, bytesSinceLastIndex = 0\<rparr>))))"

text \<open>
  \<open>Append\<close> writes the log first; an index that refuses the entry makes the call fail with the
  batch already in the log.
\<close>

definition SegmentStorage_Append ::
    "os_env \<Rightarrow> StorageConfig \<Rightarrow> bytes \<Rightarrow> SegmentStorage \<Rightarrow> (go_error + int) \<times> SegmentStorage" where
  "SegmentStorage_Append os cfg batch s =
     (case LogSegment_Append os batch (seg_log s) of
        (Inl e, log) \<Rightarrow> (Inl e, s\<lparr>seg_log := log\<rparr>)
      | (Inr startPos, log) \<Rightarrow>
          (let s1 = s\<lparr>seg_log := log\<rparr>
           in if length batch < 38 then (Inl (GoPanic ''slice bounds out of range''), s1)
              else
     (let batchBaseOffset = int64 (be_int (slc batch 0 8));
          maxTimestamp = int64 (be_int (slc batch 30 38));
          relativeOffset = int32 (batchBaseOffset - seg_baseOffset s)
      in if bytesSinceLastIndex s \<ge> IndexSampleBytes cfg
         then (case OffsetIndex_Append relativeOffset (int32 startPos) (offsetIdx s) of
                 (Some e, oidx) \<Rightarrow> (Inl e, s1\<lparr>offsetIdx := oidx\<rparr>)
               | (None, oidx) \<Rightarrow>
                   (case TimeIndex_Append maxTimestamp relativeOffset (timeIdx s) of
                      (Some e, tidx) \<Rightarrow> (Inl e, s1\<lparr>offsetIdx := oidx, timeIdx := tidx\<rparr>)
                    | (None, tidx) \<Rightarrow>
                        (Inr startPos,
                         s1\<lparr>offsetIdx := oidx, timeIdx := tidx, bytesSinceLastIndex := 0\<rparr>)))
         else (Inr startPos,
               s1\<lparr>bytesSinceLastIndex := bytesSinceLastIndex s + int (length batch)\<rparr>))))"

text \<open>The callback of \<open>Read\<close>: the state is the result so far and the next offset.\<close>

definition Read_callback :: "int \<Rightarrow> int \<Rightarrow> (bytes \<times> int) scan_cb" where
  "Read_callback offset maxBytes batchBytes pos st =
     (if length batchBytes < 16 then Inl (GoPanic ''slice bounds out of range'')
      else let (result, nextOffset) = st;
               batchBaseOffset = int64 (be_int (slc batchBytes 0 8));
               recordCount = be_int (slc batchBytes 12 16);
               batchEndOffset = int64 (batchBaseOffset + recordCount)
           in if batchEndOffset \<le> offset then Inr (True, st)
              else if length result > 0 \<and> int (length result + length batchBytes) > maxBytes
              then Inr (False, st)
              else Inr (True, (result @ batchBytes, batchEndOffset)))"

definition SegmentStorage_Read ::
    "SegmentStorage \<Rightarrow> int \<Rightarrow> int \<Rightarrow> go_error + (bytes \<times> int)" where
  "SegmentStorage_Read s offset maxBytes =
     (let relOffset = int32 (offset - seg_baseOffset s)
      in (case OffsetIndex_Lookup relOffset (offsetIdx s) of
            Inl e \<Rightarrow> Inl e
          | Inr (pos, found) \<Rightarrow>
              (case LogSegment_ScanFrom (seg_log s) (if found then pos else 0)
                      (Read_callback offset maxBytes) ([], offset) of
                 (Some e, st) \<Rightarrow> if is_panic e then Inl e else Inr st
               | (None, st) \<Rightarrow> Inr st)))"

definition SegmentStorage_ReadByTime ::
    "SegmentStorage \<Rightarrow> int \<Rightarrow> int \<Rightarrow> go_error + (bytes \<times> int)" where
  "SegmentStorage_ReadByTime s timestampMs maxBytes =
     (case TimeIndex_Lookup timestampMs (timeIdx s) of
        Inl e \<Rightarrow> Inl e
      | Inr (relOffset, found) \<Rightarrow>
          if \<not> found then Inl (StorageE ErrTimestampNotFound)
          else SegmentStorage_Read s (int64 (seg_baseOffset s + relOffset)) maxBytes)"

definition SegmentStorage_Seal ::
    "os_env \<Rightarrow> SegmentStorage \<Rightarrow> go_error option \<times> SegmentStorage" where
  "SegmentStorage_Seal os s =
     (case OffsetIndex_Seal os (offsetIdx s) of
        (Some e, oidx) \<Rightarrow> (Some e, s\<lparr>offsetIdx := oidx\<rparr>)
      | (None, oidx) \<Rightarrow>
          (case TimeIndex_Seal os (timeIdx s) of
             (Some e, tidx) \<Rightarrow> (Some e, s\<lparr>offsetIdx := oidx, timeIdx := tidx\<rparr>)
           | (None, tidx) \<Rightarrow>
               (case LogSegment_Sync os (seg_log s) of
                  Some e \<Rightarrow> (Some e, s\<lparr>offsetIdx := oidx, timeIdx := tidx\<rparr>)
                | None \<Rightarrow> (None, s\<lparr>offsetIdx := oidx, timeIdx := tidx, sealed := True\<rparr>))))"

definition SegmentStorage_LogSize :: "SegmentStorage \<Rightarrow> int" where
  "SegmentStorage_LogSize s = logSizeVal (seg_log s)"

definition SegmentStorage_BaseOffset :: "SegmentStorage \<Rightarrow> int" where
  "SegmentStorage_BaseOffset s = seg_baseOffset s"

definition SegmentStorage_Close ::
    "os_env \<Rightarrow> SegmentStorage \<Rightarrow> go_error option \<times> SegmentStorage" where
  "SegmentStorage_Close os s =
     (case LogSegment_Close os (seg_log s) of
        (Some e, log) \<Rightarrow> (Some e, s\<lparr>seg_log := log\<rparr>)
      | (None, log) \<Rightarrow>
          (case OffsetIndex_Close os (offsetIdx s) of
             (Some e, oidx) \<Rightarrow> (Some e, s\<lparr>seg_log := log, offsetIdx := oidx\<rparr>)
           | (None, oidx) \<Rightarrow>
               (case TimeIndex_Close os (timeIdx s) of
                  (e, tidx) \<Rightarrow> (e, s\<lparr>seg_log := log, offsetIdx := oidx, timeIdx := tidx\<rparr>))))"

section \<open>The segment invariant\<close>

definition cfg_ok :: "StorageConfig \<Rightarrow> bool" where
  "cfg_ok cfg \<longleftrightarrow> 0 < SegmentMaxBytes cfg \<and> SegmentMaxBytes cfg \<le> 2 ^ 30 \<and> 0 < IndexSampleBytes cfg"

definition idx_cap :: "StorageConfig \<Rightarrow> int" where
  "idx_cap cfg = (SegmentMaxBytes cfg + IndexSampleBytes cfg - 1) div IndexSampleBytes cfg"

definition seg_ok :: "StorageConfig \<Rightarrow> SegmentStorage \<Rightarrow> bytes list \<Rightarrow> bool" where
  "seg_ok cfg s bs \<longleftrightarrow>
     log_ok (SegmentMaxBytes cfg) (seg_baseOffset s) bs \<and>
     ls_open (seg_log s) \<and> ls_file (seg_log s) = concat bs \<and>
     logSizeVal (seg_log s) = int (length (concat bs)) \<and>
     OffsetIndex_ok (offsetIdx s) \<and> oi_open (offsetIdx s) \<and>
     OffsetIndex_entries (offsetIdx s) = off_entries (IndexSampleBytes cfg) (seg_baseOffset s) bs \<and>
     TimeIndex_ok (timeIdx s) \<and> ti_open (timeIdx s) \<and>
     TimeIndex_entries (timeIdx s) = time_entries (IndexSampleBytes cfg) (seg_baseOffset s) bs"

definition seg_active :: "StorageConfig \<Rightarrow> SegmentStorage \<Rightarrow> bytes list \<Rightarrow> bool" where
  "seg_active cfg s bs \<longleftrightarrow>
     seg_ok cfg s bs \<and> \<not> sealed s \<and> \<not> readonly (seg_log s) \<and>
     oi_mapped (offsetIdx s) \<and> oi_maxEntries (offsetIdx s) = idx_cap cfg \<and>
     ti_mapped (timeIdx s) \<and> ti_maxEntries (timeIdx s) = idx_cap cfg \<and>
     bytesSinceLastIndex s = since_index (IndexSampleBytes cfg) (seg_baseOffset s) bs"

definition seg_sealed :: "StorageConfig \<Rightarrow> SegmentStorage \<Rightarrow> bytes list \<Rightarrow> bool" where
  "seg_sealed cfg s bs \<longleftrightarrow>
     seg_ok cfg s bs \<and> sealed s \<and>
     int (length (oi_data (offsetIdx s))) = 8 * oi_entryCount (offsetIdx s) \<and>
     int (length (ti_data (timeIdx s))) = 12 * ti_entryCount (timeIdx s)"

lemma OffsetIndex_Append_flags:
  "OffsetIndex_Append k v s = (e, s') \<Longrightarrow> oi_mapped s' = oi_mapped s \<and> oi_open s' = oi_open s"
  by (auto simp: OffsetIndex_Append_def Let_def split: if_splits)

lemma TimeIndex_Append_flags:
  "TimeIndex_Append k v s = (e, s') \<Longrightarrow> ti_mapped s' = ti_mapped s \<and> ti_open s' = ti_open s"
  by (auto simp: TimeIndex_Append_def Let_def split: if_splits)

lemma log_ok_snoc:
  assumes "log_ok mx base bs" "int (length (concat bs)) < mx" "wf_batch b"
    "boff b = log_end base bs" "log_end base bs + bcount b < 2 ^ 63"
  shows "log_ok mx base (bs @ [b])"
  using assms by (simp add: log_ok_def)

lemma LogSegment_Append_ok:
  assumes "os_ok os" "ls_open l" "\<not> readonly l" "logSizeVal l = int (length (ls_file l))"
    "length (ls_file l) < 2 ^ 31" "length b < 2 ^ 32"
  shows "LogSegment_Append os b l =
    (Inr (int (length (ls_file l))),
     l\<lparr>ls_file := ls_file l @ b, logSizeVal := int (length (ls_file l @ b))\<rparr>)"
proof -
  have "int64 (int (length (ls_file l)) + int (length b)) = int (length (ls_file l) + length b)"
    using int64_small [of "length (ls_file l) + length b"] assms(5,6) by simp
  then show ?thesis using assms by (simp add: LogSegment_Append_def Let_def)
qed

lemma SegmentStorage_Append_active:
  assumes os: "os_ok os" and cfg: "cfg_ok cfg" and s: "seg_active cfg s bs"
    and room: "logSizeVal (seg_log s) < SegmentMaxBytes cfg"
    and b: "wf_batch b" "boff b = log_end (seg_baseOffset s) bs"
      "log_end (seg_baseOffset s) bs + bcount b < 2 ^ 63"
  shows "\<exists>s'. SegmentStorage_Append os cfg b s = (Inr (int (length (concat bs))), s') \<and>
    seg_active cfg s' (bs @ [b]) \<and> seg_baseOffset s' = seg_baseOffset s"
proof -
  let ?base = "seg_baseOffset s" and ?sample = "IndexSampleBytes cfg" and ?n = "int (length (concat bs))"
  let ?log = "(seg_log s)\<lparr>ls_file := concat bs @ b, logSizeVal := int (length (concat bs @ b))\<rparr>"
  let ?rel = "int32 (boff b - ?base)"
  have ok: "seg_ok cfg s bs" using s by (simp add: seg_active_def)
  have lt: "?n < SegmentMaxBytes cfg" using room ok by (simp add: seg_ok_def)
  note fl = framed_length [OF wf_batch_framed [OF b(1)]]
  have log: "LogSegment_Append os b (seg_log s) = (Inr ?n, ?log)"
    using LogSegment_Append_ok [of os "seg_log s" b] os s ok lt cfg fl(2)
    by (simp add: seg_ok_def seg_active_def cfg_ok_def)
  have lok: "log_ok (SegmentMaxBytes cfg) ?base (bs @ [b])"
    using ok lt b by (intro log_ok_snoc) (simp_all add: seg_ok_def)
  show ?thesis
  proof (cases "bytesSinceLastIndex s \<ge> ?sample")
    case False
    let ?s = "s\<lparr>seg_log := ?log, bytesSinceLastIndex := bytesSinceLastIndex s + int (length b)\<rparr>"
    have "SegmentStorage_Append os cfg b s = (Inr ?n, ?s)"
      using log fl(1) False by (simp add: SegmentStorage_Append_def Let_def)
    moreover have "seg_active cfg ?s (bs @ [b])"
      using s lok False
      by (auto simp: seg_active_def seg_ok_def index_of_snoc index_step_def Let_def split_beta)
    ultimately show ?thesis by simp
  next
    case True
    have cap: "int (length (off_entries ?sample ?base bs)) < idx_cap cfg"
      using index_room [of ?sample ?base bs "SegmentMaxBytes cfg"] cfg True s lt
      by (simp add: cfg_ok_def seg_active_def idx_cap_def)
    have fit: "OffsetIndex_fits (?rel, int32 ?n)" "TimeIndex_fits (bmaxts b, ?rel)"
      by (simp_all add: OffsetIndex_fits_def TimeIndex_fits_def bmaxts_def)
    obtain oi where oi: "OffsetIndex_Append ?rel (int32 ?n) (offsetIdx s) = (None, oi)"
      "OffsetIndex_ok oi" "oi_maxEntries oi = idx_cap cfg"
      "OffsetIndex_entries oi = off_entries ?sample ?base bs @ [(?rel, int32 ?n)]"
      using oix.append_entry [OF _ _ fit(1), of "offsetIdx s"] s ok cap
      by (auto simp: seg_ok_def seg_active_def)
    obtain ti where ti: "TimeIndex_Append (bmaxts b) ?rel (timeIdx s) = (None, ti)"
      "TimeIndex_ok ti" "ti_maxEntries ti = idx_cap cfg"
      "TimeIndex_entries ti = time_entries ?sample ?base bs @ [(bmaxts b, ?rel)]"
      using tix.append_entry [OF _ _ fit(2), of "timeIdx s"] s ok cap
        index_budget [of ?sample ?base bs] cfg
      by (auto simp: seg_ok_def seg_active_def cfg_ok_def)
    let ?s = "s\<lparr>seg_log := ?log, offsetIdx := oi, timeIdx := ti, bytesSinceLastIndex := 0\<rparr>"
    have "SegmentStorage_Append os cfg b s = (Inr ?n, ?s)"
      using log fl(1) True oi(1) ti(1)
      by (simp add: SegmentStorage_Append_def Let_def boff_def bmaxts_def)
    moreover have "seg_active cfg ?s (bs @ [b])"
      using s lok True oi ti OffsetIndex_Append_flags [OF oi(1)] TimeIndex_Append_flags [OF ti(1)]
      by (auto simp: seg_active_def seg_ok_def index_of_snoc index_step_def Let_def split_beta)
    ultimately show ?thesis by simp
  qed
qed

section \<open>Reading\<close>

text \<open>
  What \<open>Read\<close> must return: skip the batches that end at or before the offset, then take whole
  batches while the total stays within \<open>maxBytes\<close>, but always the first.
\<close>

definition bend :: "bytes \<Rightarrow> int" where
  "bend b = boff b + bcount b"

fun take_batches :: "int \<Rightarrow> nat \<Rightarrow> bytes list \<Rightarrow> bytes list" where
  "take_batches mx n [] = []"
| "take_batches mx n (b # bs) =
     (if n > 0 \<and> int (n + length b) > mx then []
      else b # take_batches mx (n + length b) bs)"

definition read_batches :: "bytes list \<Rightarrow> int \<Rightarrow> int \<Rightarrow> bytes list" where
  "read_batches bs off mx = take_batches mx 0 (dropWhile (\<lambda>b. bend b \<le> off) bs)"

definition read_next :: "int \<Rightarrow> bytes list \<Rightarrow> int" where
  "read_next off rs = (if rs = [] then off else bend (last rs))"

lemma chain_bend:
  assumes "chain base (xs @ b # ys)" "list_all wf_batch (xs @ b # ys)"
  shows "\<forall>x\<in>set xs. bend x \<le> boff b"
  using assms
proof (induction xs arbitrary: base)
  case (Cons x xs)
  have "bend x = base + bcount x" using Cons.prems by (simp add: bend_def)
  moreover have "boff b = log_end (base + bcount x) xs" using Cons.prems by simp
  moreover have "base + bcount x \<le> log_end (base + bcount x) xs"
    using Cons.prems by (intro wf_log_end) simp
  ultimately show ?case using Cons by auto
qed simp

lemma chain_after:
  assumes "chain base (b # ys)" "list_all wf_batch (b # ys)" "y \<in> set ys"
  shows "bend b \<le> boff y" "boff y < bend y"
proof -
  obtain us vs where "ys = us @ y # vs" using assms(3) by (meson split_list)
  then have "chain base ((b # us) @ y # vs)" "list_all wf_batch ((b # us) @ y # vs)"
    using assms by simp_all
  then show "bend b \<le> boff y" "boff y < bend y"
    using chain_bend [of base "b # us" y vs] by (simp_all add: bend_def wf_batch_def)
qed

lemma bend_int64:
  assumes "log_ok mx base (xs @ b # ys)"
  shows "int64 (int64 (be_int (slc b 0 8)) + be_int (slc b 12 16)) = bend b"
proof -
  have "log_ok mx base (xs @ [b])" using log_ok_prefix [of mx base "xs @ [b]" ys] assms by simp
  then have "0 \<le> log_end base xs" "bend b < 2 ^ 63" "0 < bcount b" "0 \<le> boff b"
    using wf_log_end(1) [OF log_ok_split(2) [OF assms], of base] log_ok_split(1,3) [OF assms]
    by (simp_all add: log_ok_def bend_def wf_batch_def)
  then show ?thesis
    unfolding bend_def boff_def [symmetric] bcount_def [symmetric]
    by (intro int64_id in_int64_of_nonneg) simp_all
qed

text \<open>The scan of \<open>Read\<close> from the start of any suffix of the log.\<close>

lemma Read_scan_taking:
  assumes "\<forall>b\<in>set bs. 16 \<le> length b \<and> off < bend b \<and>
      int64 (int64 (be_int (slc b 0 8)) + be_int (slc b 12 16)) = bend b"
    and "acc \<noteq> []" "concat acc \<noteq> []" "nx = bend (last acc)"
  shows "scan_batches (Read_callback off mx) bs pos (concat acc, nx) =
    (None, (concat (acc @ take_batches mx (length (concat acc)) bs),
            bend (last (acc @ take_batches mx (length (concat acc)) bs))))"
  using assms
proof (induction bs arbitrary: pos acc nx)
  case (Cons b bs)
  show ?case
  proof (cases "int (length (concat acc) + length b) > mx")
    case True
    then show ?thesis using Cons.prems by (simp add: Read_callback_def Let_def)
  next
    case False
    have cb: "Read_callback off mx b pos (concat acc, nx) = Inr (True, (concat (acc @ [b]), bend b))"
      using Cons.prems False by (simp add: Read_callback_def Let_def)
    have "scan_batches (Read_callback off mx) bs (pos + int (length b)) (concat (acc @ [b]), bend b) =
      (None, (concat ((acc @ [b]) @ take_batches mx (length (concat (acc @ [b]))) bs),
            bend (last ((acc @ [b]) @ take_batches mx (length (concat (acc @ [b]))) bs))))"
      by (rule Cons.IH) (use Cons.prems in auto)
    moreover have "length (concat (acc @ [b])) = length (concat acc) + length b" by simp
    ultimately show ?thesis using False Cons.prems cb by (simp del: concat_append length_concat)
  qed
qed simp

lemma Read_scan:
  assumes ok: "log_ok mx0 base (xs @ ys)"
  shows "scan_batches (Read_callback off mx) ys pos ([], off) =
    (None, (concat (read_batches ys off mx), read_next off (read_batches ys off mx)))"
  using ok
proof (induction ys arbitrary: xs pos)
  case Nil
  then show ?case by (simp add: read_batches_def read_next_def)
next
  case (Cons b ys)
  note e = bend_int64 [OF Cons.prems]
  have w: "wf_batch b" "list_all wf_batch ys" "chain (boff b) (b # ys)"
    using log_ok_split [OF Cons.prems] by simp_all
  have len: "38 \<le> length b" using w(1) by (simp add: wf_batch_def framed_def)
  show ?case
  proof (cases "bend b \<le> off")
    case True
    have "Read_callback off mx b pos ([], off) = Inr (True, ([], off))"
      using True e len by (simp add: Read_callback_def Let_def)
    then show ?thesis
      using Cons.IH [of "xs @ [b]"] Cons.prems True by (simp add: read_batches_def)
  next
    case False
    have cb: "Read_callback off mx b pos ([], off) = Inr (True, (concat [b], bend b))"
      using False e len by (simp add: Read_callback_def Let_def)
    have "16 \<le> length y \<and> off < bend y \<and>
        int64 (int64 (be_int (slc y 0 8)) + be_int (slc y 12 16)) = bend y" if y: "y \<in> set ys" for y
    proof -
      obtain us vs where "ys = us @ y # vs" using y by (meson split_list)
      then have "int64 (int64 (be_int (slc y 0 8)) + be_int (slc y 12 16)) = bend y"
        using bend_int64 [of mx0 base "xs @ b # us" y vs] Cons.prems by simp
      moreover have "bend b < bend y"
        using chain_after [OF w(3) _ y] w by auto
      moreover have "38 \<le> length y" using w(2) y by (simp add: list_all_iff wf_batch_def framed_def)
      ultimately show ?thesis using False by simp
    qed
    then have "scan_batches (Read_callback off mx) ys (pos + int (length b)) (concat [b], bend b) =
      (None, (concat ([b] @ take_batches mx (length (concat [b])) ys),
            bend (last ([b] @ take_batches mx (length (concat [b])) ys))))"
      by (intro Read_scan_taking) (use len in auto)
    then show ?thesis using False cb by (simp add: read_batches_def read_next_def)
  qed
qed

lemma SegmentStorage_Read_ok:
  assumes cfg: "cfg_ok cfg" and s: "seg_ok cfg s bs"
    and off: "seg_baseOffset s \<le> off" "off - seg_baseOffset s < 2 ^ 31"
  shows "SegmentStorage_Read s off mx =
    Inr (concat (read_batches bs off mx), read_next off (read_batches bs off mx))"
proof -
  let ?base = "seg_baseOffset s" and ?es = "off_entries (IndexSampleBytes cfg) (seg_baseOffset s) bs"
  have lok: "log_ok (SegmentMaxBytes cfg) ?base bs" and mx: "SegmentMaxBytes cfg \<le> 2 ^ 31"
    using s cfg by (simp_all add: seg_ok_def cfg_ok_def)
  have rel: "int32 (off - ?base) = off - ?base"
    using off by (intro int32_id in_int32_of_nonneg) simp_all
  have look: "OffsetIndex_Lookup (off - ?base) (offsetIdx s) =
      Inr (lookup_result (floor_entry ?es (off - ?base)))"
    using oix.lookup_floor [of "offsetIdx s"] off_entries_sorted [OF lok mx] s by (simp add: seg_ok_def)
  obtain xs ys where bs: "bs = xs @ ys" and skip: "\<forall>x\<in>set xs. bend x \<le> off"
    and pos: "(let (pos, found) = lookup_result (floor_entry ?es (off - ?base))
               in if found then pos else 0) = int (length (concat xs))"
  proof (cases "filter (\<lambda>e. fst e \<le> off - ?base) ?es" rule: rev_cases)
    case Nil
    then show thesis using that [of "[]" bs] by (simp add: lookup_result_def floor_entry_def)
  next
    case (snoc fs e)
    then have "e \<in> set (filter (\<lambda>e. fst e \<le> off - ?base) ?es)" by simp
    then have e: "e \<in> set ?es" "fst e \<le> off - ?base" by simp_all
    then obtain xs b ys where d: "bs = xs @ b # ys" "e = (boff b - ?base, int (length (concat xs)))"
      using off_entries_rel [OF lok mx] by blast
    have "\<forall>x\<in>set xs. bend x \<le> boff b"
      by (rule chain_bend [of ?base _ _ ys]) (use lok d(1) in \<open>simp_all add: log_ok_def\<close>)
    then have "\<forall>x\<in>set xs. bend x \<le> off" using e(2) d(2) by auto
    moreover have "floor_entry ?es (off - ?base) = Some (snd e)"
      using snoc by (cases fs) (simp_all add: floor_entry_def)
    ultimately show thesis
      using that [of xs "b # ys"] d by (simp add: lookup_result_def)
  qed
  obtain p f where lr: "lookup_result (floor_entry ?es (off - ?base)) = (p, f)" by fastforce
  have pos': "(if f then p else 0) = int (length (concat xs))" using pos lr by simp
  have "LogSegment_ScanFrom (seg_log s) (int (length (concat xs))) (Read_callback off mx) ([], off) =
      scan_batches (Read_callback off mx) ys (int (length (concat xs))) ([], off)"
    unfolding LogSegment_ScanFrom_def
    by (rule ScanFrom_loop_batches [where post = "[]"])
      (use s bs lok in \<open>auto simp: seg_ok_def log_ok_def list_all_iff wf_batch_framed\<close>)
  moreover have "read_batches bs off mx = read_batches ys off mx"
    using skip bs by (simp add: read_batches_def dropWhile_append2)
  ultimately show ?thesis
    using Read_scan [of "SegmentMaxBytes cfg" ?base xs ys off mx] lok bs
    unfolding SegmentStorage_Read_def rel Let_def look lr sum.case prod.case pos' by simp
qed

section \<open>Opening and sealing\<close>

lemma NewSegmentStorage_fresh:
  assumes "os_ok os" "cfg_ok cfg" "0 \<le> base" "base < 2 ^ 63"
    "dir (segmentBasePath base @ ''.log'') = None" "dir (segmentBasePath base @ ''.index'') = None"
    "dir (segmentBasePath base @ ''.timeindex'') = None"
  shows "\<exists>s. NewSegmentStorage os dir base cfg = Inr s \<and> seg_active cfg s [] \<and> seg_baseOffset s = base"
proof -
  obtain oi where oi: "OpenOffsetIndex os None base (SegmentMaxBytes cfg) (IndexSampleBytes cfg) = Inr oi"
    "OffsetIndex_ok oi" "OffsetIndex_entries oi = []" "oi_maxEntries oi = idx_cap cfg" "oi_open oi" "oi_mapped oi"
    using OpenOffsetIndex_fresh [of os "SegmentMaxBytes cfg" "IndexSampleBytes cfg" base] assms(1,2)
    by (auto simp: cfg_ok_def idx_cap_def)
  obtain ti where ti: "OpenTimeIndex os None base (SegmentMaxBytes cfg) (IndexSampleBytes cfg) = Inr ti"
    "TimeIndex_ok ti" "TimeIndex_entries ti = []" "ti_maxEntries ti = idx_cap cfg" "ti_open ti" "ti_mapped ti"
    using OpenTimeIndex_fresh [of os "SegmentMaxBytes cfg" "IndexSampleBytes cfg" base] assms(1,2)
    by (auto simp: cfg_ok_def idx_cap_def)
  show ?thesis
    using assms oi ti
    by (simp add: NewSegmentStorage_def Let_def OpenLogSegment_def seg_active_def seg_ok_def log_ok_def)
qed

lemma SegmentStorage_Seal_ok:
  assumes "os_ok os" "seg_active cfg s bs"
  shows "\<exists>s'. SegmentStorage_Seal os s = (None, s') \<and> seg_sealed cfg s' bs \<and>
    seg_baseOffset s' = seg_baseOffset s \<and> seg_log s' = seg_log s"
proof -
  have ok: "seg_ok cfg s bs" using assms(2) by (simp add: seg_active_def)
  obtain oi where oi: "OffsetIndex_Seal os (offsetIdx s) = (None, oi)" "OffsetIndex_ok oi"
    "OffsetIndex_entries oi = OffsetIndex_entries (offsetIdx s)" "oi_open oi"
    "int (length (oi_data oi)) = 8 * oi_entryCount oi"
    using OffsetIndex_Seal_ok [of os "offsetIdx s"] assms ok by (auto simp: seg_active_def seg_ok_def)
  obtain ti where ti: "TimeIndex_Seal os (timeIdx s) = (None, ti)" "TimeIndex_ok ti"
    "TimeIndex_entries ti = TimeIndex_entries (timeIdx s)" "ti_open ti"
    "int (length (ti_data ti)) = 12 * ti_entryCount ti"
    using TimeIndex_Seal_ok [of os "timeIdx s"] assms ok by (auto simp: seg_active_def seg_ok_def)
  show ?thesis
    using oi ti ok assms(1)
    by (simp add: SegmentStorage_Seal_def LogSegment_Sync_def seg_sealed_def seg_ok_def)
qed

end
