(* ===== verification/Recovery.thy ===== *)
theory Recovery
  imports Segment
begin

text \<open>
  \<open>internal/storage/recovery.go\<close>: opening the segments a directory holds, the CRC scan of the
  active log, and the helpers of \<open>TruncateTo\<close>.  A directory is an association list from file
  names to contents.
\<close>

type_synonym directory = "(string \<times> bytes) list"

section \<open>Scanning the active log\<close>

text \<open>\<open>f.ReadAt\<close> into a buffer of \<open>len\<close> bytes: the bytes that were read.\<close>

definition pread :: "bytes \<Rightarrow> int \<Rightarrow> int \<Rightarrow> bytes" where
  "pread f pos len = slc f (nat pos) (nat pos + nat len)"

function scanActiveLog_loop :: "bytes \<Rightarrow> int \<Rightarrow> int \<Rightarrow> int \<times> int \<times> int" where
  "scanActiveLog_loop f pos currOffset =
     (if \<not> pos < int (length f) then (pos, currOffset, 0)
      else let hdr = pread f pos 38
           in if length hdr < 38 then (pos, currOffset, 0)
              else let batchLen = be_int (slc hdr 8 12)
                   in if batchLen < 38 \<or> pos + batchLen > int (length f) then (pos, currOffset, 0)
                      else let records = pread f (pos + 38) (batchLen - 38)
                           in if int (length records) < batchLen - 38 then (pos, currOffset, 0)
                              else let storedCRC = be_int (slc hdr 16 20)
                                   in if uint (crc32c records) \<noteq> storedCRC then (pos, currOffset, 1)
                                      else let recCount = be_int (slc hdr 12 16);
                                               base = int64 (be_int (slc hdr 0 8))
                                           in scanActiveLog_loop f (pos + batchLen)
                                                (int64 (base + recCount)))"
  by pat_completeness auto
termination
  by (relation "measure (\<lambda>(f, pos, c). nat (int (length f) - pos))") auto

declare scanActiveLog_loop.simps [simp del]

definition scanActiveLog :: "os_env \<Rightarrow> bytes option \<Rightarrow> int \<Rightarrow> go_error + (int \<times> int \<times> int)" where
  "scanActiveLog os contents baseOffset =
     (case sys os SysScanOpen of
        Some e \<Rightarrow> Inl e
      | None \<Rightarrow>
          (case contents of
             None \<Rightarrow> Inl (SysErr ''no such file or directory'')
           | Some f \<Rightarrow>
               (case sys os SysScanStat of
                  Some e \<Rightarrow> Inl e
                | None \<Rightarrow> Inr (scanActiveLog_loop f 0 baseOffset))))"

section \<open>Rebuilding indexes\<close>

text \<open>The callback with which both recovery scans collect the index entries.\<close>

definition index_callback :: "int \<Rightarrow> int \<Rightarrow> index_st scan_cb" where
  "index_callback sample base batchBytes pos st =
     (if length batchBytes < 38 then Inl (GoPanic ''slice bounds out of range'')
      else Inr (True, index_step sample base batchBytes pos st))"

text \<open>The result of \<open>ScanFrom\<close> is discarded at both places; only a panic gets out.\<close>

definition scan_panic :: "go_error option \<Rightarrow> go_error option" where
  "scan_panic err = (case err of Some e \<Rightarrow> if is_panic e then Some e else None | None \<Rightarrow> None)"

text \<open>Filling freshly opened indexes from a scan of the log.\<close>

definition fill_indexes ::
    "StorageConfig \<Rightarrow> LogSegment \<Rightarrow> int \<Rightarrow> OffsetIndexSegment \<Rightarrow> TimeIndexSegment \<Rightarrow>
     go_error + (OffsetIndexSegment \<times> TimeIndexSegment \<times> int)" where
  "fill_indexes cfg log base oidx tidx =
     (case LogSegment_ScanFrom log 0 (index_callback (IndexSampleBytes cfg) base) ([], [], 0) of
        (err, (offEntries, tEntries, bytesSince)) \<Rightarrow>
     (case scan_panic err of
        Some e \<Rightarrow> Inl e
      | None \<Rightarrow>
     (case OffsetIndex_Rebuild offEntries oidx of
        (Some e, _) \<Rightarrow> Inl e
      | (None, oidx) \<Rightarrow>
     (case TimeIndex_Rebuild tEntries tidx of
        (Some e, _) \<Rightarrow> Inl e
      | (None, tidx) \<Rightarrow> Inr (oidx, tidx, bytesSince)))))"

definition rebuildSegmentIndexes ::
    "os_env \<Rightarrow> StorageConfig \<Rightarrow> SegmentStorage \<Rightarrow> go_error option \<times> SegmentStorage" where
  "rebuildSegmentIndexes os cfg seg =
     (case OffsetIndex_Close os (offsetIdx seg) of
        (Some e, oidx) \<Rightarrow> (Some e, seg\<lparr>offsetIdx := oidx\<rparr>)
      | (None, oidx) \<Rightarrow>
     (case TimeIndex_Close os (timeIdx seg) of
        (Some e, tidx) \<Rightarrow> (Some e, seg\<lparr>offsetIdx := oidx, timeIdx := tidx\<rparr>)
      | (None, tidx) \<Rightarrow>
          (let seg = seg\<lparr>offsetIdx := oidx, timeIdx := tidx\<rparr>
           in (case OpenOffsetIndex os None (seg_baseOffset seg) (SegmentMaxBytes cfg) (IndexSampleBytes cfg) of
                 Inl e \<Rightarrow> (Some e, seg)
               | Inr oidx \<Rightarrow>
              (case OpenTimeIndex os None (seg_baseOffset seg) (SegmentMaxBytes cfg) (IndexSampleBytes cfg) of
                 Inl e \<Rightarrow> (Some e, seg)
               | Inr tidx \<Rightarrow>
              (case fill_indexes cfg (seg_log seg) (seg_baseOffset seg) oidx tidx of
                 Inl e \<Rightarrow> (Some e, seg)
               | Inr (oidx, tidx, bytesSince) \<Rightarrow>
                   (None, seg\<lparr>offsetIdx := oidx, timeIdx := tidx,
                             bytesSinceLastIndex := bytesSince\<rparr>)))))))"

function findBytePos_loop :: "LogSegment \<Rightarrow> int \<Rightarrow> int \<Rightarrow> int \<Rightarrow> int" where
  "findBytePos_loop log logSize offset pos =
     (if \<not> pos < logSize then logSize
      else (case LogSegment_ReadAt log pos 12 of
              Inl e \<Rightarrow> logSize
            | Inr header \<Rightarrow>
                if int64 (be_int (slc header 0 8)) = offset then pos
                else let batchLen = be_int (slc header 8 12)
                     in if batchLen < 12 then logSize
                        else findBytePos_loop log logSize offset (pos + batchLen)))"
  by pat_completeness auto
termination
  by (relation "measure (\<lambda>(l, n, off, pos). nat (n - pos))") auto

declare findBytePos_loop.simps [simp del]

definition findBytePosForOffset :: "SegmentStorage \<Rightarrow> int \<Rightarrow> int" where
  "findBytePosForOffset seg offset =
     (if offset = seg_baseOffset seg then 0
      else findBytePos_loop (seg_log seg) (logSizeVal (seg_log seg)) offset 0)"

section \<open>Recovering a directory\<close>

definition has_suffix :: "string \<Rightarrow> string \<Rightarrow> bool" where
  "has_suffix suf s \<longleftrightarrow> length suf \<le> length s \<and> drop (length s - length suf) s = suf"

text \<open>\<open>filepath.Glob(dir/*.log)\<close> followed by \<open>sort.Strings\<close>.\<close>

definition glob_logs :: "directory \<Rightarrow> string list" where
  "glob_logs dir = sort (filter (has_suffix ''.log'') (map fst dir))"

definition parse_segment_name :: "string \<Rightarrow> go_error + int" where
  "parse_segment_name name =
     (case ParseInt (take (length name - 4) name) of
        Inl e \<Rightarrow> Inl (Wrapped ''invalid segment filename'' e)
      | Inr off \<Rightarrow> Inr off)"

fun open_sealed ::
    "os_env \<Rightarrow> directory \<Rightarrow> StorageConfig \<Rightarrow> string list \<Rightarrow> go_error + SegmentStorage list" where
  "open_sealed os dir cfg [] = Inr []"
| "open_sealed os dir cfg (path # paths) =
     (case parse_segment_name path of
        Inl e \<Rightarrow> Inl e
      | Inr offset \<Rightarrow>
          (case OpenSegmentStorage os (map_of dir) offset cfg True of
             Inl e \<Rightarrow> Inl e
           | Inr seg \<Rightarrow>
               (case open_sealed os dir cfg paths of
                  Inl e \<Rightarrow> Inl e
                | Inr segs \<Rightarrow> Inr (seg # segs))))"

definition recover_active ::
    "os_env \<Rightarrow> directory \<Rightarrow> StorageConfig \<Rightarrow> string \<Rightarrow> go_error + (SegmentStorage \<times> int \<times> int)" where
  "recover_active os dir cfg activePath =
     (case parse_segment_name activePath of
        Inl e \<Rightarrow> Inl e
      | Inr activeOffset \<Rightarrow>
     (case scanActiveLog os (map_of dir activePath) activeOffset of
        Inl e \<Rightarrow> Inl e
      | Inr (validPos, nextOffset, crcErrors) \<Rightarrow>
     (case sys os SysTruncateScan of
        Some e \<Rightarrow> Inl e
      | None \<Rightarrow>
          (let truncated = map_option (resize (nat validPos)) (map_of dir activePath)
           in (case OpenOffsetIndex os None activeOffset (SegmentMaxBytes cfg) (IndexSampleBytes cfg) of
                 Inl e \<Rightarrow> Inl e
               | Inr oidx \<Rightarrow>
              (case OpenTimeIndex os None activeOffset (SegmentMaxBytes cfg) (IndexSampleBytes cfg) of
                 Inl e \<Rightarrow> Inl e
               | Inr tidx \<Rightarrow>
              (case OpenLogSegment os truncated activeOffset True of
                 Inl e \<Rightarrow> Inl e
               | Inr logSeg \<Rightarrow>
              (case fill_indexes cfg logSeg activeOffset oidx tidx of
                 Inl e \<Rightarrow> Inl e
               | Inr (oidx, tidx, bytesSince) \<Rightarrow>
                   Inr (\<lparr>seg_log = logSeg, offsetIdx = oidx, timeIdx = tidx,
                         seg_baseOffset = activeOffset, sealed = False,
                         bytesSinceLastIndex = bytesSince\<rparr>, nextOffset, crcErrors)))))))))"

definition recoverStorage ::
    "os_env \<Rightarrow> directory \<Rightarrow> StorageConfig \<Rightarrow> go_error + (SegmentStorage list \<times> int \<times> int)" where
  "recoverStorage os dir cfg =
     (case sys os SysGlob of
        Some e \<Rightarrow> Inl e
      | None \<Rightarrow>
          (let matches = glob_logs dir
           in if matches = []
              then (case NewSegmentStorage os (map_of dir) 0 cfg of
                      Inl e \<Rightarrow> Inl e
                    | Inr seg \<Rightarrow> Inr ([seg], 0, 0))
              else (case open_sealed os dir cfg (butlast matches) of
                      Inl e \<Rightarrow> Inl e
                    | Inr segments \<Rightarrow>
                        (case recover_active os dir cfg (last matches) of
                           Inl e \<Rightarrow> Inl e
                         | Inr (activeSeg, nextOffset, crcErrors) \<Rightarrow>
                             Inr (segments @ [activeSeg], nextOffset, crcErrors)))))"

section \<open>Recovery rebuilds the log\<close>

lemma index_callback_scan:
  assumes "list_all framed bs"
  shows "scan_batches (index_callback sample base) bs pos st = (None, index_from sample base bs pos st)"
  using assms
  by (induction bs arbitrary: pos st) (auto simp: index_callback_def framed_def)

definition log_file_ok :: "LogSegment \<Rightarrow> bytes list \<Rightarrow> bool" where
  "log_file_ok l bs \<longleftrightarrow> ls_open l \<and> ls_file l = concat bs \<and> logSizeVal l = int (length (concat bs))"

lemma log_ok_framed: "log_ok mx base bs \<Longrightarrow> list_all framed bs"
  by (auto simp: log_ok_def list_all_iff wf_batch_framed)

lemma ScanFrom_whole:
  assumes "log_file_ok l bs" "list_all framed bs"
  shows "LogSegment_ScanFrom l 0 cb st = scan_batches cb bs 0 st"
  using ScanFrom_loop_batches [of l "[]" bs "[]" "logSizeVal l" cb st] assms
  by (simp add: LogSegment_ScanFrom_def log_file_ok_def)

lemma OffsetIndex_Rebuild_flags:
  "OffsetIndex_Rebuild es s = (e, s') \<Longrightarrow> oi_mapped s' = oi_mapped s \<and> oi_open s' = oi_open s"
  by (auto simp: OffsetIndex_Rebuild_def Let_def split: if_splits)

lemma TimeIndex_Rebuild_flags:
  "TimeIndex_Rebuild es s = (e, s') \<Longrightarrow> ti_mapped s' = ti_mapped s \<and> ti_open s' = ti_open s"
  by (auto simp: TimeIndex_Rebuild_def Let_def split: if_splits)

definition fresh_offset_index :: "StorageConfig \<Rightarrow> OffsetIndexSegment \<Rightarrow> bool" where
  "fresh_offset_index cfg oi \<longleftrightarrow>
     OffsetIndex_ok oi \<and> oi_maxEntries oi = idx_cap cfg \<and> oi_open oi \<and> oi_mapped oi"

definition fresh_time_index :: "StorageConfig \<Rightarrow> TimeIndexSegment \<Rightarrow> bool" where
  "fresh_time_index cfg ti \<longleftrightarrow>
     TimeIndex_ok ti \<and> ti_maxEntries ti = idx_cap cfg \<and> ti_open ti \<and> ti_mapped ti"

lemma open_fresh_indexes:
  assumes "os_ok os" "cfg_ok cfg"
  shows "\<exists>oi. OpenOffsetIndex os None base (SegmentMaxBytes cfg) (IndexSampleBytes cfg) = Inr oi \<and>
      fresh_offset_index cfg oi"
    "\<exists>ti. OpenTimeIndex os None base (SegmentMaxBytes cfg) (IndexSampleBytes cfg) = Inr ti \<and>
      fresh_time_index cfg ti"
  using OpenOffsetIndex_fresh [of os "SegmentMaxBytes cfg" "IndexSampleBytes cfg" base]
    OpenTimeIndex_fresh [of os "SegmentMaxBytes cfg" "IndexSampleBytes cfg" base] assms
  by (auto simp: cfg_ok_def idx_cap_def fresh_offset_index_def fresh_time_index_def)

text \<open>
  Filling fresh indexes from the log leaves a segment that satisfies the active invariant: the
  rebuilt entries are the ones a history of appends would have produced.
\<close>

lemma fill_indexes_ok:
  assumes cfg: "cfg_ok cfg" and l: "log_file_ok l bs" and lok: "log_ok (SegmentMaxBytes cfg) base bs"
    and oi: "fresh_offset_index cfg oi" and ti: "fresh_time_index cfg ti" and "\<not> readonly l"
  shows "\<exists>oi' ti' since. fill_indexes cfg l base oi ti = Inr (oi', ti', since) \<and>
    seg_active cfg \<lparr>seg_log = l, offsetIdx = oi', timeIdx = ti', seg_baseOffset = base,
      sealed = False, bytesSinceLastIndex = since\<rparr> bs"
proof -
  let ?sample = "IndexSampleBytes cfg"
  note fr = log_ok_framed [OF lok]
  have scan: "LogSegment_ScanFrom l 0 (index_callback ?sample base) ([], [], 0) =
      (None, index_of ?sample base bs)"
    by (simp add: ScanFrom_whole [OF l fr] index_callback_scan [OF fr] index_of_def)
  have cap: "int (length (off_entries ?sample base bs)) \<le> idx_cap cfg"
    using index_fits [of ?sample "SegmentMaxBytes cfg" bs base] cfg lok
    by (simp add: cfg_ok_def idx_cap_def log_ok_def)
  have tcap: "int (length (time_entries ?sample base bs)) \<le> idx_cap cfg"
    using cap index_budget [of ?sample base bs] cfg by (simp add: cfg_ok_def)
  obtain oi' where oi': "OffsetIndex_Rebuild (off_entries ?sample base bs) oi = (None, oi')"
    "OffsetIndex_ok oi'" "OffsetIndex_entries oi' = off_entries ?sample base bs" "oi_maxEntries oi' = idx_cap cfg"
    using oix.rebuild_entries [of oi "off_entries ?sample base bs"] cap oi index_entries_fit(1)
    by (auto simp: fresh_offset_index_def)
  obtain ti' where ti': "TimeIndex_Rebuild (time_entries ?sample base bs) ti = (None, ti')"
    "TimeIndex_ok ti'" "TimeIndex_entries ti' = time_entries ?sample base bs" "ti_maxEntries ti' = idx_cap cfg"
    using tix.rebuild_entries [of ti "time_entries ?sample base bs"] tcap ti index_entries_fit(2)
    by (auto simp: fresh_time_index_def)
  have "fill_indexes cfg l base oi ti = Inr (oi', ti', since_index ?sample base bs)"
    unfolding fill_indexes_def scan using oi'(1) ti'(1)
    by (simp add: scan_panic_def split_beta)
  then show ?thesis
    using oi' ti' OffsetIndex_Rebuild_flags [OF oi'(1)] TimeIndex_Rebuild_flags [OF ti'(1)] assms
    by (simp add: seg_active_def seg_ok_def fresh_offset_index_def fresh_time_index_def log_file_ok_def)
qed

lemma rebuildSegmentIndexes_ok:
  assumes os: "os_ok os" and cfg: "cfg_ok cfg" and l: "log_file_ok (seg_log s) bs" "\<not> readonly (seg_log s)"
    and lok: "log_ok (SegmentMaxBytes cfg) (seg_baseOffset s) bs"
    and idx: "oi_open (offsetIdx s)" "ti_open (timeIdx s)" "\<not> sealed s"
  shows "\<exists>s'. rebuildSegmentIndexes os cfg s = (None, s') \<and> seg_active cfg s' bs \<and>
    seg_baseOffset s' = seg_baseOffset s"
proof -
  obtain oi where oi: "OpenOffsetIndex os None (seg_baseOffset s) (SegmentMaxBytes cfg) (IndexSampleBytes cfg) = Inr oi"
    "fresh_offset_index cfg oi" using open_fresh_indexes [OF os cfg] by blast
  obtain ti where ti: "OpenTimeIndex os None (seg_baseOffset s) (SegmentMaxBytes cfg) (IndexSampleBytes cfg) = Inr ti"
    "fresh_time_index cfg ti" using open_fresh_indexes [OF os cfg] by blast
  obtain oi' ti' since where f: "fill_indexes cfg (seg_log s) (seg_baseOffset s) oi ti = Inr (oi', ti', since)"
    "seg_active cfg \<lparr>seg_log = seg_log s, offsetIdx = oi', timeIdx = ti', seg_baseOffset = seg_baseOffset s,
      sealed = False, bytesSinceLastIndex = since\<rparr> bs"
    using fill_indexes_ok [OF cfg l(1) lok oi(2) ti(2) l(2)] by blast
  obtain oc where oc: "OffsetIndex_Close os (offsetIdx s) = (None, oc)"
    using os idx by (simp add: OffsetIndex_Close_def Let_def)
  obtain tc where tc: "TimeIndex_Close os (timeIdx s) = (None, tc)"
    using os idx by (simp add: TimeIndex_Close_def Let_def)
  show ?thesis
    using f oi ti oc tc idx
    by (simp add: rebuildSegmentIndexes_def Let_def seg_active_def seg_ok_def)
qed

lemma findBytePos_loop_ok:
  assumes "ls_open l" "ls_file l = pre @ concat bs" "logSize = int (length (ls_file l))"
    "list_all wf_batch bs" "chain base bs" "bs = xs @ b # ys" "off = boff b"
  shows "findBytePos_loop l logSize off (int (length pre)) = int (length pre + length (concat xs))"
  using assms
proof (induction xs arbitrary: bs base pre)
  case Nil
  then have "framed b" by (simp add: wf_batch_framed)
  note fl = framed_length [OF this]
  have h: "LogSegment_ReadAt l (int (length pre)) 12 = Inr (take 12 b)"
    by (rule ReadAt_header [of l pre b "concat ys"]) (use Nil fl in simp_all)
  have "int64 (be_int (slc (take 12 b) 0 8)) = off" using Nil by (simp add: slc_take boff_def)
  moreover have "int (length pre) < logSize" using Nil fl by simp
  ultimately show ?case by (subst findBytePos_loop.simps) (simp add: h)
next
  case (Cons x xs)
  then have fr: "framed x" by (simp add: wf_batch_framed)
  note fl = framed_length [OF fr]
  have h: "LogSegment_ReadAt l (int (length pre)) 12 = Inr (take 12 x)"
    by (rule ReadAt_header [of l pre x "concat (xs @ b # ys)"]) (use Cons.prems fl in simp_all)
  have "bend x \<le> boff b" using chain_bend [of base "x # xs" b ys] Cons.prems by simp
  moreover have "boff x < bend x" using Cons.prems by (simp add: bend_def wf_batch_def)
  ultimately have ne: "int64 (be_int (slc (take 12 x) 0 8)) \<noteq> off"
    using Cons.prems by (simp add: slc_take boff_def)
  have bl: "be_int (slc (take 12 x) 8 12) = int (length x)" using fr by (simp add: slc_take framed_def)
  have lt: "int (length pre) < logSize" using Cons.prems fl by simp
  have "findBytePos_loop l logSize off (int (length (pre @ x))) = int (length (pre @ x) + length (concat xs))"
    by (rule Cons.IH [of _ "xs @ b # ys" "base + bcount x"]) (use Cons.prems in simp_all)
  then show ?case
    by (subst findBytePos_loop.simps) (use lt ne bl fl in \<open>simp add: h Let_def\<close>)
qed

lemma findBytePosForOffset_ok:
  assumes "seg_ok cfg s bs" "bs = xs @ b # ys"
  shows "findBytePosForOffset s (boff b) = int (length (concat xs))"
proof (cases "boff b = seg_baseOffset s")
  case True
  have l: "log_ok (SegmentMaxBytes cfg) (seg_baseOffset s) (xs @ b # ys)" using assms by (simp add: seg_ok_def)
  have "xs = []"
    using wf_log_end(3) [OF log_ok_split(2) [OF l], of "seg_baseOffset s"] log_ok_split(1) [OF l] True by force
  then show ?thesis using True by (simp add: findBytePosForOffset_def)
next
  case False
  then show ?thesis
    using findBytePos_loop_ok [of "seg_log s" "[]" bs "logSizeVal (seg_log s)" "seg_baseOffset s" xs b ys] assms
    by (simp add: findBytePosForOffset_def seg_ok_def log_ok_def)
qed

section \<open>The CRC scan\<close>

definition crc_ok :: "bytes \<Rightarrow> bool" where
  "crc_ok b \<longleftrightarrow> uint (crc32c (drop 38 b)) = be_int (slc b 16 20)"

text \<open>A tail no complete batch can be read from; what an interrupted write leaves behind.\<close>

definition torn :: "bytes \<Rightarrow> bool" where
  "torn t \<longleftrightarrow> length t < 38 \<or> be_int (slc t 8 12) < 38 \<or> be_int (slc t 8 12) > int (length t)"

lemma torn_prefix:
  assumes "framed b" "prefix t b" "t \<noteq> b"
  shows "torn t"
proof (cases "length t < 38")
  case False
  obtain u where u: "b = t @ u" "u \<noteq> []" using assms(2,3) by (auto simp: prefix_def)
  then have "slc t 8 12 = slc b 8 12" using False by (simp add: slc_append1)
  then show ?thesis using assms(1) u by (simp add: torn_def framed_def)
qed (simp add: torn_def)

lemma pread_append: "pread (pre @ xs) (int (length pre)) n = pread xs 0 n"
  by (simp add: pread_def slc_def)

lemma scanActiveLog_loop_step:
  assumes "wf_batch b" "crc_ok b" "boff b = base" "0 \<le> base" "base + bcount b < 2 ^ 63"
  shows "scanActiveLog_loop (pre @ b @ post) (int (length pre)) base =
    scanActiveLog_loop (pre @ b @ post) (int (length pre) + int (length b)) (base + bcount b)"
proof -
  let ?f = "pre @ b @ post"
  have fr: "framed b" using assms by (simp add: wf_batch_framed)
  note fl = framed_length [OF fr]
  have hdr: "pread ?f (int (length pre)) 38 = take 38 b"
    using fl by (simp add: pread_append) (simp add: pread_def slc_def)
  have recs: "pread ?f (int (length pre) + 38) (int (length b) - 38) = drop 38 b"
  proof -
    have "nat (int (length pre) + 38) = length pre + 38" by simp
    then show ?thesis using fl by (simp add: pread_def slc_def)
  qed
  have e: "int64 (int64 (be_int (slc b 0 8)) + be_int (slc b 12 16)) = base + bcount b"
    unfolding boff_def [symmetric] bcount_def [symmetric]
    using assms by (simp add: int64_id in_int64_def wf_batch_def)
  have flds: "be_int (slc (take 38 b) 8 12) = int (length b)" "slc (take 38 b) 16 20 = slc b 16 20"
    "slc (take 38 b) 12 16 = slc b 12 16" "slc (take 38 b) 0 8 = slc b 0 8"
    using fr by (simp_all add: slc_take framed_def)
  have crc: "uint (crc32c (drop 38 b)) = be_int (slc b 16 20)" using assms by (simp add: crc_ok_def)
  show ?thesis
    by (subst scanActiveLog_loop.simps) (use fl crc in \<open>simp add: hdr recs flds e Let_def\<close>)
qed

lemma scanActiveLog_loop_ok:
  assumes "list_all wf_batch bs" "list_all crc_ok bs" "chain base bs" "0 \<le> base"
    "log_end base bs < 2 ^ 63" "torn tail"
  shows "scanActiveLog_loop (pre @ concat bs @ tail) (int (length pre)) base =
    (int (length pre + length (concat bs)), log_end base bs, 0)"
  using assms
proof (induction bs arbitrary: pre base)
  case Nil
  have hdr: "pread (pre @ tail) (int (length pre)) 38 = take 38 tail"
    by (simp add: pread_def slc_def)
  have bl: "slc (take 38 tail) 8 12 = slc tail 8 12" by (rule slc_take) simp
  show ?case
  proof (cases "length tail < 38")
    case True
    then show ?thesis by (subst scanActiveLog_loop.simps) (simp add: hdr Let_def)
  next
    case False
    then have "be_int (slc tail 8 12) < 38 \<or> be_int (slc tail 8 12) > int (length tail)"
      using Nil by (simp add: torn_def)
    then show ?thesis using False by (subst scanActiveLog_loop.simps) (auto simp: hdr bl Let_def)
  qed
next
  case (Cons b bs)
  have "scanActiveLog_loop ((pre @ b) @ concat bs @ tail) (int (length (pre @ b))) (base + bcount b) =
      (int (length (pre @ b) + length (concat bs)), log_end (base + bcount b) bs, 0)"
    by (rule Cons.IH) (use Cons.prems in \<open>simp_all add: wf_batch_def\<close>)
  moreover have "scanActiveLog_loop (pre @ b @ concat bs @ tail) (int (length pre)) base =
      scanActiveLog_loop (pre @ b @ concat bs @ tail) (int (length pre) + int (length b)) (base + bcount b)"
    by (rule scanActiveLog_loop_step) (use Cons.prems wf_log_end(1) [of bs "base + bcount b"] in simp_all)
  ultimately show ?case by simp
qed

text \<open>A batch whose checksum does not match ends the scan, and counts as a CRC error.\<close>

lemma scanActiveLog_loop_corrupt:
  assumes "list_all wf_batch bs" "list_all crc_ok bs" "chain base bs" "0 \<le> base"
    "log_end base bs < 2 ^ 63" "framed b" "\<not> crc_ok b"
  shows "scanActiveLog_loop (pre @ concat bs @ b @ rest) (int (length pre)) base =
    (int (length pre + length (concat bs)), log_end base bs, 1)"
  using assms
proof (induction bs arbitrary: pre base)
  case Nil
  note fl = framed_length [OF Nil(6)]
  let ?f = "pre @ b @ rest"
  have hdr: "pread ?f (int (length pre)) 38 = take 38 b" using fl by (simp add: pread_def slc_def)
  have recs: "pread ?f (int (length pre) + 38) (int (length b) - 38) = drop 38 b"
  proof -
    have "nat (int (length pre) + 38) = length pre + 38" by simp
    then show ?thesis using fl by (simp add: pread_def slc_def)
  qed
  have flds: "be_int (slc (take 38 b) 8 12) = int (length b)" "slc (take 38 b) 16 20 = slc b 16 20"
    using Nil(6) by (simp_all add: slc_take framed_def)
  show ?case
    by (simp, subst scanActiveLog_loop.simps)
      (use fl Nil(7) in \<open>simp add: hdr recs flds Let_def crc_ok_def\<close>)
next
  case (Cons c bs)
  have "scanActiveLog_loop ((pre @ c) @ concat bs @ b @ rest) (int (length (pre @ c))) (base + bcount c) =
      (int (length (pre @ c) + length (concat bs)), log_end (base + bcount c) bs, 1)"
    by (rule Cons.IH) (use Cons.prems in \<open>simp_all add: wf_batch_def\<close>)
  moreover have "scanActiveLog_loop (pre @ c @ concat bs @ b @ rest) (int (length pre)) base =
      scanActiveLog_loop (pre @ c @ concat bs @ b @ rest) (int (length pre) + int (length c)) (base + bcount c)"
    by (rule scanActiveLog_loop_step) (use Cons.prems wf_log_end(1) [of bs "base + bcount c"] in simp_all)
  ultimately show ?case by simp
qed

text \<open>The active segment after a crash: the complete batches survive, the torn tail is cut off.\<close>

lemma recover_active_ok:
  assumes os: "os_ok os" and cfg: "cfg_ok cfg"
    and lok: "log_ok (SegmentMaxBytes cfg) base bs" and crc: "list_all crc_ok bs" and tail: "torn tail"
    and f: "map_of dir (segmentBasePath base @ ''.log'') = Some (concat bs @ tail)"
  shows "\<exists>s. recover_active os dir cfg (segmentBasePath base @ ''.log'') = Inr (s, log_end base bs, 0) \<and>
    seg_active cfg s bs \<and> seg_baseOffset s = base"
proof -
  have base: "0 \<le> base" "base < 2 ^ 63"
    using lok wf_log_end(1) [of bs base] by (auto simp: log_ok_def)
  have name: "parse_segment_name (segmentBasePath base @ ''.log'') = Inr base"
    using ParseInt_format_020 [OF base] by (simp add: parse_segment_name_def segmentBasePath_def)
  have scan: "scanActiveLog os (Some (concat bs @ tail)) base = Inr (int (length (concat bs)), log_end base bs, 0)"
    using scanActiveLog_loop_ok [of bs base tail "[]"] lok crc tail os
    by (simp add: scanActiveLog_def log_ok_def)
  have tr: "resize (length (concat bs)) (concat bs @ tail) = concat bs" by (simp add: resize_def)
  obtain oi where oi: "OpenOffsetIndex os None base (SegmentMaxBytes cfg) (IndexSampleBytes cfg) = Inr oi"
    "fresh_offset_index cfg oi" using open_fresh_indexes [OF os cfg] by blast
  obtain ti where ti: "OpenTimeIndex os None base (SegmentMaxBytes cfg) (IndexSampleBytes cfg) = Inr ti"
    "fresh_time_index cfg ti" using open_fresh_indexes [OF os cfg] by blast
  let ?l = "\<lparr>ls_file = concat bs, ls_open = True, logSizeVal = int (length (concat bs)),
      ls_baseOffset = base, readonly = False\<rparr>"
  have ol: "OpenLogSegment os (Some (concat bs)) base True = Inr ?l"
    using os by (simp add: OpenLogSegment_def)
  have lf: "log_file_ok ?l bs" by (simp add: log_file_ok_def)
  obtain oi' ti' since where fi: "fill_indexes cfg ?l base oi ti = Inr (oi', ti', since)"
    "seg_active cfg \<lparr>seg_log = ?l, offsetIdx = oi', timeIdx = ti', seg_baseOffset = base,
      sealed = False, bytesSinceLastIndex = since\<rparr> bs"
    using fill_indexes_ok [OF cfg lf lok oi(2) ti(2)] by auto
  show ?thesis
    unfolding recover_active_def name f
    using scan tr oi(1) ti(1) ol fi os by (simp add: Let_def del: length_concat)
qed

text \<open>A sealed segment comes back as it was written.\<close>

definition sealed_on_disk :: "directory \<Rightarrow> SegmentStorage \<Rightarrow> bool" where
  "sealed_on_disk dir g \<longleftrightarrow>
     map_of dir (segmentBasePath (seg_baseOffset g) @ ''.log'') = Some (ls_file (seg_log g)) \<and>
     map_of dir (segmentBasePath (seg_baseOffset g) @ ''.index'') = Some (oi_data (offsetIdx g)) \<and>
     map_of dir (segmentBasePath (seg_baseOffset g) @ ''.timeindex'') = Some (ti_data (timeIdx g))"

lemma OpenSegmentStorage_sealed:
  assumes os: "os_ok os" and g: "seg_sealed cfg g bs" and d: "sealed_on_disk dir g"
  shows "\<exists>g'. OpenSegmentStorage os (map_of dir) (seg_baseOffset g) cfg True = Inr g' \<and>
    seg_sealed cfg g' bs \<and> seg_baseOffset g' = seg_baseOffset g"
proof -
  have ok: "seg_ok cfg g bs" using g by (simp add: seg_sealed_def)
  obtain oi where oi: "openOffsetIndexReadOnly os (Some (oi_data (offsetIdx g))) (seg_baseOffset g) = Inr oi"
    "OffsetIndex_ok oi" "OffsetIndex_entries oi = OffsetIndex_entries (offsetIdx g)" "oi_open oi"
    "oi_data oi = oi_data (offsetIdx g)" "oi_entryCount oi = oi_entryCount (offsetIdx g)"
    using openOffsetIndexReadOnly_sealed [OF os, of "offsetIdx g" "seg_baseOffset g"] g ok
    by (auto simp: seg_sealed_def seg_ok_def)
  obtain ti where ti: "openTimeIndexReadOnly os (Some (ti_data (timeIdx g))) (seg_baseOffset g) = Inr ti"
    "TimeIndex_ok ti" "TimeIndex_entries ti = TimeIndex_entries (timeIdx g)" "ti_open ti"
    "ti_data ti = ti_data (timeIdx g)" "ti_entryCount ti = ti_entryCount (timeIdx g)"
    using openTimeIndexReadOnly_sealed [OF os, of "timeIdx g" "seg_baseOffset g"] g ok
    by (auto simp: seg_sealed_def seg_ok_def)
  show ?thesis
    using oi ti g ok d os
    by (simp add: OpenSegmentStorage_def Let_def OpenLogSegment_def sealed_on_disk_def seg_sealed_def seg_ok_def)
qed

lemma open_sealed_ok:
  assumes "os_ok os" "list_all2 (seg_sealed cfg) gs bss" "list_all (sealed_on_disk dir) gs"
    "\<forall>g\<in>set gs. 0 \<le> seg_baseOffset g \<and> seg_baseOffset g < 2 ^ 63"
  shows "\<exists>gs'. open_sealed os dir cfg (map (\<lambda>g. segmentBasePath (seg_baseOffset g) @ ''.log'') gs) = Inr gs' \<and>
    list_all2 (seg_sealed cfg) gs' bss \<and> map seg_baseOffset gs' = map seg_baseOffset gs"
  using assms(2-)
proof (induction gs bss rule: list_all2_induct)
  case (Cons g gs bs bss)
  obtain gs' where gs': "open_sealed os dir cfg (map (\<lambda>g. segmentBasePath (seg_baseOffset g) @ ''.log'') gs) = Inr gs'"
    "list_all2 (seg_sealed cfg) gs' bss" "map seg_baseOffset gs' = map seg_baseOffset gs"
    using Cons by auto
  obtain g' where g': "OpenSegmentStorage os (map_of dir) (seg_baseOffset g) cfg True = Inr g'"
    "seg_sealed cfg g' bs" "seg_baseOffset g' = seg_baseOffset g"
    using OpenSegmentStorage_sealed [OF assms(1) Cons.hyps(1)] Cons.prems by auto
  have "parse_segment_name (segmentBasePath (seg_baseOffset g) @ ''.log'') = Inr (seg_baseOffset g)"
    using ParseInt_format_020 Cons.prems by (simp add: parse_segment_name_def segmentBasePath_def)
  then show ?case using gs' g' by simp
qed simp

end
