(* ===== verification/Storage.thy ===== *)
theory Storage
  imports Recovery
begin

text \<open>
  \<open>internal/storage/storage.go\<close> and \<open>retention.go\<close>: the storage of one partition replica.
  The record owns the segments and, in \<open>st_dir\<close>, the files of the directory that belong to no
  open segment.  The channel that the next append closes is modelled by its number: \<open>newDataCh\<close>
  is the current channel, and every channel with a smaller number has been closed.
\<close>

record storageImpl =
  segments :: "SegmentStorage list"
  nextOffset :: int
  newDataCh :: nat
  retentionMs :: int
  retentionBytes :: int
  st_closed :: bool
  st_dir :: "string \<Rightarrow> bytes option"

section \<open>Opening\<close>

definition segment_names :: "int \<Rightarrow> string list" where
  "segment_names off =
     (let base = segmentBasePath off in [base @ ''.log'', base @ ''.index'', base @ ''.timeindex''])"

definition Storage_Open ::
    "os_env \<Rightarrow> directory \<Rightarrow> StorageConfig \<Rightarrow> go_error + storageImpl" where
  "Storage_Open os dir cfg =
     (case recoverStorage os dir cfg of
        Inl e \<Rightarrow> Inl e
      | Inr (segs, nxt, crcErrors) \<Rightarrow>
          Inr \<lparr>segments = segs, nextOffset = nxt, newDataCh = 0,
               retentionMs = DefaultRetentionMs cfg, retentionBytes = DefaultRetentionBytes cfg,
               st_closed = False,
               st_dir = (\<lambda>n. if \<exists>g\<in>set segs. n \<in> set (segment_names (seg_baseOffset g))
                              then None else map_of dir n)\<rparr>)"

section \<open>Appending\<close>

definition set_active :: "SegmentStorage \<Rightarrow> storageImpl \<Rightarrow> storageImpl" where
  "set_active g s = s\<lparr>segments := butlast (segments s) @ [g]\<rparr>"

definition Storage_roll ::
    "os_env \<Rightarrow> StorageConfig \<Rightarrow> storageImpl \<Rightarrow> go_error option \<times> storageImpl" where
  "Storage_roll os cfg s =
     (case SegmentStorage_Seal os (last (segments s)) of
        (Some e, g) \<Rightarrow> (Some e, set_active g s)
      | (None, g) \<Rightarrow>
          (let s1 = set_active g s
           in (case NewSegmentStorage os (st_dir s1) (nextOffset s1) cfg of
                 Inl e \<Rightarrow> (Some e, s1)
               | Inr newSeg \<Rightarrow> (None, s1\<lparr>segments := segments s1 @ [newSeg]\<rparr>))))"

definition Storage_Append ::
    "os_env \<Rightarrow> StorageConfig \<Rightarrow> bytes \<Rightarrow> storageImpl \<Rightarrow> (go_error + int) \<times> storageImpl" where
  "Storage_Append os cfg batch s =
     (if st_closed s then (Inl (StorageE ErrStorageClosed), s)
      else let baseOffset = nextOffset s
           in if length batch < 8 then (Inl (GoPanic ''slice bounds out of range''), s)
              else if segments s = [] then (Inl (GoPanic ''index out of range''), s)
              else
     (let batch = overwrite batch 0 (be_bytes 8 baseOffset)
      in (case SegmentStorage_Append os cfg batch (last (segments s)) of
            (Inl e, g) \<Rightarrow> (Inl e, set_active g s)
          | (Inr _, g) \<Rightarrow>
              (let recordCount = be_int (slc batch 12 16);
                   s1 = (set_active g s)\<lparr>nextOffset := int64 (nextOffset s + recordCount)\<rparr>
               in (case (if SegmentStorage_LogSize (last (segments s1)) \<ge> SegmentMaxBytes cfg
                         then Storage_roll os cfg s1 else (None, s1)) of
                     (Some e, s2) \<Rightarrow> (Inl e, s2)
                   | (None, s2) \<Rightarrow>
                       (Inr baseOffset, s2\<lparr>newDataCh := Suc (newDataCh s2)\<rparr>))))))"

section \<open>Reading\<close>

text \<open>The last segment whose base offset is at most \<open>offset\<close>, by binary search.\<close>

function Read_find :: "SegmentStorage list \<Rightarrow> int \<Rightarrow> int \<Rightarrow> int \<Rightarrow> int" where
  "Read_find segs offset lo hi =
     (if lo < hi
      then let mid = go_div (lo + hi + 1) 2
           in if SegmentStorage_BaseOffset (segs ! nat mid) \<le> offset
              then Read_find segs offset mid hi
              else Read_find segs offset lo (mid - 1)
      else lo)"
  by pat_completeness auto
termination
proof (relation "measure (\<lambda>(segs, off, lo, hi). nat (hi - lo))")
  have b: "lo < go_div (lo + hi + 1) 2" "go_div (lo + hi + 1) 2 \<le> hi" if "lo < hi" for lo hi
    using go_div2_between [of "lo + 1" hi] that by (simp_all add: algebra_simps)
  fix segs offset lo hi mid
  assume "lo < hi" "mid = go_div (lo + hi + 1) 2"
  then show "((segs, offset, mid, hi), segs, offset, lo, hi) \<in> measure (\<lambda>(segs, off, lo, hi). nat (hi - lo))"
    and "((segs, offset, lo, mid - 1), segs, offset, lo, hi) \<in> measure (\<lambda>(segs, off, lo, hi). nat (hi - lo))"
    using b [of lo hi] by auto
qed simp

declare Read_find.simps [simp del]

definition Storage_Read :: "storageImpl \<Rightarrow> int \<Rightarrow> int \<Rightarrow> go_error + (bytes \<times> int)" where
  "Storage_Read s offset maxBytes =
     (let segs = segments s
      in if length segs = 0 then Inr ([], offset)
         else if offset < SegmentStorage_BaseOffset (segs ! 0) then Inl (StorageE ErrOffsetOutOfRange)
         else if offset \<ge> nextOffset s then Inr ([], offset)
         else let lo = Read_find segs offset 0 (int (length segs) - 1)
              in SegmentStorage_Read (segs ! nat lo) offset maxBytes)"

fun ReadByTime_loop :: "SegmentStorage list \<Rightarrow> int \<Rightarrow> int \<Rightarrow> go_error + (bytes \<times> int)" where
  "ReadByTime_loop [] timestampMs maxBytes = Inl (StorageE ErrTimestampNotFound)"
| "ReadByTime_loop (seg # segs) timestampMs maxBytes =
     (case SegmentStorage_ReadByTime seg timestampMs maxBytes of
        Inl e \<Rightarrow> if e = StorageE ErrTimestampNotFound then ReadByTime_loop segs timestampMs maxBytes
                 else Inl e
      | Inr (data, next) \<Rightarrow>
          if data \<noteq> [] then Inr (data, next) else ReadByTime_loop segs timestampMs maxBytes)"

definition Storage_ReadByTime :: "storageImpl \<Rightarrow> int \<Rightarrow> int \<Rightarrow> go_error + (bytes \<times> int)" where
  "Storage_ReadByTime s timestampMs maxBytes = ReadByTime_loop (segments s) timestampMs maxBytes"

definition Storage_EarliestOffset :: "storageImpl \<Rightarrow> int" where
  "Storage_EarliestOffset s =
     (if length (segments s) = 0 then 0 else SegmentStorage_BaseOffset (segments s ! 0))"

definition Storage_LatestOffset :: "storageImpl \<Rightarrow> int" where
  "Storage_LatestOffset s = nextOffset s"

definition Storage_NewDataCh :: "storageImpl \<Rightarrow> nat" where
  "Storage_NewDataCh s = newDataCh s"

definition channel_closed :: "storageImpl \<Rightarrow> nat \<Rightarrow> bool" where
  "channel_closed s ch \<longleftrightarrow> ch < newDataCh s"

definition Storage_SetRetentionConfig :: "int \<Rightarrow> int \<Rightarrow> storageImpl \<Rightarrow> storageImpl" where
  "Storage_SetRetentionConfig ms by s = s\<lparr>retentionMs := ms, retentionBytes := by\<rparr>"

definition Storage_Sync :: "os_env \<Rightarrow> storageImpl \<Rightarrow> go_error option" where
  "Storage_Sync os s =
     (if segments s = [] then Some (GoPanic ''index out of range'')
      else LogSegment_Sync os (seg_log (last (segments s))))"

section \<open>Truncating\<close>

text \<open>The search runs down from the last segment; \<open>n\<close> counts the segments still considered.\<close>

fun Truncate_find :: "SegmentStorage list \<Rightarrow> int \<Rightarrow> nat \<Rightarrow> nat" where
  "Truncate_find segs offset 0 = 0"
| "Truncate_find segs offset (Suc lo) =
     (if SegmentStorage_BaseOffset (segs ! Suc lo) > offset then Truncate_find segs offset lo
      else Suc lo)"

text \<open>Reopening a sealed segment's log for writing.\<close>

definition reopen_log ::
    "os_env \<Rightarrow> SegmentStorage \<Rightarrow> go_error option \<times> SegmentStorage" where
  "reopen_log os g =
     (if \<not> sealed g then (None, g)
      else (case LogSegment_Close os (seg_log g) of
              (Some e, log) \<Rightarrow> (Some e, g\<lparr>seg_log := log\<rparr>)
            | (None, log) \<Rightarrow>
                (case OpenLogSegment os (Some (ls_file log)) (seg_baseOffset g) True of
                   Inl e \<Rightarrow> (Some e, g\<lparr>seg_log := log\<rparr>)
                 | Inr newLog \<Rightarrow> (None, g\<lparr>seg_log := newLog, sealed := False\<rparr>))))"

definition Storage_TruncateTo ::
    "os_env \<Rightarrow> StorageConfig \<Rightarrow> int \<Rightarrow> storageImpl \<Rightarrow> go_error option \<times> storageImpl" where
  "Storage_TruncateTo os cfg offset s =
     (if offset = nextOffset s then (None, s)
      else if offset > nextOffset s then (Some (NewError ''TruncateTo > LatestOffset''), s)
      else let segs = segments s
           in if length segs = 0 then (None, s)
              else
     (let lo = Truncate_find segs offset (length segs - 1);
          s1 = s\<lparr>segments := take (lo + 1) segs\<rparr>
      in (case reopen_log os (segs ! lo) of
            (Some e, g) \<Rightarrow> (Some e, set_active g s1)
          | (None, g) \<Rightarrow>
         (case LogSegment_Truncate os (findBytePosForOffset g offset) (seg_log g) of
            (Some e, log) \<Rightarrow> (Some e, set_active (g\<lparr>seg_log := log\<rparr>) s1)
          | (None, log) \<Rightarrow>
         (case rebuildSegmentIndexes os cfg (g\<lparr>seg_log := log\<rparr>) of
            (Some e, g) \<Rightarrow> (Some e, set_active g s1)
          | (None, g) \<Rightarrow> (None, (set_active g s1)\<lparr>nextOffset := offset\<rparr>))))))"

section \<open>Closing\<close>

fun Close_loop ::
    "os_env \<Rightarrow> SegmentStorage list \<Rightarrow> go_error option \<Rightarrow> go_error option \<times> SegmentStorage list" where
  "Close_loop os [] firstErr = (firstErr, [])"
| "Close_loop os (seg # segs) firstErr =
     (let (e1, seg1) = (if segs = [] \<and> \<not> sealed seg then SegmentStorage_Seal os seg else (None, seg));
          err1 = (if firstErr = None then e1 else firstErr);
          (e2, seg2) = SegmentStorage_Close os seg1;
          err2 = (if err1 = None then e2 else err1);
          (err, segs') = Close_loop os segs err2
      in (err, seg2 # segs'))"

definition Storage_Close :: "os_env \<Rightarrow> storageImpl \<Rightarrow> go_error option \<times> storageImpl" where
  "Storage_Close os s =
     (if st_closed s then (None, s)
      else let (err, segs) = Close_loop os (segments s) None
           in (err, s\<lparr>st_closed := True, segments := segs\<rparr>))"

section \<open>Retention\<close>

datatype reason = Keep | ByBytes | ByTime

definition firstBatchTimestamp :: "SegmentStorage \<Rightarrow> go_error + int" where
  "firstBatchTimestamp seg =
     (case LogSegment_ReadAt (seg_log seg) 0 38 of
        Inl e \<Rightarrow> Inl (Wrapped ''read batch header'' e)
      | Inr header \<Rightarrow> Inr (int64 (be_int (slc header 22 30))))"

fun mark_bytes :: "SegmentStorage list \<Rightarrow> int \<Rightarrow> int \<Rightarrow> reason list" where
  "mark_bytes [] tot limit = []"
| "mark_bytes (seg # segs) tot limit =
     (if tot > limit
      then ByBytes # mark_bytes segs (tot - SegmentStorage_LogSize seg) limit
      else Keep # map (\<lambda>_. Keep) segs)"

fun mark_time :: "SegmentStorage list \<Rightarrow> reason list \<Rightarrow> int \<Rightarrow> reason list" where
  "mark_time (seg # next # segs) (r # rs) bound =
     (if r \<noteq> Keep then r
      else (case firstBatchTimestamp next of
              Inl e \<Rightarrow> Keep
            | Inr ts \<Rightarrow> if ts < bound then ByTime else Keep)) # mark_time (next # segs) rs bound"
| "mark_time segs rs bound = rs"

definition retention_reasons :: "int \<Rightarrow> int \<Rightarrow> int \<Rightarrow> SegmentStorage list \<Rightarrow> reason list" where
  "retention_reasons nowMs retMs retBytes segs =
     (let sealedSegs = butlast segs;
          reasons = (if retBytes \<ge> 0
                     then mark_bytes sealedSegs (sum_list (map SegmentStorage_LogSize segs)) retBytes
                     else map (\<lambda>_. Keep) sealedSegs)
      in if retMs > 0 then mark_time segs reasons (nowMs - retMs) else reasons)"

definition Storage_EnforceRetention ::
    "int \<Rightarrow> int \<Rightarrow> int \<Rightarrow> storageImpl \<Rightarrow> int \<times> storageImpl" where
  "Storage_EnforceRetention nowMs retMs retBytes s =
     (let segs = segments s
      in if length segs \<le> 1 then (0, s)
         else let reasons = retention_reasons nowMs retMs retBytes segs
              in (int (length (filter (\<lambda>r. r \<noteq> Keep) reasons)),
                  s\<lparr>segments := map fst (filter (\<lambda>(g, r). r = Keep) (zip (butlast segs) reasons))
                               @ [last segs]\<rparr>))"

text \<open>One tick of the background loop: the configured limits applied.\<close>

definition retention_tick :: "int \<Rightarrow> storageImpl \<Rightarrow> storageImpl" where
  "retention_tick nowMs s = snd (Storage_EnforceRetention nowMs (retentionMs s) (retentionBytes s) s)"

end
