(* ===== verification/StorageLog.thy ===== *)
theory StorageLog
  imports Storage
begin

text \<open>
  The storage invariant and the abstract log of a partition.  \<open>storage_log\<close> reads the log
  files back as the list of batches they hold; \<open>storage_inv\<close> says that the segments are
  ordered, sealed but for the last, indexed exactly, and that \<open>nextOffset\<close> is where the last
  one ends.  \<open>Append\<close> refines appending one batch to this list.
\<close>

section \<open>The storage invariant\<close>

text \<open>The batches of a log file, read off its length fields.\<close>

function parse_log :: "bytes \<Rightarrow> bytes list" where
  "parse_log f =
     (let n = nat (be_int (slc f 8 12))
      in if length f < 12 \<or> n < 12 \<or> n > length f then []
         else take n f # parse_log (drop n f))"
  by pat_completeness auto
termination
  by (relation "measure length") auto

declare parse_log.simps [simp del]

lemma parse_log_concat: "list_all framed bs \<Longrightarrow> parse_log (concat bs) = bs"
proof (induction bs)
  case Nil
  then show ?case by (simp add: parse_log.simps)
next
  case (Cons b bs)
  have fr: "framed b" using Cons.prems by simp
  note fl = framed_length(1) [OF fr]
  have "be_int (slc (b @ concat bs) 8 12) = int (length b)"
    using fr fl by (simp add: slc_append1 framed_def)
  then show ?case using Cons fl by (subst parse_log.simps) (simp add: Let_def)
qed

definition seg_batches :: "SegmentStorage \<Rightarrow> bytes list" where
  "seg_batches g = parse_log (ls_file (seg_log g))"

definition seg_end :: "SegmentStorage \<Rightarrow> int" where
  "seg_end g = log_end (seg_baseOffset g) (seg_batches g)"

lemma seg_ok_batches: "seg_ok cfg g bs \<Longrightarrow> seg_batches g = bs"
  using log_ok_framed parse_log_concat by (auto simp: seg_ok_def seg_batches_def)

lemma seg_active_batches: "seg_active cfg g bs \<Longrightarrow> seg_batches g = bs"
  by (auto simp: seg_active_def dest: seg_ok_batches)

lemma seg_sealed_batches: "seg_sealed cfg g bs \<Longrightarrow> seg_batches g = bs"
  by (auto simp: seg_sealed_def dest: seg_ok_batches)

text \<open>The abstract log: every batch the storage holds, oldest first.\<close>

definition storage_log :: "storageImpl \<Rightarrow> bytes list" where
  "storage_log s = concat (map seg_batches (segments s))"

definition sealed_ok :: "StorageConfig \<Rightarrow> SegmentStorage \<Rightarrow> bool" where
  "sealed_ok cfg g \<longleftrightarrow> seg_sealed cfg g (seg_batches g) \<and> seg_batches g \<noteq> []"

definition active_ok :: "StorageConfig \<Rightarrow> SegmentStorage \<Rightarrow> bool" where
  "active_ok cfg g \<longleftrightarrow>
     seg_active cfg g (seg_batches g) \<and> SegmentStorage_LogSize g < SegmentMaxBytes cfg"

text \<open>No file outside the open segments has the name of a segment file.\<close>

definition no_stray_files :: "storageImpl \<Rightarrow> bool" where
  "no_stray_files s \<longleftrightarrow> (\<forall>off. \<forall>n \<in> set (segment_names off). st_dir s n = None)"

definition storage_inv :: "StorageConfig \<Rightarrow> storageImpl \<Rightarrow> bool" where
  "storage_inv cfg s \<longleftrightarrow>
     segments s \<noteq> [] \<and> list_all (sealed_ok cfg) (butlast (segments s)) \<and>
     active_ok cfg (last (segments s)) \<and>
     sorted_wrt (\<lambda>g h. seg_end g \<le> seg_baseOffset h) (segments s) \<and>
     nextOffset s = seg_end (last (segments s)) \<and> \<not> st_closed s \<and> no_stray_files s"

text \<open>No offsets are missing between the segments.\<close>

definition gapless :: "storageImpl \<Rightarrow> bool" where
  "gapless s \<longleftrightarrow> successively (\<lambda>g h. seg_end g = seg_baseOffset h) (segments s)"

lemma bcount_overwrite:
  assumes "38 \<le> length b"
  shows "bcount (overwrite b 0 (be_bytes 8 n)) = bcount b"
    "framed (overwrite b 0 (be_bytes 8 n)) \<longleftrightarrow> framed b"
    "boff (overwrite b 0 (be_bytes 8 n)) = int64 n"
    "length (overwrite b 0 (be_bytes 8 n)) = length b"
proof -
  have after: "slc (overwrite b 0 (be_bytes 8 n)) i j = slc b i j" if "8 \<le> i" for i j
    using that assms by (simp add: overwrite_def slc_def)
  show l: "length (overwrite b 0 (be_bytes 8 n)) = length b" using assms by simp
  show "bcount (overwrite b 0 (be_bytes 8 n)) = bcount b" by (simp add: bcount_def after)
  show "framed (overwrite b 0 (be_bytes 8 n)) \<longleftrightarrow> framed b" using l by (simp add: framed_def after)
  show "boff (overwrite b 0 (be_bytes 8 n)) = int64 n"
    by (simp add: boff_def overwrite_def slc_append1 slc_full be_int_8)
qed

lemma wf_batch_overwrite: "wf_batch b \<Longrightarrow> wf_batch (overwrite b 0 (be_bytes 8 n))"
  using bcount_overwrite [of b n] by (simp add: wf_batch_def framed_def)

lemma seg_end_ge: "seg_ok cfg g (seg_batches g) \<Longrightarrow> seg_baseOffset g \<le> seg_end g \<and> 0 \<le> seg_baseOffset g \<and> seg_end g < 2 ^ 63"
  using wf_log_end(1) [of "seg_batches g" "seg_baseOffset g"] by (auto simp: seg_end_def seg_ok_def log_ok_def)

lemma no_stray_filesD: "no_stray_files s \<Longrightarrow> n \<in> set (segment_names off) \<Longrightarrow> st_dir s n = None"
  by (simp add: no_stray_files_def)

lemma no_stray_files_cong: "no_stray_files s \<Longrightarrow> st_dir t = st_dir s \<Longrightarrow> no_stray_files t"
  by (simp add: no_stray_files_def)

lemma Storage_roll_ok:
  assumes os: "os_ok os" and cfg: "cfg_ok cfg" and segs: "segments s = gs @ [a]"
    and a: "seg_active cfg a (seg_batches a)" and nx: "nextOffset s = seg_end a" and stray: "no_stray_files s"
  shows "\<exists>a' new. Storage_roll os cfg s = (None, s\<lparr>segments := gs @ [a', new]\<rparr>) \<and>
    seg_sealed cfg a' (seg_batches a) \<and> seg_baseOffset a' = seg_baseOffset a \<and>
    seg_batches a' = seg_batches a \<and>
    seg_active cfg new [] \<and> seg_baseOffset new = nextOffset s \<and> seg_batches new = []"
proof -
  obtain a' where a': "SegmentStorage_Seal os a = (None, a')" "seg_sealed cfg a' (seg_batches a)"
    "seg_baseOffset a' = seg_baseOffset a"
    using SegmentStorage_Seal_ok [OF os a] by auto
  have "0 \<le> nextOffset s" "nextOffset s < 2 ^ 63"
    using seg_end_ge [of cfg a] a nx by (simp_all add: seg_active_def)
  moreover have "\<forall>n\<in>set (segment_names (nextOffset s)). st_dir s n = None"
    using no_stray_filesD [OF stray] by blast
  ultimately obtain new where new: "NewSegmentStorage os (st_dir s) (nextOffset s) cfg = Inr new"
    "seg_active cfg new []" "seg_baseOffset new = nextOffset s"
    using NewSegmentStorage_fresh [OF os cfg, of "nextOffset s" "st_dir s"]
    by (auto simp: segment_names_def Let_def)
  show ?thesis
    by (intro exI [of _ a'] exI [of _ new])
      (use a' new segs seg_sealed_batches [OF a'(2)] seg_active_batches [OF new(2)] in
        \<open>simp add: Storage_roll_def set_active_def Let_def\<close>)
qed

text \<open>The invariant, seen from the active segment.\<close>

lemma storage_inv_snoc:
  assumes "segments s = gs @ [a]"
  shows "storage_inv cfg s \<longleftrightarrow>
    list_all (sealed_ok cfg) gs \<and> active_ok cfg a \<and>
    sorted_wrt (\<lambda>g h. seg_end g \<le> seg_baseOffset h) gs \<and>
    (\<forall>g\<in>set gs. seg_end g \<le> seg_baseOffset a) \<and>
    nextOffset s = seg_end a \<and> \<not> st_closed s \<and> no_stray_files s"
  using assms by (auto simp: storage_inv_def sorted_wrt_append)

lemma storage_inv_active:
  assumes "storage_inv cfg s" "segments s = gs @ [a]"
  shows "seg_active cfg a (seg_batches a)" "0 \<le> nextOffset s" "nextOffset s < 2 ^ 63"
    "seg_baseOffset a \<le> nextOffset s" "nextOffset s = seg_end a"
proof -
  show a: "seg_active cfg a (seg_batches a)" "nextOffset s = seg_end a"
    using assms by (simp_all add: storage_inv_snoc active_ok_def)
  show "0 \<le> nextOffset s" "nextOffset s < 2 ^ 63" "seg_baseOffset a \<le> nextOffset s"
    using seg_end_ge [of cfg a] a by (simp_all add: seg_active_def)
qed

lemma storage_inv_grow:
  assumes "storage_inv cfg s" "segments s = gs @ [a]" "active_ok cfg a'"
    "seg_baseOffset a' = seg_baseOffset a" "seg_end a \<le> seg_end a'"
  shows "storage_inv cfg (s\<lparr>segments := gs @ [a'], nextOffset := seg_end a', newDataCh := k\<rparr>)"
proof -
  let ?s = "s\<lparr>segments := gs @ [a'], nextOffset := seg_end a', newDataCh := k\<rparr>"
  have "no_stray_files ?s"
    by (rule no_stray_files_cong [of s]) (use assms in \<open>simp_all add: storage_inv_snoc\<close>)
  then show ?thesis using assms storage_inv_snoc [of ?s gs a' cfg] by (simp add: storage_inv_snoc)
qed

lemma storage_inv_rolled:
  assumes "storage_inv cfg s" "segments s = gs @ [a]" "sealed_ok cfg a'" "active_ok cfg new"
    "seg_baseOffset a' = seg_baseOffset a" "seg_end a \<le> seg_end a'"
    "seg_baseOffset new = seg_end a'" "seg_end new = seg_end a'"
  shows "storage_inv cfg (s\<lparr>nextOffset := seg_end a', segments := gs @ [a', new], newDataCh := k\<rparr>)"
proof -
  let ?s = "s\<lparr>nextOffset := seg_end a', segments := gs @ [a', new], newDataCh := k\<rparr>"
  have "no_stray_files ?s"
    by (rule no_stray_files_cong [of s]) (use assms in \<open>simp_all add: storage_inv_snoc\<close>)
  moreover have "seg_baseOffset a \<le> seg_end a" using storage_inv_active [OF assms(1,2)] by simp
  ultimately show ?thesis
    using assms storage_inv_snoc [of ?s "gs @ [a']" new cfg]
    by (auto simp: storage_inv_snoc sorted_wrt_append)
qed

text \<open>The first half of \<open>Append\<close>: the batch, with its offset written in, is in the active segment.\<close>

lemma Storage_Append_active:
  assumes os: "os_ok os" and cfg: "cfg_ok cfg" and inv: "storage_inv cfg s" and b: "wf_batch batch"
    and room: "nextOffset s + bcount batch < 2 ^ 63" and segs: "segments s = gs @ [a]"
    and c_def: "c = overwrite batch 0 (be_bytes 8 (nextOffset s))"
    and s1_def: "s1 = (\<lambda>a'. s\<lparr>segments := gs @ [a'], nextOffset := seg_end a'\<rparr>)"
  shows "\<exists>a'. seg_active cfg a' (seg_batches a @ [c]) \<and> seg_baseOffset a' = seg_baseOffset a \<and>
    seg_batches a' = seg_batches a @ [c] \<and> seg_end a' = nextOffset s + bcount batch \<and>
    Storage_Append os cfg batch s =
      (case (if SegmentStorage_LogSize a' \<ge> SegmentMaxBytes cfg then Storage_roll os cfg (s1 a')
             else (None, s1 a')) of
         (Some e, s2) \<Rightarrow> (Inl e, s2)
       | (None, s2) \<Rightarrow> (Inr (nextOffset s), s2\<lparr>newDataCh := Suc (newDataCh s2)\<rparr>))"
proof -
  note a = storage_inv_active [OF inv segs]
  have sz: "logSizeVal (seg_log a) < SegmentMaxBytes cfg" and cl: "\<not> st_closed s"
    using inv segs by (simp_all add: storage_inv_snoc active_ok_def SegmentStorage_LogSize_def)
  have len: "38 \<le> length batch" using b by (simp add: wf_batch_def framed_def)
  have c: "wf_batch c" "boff c = nextOffset s" "bcount c = bcount batch" "0 < bcount c"
    using wf_batch_overwrite [OF b] bcount_overwrite [OF len] a b
    by (simp_all add: c_def int64_id in_int64_def wf_batch_def)
  obtain a' where a': "SegmentStorage_Append os cfg c a = (Inr (int (length (concat (seg_batches a)))), a')"
    "seg_active cfg a' (seg_batches a @ [c])" "seg_baseOffset a' = seg_baseOffset a"
    using SegmentStorage_Append_active [OF os cfg a(1) sz c(1)] c a(5) room by (auto simp: seg_end_def)
  have ba: "seg_batches a' = seg_batches a @ [c]" by (rule seg_active_batches [OF a'(2)])
  have ea: "seg_end a' = nextOffset s + bcount batch" using a(5) c by (simp add: seg_end_def ba a'(3))
  have "int64 (nextOffset s + be_int (slc c 12 16)) = nextOffset s + bcount batch"
    using c a room by (simp add: int64_id in_int64_def flip: bcount_def)
  then show ?thesis
    by (intro exI [of _ a'])
      (use cl segs len a' ba ea in \<open>simp add: Storage_Append_def Let_def set_active_def s1_def flip: c_def\<close>)
qed

lemma earliest_cong:
  assumes "segments s = gs @ [a]" "segments t = gs @ a' # hs" "seg_baseOffset a' = seg_baseOffset a"
  shows "Storage_EarliestOffset t = Storage_EarliestOffset s"
  using assms by (cases gs) (simp_all add: Storage_EarliestOffset_def SegmentStorage_BaseOffset_def)

lemma Storage_Append_refines:
  assumes os: "os_ok os" and cfg: "cfg_ok cfg" and inv: "storage_inv cfg s" and b: "wf_batch batch"
    and room: "nextOffset s + bcount batch < 2 ^ 63"
  shows "\<exists>s'. Storage_Append os cfg batch s = (Inr (nextOffset s), s') \<and> storage_inv cfg s' \<and>
    storage_log s' = storage_log s @ [overwrite batch 0 (be_bytes 8 (nextOffset s))] \<and>
    nextOffset s' = nextOffset s + bcount batch \<and> newDataCh s' = Suc (newDataCh s) \<and>
    Storage_EarliestOffset s' = Storage_EarliestOffset s \<and> (gapless s \<longrightarrow> gapless s')"
proof -
  obtain gs a where segs: "segments s = gs @ [a]"
    using inv by (metis storage_inv_def append_butlast_last_id)
  define c where "c = overwrite batch 0 (be_bytes 8 (nextOffset s))"
  obtain a' where a': "seg_active cfg a' (seg_batches a @ [c])" "seg_baseOffset a' = seg_baseOffset a"
    "seg_batches a' = seg_batches a @ [c]" "seg_end a' = nextOffset s + bcount batch"
    and app: "Storage_Append os cfg batch s =
      (case (if SegmentStorage_LogSize a' \<ge> SegmentMaxBytes cfg
             then Storage_roll os cfg (s\<lparr>segments := gs @ [a'], nextOffset := seg_end a'\<rparr>)
             else (None, s\<lparr>segments := gs @ [a'], nextOffset := seg_end a'\<rparr>)) of
         (Some e, s2) \<Rightarrow> (Inl e, s2)
       | (None, s2) \<Rightarrow> (Inr (nextOffset s), s2\<lparr>newDataCh := Suc (newDataCh s2)\<rparr>))"
    using Storage_Append_active [OF os cfg inv b room segs c_def refl] by blast
  have grow: "seg_end a \<le> seg_end a'"
    using a'(4) storage_inv_active(5) [OF inv segs] b by (simp add: wf_batch_def)
  show ?thesis
  proof (cases "SegmentStorage_LogSize a' \<ge> SegmentMaxBytes cfg")
    case False
    then have "active_ok cfg a'" using a' by (simp add: active_ok_def)
    from storage_inv_grow [OF inv segs this a'(2) grow] show ?thesis
      using app False segs a' earliest_cong [OF segs, of "s\<lparr>segments := gs @ [a'], nextOffset := seg_end a',
        newDataCh := Suc (newDataCh s)\<rparr>" a' "[]"]
      by (simp add: storage_log_def gapless_def successively_append_iff flip: c_def)
  next
    case True
    let ?s1 = "s\<lparr>segments := gs @ [a'], nextOffset := seg_end a'\<rparr>"
    have "no_stray_files ?s1"
      by (rule no_stray_files_cong [of s])
        (use inv segs grow storage_inv_active(5) [OF inv segs] in \<open>simp_all add: storage_inv_snoc\<close>)
    then obtain a2 new where r: "Storage_roll os cfg ?s1 = (None, ?s1\<lparr>segments := gs @ [a2, new]\<rparr>)"
      "seg_sealed cfg a2 (seg_batches a')" "seg_baseOffset a2 = seg_baseOffset a'"
      "seg_batches a2 = seg_batches a'" "seg_active cfg new []"
      "seg_baseOffset new = seg_end a'" "seg_batches new = []"
      using Storage_roll_ok [OF os cfg, of ?s1 gs a'] a' by auto
    have e2: "seg_end a2 = seg_end a'" "seg_end new = seg_end a'" using r by (simp_all add: seg_end_def)
    have "sealed_ok cfg a2" "active_ok cfg new"
      using r a'(3) cfg
      by (simp_all add: sealed_ok_def active_ok_def SegmentStorage_LogSize_def seg_active_def seg_ok_def cfg_ok_def)
    from storage_inv_rolled [OF inv segs this, of "Suc (newDataCh s)"] show ?thesis
      using app True r segs a' e2 grow earliest_cong [OF segs, of "s\<lparr>nextOffset := seg_end a',
        segments := gs @ [a2, new], newDataCh := Suc (newDataCh s)\<rparr>" a2 "[new]"]
      by (simp add: storage_log_def gapless_def successively_append_iff flip: c_def)
  qed
qed

end
