(* ===== verification/StorageRead.thy ===== *)
theory StorageRead
  imports StorageLog
begin

text \<open>
  Reads.  The binary search finds the segment that holds the offset, and the scan of that segment
  returns whole batches of the abstract log, the first of which contains the offset.
\<close>

section \<open>Finding the segment\<close>

lemma Read_find_ok:
  assumes "0 \<le> lo" "lo \<le> hi" "hi < int (length segs)" "seg_baseOffset (segs ! nat lo) \<le> off"
    and "\<forall>i. hi < int i \<and> i < length segs \<longrightarrow> off < seg_baseOffset (segs ! i)"
    and mono: "\<forall>i j. i \<le> j \<and> j < length segs \<longrightarrow> seg_baseOffset (segs ! i) \<le> seg_baseOffset (segs ! j)"
  shows "lo \<le> Read_find segs off lo hi \<and> Read_find segs off lo hi \<le> hi \<and>
    seg_baseOffset (segs ! nat (Read_find segs off lo hi)) \<le> off \<and>
    (\<forall>i. Read_find segs off lo hi < int i \<and> i < length segs \<longrightarrow> off < seg_baseOffset (segs ! i))"
  using assms(1-5)
proof (induction "nat (hi - lo)" arbitrary: lo hi rule: less_induct)
  case less
  show ?case
  proof (cases "lo < hi")
    case True
    let ?mid = "go_div (lo + hi + 1) 2"
    have m: "lo < ?mid" "?mid \<le> hi"
      using go_div2_between [of "lo + 1" hi] True by (simp_all add: algebra_simps)
    show ?thesis
    proof (cases "seg_baseOffset (segs ! nat ?mid) \<le> off")
      case le: True
      have "?mid \<le> Read_find segs off ?mid hi \<and> Read_find segs off ?mid hi \<le> hi \<and>
        seg_baseOffset (segs ! nat (Read_find segs off ?mid hi)) \<le> off \<and>
        (\<forall>i. Read_find segs off ?mid hi < int i \<and> i < length segs \<longrightarrow> off < seg_baseOffset (segs ! i))"
        by (rule less.hyps) (use m le less.prems in auto)
      then show ?thesis using True le m
        by (simp add: Read_find.simps [of segs off lo hi] Let_def SegmentStorage_BaseOffset_def)
    next
      case gt: False
      have "off < seg_baseOffset (segs ! i)" if i: "?mid - 1 < int i" "i < length segs" for i
      proof -
        have "seg_baseOffset (segs ! nat ?mid) \<le> seg_baseOffset (segs ! i)"
          using mono i by (simp add: nat_le_iff)
        then show ?thesis using gt by simp
      qed
      then have "lo \<le> Read_find segs off lo (?mid - 1) \<and> Read_find segs off lo (?mid - 1) \<le> ?mid - 1 \<and>
        seg_baseOffset (segs ! nat (Read_find segs off lo (?mid - 1))) \<le> off \<and>
        (\<forall>i. Read_find segs off lo (?mid - 1) < int i \<and> i < length segs \<longrightarrow> off < seg_baseOffset (segs ! i))"
        by (intro less.hyps) (use m less.prems in auto)
      then show ?thesis using True gt m
        by (simp add: Read_find.simps [of segs off lo hi] Let_def SegmentStorage_BaseOffset_def)
    qed
  next
    case False
    then have "Read_find segs off lo hi = lo" by (subst Read_find.simps) simp
    then show ?thesis using False less.prems by simp
  qed
qed

lemma storage_inv_seg_ok:
  assumes "storage_inv cfg s" "g \<in> set (segments s)"
  shows "seg_ok cfg g (seg_batches g)"
proof -
  obtain gs a where segs: "segments s = gs @ [a]"
    using assms(1) by (metis storage_inv_def append_butlast_last_id)
  then show ?thesis
    using assms by (auto simp: storage_inv_snoc [OF segs] list_all_iff sealed_ok_def active_ok_def
        seg_sealed_def seg_active_def)
qed

lemma storage_inv_mono:
  assumes inv: "storage_inv cfg s" and ij: "i < j" "j < length (segments s)"
  shows "seg_end (segments s ! i) \<le> seg_baseOffset (segments s ! j)"
  using inv ij sorted_wrt_nth_less [of "\<lambda>g h. seg_end g \<le> seg_baseOffset h" "segments s" i j]
  by (simp add: storage_inv_def)

lemma storage_inv_bases:
  assumes inv: "storage_inv cfg s" and ij: "i \<le> j" "j < length (segments s)"
  shows "seg_baseOffset (segments s ! i) \<le> seg_baseOffset (segments s ! j)"
proof (cases "i = j")
  case False
  then show ?thesis
    using storage_inv_mono [OF inv, of i j] seg_end_ge [OF storage_inv_seg_ok [OF inv, of "segments s ! i"]] ij
    by simp
qed simp

text \<open>The segment \<open>Read\<close> picks: the one whose base is the last at or before the offset.\<close>

lemma Storage_Read_segment:
  assumes inv: "storage_inv cfg s" and off: "Storage_EarliestOffset s \<le> off" "off < nextOffset s"
  shows "\<exists>k < length (segments s). Storage_Read s off mx = SegmentStorage_Read (segments s ! k) off mx \<and>
    seg_baseOffset (segments s ! k) \<le> off \<and>
    (\<forall>i. k < i \<and> i < length (segments s) \<longrightarrow> off < seg_baseOffset (segments s ! i))"
proof -
  let ?segs = "segments s" and ?r = "Read_find (segments s) off 0 (int (length (segments s)) - 1)"
  have ne: "0 < length ?segs" using inv by (simp add: storage_inv_def)
  have "0 \<le> ?r \<and> ?r \<le> int (length ?segs) - 1 \<and> seg_baseOffset (?segs ! nat ?r) \<le> off \<and>
      (\<forall>i. ?r < int i \<and> i < length ?segs \<longrightarrow> off < seg_baseOffset (?segs ! i))"
    by (rule Read_find_ok)
      (use ne off storage_inv_bases [OF inv] in \<open>auto simp: Storage_EarliestOffset_def SegmentStorage_BaseOffset_def\<close>)
  then show ?thesis
    using ne off
    by (intro exI [of _ "nat ?r"])
      (auto simp: Storage_Read_def Let_def Storage_EarliestOffset_def SegmentStorage_BaseOffset_def nat_less_iff)
qed

section \<open>What a read returns\<close>

lemma take_batches_prefix: "\<exists>post. bs = take_batches mx n bs @ post"
  by (induction mx n bs rule: take_batches.induct) simp_all

lemma take_batches_within:
  "0 < n \<Longrightarrow> int n \<le> mx \<Longrightarrow> int (n + length (concat (take_batches mx n bs))) \<le> mx"
proof (induction mx n bs rule: take_batches.induct)
  case (2 mx n b bs)
  show ?case
  proof (cases "int (n + length b) > mx")
    case False
    then have "int (n + length b + length (concat (take_batches mx (n + length b) bs))) \<le> mx"
      using 2 by simp
    then show ?thesis using False by (simp add: add.assoc)
  qed (use 2 in simp)
qed simp

lemma take_batches_full: "0 < n \<Longrightarrow> mx < int n \<Longrightarrow> take_batches mx n bs = []"
  by (cases bs) auto

lemma take_batches_bound:
  assumes "b \<noteq> []"
  shows "take_batches mx 0 (b # bs) = [b] \<or> int (length (concat (take_batches mx 0 (b # bs)))) \<le> mx"
proof -
  have eq: "take_batches mx 0 (b # bs) = b # take_batches mx (length b) bs" by simp
  have n: "0 < length b" using assms by simp
  show ?thesis
  proof (cases "int (length b) \<le> mx")
    case True
    show ?thesis unfolding eq using take_batches_within [OF n True, of bs] by simp
  next
    case False
    then show ?thesis unfolding eq using take_batches_full [OF n, of mx bs] by simp
  qed
qed

definition covers :: "bytes \<Rightarrow> int \<Rightarrow> bool" where
  "covers b off \<longleftrightarrow> boff b \<le> off \<and> off < bend b"

lemma log_covers:
  assumes "list_all wf_batch bs" "chain base bs" "base \<le> off" "off < log_end base bs"
  shows "\<exists>b ys. dropWhile (\<lambda>b. bend b \<le> off) bs = b # ys \<and> covers b off"
  using assms
proof (induction bs arbitrary: base)
  case (Cons b bs)
  show ?case
  proof (cases "bend b \<le> off")
    case True
    then show ?thesis
      using Cons.IH [of "base + bcount b"] Cons.prems by (simp add: bend_def)
  next
    case False
    then show ?thesis using Cons.prems by (simp add: covers_def)
  qed
qed simp

lemma read_batches_covers:
  assumes "list_all wf_batch bs" "chain base bs" "base \<le> off" "off < log_end base bs"
  shows "\<exists>b rs. read_batches bs off mx = b # rs \<and> covers b off"
    and "\<exists>xs ys. bs = xs @ read_batches bs off mx @ ys"
    and "length (read_batches bs off mx) = 1 \<or> int (length (concat (read_batches bs off mx))) \<le> mx"
proof -
  obtain b ys where b: "dropWhile (\<lambda>b. bend b \<le> off) bs = b # ys" "covers b off"
    using log_covers [OF assms] by auto
  show c: "\<exists>b rs. read_batches bs off mx = b # rs \<and> covers b off"
    using b by (simp add: read_batches_def)
  obtain post where "dropWhile (\<lambda>b. bend b \<le> off) bs = read_batches bs off mx @ post"
    using take_batches_prefix unfolding read_batches_def by blast
  then show "\<exists>xs ys. bs = xs @ read_batches bs off mx @ ys"
    by (metis takeWhile_dropWhile_id)
  show "length (read_batches bs off mx) = 1 \<or> int (length (concat (read_batches bs off mx))) \<le> mx"
  proof -
    have "b \<in> set bs" using b(1) by (metis list.set_intros(1) set_dropWhileD)
    then have "b \<noteq> []" using assms(1) by (auto simp: list_all_iff wf_batch_def framed_def)
    from take_batches_bound [OF this, of mx ys] show ?thesis
      unfolding read_batches_def b(1) by auto
  qed
qed

lemma seg_ok_span:
  assumes "cfg_ok cfg" "seg_ok cfg g bs"
  shows "log_end (seg_baseOffset g) bs - seg_baseOffset g < 2 ^ 31"
proof (cases bs rule: rev_cases)
  case (snoc cs b)
  have w: "list_all wf_batch cs" "wf_batch b" "int (length (concat cs)) < SegmentMaxBytes cfg"
    using assms(2) snoc by (simp_all add: seg_ok_def log_ok_def)
  have "bcount b < 2 ^ 22" using w(2) by (simp add: wf_batch_def)
  moreover have "log_end (seg_baseOffset g) cs - seg_baseOffset g < 2 ^ 30"
    using wf_log_end(2) [OF w(1), of "seg_baseOffset g"] w(3) assms(1) by (simp add: cfg_ok_def)
  ultimately show ?thesis using snoc by simp
qed simp

text \<open>A read in range returns the batch that holds the offset and whole batches after it.\<close>

lemma Storage_Read_progress:
  assumes cfg: "cfg_ok cfg" and inv: "storage_inv cfg s" and gap: "gapless s"
    and off: "Storage_EarliestOffset s \<le> off" "off < Storage_LatestOffset s"
  shows "\<exists>b rs pre post. Storage_Read s off mx = Inr (concat (b # rs), bend (last (b # rs))) \<and>
    storage_log s = pre @ (b # rs) @ post \<and> covers b off \<and> off < bend (last (b # rs)) \<and>
    (rs = [] \<or> int (length (concat (b # rs))) \<le> mx)"
proof -
  let ?segs = "segments s"
  obtain k where k: "k < length ?segs" "Storage_Read s off mx = SegmentStorage_Read (?segs ! k) off mx"
    "seg_baseOffset (?segs ! k) \<le> off" "\<forall>i. k < i \<and> i < length ?segs \<longrightarrow> off < seg_baseOffset (?segs ! i)"
    using Storage_Read_segment [OF inv off(1)] off(2) by (auto simp: Storage_LatestOffset_def)
  let ?g = "?segs ! k"
  let ?bs = "seg_batches ?g"
  have ok: "seg_ok cfg ?g ?bs" using storage_inv_seg_ok [OF inv] k(1) by simp
  have lok: "list_all wf_batch ?bs" "chain (seg_baseOffset ?g) ?bs"
    using ok by (simp_all add: seg_ok_def log_ok_def)
  have lt: "off < log_end (seg_baseOffset ?g) ?bs"
  proof (cases "Suc k < length ?segs")
    case True
    then have "seg_end ?g = seg_baseOffset (?segs ! Suc k)"
      using gap by (simp add: gapless_def successively_conv_nth)
    then show ?thesis using k(4) True by (simp add: seg_end_def)
  next
    case False
    then have "?g = last ?segs" using k(1) by (metis Suc_lessI diff_Suc_1 last_conv_nth list.size(3) not_less_zero)
    then show ?thesis using inv off(2) by (simp add: storage_inv_def seg_end_def Storage_LatestOffset_def)
  qed
  have "off - seg_baseOffset ?g < 2 ^ 31" using seg_ok_span [OF cfg ok] lt by simp
  then have rd: "SegmentStorage_Read ?g off mx =
      Inr (concat (read_batches ?bs off mx), read_next off (read_batches ?bs off mx))"
    by (rule SegmentStorage_Read_ok [OF cfg ok k(3)])
  note rb = read_batches_covers [OF lok k(3) lt, of mx]
  obtain b rs where b: "read_batches ?bs off mx = b # rs" "covers b off" using rb(1) by blast
  obtain xs ys where xy: "?bs = xs @ (b # rs) @ ys" using rb(2) b by auto
  have "\<exists>pre post. storage_log s = pre @ ?bs @ post"
    unfolding storage_log_def using id_take_nth_drop [OF k(1)]
    by (metis concat.simps(2) concat_append list.simps(9) map_append)
  then obtain pre post where "storage_log s = (pre @ xs) @ (b # rs) @ (ys @ post)" using xy by auto
  moreover have "off < bend (last (b # rs))"
  proof (cases "rs = []")
    case False
    have "chain (boff b) (b # rs @ ys)" "list_all wf_batch (b # rs @ ys)" using lok xy by simp_all
    then have "bend b \<le> boff (last rs) \<and> boff (last rs) < bend (last rs)"
      using chain_after [of "boff b" b "rs @ ys" "last rs"] False by simp
    then show ?thesis using b(2) False by (simp add: covers_def)
  qed (use b in \<open>simp add: covers_def\<close>)
  moreover have "Storage_Read s off mx = Inr (concat (b # rs), bend (last (b # rs)))"
    unfolding k(2) rd b(1) read_next_def by simp
  moreover have "rs = [] \<or> int (length (concat (b # rs))) \<le> mx" using rb(3) b(1) by auto
  ultimately show ?thesis using b(2) by blast
qed

end
