(* ===== verification/StorageMaint.thy ===== *)
theory StorageMaint
  imports StorageRead
begin

text \<open>
  Truncation and retention.  \<open>TruncateTo\<close> at the base offset of a batch cuts the abstract log
  there; \<open>EnforceRetention\<close> drops sealed segments, the oldest first when only bytes count.
\<close>

section \<open>Truncation\<close>

lemma Truncate_find_ok:
  assumes "n < length segs" "k \<le> n" "seg_baseOffset (segs ! k) \<le> off \<or> k = 0"
    "\<forall>i. k < i \<and> i \<le> n \<longrightarrow> off < seg_baseOffset (segs ! i)"
  shows "Truncate_find segs off n = k"
  using assms
proof (induction n)
  case (Suc n)
  show ?case
  proof (cases "k = Suc n")
    case True
    then show ?thesis using Suc.prems by (simp add: SegmentStorage_BaseOffset_def)
  next
    case False
    then show ?thesis using Suc by (simp add: SegmentStorage_BaseOffset_def)
  qed
qed simp

lemma reopen_log_ok:
  assumes os: "os_ok os" and ok: "seg_ok cfg g bs" and w: "sealed g \<or> \<not> readonly (seg_log g)"
  shows "\<exists>g'. reopen_log os g = (None, g') \<and> seg_ok cfg g' bs \<and> \<not> sealed g' \<and>
    \<not> readonly (seg_log g') \<and> seg_baseOffset g' = seg_baseOffset g"
proof (cases "sealed g")
  case True
  then show ?thesis
    using os ok by (simp add: reopen_log_def LogSegment_Close_def OpenLogSegment_def seg_ok_def)
next
  case False
  then show ?thesis using ok w by (simp add: reopen_log_def)
qed

lemma truncate_segment:
  assumes os: "os_ok os" and cfg: "cfg_ok cfg" and ok: "seg_ok cfg g (xs @ b # ys)"
    and g: "\<not> sealed g" "\<not> readonly (seg_log g)"
  shows "\<exists>log g'. LogSegment_Truncate os (findBytePosForOffset g (boff b)) (seg_log g) = (None, log) \<and>
    rebuildSegmentIndexes os cfg (g\<lparr>seg_log := log\<rparr>) = (None, g') \<and>
    active_ok cfg g' \<and> seg_batches g' = xs \<and> seg_baseOffset g' = seg_baseOffset g"
proof -
  have lok: "log_ok (SegmentMaxBytes cfg) (seg_baseOffset g) (xs @ b # ys)"
    using ok by (simp add: seg_ok_def)
  have pos: "findBytePosForOffset g (boff b) = int (length (concat xs))"
    by (rule findBytePosForOffset_ok [OF ok refl])
  let ?log = "(seg_log g)\<lparr>ls_file := concat xs, logSizeVal := int (length (concat xs))\<rparr>"
  have lf: "ls_file (seg_log g) = concat xs @ concat (b # ys)" "ls_open (seg_log g)"
    using ok by (simp_all add: seg_ok_def)
  have tr: "LogSegment_Truncate os (int (length (concat xs))) (seg_log g) = (None, ?log)"
    using os g lf by (simp add: LogSegment_Truncate_def resize_def)
  obtain g' where g': "rebuildSegmentIndexes os cfg (g\<lparr>seg_log := ?log\<rparr>) = (None, g')"
    "seg_active cfg g' xs" "seg_baseOffset g' = seg_baseOffset g"
    using rebuildSegmentIndexes_ok [OF os cfg, of "g\<lparr>seg_log := ?log\<rparr>" xs] log_ok_prefix [OF lok] ok g
    by (auto simp: log_file_ok_def seg_ok_def)
  have "active_ok cfg g'"
    using g'(2) log_ok_split(5) [OF lok] seg_active_batches [OF g'(2)]
    by (simp add: active_ok_def SegmentStorage_LogSize_def seg_active_def seg_ok_def)
  then show ?thesis using pos tr g' seg_active_batches [OF g'(2)] by auto
qed

text \<open>A batch of the abstract log sits in exactly one segment.\<close>

lemma concat_split:
  assumes "concat (map f gs) = xs @ b # ys"
  shows "\<exists>us g vs ps qs. gs = us @ g # vs \<and> f g = ps @ b # qs \<and> xs = concat (map f us) @ ps"
  using assms
proof (induction gs arbitrary: xs)
  case (Cons g gs)
  show ?case
  proof (cases "length xs < length (f g)")
    case True
    have "f g = xs @ b # drop (Suc (length xs)) (f g)"
      using arg_cong [OF Cons.prems, of "take (length xs)"] arg_cong [OF Cons.prems, of "\<lambda>l. l ! length xs"] True
        id_take_nth_drop [OF True]
      by (simp add: nth_append)
    then show ?thesis by (metis append_Nil concat.simps(1) list.simps(8))
  next
    case False
    then obtain zs where zs: "xs = f g @ zs" "concat (map f gs) = zs @ b # ys"
      using Cons.prems by (auto simp: append_eq_append_conv2)
    then obtain us h vs ps qs where "gs = us @ h # vs" "f h = ps @ b # qs" "zs = concat (map f us) @ ps"
      using Cons.IH by blast
    then show ?thesis using zs(1) by (intro exI [of _ "g # us"]) auto
  qed
qed simp

lemma storage_inv_nth:
  assumes "storage_inv cfg s" "segments s = us @ g # vs"
  shows "seg_ok cfg g (seg_batches g)" "sealed g \<or> \<not> readonly (seg_log g)" "list_all (sealed_ok cfg) us"
    "\<forall>h\<in>set vs. seg_end g \<le> seg_baseOffset h"
    "sorted_wrt (\<lambda>g h. seg_end g \<le> seg_baseOffset h) us" "\<forall>u\<in>set us. seg_end u \<le> seg_baseOffset g"
proof -
  show "seg_ok cfg g (seg_batches g)" using storage_inv_seg_ok assms by simp
  show "sealed g \<or> \<not> readonly (seg_log g)"
    using assms
    by (cases vs rule: rev_cases)
      (auto simp: storage_inv_def sealed_ok_def seg_sealed_def active_ok_def seg_active_def butlast_append)
  show "list_all (sealed_ok cfg) us"
    using assms by (simp add: storage_inv_def butlast_append)
  show "\<forall>h\<in>set vs. seg_end g \<le> seg_baseOffset h" "\<forall>u\<in>set us. seg_end u \<le> seg_baseOffset g"
    "sorted_wrt (\<lambda>g h. seg_end g \<le> seg_baseOffset h) us"
    using assms by (simp_all add: storage_inv_def sorted_wrt_append)
qed

lemma Truncate_locates:
  assumes inv: "storage_inv cfg s" and segs: "segments s = us @ g # vs" and g: "seg_batches g = ps @ b # qs"
  shows "boff b = log_end (seg_baseOffset g) ps" "boff b < nextOffset s"
    "Truncate_find (segments s) (boff b) (length (segments s) - 1) = length us"
proof -
  note n = storage_inv_nth [OF inv segs]
  have lok: "log_ok (SegmentMaxBytes cfg) (seg_baseOffset g) (ps @ b # qs)"
    using n(1) g by (simp add: seg_ok_def)
  show bo: "boff b = log_end (seg_baseOffset g) ps" by (rule log_ok_split(1) [OF lok])
  have base: "seg_baseOffset g \<le> boff b"
    using wf_log_end(1) [OF log_ok_split(2) [OF lok], of "seg_baseOffset g"] bo by simp
  have lt: "boff b < seg_end g"
    using wf_log_end(3) [of "b # qs" "boff b"] log_ok_split(3,4) [OF lok] bo g by (simp add: seg_end_def)
  have "seg_end g \<le> nextOffset s"
  proof (cases vs rule: rev_cases)
    case Nil
    then show ?thesis using inv segs by (simp add: storage_inv_def)
  next
    case (snoc ws h)
    then have "seg_end g \<le> seg_baseOffset h" "nextOffset s = seg_end h"
      using n(4) inv segs by (simp_all add: storage_inv_def)
    then show ?thesis
      using seg_end_ge [OF storage_inv_seg_ok [OF inv, of h]] snoc segs by simp
  qed
  then show nx: "boff b < nextOffset s" using lt by simp
  show "Truncate_find (segments s) (boff b) (length (segments s) - 1) = length us"
  proof (rule Truncate_find_ok)
    have "boff b < seg_baseOffset (vs ! j)" if "j < length vs" for j
      using n(4) lt nth_mem [OF that] by fastforce
    then show "\<forall>i. length us < i \<and> i \<le> length (segments s) - 1 \<longrightarrow> boff b < seg_baseOffset (segments s ! i)"
      using segs by (auto simp: nth_append nth_Cons')
  qed (use segs base in auto)
qed

lemma Storage_TruncateTo_ok:
  assumes os: "os_ok os" and cfg: "cfg_ok cfg" and inv: "storage_inv cfg s"
    and log: "storage_log s = xs @ b # ys"
  shows "\<exists>s'. Storage_TruncateTo os cfg (boff b) s = (None, s') \<and> storage_inv cfg s' \<and>
    storage_log s' = xs \<and> nextOffset s' = boff b \<and> (gapless s \<longrightarrow> gapless s')"
proof -
  obtain us g vs ps qs where segs: "segments s = us @ g # vs" and g: "seg_batches g = ps @ b # qs"
    and xs: "xs = concat (map seg_batches us) @ ps"
    using concat_split log unfolding storage_log_def by metis
  note n = storage_inv_nth [OF inv segs]
  note loc = Truncate_locates [OF inv segs g]
  obtain g1 where g1: "reopen_log os g = (None, g1)" "seg_ok cfg g1 (ps @ b # qs)" "\<not> sealed g1"
    "\<not> readonly (seg_log g1)" "seg_baseOffset g1 = seg_baseOffset g"
    using reopen_log_ok [OF os n(1,2)] g by auto
  obtain l g2 where g2: "LogSegment_Truncate os (findBytePosForOffset g1 (boff b)) (seg_log g1) = (None, l)"
    "rebuildSegmentIndexes os cfg (g1\<lparr>seg_log := l\<rparr>) = (None, g2)" "active_ok cfg g2" "seg_batches g2 = ps"
    "seg_baseOffset g2 = seg_baseOffset g"
    using truncate_segment [OF os cfg g1(2,3,4)] g1(5) by auto
  let ?s = "s\<lparr>segments := us @ [g2], nextOffset := boff b\<rparr>"
  have res: "Storage_TruncateTo os cfg (boff b) s = (None, ?s)"
    using loc(2,3) segs g1(1) g2(1,2)
    by (simp add: Storage_TruncateTo_def Let_def set_active_def)
  have e2: "seg_end g2 = boff b" using g2 loc(1) by (simp add: seg_end_def)
  have "storage_inv cfg ?s"
    using storage_inv_snoc [of ?s us g2 cfg] n g2 e2 inv
    by (simp add: storage_inv_def no_stray_files_def)
  moreover have "gapless s \<longrightarrow> gapless ?s"
    using segs g2(5) by (auto simp: gapless_def successively_append_iff)
  ultimately show ?thesis using res xs g2(4) by (simp add: storage_log_def)
qed

section \<open>Retention\<close>

lemma mark_bytes_prefix:
  "\<exists>k \<le> length segs. mark_bytes segs t limit = replicate k ByBytes @ replicate (length segs - k) Keep \<and>
     (k < length segs \<longrightarrow> t - sum_list (map SegmentStorage_LogSize (take k segs)) \<le> limit) \<and>
     (\<forall>j < k. t - sum_list (map SegmentStorage_LogSize (take j segs)) > limit)"
proof (induction segs arbitrary: t)
  case (Cons g segs)
  show ?case
  proof (cases "t > limit")
    case True
    obtain k where k: "k \<le> length segs"
      "mark_bytes segs (t - SegmentStorage_LogSize g) limit = replicate k ByBytes @ replicate (length segs - k) Keep"
      "k < length segs \<longrightarrow> t - SegmentStorage_LogSize g - sum_list (map SegmentStorage_LogSize (take k segs)) \<le> limit"
      "\<forall>j < k. t - SegmentStorage_LogSize g - sum_list (map SegmentStorage_LogSize (take j segs)) > limit"
      using Cons.IH by blast
    have "\<forall>j < Suc k. t - sum_list (map SegmentStorage_LogSize (take j (g # segs))) > limit"
      using k(4) True by (auto simp: less_Suc_eq_0_disj)
    then show ?thesis using k True by (intro exI [of _ "Suc k"]) auto
  next
    case False
    then show ?thesis by (intro exI [of _ 0]) (simp add: map_replicate_const)
  qed
qed simp

lemma keep_zip_prefix:
  "k \<le> length gs \<Longrightarrow> r \<noteq> Keep \<Longrightarrow>
   map fst (filter (\<lambda>(g, r). r = Keep) (zip gs (replicate k r @ replicate (length gs - k) Keep))) = drop k gs"
proof (induction gs arbitrary: k)
  case (Cons g gs)
  then show ?case
  proof (cases k)
    case 0
    have "map fst (filter (\<lambda>(g, r). r = Keep) (zip gs (replicate (length gs) Keep))) = gs" for gs :: "'a list"
      by (induction gs) auto
    then show ?thesis using 0 by simp
  qed simp
qed simp

lemma length_mark_bytes [simp]: "length (mark_bytes segs t limit) = length segs"
  by (induction segs t limit rule: mark_bytes.induct) auto

lemma length_mark_time [simp]: "length (mark_time segs rs bound) = length rs"
  by (induction segs rs bound rule: mark_time.induct) auto

lemma length_retention_reasons [simp]: "length (retention_reasons now ms lim segs) = length segs - 1"
  by (simp add: retention_reasons_def Let_def)

lemma subseq_sorted_wrt:
  assumes "subseq hs gs" "sorted_wrt P gs"
  shows "set hs \<subseteq> set gs" "sorted_wrt P hs"
proof -
  have "set hs \<subseteq> set gs \<and> sorted_wrt P hs"
    using assms by (induction rule: list_emb.induct) auto
  then show "set hs \<subseteq> set gs" "sorted_wrt P hs" by simp_all
qed

text \<open>Dropping sealed segments keeps the invariant.\<close>

lemma storage_inv_subseq:
  assumes inv: "storage_inv cfg s" and segs: "segments s = gs @ [a]" and hs: "subseq hs gs"
  shows "storage_inv cfg (s\<lparr>segments := hs @ [a]\<rparr>)"
proof -
  have "sorted_wrt (\<lambda>g h. seg_end g \<le> seg_baseOffset h) gs" using inv segs by (simp add: storage_inv_snoc)
  note ss = subseq_sorted_wrt [OF hs this]
  show ?thesis
    using inv segs ss storage_inv_snoc [of "s\<lparr>segments := hs @ [a]\<rparr>" hs a cfg]
    by (auto simp: storage_inv_snoc list_all_iff no_stray_files_def)
qed

lemma subseq_keep: "length rs = length gs \<Longrightarrow> subseq (map fst (filter (\<lambda>(g, r). r = Keep) (zip gs rs))) gs"
  by (induction gs rs rule: list_induct2') auto

lemma count_keep:
  "length rs = length gs \<Longrightarrow>
   length (filter (\<lambda>(g, r). r = Keep) (zip gs rs)) + length (filter (\<lambda>r. r \<noteq> Keep) rs) = length gs"
  by (induction gs rs rule: list_induct2') auto

lemma subseq_concat_map: "subseq hs gs \<Longrightarrow> subseq (concat (map f hs)) (concat (map f gs))"
  by (induction rule: list_emb.induct) (auto intro: list_emb_append_mono subseq_drop_many)

lemma Storage_EnforceRetention_inv:
  assumes inv: "storage_inv cfg s" and r: "Storage_EnforceRetention now ms lim s = (n, s')"
  shows "storage_inv cfg s' \<and> last (segments s') = last (segments s) \<and>
    subseq (storage_log s') (storage_log s) \<and> nextOffset s' = nextOffset s \<and>
    Storage_EarliestOffset s \<le> Storage_EarliestOffset s' \<and>
    int (length (segments s')) = int (length (segments s)) - n"
proof (cases "length (segments s) \<le> 1")
  case True
  then show ?thesis using r inv by (simp add: Storage_EnforceRetention_def)
next
  case False
  obtain gs a where segs: "segments s = gs @ [a]"
    using inv by (metis storage_inv_def append_butlast_last_id)
  define rs where "rs = retention_reasons now ms lim (segments s)"
  define hs where "hs = map fst (filter (\<lambda>(g, r). r = Keep) (zip gs rs))"
  have len: "length rs = length gs" using segs by (simp add: rs_def)
  have sub: "subseq hs gs" unfolding hs_def by (rule subseq_keep [OF len])
  have s': "s' = s\<lparr>segments := hs @ [a]\<rparr>" and n: "n = int (length (filter (\<lambda>r. r \<noteq> Keep) rs))"
    using r segs False by (simp_all add: Storage_EnforceRetention_def Let_def rs_def hs_def)
  have inv': "storage_inv cfg s'" unfolding s' by (rule storage_inv_subseq [OF inv segs sub])
  have cnt: "int (length (segments s')) = int (length (segments s)) - n"
    using s' n segs count_keep [OF len] by (simp add: hs_def)
  have "subseq (storage_log s') (storage_log s)"
    unfolding storage_log_def s' using segs subseq_concat_map [OF sub, of seg_batches]
    by (simp add: list_emb_append_mono)
  moreover have "segments s' ! 0 \<in> set (segments s)"
    using s' segs subseq_sorted_wrt(1) [OF sub, of "\<lambda>_ _. True"] by (cases hs) auto
  then obtain i where "i < length (segments s)" "segments s' ! 0 = segments s ! i"
    by (metis in_set_conv_nth)
  then have "seg_baseOffset (segments s ! 0) \<le> seg_baseOffset (segments s' ! 0)"
    using storage_inv_bases [OF inv, of 0 i] by simp
  then have "Storage_EarliestOffset s \<le> Storage_EarliestOffset s'"
    using s' segs by (simp add: Storage_EarliestOffset_def SegmentStorage_BaseOffset_def)
  ultimately show ?thesis using inv' cnt s' segs by simp
qed

lemma Storage_EnforceRetention_bytes:
  assumes inv: "storage_inv cfg s" and ms: "ms \<le> 0" and by0: "0 \<le> lim"
    and r: "Storage_EnforceRetention now ms lim s = (n, s')"
  shows "\<exists>k < length (segments s). n = int k \<and> segments s' = drop k (segments s) \<and>
    (Suc k = length (segments s) \<or> sum_list (map SegmentStorage_LogSize (segments s')) \<le> lim) \<and>
    (\<forall>j < k. sum_list (map SegmentStorage_LogSize (drop j (segments s))) > lim) \<and>
    (gapless s \<longrightarrow> gapless s')"
proof (cases "length (segments s) \<le> 1")
  case True
  moreover have "segments s \<noteq> []" using inv by (simp add: storage_inv_def)
  ultimately have "length (segments s) = 1" by (cases "segments s") auto
  then show ?thesis using r by (auto simp: Storage_EnforceRetention_def)
next
  case False
  obtain gs a where segs: "segments s = gs @ [a]"
    using inv by (metis storage_inv_def append_butlast_last_id)
  let ?t = "sum_list (map SegmentStorage_LogSize (segments s))"
  obtain k where k: "k \<le> length gs"
    "mark_bytes gs ?t lim = replicate k ByBytes @ replicate (length gs - k) Keep"
    "k < length gs \<longrightarrow> ?t - sum_list (map SegmentStorage_LogSize (take k gs)) \<le> lim"
    "\<forall>j < k. ?t - sum_list (map SegmentStorage_LogSize (take j gs)) > lim"
    using mark_bytes_prefix by blast
  have rs: "retention_reasons now ms lim (segments s) = replicate k ByBytes @ replicate (length gs - k) Keep"
    using ms by0 k(2) segs by (simp add: retention_reasons_def Let_def)
  have n: "n = int k" and s': "s' = s\<lparr>segments := drop k gs @ [a]\<rparr>"
    using r False rs segs keep_zip_prefix [OF k(1), of ByBytes]
    by (simp_all add: Storage_EnforceRetention_def Let_def)
  have rest: "?t - sum_list (map SegmentStorage_LogSize (take j gs)) =
      sum_list (map SegmentStorage_LogSize (drop j (segments s)))" if "j \<le> length gs" for j
  proof -
    have "segments s = take j gs @ drop j (segments s)" using segs that by simp
    then have "?t = sum_list (map SegmentStorage_LogSize (take j gs)) +
        sum_list (map SegmentStorage_LogSize (drop j (segments s)))"
      by (metis map_append sum_list_append)
    then show ?thesis by simp
  qed
  have drop: "segments s' = drop k (segments s)" using s' segs k(1) by simp
  have "gapless s \<longrightarrow> gapless s'"
    unfolding gapless_def drop by (metis append_take_drop_id successively_append_iff)
  moreover have "\<forall>j < k. sum_list (map SegmentStorage_LogSize (drop j (segments s))) > lim"
    using k(1,4) rest by auto
  moreover have "k < length gs \<longrightarrow> sum_list (map SegmentStorage_LogSize (drop k (segments s))) \<le> lim"
    using k(3) rest [OF k(1)] by simp
  ultimately show ?thesis
    by (intro exI [of _ k]) (use k(1) n drop segs in auto)
qed

end
