(* ===== verification/StorageCrash.thy ===== *)
theory StorageCrash
  imports StorageMaint
begin

text \<open>
  Crash recovery of a whole directory, from the names of the files to the invariant of the
  reopened storage.
\<close>

section \<open>Crash and recovery\<close>

text \<open>
  The directory a crash leaves: the files of the sealed segments, and for the active one the
  log, with a torn write at its end, and whatever the index files hold.
\<close>

definition seg_name :: "SegmentStorage \<Rightarrow> string" where
  "seg_name g = segmentBasePath (seg_baseOffset g)"

definition seg_files :: "bytes \<Rightarrow> SegmentStorage \<Rightarrow> directory" where
  "seg_files tail g =
     [(seg_name g @ ''.log'', ls_file (seg_log g) @ tail),
      (seg_name g @ ''.index'', oi_data (offsetIdx g)),
      (seg_name g @ ''.timeindex'', ti_data (timeIdx g))]"

definition crash_image :: "bytes \<Rightarrow> storageImpl \<Rightarrow> directory" where
  "crash_image tail s =
     concat (map (seg_files []) (butlast (segments s))) @ seg_files tail (last (segments s))"

definition name_ok :: "SegmentStorage \<Rightarrow> bool" where
  "name_ok g \<longleftrightarrow> 0 \<le> seg_baseOffset g \<and> seg_baseOffset g < 2 ^ 63"

lemma seg_name_length: "name_ok g \<Longrightarrow> length (seg_name g) = 20"
  using format_020_digits by (simp add: name_ok_def seg_name_def segmentBasePath_def)

lemma seg_name_less: "name_ok g \<Longrightarrow> name_ok h \<Longrightarrow> seg_baseOffset g < seg_baseOffset h \<Longrightarrow> seg_name g < seg_name h"
  using format_020_less by (simp add: name_ok_def seg_name_def segmentBasePath_def)

lemma seg_files_logs:
  "name_ok g \<Longrightarrow> filter (has_suffix ''.log'') (map fst (seg_files t g)) = [seg_name g @ ''.log'']"
  by (simp add: seg_files_def has_suffix_def seg_name_length)

lemma append_less:
  fixes a b :: "char list"
  assumes "length a = length b" "a < b"
  shows "a @ s < b @ s"
  using assms by (induction a b rule: list_induct2) auto

lemma glob_logs_image:
  assumes "list_all name_ok (gs @ [a])" "sorted_wrt (\<lambda>g h. seg_baseOffset g < seg_baseOffset h) (gs @ [a])"
  shows "glob_logs (concat (map (seg_files []) gs) @ seg_files t a) =
    map (\<lambda>g. seg_name g @ ''.log'') gs @ [seg_name a @ ''.log'']"
proof -
  have "filter (has_suffix ''.log'') (map fst (concat (map (seg_files []) gs))) =
      map (\<lambda>g. seg_name g @ ''.log'') gs"
    using assms(1) by (induction gs) (auto simp: seg_files_logs)
  moreover have "seg_name g @ ''.log'' \<le> seg_name h @ ''.log''"
    if "name_ok g" "name_ok h" "seg_baseOffset g < seg_baseOffset h" for g h
    using append_less [OF _ seg_name_less [OF that]] that seg_name_length by (simp add: less_imp_le)
  then have "sorted (map (\<lambda>g. seg_name g @ ''.log'') (gs @ [a]))"
    using assms unfolding sorted_wrt_map
    by (elim sorted_wrt_mono_rel [rotated]) (auto simp: list_all_iff)
  ultimately show ?thesis
    using assms(1) by (simp add: glob_logs_def seg_files_logs sorted_sort_id)
qed

lemma map_of_concat_files:
  assumes "list_all name_ok (g # gs)" "\<forall>h\<in>set gs. seg_baseOffset h \<noteq> seg_baseOffset g"
    "x \<in> {seg_name g @ ''.log'', seg_name g @ ''.index'', seg_name g @ ''.timeindex''}"
  shows "map_of (concat (map (seg_files t) gs)) x = None"
proof -
  have ne: "seg_name h \<noteq> seg_name g" if "h \<in> set gs" for h
    using that assms seg_name_less [of h g] seg_name_less [of g h]
    by (metis list.set_intros(1) list.set_intros(2) list_all_iff linorder_neqE less_irrefl)
  have "x \<noteq> seg_name h @ ''.log'' \<and> x \<noteq> seg_name h @ ''.index'' \<and> x \<noteq> seg_name h @ ''.timeindex''"
    if h: "h \<in> set gs" for h
    using h ne [OF h] assms seg_name_length [of h] seg_name_length [of g] by (auto simp: list_all_iff)
  then show ?thesis by (induction gs) (auto simp: seg_files_def)
qed

lemma image_lookup:
  assumes ok: "list_all name_ok (gs @ [a])" and d: "distinct (map seg_baseOffset (gs @ [a]))"
    and dir_def: "dir = concat (map (seg_files []) gs) @ seg_files t a"
  shows "list_all (sealed_on_disk dir) gs"
    "map_of dir (seg_name a @ ''.log'') = Some (ls_file (seg_log a) @ t)"
proof -
  have "sealed_on_disk dir g" if g: "g \<in> set gs" for g
  proof -
    obtain us vs where gs: "gs = us @ g # vs" using g by (meson split_list)
    have none: "map_of (concat (map (seg_files []) us)) x = None"
      if "x \<in> {seg_name g @ ''.log'', seg_name g @ ''.index'', seg_name g @ ''.timeindex''}" for x
      by (rule map_of_concat_files [OF _ _ that]) (use ok d gs in \<open>auto simp: list_all_iff rev_image_eqI\<close>)
    show ?thesis
      unfolding sealed_on_disk_def dir_def gs seg_name_def [symmetric]
      by (simp add: none map_add_def) (simp add: seg_files_def)
  qed
  then show "list_all (sealed_on_disk dir) gs" by (simp add: list_all_iff)
  have "map_of (concat (map (seg_files []) gs)) (seg_name a @ ''.log'') = None"
    by (rule map_of_concat_files [of a]) (use ok d in \<open>auto simp: rev_image_eqI\<close>)
  then show "map_of dir (seg_name a @ ''.log'') = Some (ls_file (seg_log a) @ t)"
    by (simp add: dir_def map_add_def) (simp add: seg_files_def)
qed

lemma image_names:
  assumes "\<not> (\<exists>off \<in> seg_baseOffset ` set (gs @ [a]). n \<in> set (segment_names off))"
  shows "map_of (concat (map (seg_files []) gs) @ seg_files t a) n = None"
  using assms unfolding map_of_eq_None_iff
  by (auto simp: seg_files_def segment_names_def seg_name_def Let_def)

lemma storage_inv_names:
  assumes inv: "storage_inv cfg s" and segs: "segments s = gs @ [a]"
  shows "list_all name_ok (gs @ [a])"
    "sorted_wrt (\<lambda>g h. seg_baseOffset g < seg_baseOffset h) (gs @ [a])"
    "distinct (map seg_baseOffset (gs @ [a]))"
    "list_all2 (seg_sealed cfg) gs (map seg_batches gs)"
proof -
  show "list_all name_ok (gs @ [a])"
    unfolding list_all_iff name_ok_def
  proof
    fix g assume "g \<in> set (gs @ [a])"
    then have "seg_ok cfg g (seg_batches g)" using storage_inv_seg_ok [OF inv] segs by simp
    from seg_end_ge [OF this] show "0 \<le> seg_baseOffset g \<and> seg_baseOffset g < 2 ^ 63" by simp
  qed
  have lt: "seg_baseOffset g < seg_end g" if "g \<in> set gs" for g
  proof -
    have "sealed_ok cfg g" using inv segs that by (simp add: storage_inv_snoc list_all_iff)
    then show ?thesis
      using wf_log_end(3) [of "seg_batches g" "seg_baseOffset g"]
      by (simp add: sealed_ok_def seg_sealed_def seg_ok_def log_ok_def seg_end_def)
  qed
  have "sorted_wrt (\<lambda>g h. seg_end g \<le> seg_baseOffset h) gs" "\<forall>g\<in>set gs. seg_end g \<le> seg_baseOffset a"
    using inv segs by (simp_all add: storage_inv_snoc)
  then have "sorted_wrt (\<lambda>g h. seg_baseOffset g < seg_baseOffset h) gs" "\<forall>g\<in>set gs. seg_baseOffset g < seg_baseOffset a"
    using lt by (force elim: sorted_wrt_mono_rel [rotated])+
  then show srt: "sorted_wrt (\<lambda>g h. seg_baseOffset g < seg_baseOffset h) (gs @ [a])"
    by (simp add: sorted_wrt_append)
  then show "distinct (map seg_baseOffset (gs @ [a]))"
    by (metis sorted_wrt_map strict_sorted_iff)
  show "list_all2 (seg_sealed cfg) gs (map seg_batches gs)"
    using inv segs by (auto simp: storage_inv_snoc list_all_iff sealed_ok_def list_all2_conv_all_nth)
qed

text \<open>What the abstract log, the order and the gaps depend on.\<close>

definition seg_view :: "SegmentStorage \<Rightarrow> int \<times> bytes list" where
  "seg_view g = (seg_baseOffset g, seg_batches g)"

lemma map_seg_view: "map seg_view gs = zip (map seg_baseOffset gs) (map seg_batches gs)"
  by (induction gs) (auto simp: seg_view_def)

lemma same_view:
  assumes v: "map seg_view (segments s') = map seg_view (segments s)"
  shows "storage_log s' = storage_log s" "gapless s' \<longleftrightarrow> gapless s"
    "sorted_wrt (\<lambda>g h. seg_end g \<le> seg_baseOffset h) (segments s') \<longleftrightarrow>
     sorted_wrt (\<lambda>g h. seg_end g \<le> seg_baseOffset h) (segments s)"
    "Storage_EarliestOffset s' = Storage_EarliestOffset s"
proof -
  have log: "storage_log t = concat (map snd (map seg_view (segments t)))" for t
    by (simp add: storage_log_def seg_view_def comp_def)
  have gap: "gapless t \<longleftrightarrow> successively (\<lambda>x y. log_end (fst x) (snd x) = fst y) (map seg_view (segments t))" for t
    by (simp add: gapless_def seg_view_def seg_end_def successively_map)
  have srt: "sorted_wrt (\<lambda>g h. seg_end g \<le> seg_baseOffset h) (segments t) \<longleftrightarrow>
      sorted_wrt (\<lambda>x y. log_end (fst x) (snd x) \<le> fst y) (map seg_view (segments t))" for t
    by (simp add: seg_view_def seg_end_def sorted_wrt_map)
  have el: "Storage_EarliestOffset t = (case map seg_view (segments t) of [] \<Rightarrow> 0 | x # _ \<Rightarrow> fst x)" for t
    by (cases "segments t") (simp_all add: Storage_EarliestOffset_def SegmentStorage_BaseOffset_def seg_view_def)
  show "storage_log s' = storage_log s" "gapless s' \<longleftrightarrow> gapless s"
    "sorted_wrt (\<lambda>g h. seg_end g \<le> seg_baseOffset h) (segments s') \<longleftrightarrow>
     sorted_wrt (\<lambda>g h. seg_end g \<le> seg_baseOffset h) (segments s)"
    "Storage_EarliestOffset s' = Storage_EarliestOffset s"
    unfolding log gap srt el v by simp_all
qed

text \<open>Recovery of a crash image: every segment comes back with its base offset and its batches.\<close>

lemma recoverStorage_crash:
  assumes os: "os_ok os" and cfg: "cfg_ok cfg" and inv: "storage_inv cfg s" and segs: "segments s = gs @ [a]"
    and crc: "list_all crc_ok (storage_log s)" and tail: "torn tail"
  shows "\<exists>gs' a'. recoverStorage os (crash_image tail s) cfg = Inr (gs' @ [a'], seg_end a, 0) \<and>
    list_all2 (seg_sealed cfg) gs' (map seg_batches gs) \<and> seg_active cfg a' (seg_batches a) \<and>
    map seg_view gs' = map seg_view gs \<and> seg_view a' = seg_view a"
proof -
  let ?dir = "crash_image tail s"
  have dir: "?dir = concat (map (seg_files []) gs) @ seg_files tail a" by (simp add: crash_image_def segs)
  note nm = storage_inv_names [OF inv segs]
  note look = image_lookup [OF nm(1,3) dir]
  have glob: "glob_logs ?dir = map (\<lambda>g. segmentBasePath (seg_baseOffset g) @ ''.log'') gs @
      [segmentBasePath (seg_baseOffset a) @ ''.log'']"
    using glob_logs_image [OF nm(1,2)] dir by (simp add: seg_name_def)
  obtain gs' where gs': "open_sealed os ?dir cfg (map (\<lambda>g. segmentBasePath (seg_baseOffset g) @ ''.log'') gs) = Inr gs'"
    "list_all2 (seg_sealed cfg) gs' (map seg_batches gs)" "map seg_baseOffset gs' = map seg_baseOffset gs"
    using open_sealed_ok [OF os nm(4) look(1)] nm(1) by (auto simp: name_ok_def list_all_iff)
  have a: "seg_ok cfg a (seg_batches a)" using storage_inv_seg_ok [OF inv, of a] segs by simp
  obtain a' where a': "recover_active os ?dir cfg (segmentBasePath (seg_baseOffset a) @ ''.log'') = Inr (a', seg_end a, 0)"
    "seg_active cfg a' (seg_batches a)" "seg_baseOffset a' = seg_baseOffset a"
    using recover_active_ok [OF os cfg, of "seg_baseOffset a" "seg_batches a" tail ?dir] look(2) a crc tail segs
    by (auto simp: seg_ok_def storage_log_def seg_name_def seg_end_def)
  have bg: "map seg_batches gs' = map seg_batches gs"
    using gs'(2) seg_sealed_batches by (intro nth_equalityI) (auto simp: list_all2_conv_all_nth)
  have "map seg_view gs' = map seg_view gs" "seg_view a' = seg_view a"
    unfolding map_seg_view bg gs'(3) by (simp_all add: seg_view_def seg_active_batches [OF a'(2)] a'(3))
  moreover have "recoverStorage os ?dir cfg = Inr (gs' @ [a'], seg_end a, 0)"
    using gs'(1) a'(1) glob os by (simp add: recoverStorage_def)
  ultimately show ?thesis using gs'(2) a'(2) by blast
qed

text \<open>Every file of the image belongs to a recovered segment.\<close>

lemma recovered_no_stray:
  assumes v: "map seg_view hs = map seg_view (gs @ [a])"
    and d: "dir = concat (map (seg_files []) gs) @ seg_files t a"
    and st: "st_dir s = (\<lambda>n. if \<exists>g\<in>set hs. n \<in> set (segment_names (seg_baseOffset g)) then None else map_of dir n)"
  shows "no_stray_files s"
proof -
  have "map seg_baseOffset hs = map seg_baseOffset (gs @ [a])"
    using arg_cong [OF v, of "map fst"] by (simp add: seg_view_def comp_def)
  then have b: "seg_baseOffset ` set hs = seg_baseOffset ` set (gs @ [a])"
    by (metis image_set)
  have "st_dir s n = None" for n
  proof (cases "\<exists>off \<in> seg_baseOffset ` set (gs @ [a]). n \<in> set (segment_names off)")
    case True
    then have "\<exists>g\<in>set hs. n \<in> set (segment_names (seg_baseOffset g))" unfolding b [symmetric] by blast
    then show ?thesis by (simp add: st)
  next
    case False
    then show ?thesis using image_names [OF False, of t] d by (simp add: st)
  qed
  then show ?thesis unfolding no_stray_files_def by blast
qed

text \<open>
  The whole directory: reopening after a crash gives the same log, the same next offset and the
  invariant, whatever the indexes held and whatever torn write followed the last batch.
\<close>

lemma Storage_Open_crash:
  assumes os: "os_ok os" and cfg: "cfg_ok cfg" and inv: "storage_inv cfg s"
    and crc: "list_all crc_ok (storage_log s)" and tail: "torn tail"
  shows "\<exists>s'. Storage_Open os (crash_image tail s) cfg = Inr s' \<and> storage_inv cfg s' \<and>
    storage_log s' = storage_log s \<and> nextOffset s' = nextOffset s \<and>
    Storage_EarliestOffset s' = Storage_EarliestOffset s \<and> (gapless s \<longrightarrow> gapless s')"
proof -
  obtain gs a where segs: "segments s = gs @ [a]"
    using inv by (metis storage_inv_def append_butlast_last_id)
  obtain gs' a' where r: "recoverStorage os (crash_image tail s) cfg = Inr (gs' @ [a'], seg_end a, 0)"
    "list_all2 (seg_sealed cfg) gs' (map seg_batches gs)" "seg_active cfg a' (seg_batches a)"
    "map seg_view gs' = map seg_view gs" "seg_view a' = seg_view a"
    using recoverStorage_crash [OF os cfg inv segs crc tail] by blast
  obtain s' where s': "Storage_Open os (crash_image tail s) cfg = Inr s'" "segments s' = gs' @ [a']"
    "nextOffset s' = seg_end a" "\<not> st_closed s'"
    "st_dir s' = (\<lambda>n. if \<exists>g\<in>set (gs' @ [a']). n \<in> set (segment_names (seg_baseOffset g))
                     then None else map_of (crash_image tail s) n)"
    using r(1) by (auto simp: Storage_Open_def)
  have sv: "map seg_view (segments s') = map seg_view (segments s)" using r segs s'(2) by simp
  have stray: "no_stray_files s'"
    by (rule recovered_no_stray [OF _ _ s'(5)]) (use sv segs s'(2) in \<open>simp_all add: crash_image_def\<close>)
  have bg: "map seg_batches gs' = map seg_batches gs" and ba: "seg_batches a' = seg_batches a" "seg_end a' = seg_end a"
    using arg_cong [OF r(4), of "map snd"] r(5) by (simp_all add: seg_view_def seg_end_def comp_def)
  have "list_all (sealed_ok cfg) gs'"
    using r(2) bg inv segs
    by (auto simp: list_all_length sealed_ok_def list_all2_conv_all_nth storage_inv_snoc seg_sealed_batches
        dest: map_eq_imp_length_eq)
  moreover have "active_ok cfg a'"
    using r(3) ba inv segs
    by (auto simp: active_ok_def SegmentStorage_LogSize_def storage_inv_snoc seg_active_def seg_ok_def)
  ultimately have "storage_inv cfg s'"
    using stray same_view(3) [OF sv] inv s' ba by (simp add: storage_inv_def)
  then show ?thesis using s' same_view [OF sv] storage_inv_active(5) [OF inv segs] by simp
qed

section \<open>Batches that a producer encodes are well-formed\<close>

lemma batch_bytes_fields:
  "be_int (slc (batch_bytes off bl n crc base mx recs) 8 12) = bl mod 2 ^ 32"
  "be_int (slc (batch_bytes off bl n crc base mx recs) 12 16) = n mod 2 ^ 32"
  "be_int (slc (batch_bytes off bl n crc base mx recs) 16 20) = uint crc mod 2 ^ 32"
  by (simp_all add: batch_bytes_def slc_def be_int_be_bytes)

lemma EncodeBatch_wf:
  assumes e: "EncodeBatch rs = Inr b" and l: "length b \<le> 4194304"
  shows "wf_batch b" "crc_ok b" "bcount b = int (length rs)"
proof -
  have l': "length b < 2 ^ 31" using l by simp
  define r where "r = drop 38 b"
  note L = EncodeBatch_layout [OF e l', folded r_def]
  have lb: "length b = 38 + length r" by (subst L(2)) (simp only: length_batch_bytes)
  have n: "length rs \<le> length r" using length_records_bytes L(3) by metis
  have f1: "be_int (slc b 8 12) = int (length b) mod 2 ^ 32"
    by (subst L(2)) (rule batch_bytes_fields)
  have f2: "be_int (slc b 12 16) = int (length rs) mod 2 ^ 32"
    by (subst L(2)) (rule batch_bytes_fields)
  have f3: "be_int (slc b 16 20) = uint (crc32c r) mod 2 ^ 32"
    by (subst L(2)) (rule batch_bytes_fields)
  have flds: "be_int (slc b 8 12) = int (length b)" "be_int (slc b 12 16) = int (length rs)"
    "be_int (slc b 16 20) = uint (crc32c r)"
    using f1 f2 f3 l lb n uint_lt2p [of "crc32c r"] by (simp_all add: mod_pos_pos_trivial)
  have "0 < length rs" using L(1) by simp
  then show "wf_batch b" "crc_ok b" "bcount b = int (length rs)"
    using flds lb l n by (simp_all add: wf_batch_def framed_def bcount_def crc_ok_def flip: r_def)
qed

lemma Storage_Open_empty:
  assumes os: "os_ok os" and cfg: "cfg_ok cfg"
  shows "\<exists>s. Storage_Open os [] cfg = Inr s \<and> storage_inv cfg s \<and> storage_log s = [] \<and>
    nextOffset s = 0 \<and> Storage_EarliestOffset s = 0 \<and> gapless s"
proof -
  obtain g where g: "NewSegmentStorage os (map_of []) 0 cfg = Inr g" "seg_active cfg g []" "seg_baseOffset g = 0"
    using NewSegmentStorage_fresh [OF os cfg, of 0 "map_of []"] by auto
  have b: "seg_batches g = []" by (rule seg_active_batches [OF g(2)])
  have "active_ok cfg g"
    using g b cfg by (simp add: active_ok_def SegmentStorage_LogSize_def seg_active_def seg_ok_def cfg_ok_def)
  then show ?thesis
    using g b os
    by (simp add: Storage_Open_def recoverStorage_def glob_logs_def storage_inv_def storage_log_def gapless_def
        seg_end_def no_stray_files_def Storage_EarliestOffset_def SegmentStorage_BaseOffset_def)
qed

end
