(* ===== verification/PropsStorage.thy ===== *)
theory PropsStorage
  imports StorageCrash
begin

text \<open>
  The properties of the storage engine and of the batch codec, each with an example that meets
  its hypotheses: a storage opened on an empty directory, to which one encoded batch is
  appended.
\<close>

section \<open>The example\<close>

definition demo_os :: os_env where
  "demo_os = \<lparr>os_fails = (\<lambda>_. None), os_pagesize = 4096\<rparr>"

definition demo_cfg :: StorageConfig where
  "demo_cfg = \<lparr>SegmentMaxBytes = 50, IndexSampleBytes = 10, RetentionCheckIntervalMs = 0,
               DefaultRetentionMs = 0, DefaultRetentionBytes = - 1\<rparr>"

definition sample_records :: "Record list" where
  "sample_records =
     [\<lparr>TimestampMs = 1000, Key = None, Value = [1, 2, 3], Headers = []\<rparr>,
      \<lparr>TimestampMs = 900, Key = Some [], Value = [],
       Headers = [\<lparr>rh_Key = [107], rh_Value = [118, 118]\<rparr>]\<rparr>]"

definition sample_batch :: bytes where
  "sample_batch = projr (EncodeBatch sample_records)"

definition demo_empty :: storageImpl where
  "demo_empty = projr (Storage_Open demo_os [] demo_cfg)"

definition demo_store :: storageImpl where
  "demo_store = snd (Storage_Append demo_os demo_cfg sample_batch demo_empty)"

lemma demo_ok: "os_ok demo_os" "cfg_ok demo_cfg"
  by (simp_all add: os_ok_def cfg_ok_def demo_os_def demo_cfg_def)

lemma sample_encoded: "EncodeBatch sample_records = Inr sample_batch"
  by (simp add: EncodeBatch_def sample_records_def sample_batch_def Let_def)

lemma sample_length: "length sample_batch = 61"
  by (simp add: EncodeBatch_def sample_records_def sample_batch_def Let_def encodeRecords_eq
      appendRecord_layout record_body_def headers_bytes_def key_bytes_def uvarint_def
      appendUvarint.simps zigzag_def word_le_def)

lemma sample_wf: "wf_batch sample_batch" "crc_ok sample_batch" "bcount sample_batch = 2"
  using EncodeBatch_wf [OF sample_encoded] sample_length by (simp_all add: sample_records_def)

lemma demo_empty_ok:
  "storage_inv demo_cfg demo_empty" "storage_log demo_empty = []" "nextOffset demo_empty = 0"
  "gapless demo_empty" "Storage_EarliestOffset demo_empty = 0"
  using Storage_Open_empty [OF demo_ok] by (auto simp: demo_empty_def)

lemma demo_store_ok:
  "storage_inv demo_cfg demo_store" "nextOffset demo_store = 2" "gapless demo_store"
  "storage_log demo_store = [overwrite sample_batch 0 (be_bytes 8 0)]"
  "Storage_EarliestOffset demo_store = 0"
  using Storage_Append_refines [OF demo_ok demo_empty_ok(1) sample_wf(1)] sample_wf(3) demo_empty_ok
  by (auto simp: demo_store_def)

lemma crc_ok_overwrite:
  assumes "38 \<le> length b"
  shows "crc_ok (overwrite b 0 (be_bytes 8 n)) \<longleftrightarrow> crc_ok b"
proof -
  have "drop 38 (overwrite b 0 (be_bytes 8 n)) = drop 38 b" "slc (overwrite b 0 (be_bytes 8 n)) 16 20 = slc b 16 20"
    using assms by (simp_all add: overwrite_def slc_def)
  then show ?thesis by (simp add: crc_ok_def)
qed

section \<open>Appending, reading, recovering\<close>

text \<open>
  C2. Append refines appending to the log.  On a storage that meets the invariant, with no failing
  system call, \<open>Append\<close> of a well-formed batch returns the next offset, the abstract log grows
  by exactly this batch with the offset written into its first eight bytes, the next offset
  advances by the record count, the channel that waiting readers hold is closed, and the
  invariant (segments ordered, sealed but for the last, indexes exact) is kept, also across a
  segment roll.
\<close>

theorem append_refines_log:
  assumes "os_ok os" "cfg_ok cfg" "storage_inv cfg s" "wf_batch batch" "nextOffset s + bcount batch < 2 ^ 63"
  shows "\<exists>s'. Storage_Append os cfg batch s = (Inr (nextOffset s), s') \<and> storage_inv cfg s' \<and>
    storage_log s' = storage_log s @ [overwrite batch 0 (be_bytes 8 (nextOffset s))] \<and>
    nextOffset s' = nextOffset s + bcount batch \<and> channel_closed s' (Storage_NewDataCh s) \<and>
    (gapless s \<longrightarrow> gapless s')"
  using Storage_Append_refines [OF assms] by (auto simp: channel_closed_def Storage_NewDataCh_def)

theorem append_refines_log_witness:
  "\<exists>s'. Storage_Append demo_os demo_cfg sample_batch demo_empty = (Inr 0, s') \<and> storage_inv demo_cfg s' \<and>
    storage_log s' = [overwrite sample_batch 0 (be_bytes 8 0)] \<and> nextOffset s' = 2 \<and>
    channel_closed s' (Storage_NewDataCh demo_empty) \<and> gapless s'"
  using append_refines_log [OF demo_ok demo_empty_ok(1) sample_wf(1)] sample_wf(3) demo_empty_ok by simp

text \<open>
  C6. Reads make progress.  On a gapless log, a read at any offset between the earliest and the
  latest returns a run of whole, consecutive batches of the abstract log whose first batch
  contains the offset; the next offset it reports is where the last returned batch ends and lies
  beyond the offset asked for; and more than one batch is returned only within \<open>maxBytes\<close>.
\<close>

theorem read_returns_log:
  assumes "cfg_ok cfg" "storage_inv cfg s" "gapless s"
    "Storage_EarliestOffset s \<le> off" "off < Storage_LatestOffset s"
  shows "\<exists>b rs pre post. Storage_Read s off mx = Inr (concat (b # rs), bend (last (b # rs))) \<and>
    storage_log s = pre @ (b # rs) @ post \<and> covers b off \<and> off < bend (last (b # rs)) \<and>
    (rs = [] \<or> int (length (concat (b # rs))) \<le> mx)"
  by (rule Storage_Read_progress [OF assms])

theorem read_returns_log_witness:
  "\<exists>b rs pre post. Storage_Read demo_store 1 10 = Inr (concat (b # rs), bend (last (b # rs))) \<and>
    storage_log demo_store = pre @ (b # rs) @ post \<and> covers b 1 \<and> 1 < bend (last (b # rs)) \<and>
    (rs = [] \<or> int (length (concat (b # rs))) \<le> 10)"
  by (rule read_returns_log [OF demo_ok(2) demo_store_ok(1,3)])
    (simp_all add: demo_store_ok(5) Storage_LatestOffset_def demo_store_ok(2))

text \<open>
  C3. Crash recovery loses nothing and invents nothing.  If the process stops with a torn write
  behind the last complete batch of the active log, and with arbitrary index files for the active
  segment, then opening the directory gives a storage that meets the invariant and holds exactly
  the batches of before, with the same next and earliest offset.
\<close>

theorem crash_recovery:
  assumes "os_ok os" "cfg_ok cfg" "storage_inv cfg s" "list_all crc_ok (storage_log s)" "torn tail"
  shows "\<exists>s'. Storage_Open os (crash_image tail s) cfg = Inr s' \<and> storage_inv cfg s' \<and>
    storage_log s' = storage_log s \<and> nextOffset s' = nextOffset s \<and>
    Storage_EarliestOffset s' = Storage_EarliestOffset s \<and> (gapless s \<longrightarrow> gapless s')"
  by (rule Storage_Open_crash [OF assms])

theorem crash_recovery_witness:
  "\<exists>s'. Storage_Open demo_os (crash_image (take 40 sample_batch) demo_store) demo_cfg = Inr s' \<and>
    storage_inv demo_cfg s' \<and> storage_log s' = storage_log demo_store \<and>
    nextOffset s' = nextOffset demo_store \<and>
    Storage_EarliestOffset s' = Storage_EarliestOffset demo_store \<and> (gapless demo_store \<longrightarrow> gapless s')"
proof (rule crash_recovery [OF demo_ok demo_store_ok(1)])
  show "list_all crc_ok (storage_log demo_store)"
    using sample_wf(1,2) crc_ok_overwrite [of sample_batch 0]
    by (simp add: demo_store_ok(4) wf_batch_def framed_def)
  show "torn (take 40 sample_batch)"
    by (rule torn_prefix [of sample_batch])
      (use sample_wf(1) sample_length in \<open>auto simp: wf_batch_def take_is_prefix dest: arg_cong [of _ _ length]\<close>)
qed

text \<open>
  C32. Truncation cuts the log at a batch.  \<open>TruncateTo\<close> with the base offset of any stored batch
  leaves exactly the batches before it, makes that offset the next one to be assigned, and keeps
  the invariant, also when later segments are deleted and a sealed segment becomes active again.
\<close>

theorem truncate_cuts_log:
  assumes "os_ok os" "cfg_ok cfg" "storage_inv cfg s" "storage_log s = xs @ b # ys"
  shows "\<exists>s'. Storage_TruncateTo os cfg (boff b) s = (None, s') \<and> storage_inv cfg s' \<and>
    storage_log s' = xs \<and> nextOffset s' = boff b \<and> (gapless s \<longrightarrow> gapless s')"
  by (rule Storage_TruncateTo_ok [OF assms])

theorem truncate_cuts_log_witness:
  "\<exists>s'. Storage_TruncateTo demo_os demo_cfg (boff (overwrite sample_batch 0 (be_bytes 8 0))) demo_store = (None, s') \<and>
    storage_inv demo_cfg s' \<and> storage_log s' = [] \<and>
    nextOffset s' = boff (overwrite sample_batch 0 (be_bytes 8 0)) \<and> (gapless demo_store \<longrightarrow> gapless s')"
  by (rule truncate_cuts_log [OF demo_ok demo_store_ok(1), where ys = "[]"]) (simp add: demo_store_ok(4))

section \<open>The codec\<close>

text \<open>
  C13. Decoding inverts encoding.  For every list of records that \<open>EncodeBatch\<close> accepts and
  whose encoding fits an \<open>int32\<close> length, \<open>DecodeBatch\<close> gives back exactly these records
  (nil keys, empty values and headers included) and the header that was written, also after
  the storage layer has overwritten the eight base-offset bytes, and whatever bytes follow.
\<close>

theorem batch_roundtrip:
  assumes "EncodeBatch rs = Inr b" "length b < 2 ^ 31"
  shows "DecodeBatch (be_bytes 8 off @ drop 8 b @ rest) =
    Inr \<lparr>BaseOffset = word_of_int off, BatchLength = word_of_nat (length b),
         RecordCount = word_of_nat (length rs), CRC32 = crc32c (drop 38 b), Attributes = 0,
         BaseTimestamp = TimestampMs (hd rs), MaxTimestamp = TimestampMs (last rs), Records = rs\<rparr>"
  by (rule DecodeBatch_EncodeBatch [OF assms])

theorem batch_roundtrip_witness:
  "DecodeBatch (be_bytes 8 41 @ drop 8 sample_batch @ [9]) =
     Inr \<lparr>BaseOffset = 41, BatchLength = 61, RecordCount = 2, CRC32 = crc32c (drop 38 sample_batch),
          Attributes = 0, BaseTimestamp = 1000, MaxTimestamp = 900, Records = sample_records\<rparr>"
  using batch_roundtrip [OF sample_encoded, of 41 "[9]"] unfolding sample_length
  by (simp add: sample_records_def del: be_bytes.simps)

text \<open>
  C14. What a producer encodes is what the broker can store: every batch \<open>EncodeBatch\<close> produces,
  within the 4 MiB the data API admits, carries its own length, has a matching CRC-32C, counts
  its records in the header, and has no more records than bytes.
\<close>

theorem encoded_batch_wf:
  assumes "EncodeBatch rs = Inr b" "length b \<le> 4194304"
  shows "wf_batch b \<and> crc_ok b \<and> bcount b = int (length rs)"
  using EncodeBatch_wf [OF assms] by simp

theorem encoded_batch_wf_witness: "wf_batch sample_batch \<and> crc_ok sample_batch \<and> bcount sample_batch = int (length sample_records)"
  by (rule encoded_batch_wf [OF sample_encoded]) (simp add: sample_length)

section \<open>Indexes and the active scan\<close>

definition demo_index :: OffsetIndexSegment where
  "demo_index = snd (OffsetIndex_Rebuild [(0, 100), (10, 500), (20, 1000)]
     (projr (OpenOffsetIndex demo_os None 0 1000 100)))"

definition demo_time_index :: TimeIndexSegment where
  "demo_time_index = snd (TimeIndex_Rebuild [(1000, 0), (2000, 10), (2000, 20)]
     (projr (OpenTimeIndex demo_os None 0 1000 100)))"

lemma demo_index_ok:
  "OffsetIndex_ok demo_index" "OffsetIndex_entries demo_index = [(0, 100), (10, 500), (20, 1000)]"
proof -
  obtain s where s: "OpenOffsetIndex demo_os None 0 1000 100 = Inr s" "OffsetIndex_ok s" "oi_maxEntries s = 10"
    using OpenOffsetIndex_fresh [OF demo_ok(1), of 1000 100 0] by auto
  then show "OffsetIndex_ok demo_index" "OffsetIndex_entries demo_index = [(0, 100), (10, 500), (20, 1000)]"
    using oix.rebuild_entries [of s "[(0, 100), (10, 500), (20, 1000)]"]
    by (auto simp: demo_index_def OffsetIndex_fits_def in_int32_def)
qed

lemma demo_time_index_ok:
  "TimeIndex_ok demo_time_index" "TimeIndex_entries demo_time_index = [(1000, 0), (2000, 10), (2000, 20)]"
proof -
  obtain s where s: "OpenTimeIndex demo_os None 0 1000 100 = Inr s" "TimeIndex_ok s" "ti_maxEntries s = 10"
    using OpenTimeIndex_fresh [OF demo_ok(1), of 1000 100 0] by auto
  then show "TimeIndex_ok demo_time_index"
    "TimeIndex_entries demo_time_index = [(1000, 0), (2000, 10), (2000, 20)]"
    using tix.rebuild_entries [of s "[(1000, 0), (2000, 10), (2000, 20)]"]
    by (auto simp: demo_time_index_def TimeIndex_fits_def in_int32_def in_int64_def)
qed

text \<open>
  The offset index finds the floor entry.  On any table with keys in order the binary search
  of \<open>Lookup\<close> over the mapped bytes agrees with the linear reference: the position of the last
  entry whose relative offset is at most the one asked for, or not found when there is none.
\<close>

theorem offset_lookup_floor:
  assumes "OffsetIndex_ok s" "sorted (map fst (OffsetIndex_entries s))"
  shows "OffsetIndex_Lookup t s = Inr (lookup_result (floor_entry (OffsetIndex_entries s) t))"
  by (rule oix.lookup_floor [OF assms])

theorem offset_lookup_floor_witness: "OffsetIndex_Lookup 15 demo_index = Inr (500, True)"
  using offset_lookup_floor [OF demo_index_ok(1), of 15]
  by (simp add: demo_index_ok(2) floor_entry_def lookup_result_def)

text \<open>
  The time index finds the ceiling entry: on any table with timestamps in order, the relative
  offset of the first entry at or after the timestamp, or not found when all are older.
\<close>

theorem time_lookup_ceil:
  assumes "TimeIndex_ok s" "sorted (map fst (TimeIndex_entries s))"
  shows "TimeIndex_Lookup t s = Inr (lookup_result (ceil_entry (TimeIndex_entries s) t))"
  by (rule tix.lookup_ceil [OF assms])

theorem time_lookup_ceil_witness: "TimeIndex_Lookup 1500 demo_time_index = Inr (10, True)"
  using time_lookup_ceil [OF demo_time_index_ok(1), of 1500]
  by (simp add: demo_time_index_ok(2) ceil_entry_def lookup_result_def)

text \<open>
  Rebuilding the indexes of an active segment from its log gives the entries, and the count
  of bytes since the last entry, that the history of appends had left in memory.
\<close>

theorem rebuild_agrees:
  assumes "os_ok os" "cfg_ok cfg" "seg_active cfg g bs"
  shows "\<exists>g'. rebuildSegmentIndexes os cfg g = (None, g') \<and>
    OffsetIndex_entries (offsetIdx g') = OffsetIndex_entries (offsetIdx g) \<and>
    TimeIndex_entries (timeIdx g') = TimeIndex_entries (timeIdx g) \<and>
    bytesSinceLastIndex g' = bytesSinceLastIndex g"
  using rebuildSegmentIndexes_ok [OF assms(1,2), of g bs] assms(3)
  by (auto simp: seg_active_def seg_ok_def log_file_ok_def)

definition demo_segment :: SegmentStorage where
  "demo_segment = last (segments demo_store)"

lemma demo_segment_active: "seg_active demo_cfg demo_segment (seg_batches demo_segment)"
  using demo_store_ok(1) by (simp add: storage_inv_def active_ok_def demo_segment_def)

theorem rebuild_agrees_witness:
  "\<exists>g'. rebuildSegmentIndexes demo_os demo_cfg demo_segment = (None, g') \<and>
    OffsetIndex_entries (offsetIdx g') = OffsetIndex_entries (offsetIdx demo_segment) \<and>
    TimeIndex_entries (timeIdx g') = TimeIndex_entries (timeIdx demo_segment) \<and>
    bytesSinceLastIndex g' = bytesSinceLastIndex demo_segment"
  by (rule rebuild_agrees [OF demo_ok demo_segment_active])

text \<open>
  The scan of the active log stops at the first corrupt batch: the valid position and the
  next offset are those of the intact batches before it, and exactly one CRC error is reported.
\<close>

theorem scan_stops_at_corruption:
  assumes "os_ok os" "log_ok mx base bs" "list_all crc_ok bs" "framed b" "\<not> crc_ok b"
  shows "scanActiveLog os (Some (concat bs @ b @ rest)) base =
    Inr (int (length (concat bs)), log_end base bs, 1)"
  using scanActiveLog_loop_corrupt [of bs base b "[]" rest] assms
  by (simp add: scanActiveLog_def log_ok_def)

definition corrupt_batch :: bytes where
  "corrupt_batch = be_bytes 8 2 @ be_bytes 4 38 @ be_bytes 4 1 @ be_bytes 4 7 @ replicate 18 0"

theorem scan_stops_at_corruption_witness:
  "scanActiveLog demo_os (Some (concat [overwrite sample_batch 0 (be_bytes 8 0)] @ corrupt_batch @ [])) 0 =
    Inr (int (length (concat [overwrite sample_batch 0 (be_bytes 8 0)])),
         log_end 0 [overwrite sample_batch 0 (be_bytes 8 0)], 1)"
proof (rule scan_stops_at_corruption [OF demo_ok(1), of 50])
  have len: "38 \<le> length sample_batch" by (simp add: sample_length)
  show "log_ok 50 0 [overwrite sample_batch 0 (be_bytes 8 0)]"
    using wf_batch_overwrite [OF sample_wf(1)] bcount_overwrite [OF len, of 0] sample_wf(3)
    by (simp add: log_ok_def int64_id in_int64_def)
  show "list_all crc_ok [overwrite sample_batch 0 (be_bytes 8 0)]"
    using crc_ok_overwrite [OF len] sample_wf(2) by simp
  show "framed corrupt_batch"
    by (simp add: framed_def corrupt_batch_def slc_def be_int_be_bytes)
  show "\<not> crc_ok corrupt_batch"
    by (simp add: crc_ok_def corrupt_batch_def slc_def be_int_be_bytes crc32c_def)
qed

text \<open>
  Segment file names parse back to the base offset they were made from, and sort in the
  order of the offsets, which is what recovery relies on when it takes the last name in the
  listing as the active segment.
\<close>

theorem segment_names_sort:
  assumes "0 \<le> i" "i < j" "j < 2 ^ 63"
  shows "segmentBasePath i @ ''.log'' < segmentBasePath j @ ''.log'' \<and>
    parse_segment_name (segmentBasePath i @ ''.log'') = Inr i"
proof -
  have "length (segmentBasePath i) = length (segmentBasePath j)"
    using assms format_020_digits(2) [of i] format_020_digits(2) [of j] by (simp add: segmentBasePath_def)
  then have "segmentBasePath i @ ''.log'' < segmentBasePath j @ ''.log''"
    by (rule append_less) (use assms format_020_less in \<open>simp add: segmentBasePath_def\<close>)
  then show ?thesis
    using assms ParseInt_format_020 [of i] by (simp add: parse_segment_name_def segmentBasePath_def)
qed

theorem segment_names_sort_witness:
  "segmentBasePath 9 @ ''.log'' < segmentBasePath 10 @ ''.log'' \<and>
    parse_segment_name (segmentBasePath 9 @ ''.log'') = Inr 9"
  by (rule segment_names_sort) simp_all

section \<open>Retention\<close>

text \<open>
  C33. Retention never touches the active segment and never changes the next offset; what stays
  is a subsequence of the log, the earliest offset does not go back, the number of deleted
  segments is the number reported, and the invariant is kept.
\<close>

theorem retention_safe:
  assumes "storage_inv cfg s" "Storage_EnforceRetention now ms lim s = (n, s')"
  shows "storage_inv cfg s' \<and> last (segments s') = last (segments s) \<and>
    subseq (storage_log s') (storage_log s) \<and> nextOffset s' = nextOffset s \<and>
    Storage_EarliestOffset s \<le> Storage_EarliestOffset s' \<and>
    int (length (segments s')) = int (length (segments s)) - n"
  by (rule Storage_EnforceRetention_inv [OF assms])

theorem retention_safe_witness:
  "let s' = snd (Storage_EnforceRetention 5000 1 0 demo_store)
   in storage_inv demo_cfg s' \<and> last (segments s') = last (segments demo_store) \<and>
      nextOffset s' = nextOffset demo_store"
  using retention_safe [OF demo_store_ok(1), of 5000 1 0
      "fst (Storage_EnforceRetention 5000 1 0 demo_store)" "snd (Storage_EnforceRetention 5000 1 0 demo_store)"]
  by (simp add: Let_def)

text \<open>
  Retention by bytes deletes a prefix of the sealed segments and no more than needed: the
  rest fits the limit (or only the active segment is left), while with one segment fewer deleted
  it would not; a gapless log stays gapless.
\<close>

theorem retention_bytes:
  assumes "storage_inv cfg s" "ms \<le> 0" "0 \<le> lim" "Storage_EnforceRetention now ms lim s = (n, s')"
  shows "\<exists>k < length (segments s). n = int k \<and> segments s' = drop k (segments s) \<and>
    (Suc k = length (segments s) \<or> sum_list (map SegmentStorage_LogSize (segments s')) \<le> lim) \<and>
    (\<forall>j < k. sum_list (map SegmentStorage_LogSize (drop j (segments s))) > lim) \<and>
    (gapless s \<longrightarrow> gapless s')"
  by (rule Storage_EnforceRetention_bytes [OF assms])

theorem retention_bytes_witness:
  "\<exists>k < length (segments demo_store).
    fst (Storage_EnforceRetention 0 0 0 demo_store) = int k \<and>
    segments (snd (Storage_EnforceRetention 0 0 0 demo_store)) = drop k (segments demo_store)"
  using retention_bytes [OF demo_store_ok(1), of 0 0 0
      "fst (Storage_EnforceRetention 0 0 0 demo_store)" "snd (Storage_EnforceRetention 0 0 0 demo_store)"]
  by auto

end
