(* ===== verification/Partition.thy ===== *)
theory Partition
  imports StorageCrash
begin

text \<open>
  \<open>internal/partition/partition.go\<close> and \<open>types.go\<close>: the on-disk state machine that drives
  the storage of one partition.  The record owns the storage and the sidecar file; the raft
  library (dragonboat) is the caller: it hands over committed entries in order and, after a
  restart, replays the entries after the index that \<open>Open\<close> returned.  The decoder of the
  retention payload is an argument.
\<close>

section \<open>Commands and queries\<close>

definition CmdAppendBatch :: byte where
  "CmdAppendBatch = 1"

definition CmdRetentionConfig :: byte where
  "CmdRetentionConfig = 2"

record PartitionCommand =
  pc_Type :: byte
  pc_Payload :: bytes

definition PartitionCommand_Marshal :: "PartitionCommand \<Rightarrow> bytes" where
  "PartitionCommand_Marshal c = pc_Type c # pc_Payload c"

datatype PartitionQueryType =
    QueryRead
  | QueryReadByTime
  | QueryEarliestOffset
  | QueryLatestOffset
  | QueryGetNewDataCh
  | QueryOther string

record PartitionQuery =
  pq_Type :: PartitionQueryType
  pq_Offset :: int
  pq_TimestampMs :: int
  pq_MaxBytes :: int

datatype PartitionAnswer =
    PartitionLookupResult bytes int
  | OffsetAnswer int
  | ChannelAnswer nat

section \<open>The sidecar file\<close>

definition encodeSidecar :: "int \<Rightarrow> int \<Rightarrow> bytes" where
  "encodeSidecar index latestOffset = be_bytes 8 index @ be_bytes 8 latestOffset"

text \<open>\<open>None\<close> is a file that does not exist; the error of the read is then \<open>IsNotExist\<close>.\<close>

definition readSidecar :: "os_env \<Rightarrow> bytes option \<Rightarrow> (go_error + (int \<times> int)) option" where
  "readSidecar os f =
     (case f of
        None \<Rightarrow> None
      | Some data \<Rightarrow>
          Some (case sys os SysReadSidecar of
                  Some e \<Rightarrow> Inl e
                | None \<Rightarrow>
                    if length data \<noteq> 16 then Inl (NewError ''sidecar: unexpected size'')
                    else Inr (be_int (slc data 0 8), int64 (be_int (slc data 8 16)))))"

section \<open>The state machine\<close>

record PartitionFSM =
  fsm_storage :: "storageImpl option"
  lastAppliedIndex :: int
  fsm_closed :: bool
  fsm_sidecar :: "bytes option"

record Entry =
  e_Index :: int
  e_Cmd :: bytes
  e_Result :: int

definition NewPartitionFSM :: "bytes option \<Rightarrow> PartitionFSM" where
  "NewPartitionFSM sidecar =
     \<lparr>fsm_storage = None, lastAppliedIndex = 0, fsm_closed = False, fsm_sidecar = sidecar\<rparr>"

definition PartitionFSM_Open ::
    "os_env \<Rightarrow> StorageConfig \<Rightarrow> directory \<Rightarrow> PartitionFSM \<Rightarrow> (go_error + int) \<times> PartitionFSM" where
  "PartitionFSM_Open os cfg dir fsm =
     (case Storage_Open os dir cfg of
        Inl e \<Rightarrow> (Inl e, fsm)
      | Inr s \<Rightarrow>
          (let fsm1 = fsm\<lparr>fsm_storage := Some s\<rparr>
           in (case readSidecar os (fsm_sidecar fsm) of
                 None \<Rightarrow> (Inr 0, fsm1)
               | Some (Inl e) \<Rightarrow> (Inl e, fsm1)
               | Some (Inr (idx, latest)) \<Rightarrow>
                   (case (if Storage_LatestOffset s > latest then Storage_TruncateTo os cfg latest s
                          else (None, s)) of
                      (Some e, s) \<Rightarrow> (Inl e, fsm1\<lparr>fsm_storage := Some s\<rparr>)
                    | (None, s) \<Rightarrow>
                        (Inr idx, fsm1\<lparr>fsm_storage := Some s, lastAppliedIndex := idx\<rparr>)))))"

text \<open>A panic of \<open>Update\<close> stops the process; the state it leaves is the one at that moment.\<close>

fun Update_loop ::
    "os_env \<Rightarrow> StorageConfig \<Rightarrow> (bytes \<Rightarrow> go_error + (int \<times> int)) \<Rightarrow> Entry list \<Rightarrow> storageImpl \<Rightarrow>
     (go_error + Entry list) \<times> storageImpl" where
  "Update_loop os cfg dec [] s = (Inr [], s)"
| "Update_loop os cfg dec (e # es) s =
     (case e_Cmd e of
        [] \<Rightarrow> (Inl (GoPanic ''index out of range''), s)
      | c # payload \<Rightarrow>
          if c = CmdAppendBatch
          then (case Storage_Append os cfg payload s of
                  (Inl err, s) \<Rightarrow> (Inl (GoPanic ''storage.Append failed''), s)
                | (Inr baseOffset, s) \<Rightarrow>
                    (case Update_loop os cfg dec es s of
                       (Inl err, s) \<Rightarrow> (Inl err, s)
                     | (Inr es', s) \<Rightarrow> (Inr (e\<lparr>e_Result := uint64 baseOffset\<rparr> # es'), s)))
          else if c = CmdRetentionConfig
          then (case dec payload of
                  Inl err \<Rightarrow> (Inl (GoPanic ''bad retention config''), s)
                | Inr (ms, lim) \<Rightarrow>
                    (case Update_loop os cfg dec es (Storage_SetRetentionConfig ms lim s) of
                       (Inl err, s) \<Rightarrow> (Inl err, s)
                     | (Inr es', s) \<Rightarrow> (Inr (e\<lparr>e_Result := 0\<rparr> # es'), s)))
          else (Inl (GoPanic ''unknown partition command type''), s))"

definition persistApplied :: "os_env \<Rightarrow> int \<Rightarrow> storageImpl \<Rightarrow> PartitionFSM \<Rightarrow> go_error option \<times> PartitionFSM" where
  "persistApplied os index s fsm =
     (case Storage_Sync os s of
        Some e \<Rightarrow> (Some e, fsm)
      | None \<Rightarrow>
          (case sys os SysWriteSidecar of
             Some e \<Rightarrow> (Some e, fsm)
           | None \<Rightarrow> (None, fsm\<lparr>fsm_sidecar := Some (encodeSidecar index (Storage_LatestOffset s))\<rparr>)))"

definition PartitionFSM_Update ::
    "os_env \<Rightarrow> StorageConfig \<Rightarrow> (bytes \<Rightarrow> go_error + (int \<times> int)) \<Rightarrow> Entry list \<Rightarrow> PartitionFSM \<Rightarrow>
     (go_error + Entry list) \<times> PartitionFSM" where
  "PartitionFSM_Update os cfg dec entries fsm =
     (case fsm_storage fsm of
        None \<Rightarrow> (Inl (GoPanic ''nil pointer dereference''), fsm)
      | Some s \<Rightarrow>
          (case Update_loop os cfg dec entries s of
             (Inl e, s) \<Rightarrow> (Inl e, fsm\<lparr>fsm_storage := Some s\<rparr>)
           | (Inr entries', s) \<Rightarrow>
               (let fsm1 = fsm\<lparr>fsm_storage := Some s\<rparr>
                in if entries = [] then (Inl (GoPanic ''index out of range''), fsm1)
                   else (case persistApplied os (e_Index (last entries)) s fsm1 of
                           (Some e, fsm2) \<Rightarrow> (Inl (GoPanic ''persistApplied failed''), fsm2)
                         | (None, fsm2) \<Rightarrow>
                             (Inr entries', fsm2\<lparr>lastAppliedIndex := e_Index (last entries)\<rparr>)))))"

definition PartitionFSM_Lookup :: "PartitionQuery \<Rightarrow> PartitionFSM \<Rightarrow> go_error + PartitionAnswer" where
  "PartitionFSM_Lookup q fsm =
     (if fsm_closed fsm then Inl (StorageE ErrStorageClosed)
      else (case fsm_storage fsm of
              None \<Rightarrow> Inl (GoPanic ''nil pointer dereference'')
            | Some s \<Rightarrow>
                (case pq_Type q of
                   QueryRead \<Rightarrow>
                     (case Storage_Read s (pq_Offset q) (pq_MaxBytes q) of
                        Inl e \<Rightarrow> Inl e
                      | Inr (batches, nxt) \<Rightarrow> Inr (PartitionLookupResult batches nxt))
                 | QueryReadByTime \<Rightarrow>
                     (case Storage_ReadByTime s (pq_TimestampMs q) (pq_MaxBytes q) of
                        Inl e \<Rightarrow> Inl e
                      | Inr (batches, nxt) \<Rightarrow> Inr (PartitionLookupResult batches nxt))
                 | QueryEarliestOffset \<Rightarrow> Inr (OffsetAnswer (Storage_EarliestOffset s))
                 | QueryLatestOffset \<Rightarrow> Inr (OffsetAnswer (Storage_LatestOffset s))
                 | QueryGetNewDataCh \<Rightarrow> Inr (ChannelAnswer (Storage_NewDataCh s))
                 | QueryOther t \<Rightarrow> Inl (NewError ''partition: unknown query type''))))"

definition PartitionFSM_Close :: "os_env \<Rightarrow> PartitionFSM \<Rightarrow> go_error option \<times> PartitionFSM" where
  "PartitionFSM_Close os fsm =
     (case fsm_storage fsm of
        None \<Rightarrow> (None, fsm)
      | Some s \<Rightarrow>
          (case Storage_Close os s of
             (e, s) \<Rightarrow> (e, fsm\<lparr>fsm_closed := True, fsm_storage := Some s\<rparr>)))"

text \<open>Snapshots carry no data: the replica's disk is the state.\<close>

definition SaveSnapshot :: "PartitionFSM \<Rightarrow> string" where
  "SaveSnapshot fsm = ''strategy-a-noop''"

definition RecoverFromSnapshot :: "string \<Rightarrow> PartitionFSM \<Rightarrow> PartitionFSM" where
  "RecoverFromSnapshot r fsm = fsm"

section \<open>The contract of the log store\<close>

text \<open>
  What the state machine relies on: appends extend the log at the next offset, and truncation to
  the offset of a stored batch undoes exactly the appends from that batch on.
\<close>

definition stamp :: "bytes \<Rightarrow> int \<Rightarrow> bytes" where
  "stamp b n = overwrite b 0 (be_bytes 8 n)"

fun stamp_all :: "bytes list \<Rightarrow> int \<Rightarrow> bytes list" where
  "stamp_all [] n = []"
| "stamp_all (b # bs) n = stamp b n # stamp_all bs (n + bcount b)"

fun offsets_from :: "bytes list \<Rightarrow> int \<Rightarrow> int list" where
  "offsets_from [] n = []"
| "offsets_from (b # bs) n = n # offsets_from bs (n + bcount b)"

locale log_store =
  fixes inv :: "'s \<Rightarrow> bool"
    and log :: "'s \<Rightarrow> bytes list"
    and nxt :: "'s \<Rightarrow> int"
    and append :: "bytes \<Rightarrow> 's \<Rightarrow> (go_error + int) \<times> 's"
    and truncate :: "int \<Rightarrow> 's \<Rightarrow> go_error option \<times> 's"
  assumes append_log:
      "inv s \<Longrightarrow> wf_batch b \<Longrightarrow> nxt s + bcount b < 2 ^ 63 \<Longrightarrow>
       \<exists>s'. append b s = (Inr (nxt s), s') \<and> inv s' \<and> log s' = log s @ [stamp b (nxt s)] \<and>
            nxt s' = nxt s + bcount b"
    and truncate_log:
      "inv s \<Longrightarrow> log s = xs @ b # ys \<Longrightarrow>
       \<exists>s'. truncate (boff b) s = (None, s') \<and> inv s' \<and> log s' = xs \<and> nxt s' = boff b"
    and nxt_range: "inv s \<Longrightarrow> 0 \<le> nxt s \<and> nxt s < 2 ^ 63"
begin

fun append_all :: "bytes list \<Rightarrow> 's \<Rightarrow> (go_error + int list) \<times> 's" where
  "append_all [] s = (Inr [], s)"
| "append_all (b # bs) s =
     (case append b s of
        (Inl e, s) \<Rightarrow> (Inl e, s)
      | (Inr off, s) \<Rightarrow>
          (case append_all bs s of
             (Inl e, s) \<Rightarrow> (Inl e, s)
           | (Inr offs, s) \<Rightarrow> (Inr (off # offs), s)))"

lemma append_all_log:
  assumes "inv s" "list_all wf_batch bs" "log_end (nxt s) bs < 2 ^ 63"
  shows "\<exists>s'. append_all bs s = (Inr (offsets_from bs (nxt s)), s') \<and> inv s' \<and>
    log s' = log s @ stamp_all bs (nxt s) \<and> nxt s' = log_end (nxt s) bs"
  using assms
proof (induction bs arbitrary: s)
  case (Cons b bs)
  have "nxt s + bcount b \<le> log_end (nxt s) (b # bs)"
    using wf_log_end(1) [of bs "nxt s + bcount b"] Cons.prems(2) by simp
  then obtain s1 where s1: "append b s = (Inr (nxt s), s1)" "inv s1" "log s1 = log s @ [stamp b (nxt s)]"
    "nxt s1 = nxt s + bcount b"
    using append_log [of s b] Cons.prems by auto
  show ?case using Cons.IH [of s1] s1 Cons.prems by auto
qed simp

text \<open>
  A store that holds the log of before plus the batches of an interrupted run is brought back by
  truncating to the offset at which the run began.
\<close>

lemma rollback:
  assumes "inv s" "list_all wf_batch bs" "0 \<le> n" "n < 2 ^ 63" "log s = l @ stamp_all bs n"
    "nxt s = log_end n bs" "n < nxt s"
  shows "\<exists>s'. truncate n s = (None, s') \<and> inv s' \<and> log s' = l \<and> nxt s' = n"
proof (cases bs)
  case Nil
  then show ?thesis using assms by simp
next
  case (Cons b cs)
  have "boff (stamp b n) = n"
    using bcount_overwrite(3) [of b n] assms(2-4) Cons
    by (simp add: stamp_def wf_batch_def framed_def int64_id in_int64_def)
  then show ?thesis
    using truncate_log [of s l "stamp b n" "stamp_all cs (n + bcount b)"] assms Cons by auto
qed

end

interpretation pst: log_store "\<lambda>s. os_ok os \<and> cfg_ok cfg \<and> storage_inv cfg s" storage_log nextOffset
    "Storage_Append os cfg" "Storage_TruncateTo os cfg" for os cfg
proof (unfold_locales, goal_cases)
  case (1 s b)
  then show ?case using Storage_Append_refines [of os cfg s b] by (auto simp: stamp_def)
next
  case (2 s xs b ys)
  then show ?case using Storage_TruncateTo_ok [of os cfg s xs b ys] by auto
next
  case (3 s)
  then obtain gs a where "segments s = gs @ [a]" by (metis storage_inv_def append_butlast_last_id)
  then show ?case using storage_inv_active(2,3) [of cfg s gs a] 3 by simp
qed

section \<open>Updates\<close>

lemma sidecar_roundtrip:
  assumes "os_ok os" "0 \<le> idx" "idx < 2 ^ 64" "in_int64 off"
  shows "readSidecar os (Some (encodeSidecar idx off)) = Some (Inr (idx, off))"
  using assms
  by (simp add: readSidecar_def encodeSidecar_def slc_def be_int_be_bytes int64_id)

text \<open>Entries that carry the given batches.\<close>

definition appends :: "Entry list \<Rightarrow> bytes list \<Rightarrow> bool" where
  "appends es bs \<longleftrightarrow> list_all2 (\<lambda>e b. e_Cmd e = CmdAppendBatch # b) es bs"

fun set_results :: "Entry list \<Rightarrow> int list \<Rightarrow> Entry list" where
  "set_results (e # es) (off # offs) = e\<lparr>e_Result := uint64 off\<rparr> # set_results es offs"
| "set_results es offs = []"

lemma Update_loop_appends:
  assumes "appends es bs"
  shows "Update_loop os cfg dec es s =
    (case pst.append_all os cfg bs s of
       (Inl e, s') \<Rightarrow> (Inl (GoPanic ''storage.Append failed''), s')
     | (Inr offs, s') \<Rightarrow> (Inr (set_results es offs), s'))"
  using assms unfolding appends_def
proof (induction es bs arbitrary: s rule: list_all2_induct)
  case (Cons e es b bs)
  show ?case
  proof (cases "Storage_Append os cfg b s")
    case (Pair r s1)
    then show ?thesis using Cons by (cases r) (auto split: prod.splits sum.splits)
  qed
qed simp

lemma Update_loop_log:
  assumes "os_ok os" "cfg_ok cfg" "storage_inv cfg s" "list_all wf_batch bs"
    "log_end (nextOffset s) bs < 2 ^ 63" "appends es bs"
  shows "\<exists>s'. Update_loop os cfg dec es s = (Inr (set_results es (offsets_from bs (nextOffset s))), s') \<and>
    storage_inv cfg s' \<and> storage_log s' = storage_log s @ stamp_all bs (nextOffset s) \<and>
    nextOffset s' = log_end (nextOffset s) bs"
  using pst.append_all_log [of os cfg s bs] assms Update_loop_appends [OF assms(6), of os cfg dec s] by auto

lemma PartitionFSM_Update_log:
  assumes "os_ok os" "cfg_ok cfg" "fsm_storage fsm = Some s" "storage_inv cfg s" "list_all wf_batch bs"
    "log_end (nextOffset s) bs < 2 ^ 63" "appends es bs" "es \<noteq> []"
  shows "\<exists>fsm' s'. PartitionFSM_Update os cfg dec es fsm =
      (Inr (set_results es (offsets_from bs (nextOffset s))), fsm') \<and>
    fsm_storage fsm' = Some s' \<and> storage_inv cfg s' \<and>
    storage_log s' = storage_log s @ stamp_all bs (nextOffset s) \<and>
    nextOffset s' = log_end (nextOffset s) bs \<and>
    fsm_sidecar fsm' = Some (encodeSidecar (e_Index (last es)) (nextOffset s')) \<and>
    lastAppliedIndex fsm' = e_Index (last es)"
proof -
  obtain s' where s': "Update_loop os cfg dec es s = (Inr (set_results es (offsets_from bs (nextOffset s))), s')"
    "storage_inv cfg s'" "storage_log s' = storage_log s @ stamp_all bs (nextOffset s)"
    "nextOffset s' = log_end (nextOffset s) bs"
    using Update_loop_log [OF assms(1,2,4-7)] by blast
  have "segments s' \<noteq> []" "ls_open (seg_log (last (segments s')))"
    using s'(2) by (simp_all add: storage_inv_def active_ok_def seg_active_def seg_ok_def)
  then have "Storage_Sync os s' = None" using assms(1) by (simp add: Storage_Sync_def LogSegment_Sync_def)
  then show ?thesis
    using s' assms
    by (simp add: PartitionFSM_Update_def persistApplied_def Let_def Storage_LatestOffset_def)
qed

section \<open>Crash and replay\<close>

lemma stamp_all_crc:
  assumes "list_all wf_batch bs" "list_all crc_ok bs"
  shows "list_all crc_ok (stamp_all bs n)"
  using assms
proof (induction bs arbitrary: n)
  case (Cons b bs)
  have l: "38 \<le> length b" using Cons.prems by (simp add: wf_batch_def framed_def)
  have "drop 38 (stamp b n) = drop 38 b" "slc (stamp b n) 16 20 = slc b 16 20"
    using l by (simp_all add: stamp_def overwrite_def slc_def)
  then show ?case using Cons by (simp add: crc_ok_def)
qed simp

text \<open>
  The process stops while a run of entries is being applied: some of its batches are in the
  storage, the sidecar still names the state before the run.  \<open>Open\<close> returns the index of the
  sidecar and has undone the batches.
\<close>

lemma PartitionFSM_Open_undoes:
  assumes os: "os_ok os" and cfg: "cfg_ok cfg" and inv: "storage_inv cfg s1"
    and log: "storage_log s1 = l @ stamp_all bs n" and nx: "nextOffset s1 = log_end n bs"
    and wf: "list_all wf_batch bs" "list_all crc_ok l" "list_all crc_ok bs"
    and n: "0 \<le> n" "n < 2 ^ 63" and idx: "0 \<le> idx" "idx < 2 ^ 64" and tail: "torn tail"
  shows "\<exists>fsm s. PartitionFSM_Open os cfg (crash_image tail s1) (NewPartitionFSM (Some (encodeSidecar idx n))) =
      (Inr idx, fsm) \<and> fsm_storage fsm = Some s \<and> storage_inv cfg s \<and> storage_log s = l \<and> nextOffset s = n \<and>
      lastAppliedIndex fsm = idx \<and> fsm_sidecar fsm = Some (encodeSidecar idx n)"
proof -
  have "list_all crc_ok (storage_log s1)" using log wf stamp_all_crc by simp
  then obtain s where s: "Storage_Open os (crash_image tail s1) cfg = Inr s" "storage_inv cfg s"
    "storage_log s = storage_log s1" "nextOffset s = nextOffset s1"
    using Storage_Open_crash [OF os cfg inv _ tail] by blast
  have sc: "readSidecar os (Some (encodeSidecar idx n)) = Some (Inr (idx, n))"
    by (rule sidecar_roundtrip [OF os idx]) (use n in \<open>simp add: in_int64_def\<close>)
  have ge: "n \<le> nextOffset s" using wf_log_end(1) [OF wf(1), of n] nx s(4) by simp
  show ?thesis
  proof (cases "n < nextOffset s")
    case True
    obtain s' where "Storage_TruncateTo os cfg n s = (None, s')" "storage_inv cfg s'" "storage_log s' = l"
      "nextOffset s' = n"
      using pst.rollback [of os cfg s bs n l] os cfg s wf(1) n log nx True by auto
    then show ?thesis
      using s(1) sc True by (simp add: PartitionFSM_Open_def NewPartitionFSM_def Let_def Storage_LatestOffset_def)
  next
    case False
    then have "nextOffset s = n" "bs = []"
      using ge wf_log_end(3) [OF wf(1), of n] nx s(4) by force+
    then show ?thesis
      using s sc log by (simp add: PartitionFSM_Open_def NewPartitionFSM_def Let_def Storage_LatestOffset_def)
  qed
qed

end
