(* ===== verification/PropsPartition.thy ===== *)
theory PropsPartition
  imports Partition PropsStorage
begin

text \<open>
  The properties of the partition state machine: what an update returns and stores, and what a
  crash in the middle of one does to the log.
\<close>

definition demo_entries :: "Entry list" where
  "demo_entries = [\<lparr>e_Index = 5, e_Cmd = CmdAppendBatch # sample_batch, e_Result = 0\<rparr>,
                   \<lparr>e_Index = 6, e_Cmd = CmdAppendBatch # sample_batch, e_Result = 0\<rparr>]"

lemma demo_appends: "appends demo_entries [sample_batch, sample_batch]"
  by (simp add: appends_def demo_entries_def)

definition demo_fsm :: PartitionFSM where
  "demo_fsm = (NewPartitionFSM None)\<lparr>fsm_storage := Some demo_empty\<rparr>"

text \<open>
  An update applies its entries in order.  Every entry gets as result the offset its batch was
  assigned, consecutive from the next offset on; the log grows by these batches; and the sidecar
  then names the index of the last entry together with the new next offset.
\<close>

theorem update_applies:
  assumes "os_ok os" "cfg_ok cfg" "fsm_storage fsm = Some s" "storage_inv cfg s" "list_all wf_batch bs"
    "log_end (nextOffset s) bs < 2 ^ 63" "appends es bs" "es \<noteq> []"
  shows "\<exists>fsm' s'. PartitionFSM_Update os cfg dec es fsm =
      (Inr (set_results es (offsets_from bs (nextOffset s))), fsm') \<and>
    fsm_storage fsm' = Some s' \<and> storage_inv cfg s' \<and>
    storage_log s' = storage_log s @ stamp_all bs (nextOffset s) \<and>
    nextOffset s' = log_end (nextOffset s) bs \<and>
    fsm_sidecar fsm' = Some (encodeSidecar (e_Index (last es)) (nextOffset s')) \<and>
    lastAppliedIndex fsm' = e_Index (last es)"
  by (rule PartitionFSM_Update_log [OF assms])

theorem update_applies_witness:
  "\<exists>fsm' s'. PartitionFSM_Update demo_os demo_cfg (\<lambda>_. Inr (0, 0)) demo_entries demo_fsm =
      (Inr (set_results demo_entries [0, 2]), fsm') \<and> fsm_storage fsm' = Some s' \<and>
    storage_log s' = [stamp sample_batch 0, stamp sample_batch 2] \<and>
    fsm_sidecar fsm' = Some (encodeSidecar 6 4)"
  using update_applies [OF demo_ok _ demo_empty_ok(1) _ _ demo_appends, of demo_fsm "\<lambda>_. Inr (0, 0)"]
    demo_empty_ok sample_wf
  by (auto simp: demo_fsm_def demo_entries_def)

text \<open>
  C7. Exactly once across a crash.  The process stops after any number of the entries of an update
  have been appended, with a torn write behind them and the sidecar of the previous update on
  disk.  Then \<open>Open\<close> returns the index of that sidecar, and applying the same entries again gives
  the results and the log of a run without the crash: nothing is lost and nothing is stored twice.
\<close>

theorem crash_replay_exactly_once:
  assumes os: "os_ok os" and cfg: "cfg_ok cfg" and inv: "storage_inv cfg s0"
    and crc: "list_all crc_ok (storage_log s0)" and bs: "list_all wf_batch bs" "list_all crc_ok bs"
    and room: "log_end (nextOffset s0) bs < 2 ^ 63" and es: "appends es bs" "es \<noteq> []"
    and idx: "0 \<le> idx" "idx < 2 ^ 64" and tail: "torn tail"
    and run: "Update_loop os cfg dec (take k es) s0 = (r, s1)"
  shows "\<exists>fsm1 fsm2 s2.
    PartitionFSM_Open os cfg (crash_image tail s1)
      (NewPartitionFSM (Some (encodeSidecar idx (nextOffset s0)))) = (Inr idx, fsm1) \<and>
    PartitionFSM_Update os cfg dec es fsm1 =
      (Inr (set_results es (offsets_from bs (nextOffset s0))), fsm2) \<and>
    fsm_storage fsm2 = Some s2 \<and> storage_inv cfg s2 \<and>
    storage_log s2 = storage_log s0 @ stamp_all bs (nextOffset s0)"
proof -
  let ?bs = "take k bs" and ?n = "nextOffset s0"
  have tk: "appends (take k es) ?bs" using es(1) by (simp add: appends_def list_all2_takeI)
  have wt: "list_all wf_batch ?bs" "list_all crc_ok ?bs" "list_all wf_batch (drop k bs)"
    using bs by (auto simp: list_all_iff dest: in_set_takeD in_set_dropD)
  have "log_end ?n bs = log_end (log_end ?n ?bs) (drop k bs)"
    by (metis append_take_drop_id log_end_simps(3))
  then have "log_end ?n ?bs < 2 ^ 63" using wf_log_end(1) [OF wt(3), of "log_end ?n ?bs"] room by simp
  then have s1: "storage_inv cfg s1" "storage_log s1 = storage_log s0 @ stamp_all ?bs ?n"
    "nextOffset s1 = log_end ?n ?bs"
    using Update_loop_log [OF os cfg inv wt(1) _ tk, of dec] run by auto
  have n: "0 \<le> ?n" "?n < 2 ^ 63" using pst.nxt_range os cfg inv by blast+
  obtain fsm1 s where o: "PartitionFSM_Open os cfg (crash_image tail s1)
      (NewPartitionFSM (Some (encodeSidecar idx ?n))) = (Inr idx, fsm1)"
    "fsm_storage fsm1 = Some s" "storage_inv cfg s" "storage_log s = storage_log s0" "nextOffset s = ?n"
    using PartitionFSM_Open_undoes [OF os cfg s1 wt(1) crc wt(2) n idx tail] by blast
  then show ?thesis
    using PartitionFSM_Update_log [OF os cfg o(2,3) bs(1) _ es, of dec] room by auto
qed

theorem crash_replay_exactly_once_witness:
  "\<exists>fsm1 fsm2 s2.
    PartitionFSM_Open demo_os demo_cfg
      (crash_image [] (snd (Update_loop demo_os demo_cfg (\<lambda>_. Inr (0, 0)) (take 1 demo_entries) demo_empty)))
      (NewPartitionFSM (Some (encodeSidecar 4 (nextOffset demo_empty)))) = (Inr 4, fsm1) \<and>
    PartitionFSM_Update demo_os demo_cfg (\<lambda>_. Inr (0, 0)) demo_entries fsm1 =
      (Inr (set_results demo_entries (offsets_from [sample_batch, sample_batch] (nextOffset demo_empty))), fsm2) \<and>
    fsm_storage fsm2 = Some s2 \<and> storage_inv demo_cfg s2 \<and>
    storage_log s2 = storage_log demo_empty @ stamp_all [sample_batch, sample_batch] (nextOffset demo_empty)"
  by (rule crash_replay_exactly_once [OF demo_ok demo_empty_ok(1) _ _ _ _ demo_appends, where k = 1 and
        r = "fst (Update_loop demo_os demo_cfg (\<lambda>_. Inr (0, 0)) (take 1 demo_entries) demo_empty)"])
    (simp_all add: demo_empty_ok sample_wf demo_entries_def torn_def)

text \<open>
  C39. Without a sidecar the undo does not happen.  When the process stops after the first update
  has appended its batches and before it has written the first sidecar, \<open>Open\<close> returns index 0
  and keeps these batches; replaying the update stores every batch a second time.
\<close>

theorem first_update_crash_duplicates:
  assumes os: "os_ok os" and cfg: "cfg_ok cfg" and inv: "storage_inv cfg s0"
    and empty: "storage_log s0 = []" and bs: "list_all wf_batch bs" "list_all crc_ok bs"
    and room: "log_end (log_end (nextOffset s0) bs) bs < 2 ^ 63" and es: "appends es bs" "es \<noteq> []"
    and run: "Update_loop os cfg dec es s0 = (r, s1)"
  shows "\<exists>fsm1 fsm2 s2. PartitionFSM_Open os cfg (crash_image [] s1) (NewPartitionFSM None) = (Inr 0, fsm1) \<and>
    PartitionFSM_Update os cfg dec es fsm1 =
      (Inr (set_results es (offsets_from bs (log_end (nextOffset s0) bs))), fsm2) \<and>
    fsm_storage fsm2 = Some s2 \<and>
    storage_log s2 = stamp_all bs (nextOffset s0) @ stamp_all bs (log_end (nextOffset s0) bs)"
proof -
  have "log_end (nextOffset s0) bs < 2 ^ 63"
    using wf_log_end(1) [OF bs(1), of "log_end (nextOffset s0) bs"] room by simp
  then have s1: "storage_inv cfg s1" "storage_log s1 = stamp_all bs (nextOffset s0)"
    "nextOffset s1 = log_end (nextOffset s0) bs"
    using Update_loop_log [OF os cfg inv bs(1) _ es(1), of dec] run empty by auto
  then have "list_all crc_ok (storage_log s1)" using stamp_all_crc [OF bs] by simp
  then obtain s where s: "Storage_Open os (crash_image [] s1) cfg = Inr s" "storage_inv cfg s"
    "storage_log s = storage_log s1" "nextOffset s = nextOffset s1"
    using Storage_Open_crash [OF os cfg s1(1), of "[]"] by (auto simp: torn_def)
  let ?f = "(NewPartitionFSM None)\<lparr>fsm_storage := Some s\<rparr>"
  have op: "PartitionFSM_Open os cfg (crash_image [] s1) (NewPartitionFSM None) = (Inr 0, ?f)"
    using s(1) by (simp add: PartitionFSM_Open_def NewPartitionFSM_def readSidecar_def)
  have "fsm_storage ?f = Some s" by simp
  from PartitionFSM_Update_log [OF os cfg this s(2) bs(1) _ es, of dec] show ?thesis
    using op s s1 room by auto
qed

theorem first_update_crash_duplicates_witness:
  "\<exists>fsm1 fsm2 s2. PartitionFSM_Open demo_os demo_cfg
      (crash_image [] (snd (Update_loop demo_os demo_cfg (\<lambda>_. Inr (0, 0)) demo_entries demo_empty)))
      (NewPartitionFSM None) = (Inr 0, fsm1) \<and>
    PartitionFSM_Update demo_os demo_cfg (\<lambda>_. Inr (0, 0)) demo_entries fsm1 =
      (Inr (set_results demo_entries (offsets_from [sample_batch, sample_batch]
        (log_end (nextOffset demo_empty) [sample_batch, sample_batch]))), fsm2) \<and>
    fsm_storage fsm2 = Some s2 \<and>
    storage_log s2 = stamp_all [sample_batch, sample_batch] (nextOffset demo_empty) @
      stamp_all [sample_batch, sample_batch] (log_end (nextOffset demo_empty) [sample_batch, sample_batch])"
  by (rule first_update_crash_duplicates [OF demo_ok demo_empty_ok(1,2) _ _ _ demo_appends, where
        r = "fst (Update_loop demo_os demo_cfg (\<lambda>_. Inr (0, 0)) demo_entries demo_empty)"])
    (simp_all add: demo_empty_ok sample_wf demo_entries_def)

end
