(* ===== verification/GoMaps.thy ===== *)
theory GoMaps
  imports GoStrings "HOL-Library.AList" "HOL-Library.Multiset"
begin

text \<open>
  Go maps as association lists with distinct keys.  The order of the list is the order in which
  \<open>range\<close> visits the entries, which Go leaves open; \<open>same_map\<close> says that two lists are the
  same map, and the lemmas below show that sorting the keys or entries of a map does not depend
  on the order.  A nil map reads as the empty one.
\<close>

type_synonym ('k, 'v) gomap = "('k \<times> 'v) list"

definition map_ok :: "('k, 'v) gomap \<Rightarrow> bool" where
  "map_ok m \<longleftrightarrow> distinct (map fst m)"

definition same_map :: "('k, 'v) gomap \<Rightarrow> ('k, 'v) gomap \<Rightarrow> bool" where
  "same_map m m' \<longleftrightarrow> map_ok m \<and> map_ok m' \<and> map_of m = map_of m'"

definition mkeys :: "('k, 'v) gomap \<Rightarrow> 'k list" where
  "mkeys m = map fst m"

definition mvals :: "('k, 'v) gomap \<Rightarrow> 'v list" where
  "mvals m = map snd m"

abbreviation mput :: "'k \<Rightarrow> 'v \<Rightarrow> ('k, 'v) gomap \<Rightarrow> ('k, 'v) gomap" where
  "mput \<equiv> AList.update"

abbreviation mdel :: "'k \<Rightarrow> ('k, 'v) gomap \<Rightarrow> ('k, 'v) gomap" where
  "mdel \<equiv> AList.delete"

text \<open>Reading a missing key gives the zero value of the element type.\<close>

definition mget0 :: "'v \<Rightarrow> ('k, 'v) gomap \<Rightarrow> 'k \<Rightarrow> 'v" where
  "mget0 z m k = (case map_of m k of None \<Rightarrow> z | Some v \<Rightarrow> v)"

lemma map_ok_Nil [simp]: "map_ok []"
  by (simp add: map_ok_def)

lemma map_ok_mput [simp]: "map_ok (mput k v m) \<longleftrightarrow> map_ok m"
proof (induction m)
  case (Cons p m)
  have "fst ` set (mput k v m) = insert k (fst ` set m)" by (simp add: dom_update)
  with Cons show ?case by (cases p) (auto simp: map_ok_def)
qed (simp add: map_ok_def)

lemma map_ok_mdel [simp]: "map_ok m \<Longrightarrow> map_ok (mdel k m)"
  by (simp add: map_ok_def distinct_delete)

lemma map_of_mput [simp]: "map_of (mput k v m) = (map_of m)(k \<mapsto> v)"
  by (rule update_conv')

lemma map_of_mdel [simp]: "map_of (mdel k m) = (map_of m)(k := None)"
  by (simp add: delete_conv')

lemma mkeys_mput [simp]: "set (mkeys (mput k v m)) = insert k (set (mkeys m))"
  by (simp add: mkeys_def dom_update)

lemma mkeys_mdel [simp]: "set (mkeys (mdel k m)) = set (mkeys m) - {k}"
  by (simp add: mkeys_def delete_keys)

lemma mkeys_iff: "k \<in> set (mkeys m) \<longleftrightarrow> map_of m k \<noteq> None"
  by (simp add: mkeys_def map_of_eq_None_iff)

lemma mkeys_dom: "set (mkeys m) = dom (map_of m)"
  by (auto simp: mkeys_iff)

lemma distinct_mkeys: "map_ok m \<Longrightarrow> distinct (mkeys m)"
  by (simp add: map_ok_def mkeys_def)

lemma same_map_refl: "map_ok m \<Longrightarrow> same_map m m"
  by (simp add: same_map_def)

lemma same_map_mput: "same_map m m' \<Longrightarrow> same_map (mput k v m) (mput k v m')"
  by (simp add: same_map_def)

lemma same_map_mdel: "same_map m m' \<Longrightarrow> same_map (mdel k m) (mdel k m')"
  by (simp add: same_map_def)

lemma same_map_get: "same_map m m' \<Longrightarrow> map_of m' k = map_of m k"
  by (simp add: same_map_def)

lemma same_map_mset:
  assumes "same_map m m'"
  shows "mset m = mset m'"
proof -
  have "set m = set m'"
    using assms by (auto simp: same_map_def map_ok_def) (metis map_of_eq_Some_iff)+
  moreover have "distinct m" "distinct m'"
    using assms by (auto simp: same_map_def map_ok_def distinct_map)
  ultimately show ?thesis by (simp add: set_eq_iff_mset_eq_distinct)
qed

lemma same_map_length: "same_map m m' \<Longrightarrow> length m = length m'"
  by (metis same_map_mset size_mset)

lemma same_map_sort_keys:
  assumes "same_map m m'"
  shows "sort (mkeys m) = sort (mkeys m')"
  by (rule properties_for_sort) (use assms same_map_mset in \<open>force simp: mkeys_def\<close>, simp)

lemma same_map_sort_vals:
  assumes "same_map m m'" and "distinct (map f (mvals m))"
  shows "sort_key f (mvals m) = sort_key f (mvals m')"
proof (rule map_sorted_distinct_set_unique [of f])
  have ms: "mset (mvals m) = mset (mvals m')"
    using same_map_mset [OF assms(1)] by (simp add: mvals_def)
  then have st: "set (mvals m) = set (mvals m')" by (rule mset_eq_setD)
  show "inj_on f (set (sort_key f (mvals m)) \<union> set (sort_key f (mvals m')))"
    using assms(2) st by (simp add: distinct_map)
  have "mset (map f (mvals m)) = mset (map f (mvals m'))" using ms by simp
  then have "distinct (map f (mvals m'))" using assms(2) mset_eq_imp_distinct_iff by blast
  then show "distinct (map f (sort_key f (mvals m')))" by (simp add: distinct_map)
  show "distinct (map f (sort_key f (mvals m)))" using assms(2) by (simp add: distinct_map)
  show "set (sort_key f (mvals m)) = set (sort_key f (mvals m'))" using st by simp
qed simp_all

lemma map_ok_fold_mput [simp]: "map_ok (fold (\<lambda>i. mput (f i) (g i)) is m) \<longleftrightarrow> map_ok m"
  by (induction "is" arbitrary: m) auto

lemma map_ok_fold_mdel: "map_ok m \<Longrightarrow> map_ok (fold (\<lambda>i. mdel (f i)) is m)"
  by (induction "is" arbitrary: m) auto

lemma fold_mput_out: "k \<notin> f ` set is \<Longrightarrow> map_of (fold (\<lambda>i. mput (f i) (g i)) is m) k = map_of m k"
  by (induction "is" arbitrary: m) auto

lemma fold_mput_in:
  "i \<in> set is \<Longrightarrow> inj_on f (set is) \<Longrightarrow> map_of (fold (\<lambda>i. mput (f i) (g i)) is m) (f i) = Some (g i)"
proof (induction "is" arbitrary: m)
  case (Cons j "is")
  show ?case
  proof (cases "i \<in> set is")
    case True
    then show ?thesis using Cons by simp
  next
    case False
    then have "i = j" using Cons.prems by simp
    moreover have "f j \<notin> f ` set is" using Cons.prems(2) False \<open>i = j\<close> by (auto simp: inj_on_def)
    ultimately show ?thesis by (simp add: fold_mput_out)
  qed
qed simp

lemma fold_mdel: "map_of (fold (\<lambda>i. mdel (f i)) is m) k = (if k \<in> f ` set is then None else map_of m k)"
  by (induction "is" arbitrary: m) auto

end
