(* ===== verification/MetaTypes.thy ===== *)
theory MetaTypes
  imports GoMaps
begin

text \<open>
  The data of the metadata shard (\<open>internal/metadata/types.go\<close>, \<open>result.go\<close>): the replicated
  state, the commands and the queries.  Fields carry a short prefix of their struct, because
  several structs use the same field names.  A pointer that may be nil is an \<open>option\<close>; a nil map
  in a command is \<open>None\<close> where the handler tells it from an empty one.
\<close>

section \<open>Keys and their text form\<close>

datatype TopicPartition = TopicPartition (tp_Topic: string) (tp_PartitionID: int)

datatype PartitionKey = PartitionKey (pk_Topic: string) (pk_PartitionID: int)

text \<open>The order in which \<open>rebalance\<close> sorts the eligible partitions.\<close>

instantiation PartitionKey :: linorder
begin

definition less_PartitionKey :: "PartitionKey \<Rightarrow> PartitionKey \<Rightarrow> bool" where
  "less_PartitionKey a b \<longleftrightarrow>
     (if pk_Topic a \<noteq> pk_Topic b then pk_Topic a < pk_Topic b else pk_PartitionID a < pk_PartitionID b)"

definition less_eq_PartitionKey :: "PartitionKey \<Rightarrow> PartitionKey \<Rightarrow> bool" where
  "less_eq_PartitionKey a b \<longleftrightarrow> a < b \<or> a = b"

instance
proof
  fix a b :: PartitionKey
  show "a \<le> b \<or> b \<le> a"
    by (cases a; cases b) (auto simp: less_eq_PartitionKey_def less_PartitionKey_def)
qed (auto simp: less_eq_PartitionKey_def less_PartitionKey_def split: if_splits)

end

text \<open>\<open>strings.LastIndex\<close> of a one-byte string: \<open>-1\<close> when there is none.\<close>

definition LastIndex :: "string \<Rightarrow> char \<Rightarrow> int" where
  "LastIndex s c = int (length s) - 1 - int (length (takeWhile (\<lambda>x. x \<noteq> c) (rev s)))"

definition ParseInt32 :: "string \<Rightarrow> go_error + int" where
  "ParseInt32 s =
     (case ParseInt s of Inl e \<Rightarrow> Inl e
      | Inr v \<Rightarrow> if in_int32 v then Inr v else Inl (NewError ''value out of range''))"

definition TopicPartition_MarshalText :: "TopicPartition \<Rightarrow> string" where
  "TopicPartition_MarshalText tp = tp_Topic tp @ [CHR 0x00] @ format_int (tp_PartitionID tp)"

definition TopicPartition_UnmarshalText :: "string \<Rightarrow> go_error + TopicPartition" where
  "TopicPartition_UnmarshalText s =
     (let idx = LastIndex s (CHR 0x00)
      in if idx < 0 then Inl (NewError ''invalid TopicPartition text'')
         else (case ParseInt32 (drop (nat idx + 1) s) of
                 Inl e \<Rightarrow> Inl (Wrapped ''invalid TopicPartition partition_id'' e)
               | Inr n \<Rightarrow> Inr (TopicPartition (take (nat idx) s) (int32 n))))"

definition PartitionKey_MarshalText :: "PartitionKey \<Rightarrow> string" where
  "PartitionKey_MarshalText k = pk_Topic k @ [CHR 0x00] @ format_int (pk_PartitionID k)"

definition PartitionKey_UnmarshalText :: "string \<Rightarrow> go_error + PartitionKey" where
  "PartitionKey_UnmarshalText s =
     (let idx = LastIndex s (CHR 0x00)
      in if idx < 0 then Inl (NewError ''invalid PartitionKey text'')
         else (case ParseInt32 (drop (nat idx + 1) s) of
                 Inl e \<Rightarrow> Inl (Wrapped ''invalid PartitionKey partition_id'' e)
               | Inr n \<Rightarrow> Inr (PartitionKey (take (nat idx) s) (int32 n))))"

section \<open>The replicated state\<close>

record MemberState =
  ms_MemberID :: string
  ms_SubscribedTopics :: "string list"
  ms_SessionTimeoutMs :: int
  ms_HeartbeatIntervalMs :: int
  ms_JoinedAt :: int

record GroupState =
  gs_GroupID :: string
  gs_Members :: "(string, MemberState) gomap"
  gs_GenerationID :: int
  gs_Assignments :: "(string, TopicPartition list) gomap"
  gs_Offsets :: "(TopicPartition, int) gomap"

record TopicMeta =
  tm_Name :: string
  tm_PartitionCount :: int
  tm_ReplicationFactor :: int
  tm_RetentionMs :: int
  tm_RetentionBytes :: int
  tm_CreatedAtMs :: int

record PartitionMeta =
  pm_Topic :: string
  pm_PartitionID :: int
  pm_ShardID :: int
  pm_ReplicaNodeIDs :: "int list"
  pm_LeaderNodeID :: int
  pm_LeaderEpoch :: int

record NodeInfo =
  ni_NodeID :: int
  ni_Address :: string

record MemberInfo =
  mi_MemberID :: string
  mi_ClientHost :: string
  mi_SubscribedTopics :: "string list"
  mi_AssignedPartitions :: "PartitionKey list"
  mi_LastHeartbeatMs :: int

record ConsumerGroupMeta =
  cg_GroupID :: string
  cg_GenerationID :: int
  cg_Members :: "(string, MemberInfo) gomap"
  cg_CommittedOffsets :: "(PartitionKey, int) gomap"

record MetadataState =
  Topics :: "(string, TopicMeta) gomap"
  Partitions :: "(PartitionKey, PartitionMeta) gomap"
  Nodes :: "(int, NodeInfo) gomap"
  Groups :: "(string, ConsumerGroupMeta) gomap"
  GroupStates :: "(string, GroupState) gomap"
  NextShardID :: int

section \<open>Commands\<close>

record CreateTopicCmd =
  ct_Name :: string
  ct_PartitionCount :: int
  ct_ReplicationFactor :: int
  ct_RetentionMs :: int
  ct_RetentionBytes :: int
  ct_CreatedAtMs :: int
  ct_ReplicaNodeIDs :: "int list list"

record DeleteTopicCmd =
  dt_Name :: string

record AlterTopicPartCountCmd =
  ap_Name :: string
  ap_NewPartitionCount :: int
  ap_NewReplicaAssignments :: "int list list"

record AlterTopicRetentionCmd =
  ar_Name :: string
  ar_RetentionMs :: int
  ar_RetentionBytes :: int

record RegisterNodeCmd =
  rn_NodeID :: int
  rn_Address :: string

record AssignPartitionLeaderCmd =
  al_Topic :: string
  al_PartitionID :: int
  al_LeaderNodeID :: int
  al_LeaderEpoch :: int

record JoinConsumerGroupCmd =
  jg_GroupID :: string
  jg_MemberID :: string
  jg_ClientHost :: string
  jg_SubscribedTopics :: "string list"
  jg_JoinedAtMs :: int
  jg_Member :: "MemberState option"
  jg_NewAssignment :: "(string, TopicPartition list) gomap option"

record LeaveConsumerGroupCmd =
  lg_GroupID :: string
  lg_MemberID :: string
  lg_Reason :: string
  lg_NewAssignment :: "(string, TopicPartition list) gomap option"

record HeartbeatConsumerGroupCmd =
  hb_GroupID :: string
  hb_MemberID :: string
  hb_GenerationID :: int
  hb_TimestampMs :: int

record CommittedOffset =
  co_Topic :: string
  co_PartitionID :: int
  co_Offset :: int

record CommitConsumerOffsetCmd =
  cc_GroupID :: string
  cc_Offsets :: "CommittedOffset list"
  cc_GroupOffsets :: "(TopicPartition, int) gomap option"

record RebalanceConsumerGroupCmd =
  rb_GroupID :: string
  rb_ExpiredMemberIDs :: "string list"
  rb_TimestampMs :: int

text \<open>
  The envelope has one nilable pointer per command, chosen by \<open>Type\<close>.  Here the constructor is
  the type and its argument the pointer of that type, so that a command whose type and payload
  do not match is \<open>Cmd... None\<close>; pointers of other types are never read.
\<close>

datatype MetadataCommand =
    CmdCreateTopic "CreateTopicCmd option"
  | CmdDeleteTopic "DeleteTopicCmd option"
  | CmdAlterTopicPartCount "AlterTopicPartCountCmd option"
  | CmdAlterTopicRetention "AlterTopicRetentionCmd option"
  | CmdRegisterNode "RegisterNodeCmd option"
  | CmdAssignPartitionLeader "AssignPartitionLeaderCmd option"
  | CmdJoinConsumerGroup "JoinConsumerGroupCmd option"
  | CmdLeaveConsumerGroup "LeaveConsumerGroupCmd option"
  | CmdHeartbeatConsumerGroup "HeartbeatConsumerGroupCmd option"
  | CmdCommitConsumerOffset "CommitConsumerOffsetCmd option"
  | CmdRebalanceConsumerGroup "RebalanceConsumerGroupCmd option"
  | CmdUnknown string

section \<open>Results, queries and answers\<close>

definition ResultOK :: int where
  "ResultOK = 0"

definition ResultErrAlreadyExists :: int where
  "ResultErrAlreadyExists = 1"

definition ResultErrNotFound :: int where
  "ResultErrNotFound = 2"

definition ResultErrInvalidArg :: int where
  "ResultErrInvalidArg = 3"

lemmas result_codes [simp] =
  ResultOK_def ResultErrAlreadyExists_def ResultErrNotFound_def ResultErrInvalidArg_def

record joinResult =
  jr_MemberID :: string
  jr_AssignedPartitions :: "PartitionKey list"
  jr_GenerationID :: int

datatype ResultData = NoData | Msg string | JoinData joinResult

datatype Result = Result (r_Value: int) (r_Data: ResultData)

definition OKResult :: Result where
  "OKResult = Result ResultOK NoData"

definition ErrorResult :: "int \<Rightarrow> string \<Rightarrow> Result" where
  "ErrorResult code msg = Result code (Msg msg)"

datatype QueryType =
    QueryGetTopic | QueryListTopics | QueryGetPartition | QueryGetPartitions | QueryGetNode
  | QueryListNodes | QueryGetGroup | QueryGetCommittedOffset | QueryGetGroupState
  | QueryGetGroupOffsets | QueryGetAllGroupStates | QueryUnknown string

record MetadataQuery =
  mq_Type :: QueryType
  mq_TopicName :: string
  mq_PartitionID :: int
  mq_NodeID :: int
  mq_GroupID :: string
  mq_PartKey :: PartitionKey
  mq_Partitions :: "TopicPartition list"

text \<open>The query with only its type set; the callers fill in the fields they need.\<close>

definition query0 :: "QueryType \<Rightarrow> MetadataQuery" where
  "query0 t = \<lparr>mq_Type = t, mq_TopicName = [], mq_PartitionID = 0, mq_NodeID = 0, mq_GroupID = [],
     mq_PartKey = PartitionKey [] 0, mq_Partitions = []\<rparr>"

datatype MetadataAnswer =
    AnsNil
  | AnsTopic TopicMeta
  | AnsTopics "TopicMeta list"
  | AnsPartition PartitionMeta
  | AnsPartitions "PartitionMeta list"
  | AnsNode NodeInfo
  | AnsNodes "NodeInfo list"
  | AnsGroup ConsumerGroupMeta
  | AnsOffset int
  | AnsGroupState GroupState
  | AnsOffsets "(TopicPartition, int) gomap"
  | AnsGroupStates "(string, GroupState) gomap"

section \<open>The text form of the keys is lossless\<close>

lemma LastIndex_sep: "c \<notin> set b \<Longrightarrow> LastIndex (a @ [c] @ b) c = int (length a)"
  by (simp add: LastIndex_def takeWhile_append)

lemma format_nat_no_nul: "CHR 0x00 \<notin> set (format_nat n)"
  using format_nat_digits [of n] by (auto simp: list_all_iff is_digit_def)

lemma format_int_no_nul: "CHR 0x00 \<notin> set (format_int i)"
  using format_nat_no_nul by (simp add: format_int_def)

lemma format_nat_hd: "format_nat n = c # cs \<Longrightarrow> c \<noteq> CHR ''-'' \<and> c \<noteq> CHR ''+''"
  using format_nat_digits [of n] by (auto simp: is_digit_def)

lemma ParseInt_format_int: "in_int64 i \<Longrightarrow> ParseInt (format_int i) = Inr i"
proof (cases "i < 0")
  case False
  moreover obtain c cs where f: "format_nat (nat i) = c # cs"
    using format_nat_digits [of "nat i"] by (cases "format_nat (nat i)") auto
  moreover have "parse_nat (c # cs) = Some (nat i)" by (metis f parse_format_nat)
  ultimately show "in_int64 i \<Longrightarrow> ParseInt (format_int i) = Inr i"
    using format_nat_hd [OF f] by (simp add: format_int_def ParseInt_def)
qed (simp add: format_int_def ParseInt_def)

lemma ParseInt32_format_int: "in_int32 i \<Longrightarrow> ParseInt32 (format_int i) = Inr i"
  by (subgoal_tac "in_int64 i") (simp_all add: ParseInt32_def ParseInt_format_int in_int32_def in_int64_def)

lemma TopicPartition_text:
  "in_int32 (tp_PartitionID tp) \<Longrightarrow> TopicPartition_UnmarshalText (TopicPartition_MarshalText tp) = Inr tp"
  unfolding TopicPartition_UnmarshalText_def TopicPartition_MarshalText_def
    LastIndex_sep [OF format_int_no_nul] Let_def
  by (cases tp) (simp add: ParseInt32_format_int int32_id)

lemma PartitionKey_text:
  "in_int32 (pk_PartitionID k) \<Longrightarrow> PartitionKey_UnmarshalText (PartitionKey_MarshalText k) = Inr k"
  unfolding PartitionKey_UnmarshalText_def PartitionKey_MarshalText_def
    LastIndex_sep [OF format_int_no_nul] Let_def
  by (cases k) (simp add: ParseInt32_format_int int32_id)

end
