(* ===== verification/Metadata.thy ===== *)
theory Metadata
  imports MetaTypes
begin

text \<open>
  The metadata state machine (\<open>internal/metadata/metadata.go\<close>): one function per command
  handler, the legacy group rebalancing, the queries and the snapshot functions.  A handler maps
  the state to a result and the next state; dereferencing a missing payload is a panic, the \<open>Inl\<close>
  case of \<open>applyCommand\<close>.  The metric observers have no effect on the state and are left out.
  The checks for a nil \<open>GroupStates\<close> have the outcome of the lookups that follow them in an
  empty map.
\<close>

definition NewMetadataFSM :: MetadataState where
  "NewMetadataFSM = \<lparr>Topics = [], Partitions = [], Nodes = [], Groups = [], GroupStates = [], NextShardID = 1\<rparr>"

section \<open>Topics, partitions and nodes\<close>

definition applyCreateTopic :: "CreateTopicCmd \<Rightarrow> MetadataState \<Rightarrow> Result \<times> MetadataState" where
  "applyCreateTopic cmd st =
     (if map_of (Topics st) (ct_Name cmd) \<noteq> None
      then (ErrorResult ResultErrAlreadyExists ''topic already exists'', st)
      else if ct_PartitionCount cmd \<le> 0 \<or> ct_ReplicationFactor cmd \<le> 0
      then (ErrorResult ResultErrInvalidArg ''partition_count and replication_factor must be positive'', st)
      else if int32 (int (length (ct_ReplicaNodeIDs cmd))) \<noteq> ct_PartitionCount cmd
      then (ErrorResult ResultErrInvalidArg ''replica_node_ids length must equal partition_count'', st)
      else
        let topics = mput (ct_Name cmd)
              \<lparr>tm_Name = ct_Name cmd, tm_PartitionCount = ct_PartitionCount cmd,
               tm_ReplicationFactor = ct_ReplicationFactor cmd, tm_RetentionMs = ct_RetentionMs cmd,
               tm_RetentionBytes = ct_RetentionBytes cmd, tm_CreatedAtMs = ct_CreatedAtMs cmd\<rparr> (Topics st);
            partitions = fold (\<lambda>i. mput (PartitionKey (ct_Name cmd) (int i))
              \<lparr>pm_Topic = ct_Name cmd, pm_PartitionID = int i,
               pm_ShardID = uint64 (NextShardID st + int i),
               pm_ReplicaNodeIDs = ct_ReplicaNodeIDs cmd ! i, pm_LeaderNodeID = 0, pm_LeaderEpoch = 0\<rparr>)
              [0..<nat (ct_PartitionCount cmd)] (Partitions st)
        in (OKResult, st\<lparr>Topics := topics, Partitions := partitions,
              NextShardID := uint64 (NextShardID st + ct_PartitionCount cmd)\<rparr>))"

definition applyDeleteTopic :: "DeleteTopicCmd \<Rightarrow> MetadataState \<Rightarrow> Result \<times> MetadataState" where
  "applyDeleteTopic cmd st =
     (case map_of (Topics st) (dt_Name cmd) of
        None \<Rightarrow> (OKResult, st)
      | Some topic \<Rightarrow>
          (OKResult, st\<lparr>
             Partitions := fold (\<lambda>i. mdel (PartitionKey (dt_Name cmd) (int i)))
               [0..<nat (tm_PartitionCount topic)] (Partitions st),
             Topics := mdel (dt_Name cmd) (Topics st)\<rparr>))"

definition applyAlterTopicPartCount :: "AlterTopicPartCountCmd \<Rightarrow> MetadataState \<Rightarrow> Result \<times> MetadataState" where
  "applyAlterTopicPartCount cmd st =
     (case map_of (Topics st) (ap_Name cmd) of
        None \<Rightarrow> (ErrorResult ResultErrNotFound ''topic not found'', st)
      | Some topic \<Rightarrow>
          if ap_NewPartitionCount cmd \<le> tm_PartitionCount topic
          then (ErrorResult ResultErrInvalidArg ''new_partition_count must be greater than current'', st)
          else
            let addCount = int32 (ap_NewPartitionCount cmd - tm_PartitionCount topic);
                partitions = fold (\<lambda>i.
                    let newPartID = int32 (tm_PartitionCount topic + int i);
                        replicas = (if i < length (ap_NewReplicaAssignments cmd)
                                    then ap_NewReplicaAssignments cmd ! i else [])
                    in mput (PartitionKey (ap_Name cmd) newPartID)
                         \<lparr>pm_Topic = ap_Name cmd, pm_PartitionID = newPartID,
                          pm_ShardID = uint64 (NextShardID st + int i),
                          pm_ReplicaNodeIDs = replicas, pm_LeaderNodeID = 0, pm_LeaderEpoch = 0\<rparr>)
                  [0..<nat addCount] (Partitions st)
            in (OKResult, st\<lparr>Partitions := partitions,
                  NextShardID := uint64 (NextShardID st + addCount),
                  Topics := mput (ap_Name cmd) (topic\<lparr>tm_PartitionCount := ap_NewPartitionCount cmd\<rparr>) (Topics st)\<rparr>))"

definition applyAlterTopicRetention :: "AlterTopicRetentionCmd \<Rightarrow> MetadataState \<Rightarrow> Result \<times> MetadataState" where
  "applyAlterTopicRetention cmd st =
     (case map_of (Topics st) (ar_Name cmd) of
        None \<Rightarrow> (ErrorResult ResultErrNotFound ''topic not found'', st)
      | Some topic \<Rightarrow>
          (OKResult, st\<lparr>Topics := mput (ar_Name cmd)
             (topic\<lparr>tm_RetentionMs := ar_RetentionMs cmd, tm_RetentionBytes := ar_RetentionBytes cmd\<rparr>)
             (Topics st)\<rparr>))"

definition applyRegisterNode :: "RegisterNodeCmd \<Rightarrow> MetadataState \<Rightarrow> Result \<times> MetadataState" where
  "applyRegisterNode cmd st =
     (OKResult, st\<lparr>Nodes := mput (rn_NodeID cmd)
        \<lparr>ni_NodeID = rn_NodeID cmd, ni_Address = rn_Address cmd\<rparr> (Nodes st)\<rparr>)"

definition applyAssignPartitionLeader :: "AssignPartitionLeaderCmd \<Rightarrow> MetadataState \<Rightarrow> Result \<times> MetadataState" where
  "applyAssignPartitionLeader cmd st =
     (let key = PartitionKey (al_Topic cmd) (al_PartitionID cmd)
      in case map_of (Partitions st) key of
           None \<Rightarrow> (ErrorResult ResultErrNotFound ''partition not found'', st)
         | Some part \<Rightarrow>
             if al_LeaderEpoch cmd \<le> pm_LeaderEpoch part
             then (ErrorResult ResultErrInvalidArg ''leader_epoch must be greater than current'', st)
             else (OKResult, st\<lparr>Partitions := mput key
                    (part\<lparr>pm_LeaderNodeID := al_LeaderNodeID cmd, pm_LeaderEpoch := al_LeaderEpoch cmd\<rparr>)
                    (Partitions st)\<rparr>))"

section \<open>Rebalancing of the groups kept by the state machine\<close>

definition collectEligiblePartitions ::
  "(string, MemberInfo) gomap \<Rightarrow> (string, TopicMeta) gomap \<Rightarrow> (PartitionKey, PartitionMeta) gomap \<Rightarrow> PartitionKey list" where
  "collectEligiblePartitions members topics partitions =
     (let subscribed = concat (map mi_SubscribedTopics (mvals members))
      in filter (\<lambda>key. pk_Topic key \<in> set subscribed \<and> map_of topics (pk_Topic key) \<noteq> None) (mkeys partitions))"

definition sortedMemberIDs :: "(string, MemberInfo) gomap \<Rightarrow> string list" where
  "sortedMemberIDs members = sort (mkeys members)"

definition set_assigned :: "string \<Rightarrow> PartitionKey list \<Rightarrow> (string, MemberInfo) gomap \<Rightarrow> (string, MemberInfo) gomap" where
  "set_assigned memberID ps ms =
     (case map_of ms memberID of None \<Rightarrow> ms | Some m \<Rightarrow> mput memberID (m\<lparr>mi_AssignedPartitions := ps\<rparr>) ms)"

definition rebalance ::
  "ConsumerGroupMeta \<Rightarrow> (string, TopicMeta) gomap \<Rightarrow> (PartitionKey, PartitionMeta) gomap \<Rightarrow> ConsumerGroupMeta" where
  "rebalance grp topics partitions =
     (let eligible = sort (collectEligiblePartitions (cg_Members grp) topics partitions);
          members = sortedMemberIDs (cg_Members grp)
      in if length members = 0 then grp
         else grp\<lparr>cg_Members := fold (\<lambda>i.
                let lo = i * length eligible div length members;
                    hi = (i + 1) * length eligible div length members
                in set_assigned (members ! i) (slc eligible lo hi))
              [0..<length members] (cg_Members grp)\<rparr>)"

section \<open>Consumer groups\<close>

definition applyGroupStateJoin :: "JoinConsumerGroupCmd \<Rightarrow> MemberState \<Rightarrow> MetadataState \<Rightarrow> Result \<times> MetadataState" where
  "applyGroupStateJoin cmd member st =
     (let grp = (case map_of (GroupStates st) (jg_GroupID cmd) of
                     None \<Rightarrow> \<lparr>gs_GroupID = jg_GroupID cmd, gs_Members = [], gs_GenerationID = 0,
                              gs_Assignments = [], gs_Offsets = []\<rparr>
                   | Some g \<Rightarrow> g);
          grp = grp\<lparr>gs_Members := mput (jg_MemberID cmd) member (gs_Members grp)\<rparr>;
          grp = (case jg_NewAssignment cmd of None \<Rightarrow> grp | Some a \<Rightarrow> grp\<lparr>gs_Assignments := a\<rparr>);
          grp = grp\<lparr>gs_GenerationID := int32 (gs_GenerationID grp + 1)\<rparr>
      in (OKResult, st\<lparr>GroupStates := mput (jg_GroupID cmd) grp (GroupStates st)\<rparr>))"

definition applyJoinConsumerGroup :: "JoinConsumerGroupCmd \<Rightarrow> MetadataState \<Rightarrow> Result \<times> MetadataState" where
  "applyJoinConsumerGroup cmd st =
     (case jg_Member cmd of
        Some member \<Rightarrow> applyGroupStateJoin cmd member st
      | None \<Rightarrow>
          let grp = (case map_of (Groups st) (jg_GroupID cmd) of
                         None \<Rightarrow> \<lparr>cg_GroupID = jg_GroupID cmd, cg_GenerationID = 0, cg_Members = [],
                                  cg_CommittedOffsets = []\<rparr>
                       | Some g \<Rightarrow> g);
              memberID = (if jg_MemberID cmd = [] then
                            ''member-'' @ jg_ClientHost cmd @ ''-'' @ format_int (jg_JoinedAtMs cmd)
                          else jg_MemberID cmd);
              grp = grp\<lparr>cg_Members := mput memberID
                \<lparr>mi_MemberID = memberID, mi_ClientHost = jg_ClientHost cmd,
                 mi_SubscribedTopics = jg_SubscribedTopics cmd, mi_AssignedPartitions = [],
                 mi_LastHeartbeatMs = jg_JoinedAtMs cmd\<rparr> (cg_Members grp)\<rparr>;
              grp = rebalance grp (Topics st) (Partitions st);
              grp = grp\<lparr>cg_GenerationID := int32 (cg_GenerationID grp + 1)\<rparr>;
              assigned = (case map_of (cg_Members grp) memberID of None \<Rightarrow> [] | Some m \<Rightarrow> mi_AssignedPartitions m)
          in (Result ResultOK (JoinData \<lparr>jr_MemberID = memberID, jr_AssignedPartitions = assigned,
                jr_GenerationID = cg_GenerationID grp\<rparr>),
              st\<lparr>Groups := mput (jg_GroupID cmd) grp (Groups st)\<rparr>))"

definition applyGroupStateLeave :: "LeaveConsumerGroupCmd \<Rightarrow> MetadataState \<Rightarrow> Result \<times> MetadataState" where
  "applyGroupStateLeave cmd st =
     (case map_of (GroupStates st) (lg_GroupID cmd) of
        None \<Rightarrow> (ErrorResult ResultErrNotFound ''group not found'', st)
      | Some grp \<Rightarrow>
          if map_of (gs_Members grp) (lg_MemberID cmd) = None
          then (ErrorResult ResultErrNotFound ''member not found'', st)
          else
            let grp = grp\<lparr>gs_Members := mdel (lg_MemberID cmd) (gs_Members grp)\<rparr>;
                grp = (case lg_NewAssignment cmd of
                           Some a \<Rightarrow> grp\<lparr>gs_Assignments := a\<rparr>
                         | None \<Rightarrow> grp\<lparr>gs_Assignments := []\<rparr>);
                grp = grp\<lparr>gs_GenerationID := int32 (gs_GenerationID grp + 1)\<rparr>;
                grp = (if length (gs_Members grp) = 0 then grp\<lparr>gs_Assignments := []\<rparr> else grp)
            in (OKResult, st\<lparr>GroupStates := mput (lg_GroupID cmd) grp (GroupStates st)\<rparr>))"

definition applyLeaveConsumerGroup :: "LeaveConsumerGroupCmd \<Rightarrow> MetadataState \<Rightarrow> Result \<times> MetadataState" where
  "applyLeaveConsumerGroup cmd st =
     (if map_of (GroupStates st) (lg_GroupID cmd) \<noteq> None then applyGroupStateLeave cmd st
      else (case map_of (Groups st) (lg_GroupID cmd) of
              None \<Rightarrow> (ErrorResult ResultErrNotFound ''group not found'', st)
            | Some grp \<Rightarrow>
                if map_of (cg_Members grp) (lg_MemberID cmd) = None
                then (ErrorResult ResultErrNotFound ''member not found'', st)
                else
                  let grp = grp\<lparr>cg_Members := mdel (lg_MemberID cmd) (cg_Members grp)\<rparr>;
                      grp = rebalance grp (Topics st) (Partitions st);
                      grp = grp\<lparr>cg_GenerationID := int32 (cg_GenerationID grp + 1)\<rparr>
                  in (OKResult, st\<lparr>Groups := mput (lg_GroupID cmd) grp (Groups st)\<rparr>)))"

definition applyHeartbeatConsumerGroup :: "HeartbeatConsumerGroupCmd \<Rightarrow> MetadataState \<Rightarrow> Result \<times> MetadataState" where
  "applyHeartbeatConsumerGroup cmd st =
     (case map_of (Groups st) (hb_GroupID cmd) of
        None \<Rightarrow> (ErrorResult ResultErrNotFound ''group not found'', st)
      | Some grp \<Rightarrow>
          (case map_of (cg_Members grp) (hb_MemberID cmd) of
             None \<Rightarrow> (ErrorResult ResultErrNotFound ''member not found'', st)
           | Some member \<Rightarrow>
               let grp' = grp\<lparr>cg_Members := mput (hb_MemberID cmd)
                     (member\<lparr>mi_LastHeartbeatMs := hb_TimestampMs cmd\<rparr>) (cg_Members grp)\<rparr>;
                   st' = st\<lparr>Groups := mput (hb_GroupID cmd) grp' (Groups st)\<rparr>
               in if hb_GenerationID cmd \<noteq> cg_GenerationID grp then (Result 1 NoData, st')
                  else (OKResult, st')))"

definition applyGroupStateCommitOffset ::
  "CommitConsumerOffsetCmd \<Rightarrow> (TopicPartition, int) gomap \<Rightarrow> MetadataState \<Rightarrow> Result \<times> MetadataState" where
  "applyGroupStateCommitOffset cmd offsets st =
     (case map_of (GroupStates st) (cc_GroupID cmd) of
        None \<Rightarrow> (ErrorResult ResultErrNotFound ''group not found'', st)
      | Some grp \<Rightarrow>
          (OKResult, st\<lparr>GroupStates := mput (cc_GroupID cmd)
             (grp\<lparr>gs_Offsets := fold (\<lambda>(tp, offset). mput tp offset) offsets (gs_Offsets grp)\<rparr>)
             (GroupStates st)\<rparr>))"

definition applyCommitConsumerOffset :: "CommitConsumerOffsetCmd \<Rightarrow> MetadataState \<Rightarrow> Result \<times> MetadataState" where
  "applyCommitConsumerOffset cmd st =
     (case cc_GroupOffsets cmd of
        Some offsets \<Rightarrow> applyGroupStateCommitOffset cmd offsets st
      | None \<Rightarrow>
          (case map_of (Groups st) (cc_GroupID cmd) of
             None \<Rightarrow> (ErrorResult ResultErrNotFound ''group not found'', st)
           | Some grp \<Rightarrow>
               (OKResult, st\<lparr>Groups := mput (cc_GroupID cmd)
                  (grp\<lparr>cg_CommittedOffsets :=
                     fold (\<lambda>co. mput (PartitionKey (co_Topic co) (co_PartitionID co)) (co_Offset co))
                       (cc_Offsets cmd) (cg_CommittedOffsets grp)\<rparr>)
                  (Groups st)\<rparr>)))"

definition applyRebalanceConsumerGroup :: "RebalanceConsumerGroupCmd \<Rightarrow> MetadataState \<Rightarrow> Result \<times> MetadataState" where
  "applyRebalanceConsumerGroup cmd st =
     (case map_of (Groups st) (rb_GroupID cmd) of
        None \<Rightarrow> (ErrorResult ResultErrNotFound ''group not found'', st)
      | Some grp \<Rightarrow>
          let grp = grp\<lparr>cg_Members := fold mdel (rb_ExpiredMemberIDs cmd) (cg_Members grp)\<rparr>;
              grp = rebalance grp (Topics st) (Partitions st);
              grp = grp\<lparr>cg_GenerationID := int32 (cg_GenerationID grp + 1)\<rparr>
          in (OKResult, st\<lparr>Groups := mput (rb_GroupID cmd) grp (Groups st)\<rparr>))"

section \<open>The dispatcher\<close>

definition deref :: "'a option \<Rightarrow> ('a \<Rightarrow> MetadataState \<Rightarrow> Result \<times> MetadataState) \<Rightarrow>
    MetadataState \<Rightarrow> go_error + (Result \<times> MetadataState)" where
  "deref p f st = (case p of None \<Rightarrow> Inl (GoPanic ''nil pointer dereference'') | Some c \<Rightarrow> Inr (f c st))"

fun applyCommand :: "MetadataCommand \<Rightarrow> MetadataState \<Rightarrow> go_error + (Result \<times> MetadataState)" where
  "applyCommand (CmdCreateTopic c) st = deref c applyCreateTopic st"
| "applyCommand (CmdDeleteTopic c) st = deref c applyDeleteTopic st"
| "applyCommand (CmdAlterTopicPartCount c) st = deref c applyAlterTopicPartCount st"
| "applyCommand (CmdAlterTopicRetention c) st = deref c applyAlterTopicRetention st"
| "applyCommand (CmdRegisterNode c) st = deref c applyRegisterNode st"
| "applyCommand (CmdAssignPartitionLeader c) st = deref c applyAssignPartitionLeader st"
| "applyCommand (CmdJoinConsumerGroup c) st = deref c applyJoinConsumerGroup st"
| "applyCommand (CmdLeaveConsumerGroup c) st = deref c applyLeaveConsumerGroup st"
| "applyCommand (CmdHeartbeatConsumerGroup c) st = deref c applyHeartbeatConsumerGroup st"
| "applyCommand (CmdCommitConsumerOffset c) st = deref c applyCommitConsumerOffset st"
| "applyCommand (CmdRebalanceConsumerGroup c) st = deref c applyRebalanceConsumerGroup st"
| "applyCommand (CmdUnknown t) st = Inr (ErrorResult ResultErrInvalidArg ''unknown command type'', st)"

text \<open>
  \<open>Update\<close> receives the outcome of decoding the entry: the command, or \<open>None\<close> when the bytes are
  not the JSON text of one.
\<close>

definition MetadataFSM_Update :: "MetadataCommand option \<Rightarrow> MetadataState \<Rightarrow> go_error + (Result \<times> MetadataState)" where
  "MetadataFSM_Update decoded st =
     (case decoded of
        None \<Rightarrow> Inr (ErrorResult ResultErrInvalidArg ''invalid command JSON'', st)
      | Some cmd \<Rightarrow> applyCommand cmd st)"

section \<open>Queries\<close>

definition lookupGroupOffsets :: "MetadataState \<Rightarrow> string \<Rightarrow> TopicPartition list \<Rightarrow> (TopicPartition, int) gomap" where
  "lookupGroupOffsets st groupID partitions =
     (let result = fold (\<lambda>tp. mput tp (- 1)) partitions []
      in case map_of (GroupStates st) groupID of
           None \<Rightarrow> result
         | Some g \<Rightarrow> fold (\<lambda>tp r. case map_of (gs_Offsets g) tp of None \<Rightarrow> r | Some offset \<Rightarrow> mput tp offset r)
                       partitions result)"

definition lookupGroupState :: "MetadataQuery \<Rightarrow> MetadataState \<Rightarrow> go_error + MetadataAnswer" where
  "lookupGroupState query st =
     (case mq_Type query of
        QueryGetGroupState \<Rightarrow>
          (case map_of (GroupStates st) (mq_GroupID query) of
             None \<Rightarrow> Inr AnsNil | Some g \<Rightarrow> Inr (AnsGroupState g))
      | QueryGetGroupOffsets \<Rightarrow> Inr (AnsOffsets (lookupGroupOffsets st (mq_GroupID query) (mq_Partitions query)))
      | QueryGetAllGroupStates \<Rightarrow> Inr (AnsGroupStates (GroupStates st))
      | _ \<Rightarrow> Inl (NewError ''unknown query type''))"

definition MetadataFSM_Lookup :: "MetadataQuery \<Rightarrow> MetadataState \<Rightarrow> go_error + MetadataAnswer" where
  "MetadataFSM_Lookup query st =
     (case mq_Type query of
        QueryGetTopic \<Rightarrow>
          (case map_of (Topics st) (mq_TopicName query) of
             None \<Rightarrow> Inl MetadataErrNotFound | Some t \<Rightarrow> Inr (AnsTopic t))
      | QueryListTopics \<Rightarrow> Inr (AnsTopics (sort_key tm_Name (mvals (Topics st))))
      | QueryGetPartition \<Rightarrow>
          (case map_of (Partitions st) (PartitionKey (mq_TopicName query) (mq_PartitionID query)) of
             None \<Rightarrow> Inl MetadataErrNotFound | Some p \<Rightarrow> Inr (AnsPartition p))
      | QueryGetPartitions \<Rightarrow>
          if map_of (Topics st) (mq_TopicName query) = None then Inl MetadataErrNotFound
          else Inr (AnsPartitions (sort_key pm_PartitionID
                 (mvals (filter (\<lambda>(key, p). pk_Topic key = mq_TopicName query) (Partitions st)))))
      | QueryGetNode \<Rightarrow>
          (case map_of (Nodes st) (mq_NodeID query) of
             None \<Rightarrow> Inl MetadataErrNotFound | Some n \<Rightarrow> Inr (AnsNode n))
      | QueryListNodes \<Rightarrow> Inr (AnsNodes (sort_key ni_NodeID (mvals (Nodes st))))
      | QueryGetGroup \<Rightarrow>
          (case map_of (Groups st) (mq_GroupID query) of
             None \<Rightarrow> Inl MetadataErrNotFound | Some g \<Rightarrow> Inr (AnsGroup g))
      | QueryGetCommittedOffset \<Rightarrow>
          (case map_of (Groups st) (mq_GroupID query) of
             None \<Rightarrow> Inl MetadataErrNotFound
           | Some g \<Rightarrow> Inr (AnsOffset (mget0 0 (cg_CommittedOffsets g) (mq_PartKey query))))
      | _ \<Rightarrow> lookupGroupState query st)"

section \<open>Snapshots\<close>

text \<open>
  A snapshot is the JSON text of the state; the encoder and the decoder are arguments.  \<open>stopped\<close>
  says that the \<open>done\<close> channel is closed.
\<close>

definition MetadataFSM_SaveSnapshot :: "(MetadataState \<Rightarrow> go_error + bytes) \<Rightarrow> bool \<Rightarrow> MetadataState \<Rightarrow> go_error + bytes" where
  "MetadataFSM_SaveSnapshot encode stopped st =
     (if stopped then Inl (NewError ''snapshot stopped'') else encode st)"

definition MetadataFSM_RecoverFromSnapshot ::
  "(bytes \<Rightarrow> go_error + MetadataState) \<Rightarrow> bool \<Rightarrow> bytes \<Rightarrow> MetadataState \<Rightarrow> go_error option \<times> MetadataState" where
  "MetadataFSM_RecoverFromSnapshot decode stopped r st =
     (if stopped then (Some (NewError ''snapshot stopped''), st)
      else (case decode r of Inl e \<Rightarrow> (Some e, st) | Inr s \<Rightarrow> (None, s)))"

end
