(* ===== verification/MetaInv.thy ===== *)
theory MetaInv
  imports Metadata
begin

text \<open>
  Invariants of the topic, partition and node tables of the metadata state machine, along any run
  of well-formed entries: no entry panics, the partitions of a topic are exactly those below its
  count, shard numbers are unique, and leader epochs only grow.
\<close>

section \<open>Well-formed commands and runs\<close>

text \<open>
  What the JSON decoder guarantees of an entry written by the coordinators: the payload the type
  asks for is present and the 32-bit counts are in range.
\<close>

fun cmd_ok :: "MetadataCommand \<Rightarrow> bool" where
  "cmd_ok (CmdCreateTopic c) = (case c of None \<Rightarrow> False | Some c \<Rightarrow> in_int32 (ct_PartitionCount c))"
| "cmd_ok (CmdAlterTopicPartCount c) = (case c of None \<Rightarrow> False | Some c \<Rightarrow> in_int32 (ap_NewPartitionCount c))"
| "cmd_ok (CmdDeleteTopic c) = (c \<noteq> None)"
| "cmd_ok (CmdAlterTopicRetention c) = (c \<noteq> None)"
| "cmd_ok (CmdRegisterNode c) = (c \<noteq> None)"
| "cmd_ok (CmdAssignPartitionLeader c) = (c \<noteq> None)"
| "cmd_ok (CmdJoinConsumerGroup c) = (c \<noteq> None)"
| "cmd_ok (CmdLeaveConsumerGroup c) = (c \<noteq> None)"
| "cmd_ok (CmdHeartbeatConsumerGroup c) = (c \<noteq> None)"
| "cmd_ok (CmdCommitConsumerOffset c) = (c \<noteq> None)"
| "cmd_ok (CmdRebalanceConsumerGroup c) = (c \<noteq> None)"
| "cmd_ok (CmdUnknown t) = True"

definition entry_ok :: "MetadataCommand option \<Rightarrow> bool" where
  "entry_ok e = (case e of None \<Rightarrow> True | Some c \<Rightarrow> cmd_ok c)"

fun meta_run :: "MetadataCommand option list \<Rightarrow> MetadataState \<Rightarrow> go_error + MetadataState" where
  "meta_run [] st = Inr st"
| "meta_run (e # es) st =
     (case MetadataFSM_Update e st of Inl err \<Rightarrow> Inl err | Inr (r, st') \<Rightarrow> meta_run es st')"

section \<open>The topic invariant\<close>

text \<open>
  \<open>n\<close> bounds the commands applied so far; it keeps the shard counter away from its wrap-around.
\<close>

definition topics_inv :: "nat \<Rightarrow> MetadataState \<Rightarrow> bool" where
  "topics_inv n st \<longleftrightarrow>
     map_ok (Topics st) \<and> map_ok (Partitions st) \<and> map_ok (Nodes st) \<and>
     1 \<le> NextShardID st \<and> NextShardID st \<le> 1 + int n * 2 ^ 31 \<and>
     (\<forall>name t. map_of (Topics st) name = Some t \<longrightarrow>
        tm_Name t = name \<and> 0 < tm_PartitionCount t \<and> tm_PartitionCount t < 2 ^ 31) \<and>
     (\<forall>name i. map_of (Partitions st) (PartitionKey name i) \<noteq> None \<longleftrightarrow>
        (\<exists>t. map_of (Topics st) name = Some t \<and> 0 \<le> i \<and> i < tm_PartitionCount t)) \<and>
     (\<forall>k p. map_of (Partitions st) k = Some p \<longrightarrow>
        pm_Topic p = pk_Topic k \<and> pm_PartitionID p = pk_PartitionID k \<and>
        1 \<le> pm_ShardID p \<and> pm_ShardID p < NextShardID st \<and> 0 \<le> pm_LeaderEpoch p) \<and>
     (\<forall>k k' p p'. map_of (Partitions st) k = Some p \<longrightarrow> map_of (Partitions st) k' = Some p' \<longrightarrow>
        pm_ShardID p = pm_ShardID p' \<longrightarrow> k = k') \<and>
     (\<forall>k v. map_of (Nodes st) k = Some v \<longrightarrow> ni_NodeID v = k)"

lemma topics_invD:
  assumes "topics_inv n st"
  shows "map_ok (Topics st)" "map_ok (Partitions st)" "map_ok (Nodes st)"
    "1 \<le> NextShardID st" "NextShardID st \<le> 1 + int n * 2 ^ 31"
    "map_of (Topics st) name = Some t \<Longrightarrow> tm_Name t = name \<and> 0 < tm_PartitionCount t \<and> tm_PartitionCount t < 2 ^ 31"
    "map_of (Partitions st) (PartitionKey name i) \<noteq> None \<longleftrightarrow>
       (\<exists>t. map_of (Topics st) name = Some t \<and> 0 \<le> i \<and> i < tm_PartitionCount t)"
    "map_of (Partitions st) k = Some p \<Longrightarrow>
       pm_Topic p = pk_Topic k \<and> pm_PartitionID p = pk_PartitionID k \<and>
       1 \<le> pm_ShardID p \<and> pm_ShardID p < NextShardID st \<and> 0 \<le> pm_LeaderEpoch p"
    "map_of (Partitions st) k = Some p \<Longrightarrow> map_of (Partitions st) k' = Some p' \<Longrightarrow>
       pm_ShardID p = pm_ShardID p' \<Longrightarrow> k = k'"
    "map_of (Nodes st) j = Some v \<Longrightarrow> ni_NodeID v = j"
  using assms unfolding topics_inv_def by blast+

lemma topics_invI:
  assumes "map_ok (Topics st)" "map_ok (Partitions st)" "map_ok (Nodes st)"
    "1 \<le> NextShardID st" "NextShardID st \<le> 1 + int n * 2 ^ 31"
    "\<And>name t. map_of (Topics st) name = Some t \<Longrightarrow> tm_Name t = name \<and> 0 < tm_PartitionCount t \<and> tm_PartitionCount t < 2 ^ 31"
    "\<And>name i. map_of (Partitions st) (PartitionKey name i) \<noteq> None \<longleftrightarrow>
       (\<exists>t. map_of (Topics st) name = Some t \<and> 0 \<le> i \<and> i < tm_PartitionCount t)"
    "\<And>k p. map_of (Partitions st) k = Some p \<Longrightarrow>
       pm_Topic p = pk_Topic k \<and> pm_PartitionID p = pk_PartitionID k \<and>
       1 \<le> pm_ShardID p \<and> pm_ShardID p < NextShardID st \<and> 0 \<le> pm_LeaderEpoch p"
    "\<And>k k' p p'. map_of (Partitions st) k = Some p \<Longrightarrow> map_of (Partitions st) k' = Some p' \<Longrightarrow>
       pm_ShardID p = pm_ShardID p' \<Longrightarrow> k = k'"
    "\<And>k v. map_of (Nodes st) k = Some v \<Longrightarrow> ni_NodeID v = k"
  shows "topics_inv n st"
  using assms unfolding topics_inv_def by blast

lemma topics_inv_mono:
  assumes "topics_inv n st" "n \<le> n'"
  shows "topics_inv n' st"
proof -
  have "int n * 2 ^ 31 \<le> int n' * 2 ^ 31" using assms(2) by simp
  then have "NextShardID st \<le> 1 + int n' * 2 ^ 31" using topics_invD(5) [OF assms(1)] by linarith
  with assms(1) show ?thesis unfolding topics_inv_def by blast
qed

text \<open>
  Creating a topic and adding partitions to one are the same step on the partition table: a block
  of fresh keys with consecutive shard numbers.
\<close>

definition new_part :: "string \<Rightarrow> int \<Rightarrow> int \<Rightarrow> int list \<Rightarrow> PartitionMeta" where
  "new_part name i shard reps = \<lparr>pm_Topic = name, pm_PartitionID = i, pm_ShardID = shard,
     pm_ReplicaNodeIDs = reps, pm_LeaderNodeID = 0, pm_LeaderEpoch = 0\<rparr>"

definition new_parts :: "string \<Rightarrow> int \<Rightarrow> int \<Rightarrow> (nat \<Rightarrow> int list) \<Rightarrow> nat \<Rightarrow>
    (PartitionKey, PartitionMeta) gomap \<Rightarrow> (PartitionKey, PartitionMeta) gomap" where
  "new_parts name first shard reps n m =
     fold (\<lambda>i. mput (PartitionKey name (first + int i)) (new_part name (first + int i) (shard + int i) (reps i)))
       [0..<n] m"

lemma map_of_new_parts:
  "map_of (new_parts name first shard reps n m) (PartitionKey nm i) =
     (if nm = name \<and> first \<le> i \<and> i < first + int n
      then Some (new_part name i (shard + (i - first)) (reps (nat (i - first))))
      else map_of m (PartitionKey nm i))"
proof (cases "nm = name \<and> first \<le> i \<and> i < first + int n")
  case True
  let ?f = "\<lambda>i. PartitionKey name (first + int i)"
  have "nat (i - first) \<in> set [0..<n]" "inj_on ?f (set [0..<n])" using True by (auto simp: inj_on_def)
  then have "map_of (new_parts name first shard reps n m) (?f (nat (i - first))) =
      Some (new_part name (first + int (nat (i - first))) (shard + int (nat (i - first))) (reps (nat (i - first))))"
    unfolding new_parts_def by (rule fold_mput_in)
  with True show ?thesis by simp
next
  case False
  then have "PartitionKey nm i \<notin> (\<lambda>i. PartitionKey name (first + int i)) ` set [0..<n]" by auto
  then have "map_of (new_parts name first shard reps n m) (PartitionKey nm i) = map_of m (PartitionKey nm i)"
    unfolding new_parts_def by (rule fold_mput_out)
  with False show ?thesis by auto
qed

lemma map_ok_new_parts [simp]: "map_ok (new_parts name first shard reps n m) \<longleftrightarrow> map_ok m"
  by (simp add: new_parts_def)

definition grows :: "string \<Rightarrow> TopicMeta \<Rightarrow> int \<Rightarrow> (nat \<Rightarrow> int list) \<Rightarrow> MetadataState \<Rightarrow> MetadataState \<Rightarrow> bool" where
  "grows name t first reps st st' \<longleftrightarrow>
     tm_Name t = name \<and> 0 < tm_PartitionCount t \<and> tm_PartitionCount t < 2 ^ 31 \<and>
     first = (case map_of (Topics st) name of None \<Rightarrow> 0 | Some u \<Rightarrow> tm_PartitionCount u) \<and>
     first < tm_PartitionCount t \<and>
     Topics st' = mput name t (Topics st) \<and> Nodes st' = Nodes st \<and>
     Partitions st' = new_parts name first (NextShardID st) reps (nat (tm_PartitionCount t - first)) (Partitions st) \<and>
     NextShardID st' = NextShardID st + (tm_PartitionCount t - first)"

lemma topics_inv_grow:
  assumes inv: "topics_inv n st" and g: "grows name t first reps st st'"
  shows "topics_inv (Suc n) st'"
proof -
  define c where "c = tm_PartitionCount t"
  have t: "tm_Name t = name" "tm_PartitionCount t = c" "0 < c" "c < 2 ^ 31"
    and first: "first = (case map_of (Topics st) name of None \<Rightarrow> 0 | Some u \<Rightarrow> tm_PartitionCount u)"
    and grow: "first < c"
    and st': "Topics st' = mput name t (Topics st)" "Nodes st' = Nodes st"
      "Partitions st' = new_parts name first (NextShardID st) reps (nat (c - first)) (Partitions st)"
      "NextShardID st' = NextShardID st + (c - first)"
    using g unfolding grows_def c_def by blast+
  note D = topics_invD [OF inv]
  have f0: "0 \<le> first" using first D(6) by (fastforce split: option.splits)
  have old: "map_of (Partitions st) (PartitionKey name i) \<noteq> None \<longleftrightarrow> 0 \<le> i \<and> i < first" for i
    unfolding D(7) using first by (auto split: option.splits)
  have P: "map_of (Partitions st') (PartitionKey nm i) =
     (if nm = name \<and> first \<le> i \<and> i < c then Some (new_part name i (NextShardID st + (i - first)) (reps (nat (i - first))))
      else map_of (Partitions st) (PartitionKey nm i))" for nm i
    using grow unfolding st' map_of_new_parts by simp
  show ?thesis
  proof (rule topics_invI)
    show "NextShardID st' \<le> 1 + int (Suc n) * 2 ^ 31" using D(5) f0 t st' by (simp add: algebra_simps)
    show "1 \<le> NextShardID st'" using D(4) grow st' by simp
    show "tm_Name u = nm \<and> 0 < tm_PartitionCount u \<and> tm_PartitionCount u < 2 ^ 31"
      if "map_of (Topics st') nm = Some u" for nm u
      using that D(6) t st' by (cases "nm = name") auto
    show "map_of (Partitions st') (PartitionKey nm i) \<noteq> None \<longleftrightarrow>
       (\<exists>u. map_of (Topics st') nm = Some u \<and> 0 \<le> i \<and> i < tm_PartitionCount u)" for nm i
      using D(7) [of nm i] old [of i] grow f0 t by (cases "nm = name") (auto simp: P st'(1))
    have old_lt: "pm_ShardID p < NextShardID st" if "map_of (Partitions st) k = Some p" for k p
      using D(8) [OF that] by simp
    show "pm_Topic p = pk_Topic k \<and> pm_PartitionID p = pk_PartitionID k \<and>
       1 \<le> pm_ShardID p \<and> pm_ShardID p < NextShardID st' \<and> 0 \<le> pm_LeaderEpoch p"
      if "map_of (Partitions st') k = Some p" for k p
      using that D(4) D(8) [of k p] grow st'(4)
      by (cases k) (auto simp: P new_part_def split: if_splits)
    have new: "map_of (Partitions st) k = Some p \<and> pm_ShardID p < NextShardID st \<or>
        (\<exists>i. k = PartitionKey name i \<and> pm_ShardID p = NextShardID st + (i - first) \<and> first \<le> i)"
      if "map_of (Partitions st') k = Some p" for k p
      using that old_lt by (cases k) (auto simp: P new_part_def split: if_splits)
    show "k = k'" if "map_of (Partitions st') k = Some p" "map_of (Partitions st') k' = Some p'"
      "pm_ShardID p = pm_ShardID p'" for k k' p p'
      using new [OF that(1)] new [OF that(2)] that(3) D(9) [of k p k' p'] by auto
  qed (use D(1-3) D(10) st' in simp_all)
qed


lemma shard_no_wrap:
  assumes "topics_inv n st" "n < 2 ^ 32" "0 \<le> x" "x < 2 ^ 31"
  shows "uint64 (NextShardID st + x) = NextShardID st + x"
proof -
  have "int n * 2 ^ 31 \<le> (2 ^ 32 - 1) * 2 ^ 31" using assms(2) by simp
  then show ?thesis using topics_invD(4,5) [OF assms(1)] assms(3,4) by (intro uint64_id) auto
qed

lemma applyCreateTopic_ok:
  assumes inv: "topics_inv n st" and n: "n < 2 ^ 32" and p: "0 < ct_PartitionCount c" "ct_PartitionCount c < 2 ^ 31"
    and c: "map_of (Topics st) (ct_Name c) = None" "0 < ct_ReplicationFactor c"
      "int32 (int (length (ct_ReplicaNodeIDs c))) = ct_PartitionCount c"
  shows "fst (applyCreateTopic c st) = OKResult"
    "grows (ct_Name c) \<lparr>tm_Name = ct_Name c, tm_PartitionCount = ct_PartitionCount c,
      tm_ReplicationFactor = ct_ReplicationFactor c, tm_RetentionMs = ct_RetentionMs c,
      tm_RetentionBytes = ct_RetentionBytes c, tm_CreatedAtMs = ct_CreatedAtMs c\<rparr> 0
      (\<lambda>i. ct_ReplicaNodeIDs c ! i) st (snd (applyCreateTopic c st))"
proof -
  let ?p = "ct_PartitionCount c"
  have "fold (\<lambda>i. mput (PartitionKey (ct_Name c) (int i))
      \<lparr>pm_Topic = ct_Name c, pm_PartitionID = int i, pm_ShardID = uint64 (NextShardID st + int i),
       pm_ReplicaNodeIDs = ct_ReplicaNodeIDs c ! i, pm_LeaderNodeID = 0, pm_LeaderEpoch = 0\<rparr>)
      [0..<nat ?p] (Partitions st) =
    new_parts (ct_Name c) 0 (NextShardID st) (\<lambda>i. ct_ReplicaNodeIDs c ! i) (nat (?p - 0)) (Partitions st)"
    unfolding new_parts_def using p shard_no_wrap [OF inv n]
    by (intro fold_cong) (auto simp: new_part_def)
  moreover have "uint64 (NextShardID st + ?p) = NextShardID st + (?p - 0)"
    using shard_no_wrap [OF inv n, of ?p] p by simp
  ultimately show "grows (ct_Name c) \<lparr>tm_Name = ct_Name c, tm_PartitionCount = ?p,
      tm_ReplicationFactor = ct_ReplicationFactor c, tm_RetentionMs = ct_RetentionMs c,
      tm_RetentionBytes = ct_RetentionBytes c, tm_CreatedAtMs = ct_CreatedAtMs c\<rparr> 0
      (\<lambda>i. ct_ReplicaNodeIDs c ! i) st (snd (applyCreateTopic c st))"
    using c p by (auto simp: grows_def applyCreateTopic_def Let_def)
  show "fst (applyCreateTopic c st) = OKResult" using c p by (auto simp: applyCreateTopic_def Let_def)
qed

lemma applyCreateTopic_grows:
  assumes inv: "topics_inv n st" and n: "n < 2 ^ 32" and c: "in_int32 (ct_PartitionCount c)"
  shows "snd (applyCreateTopic c st) = st \<or> (\<exists>name t first reps. grows name t first reps st (snd (applyCreateTopic c st)))"
proof (cases "map_of (Topics st) (ct_Name c) \<noteq> None \<or> ct_PartitionCount c \<le> 0 \<or> ct_ReplicationFactor c \<le> 0 \<or>
    int32 (int (length (ct_ReplicaNodeIDs c))) \<noteq> ct_PartitionCount c")
  case True
  then show ?thesis by (auto simp: applyCreateTopic_def)
next
  case False
  then show ?thesis using applyCreateTopic_ok(2) [OF inv n, of c] c by (fastforce simp: in_int32_def)
qed

lemma applyAlterTopicPartCount_grows:
  assumes inv: "topics_inv n st" and n: "n < 2 ^ 32" and c: "in_int32 (ap_NewPartitionCount c)"
  shows "snd (applyAlterTopicPartCount c st) = st \<or>
    (\<exists>name t first reps. grows name t first reps st (snd (applyAlterTopicPartCount c st)))"
proof (cases "map_of (Topics st) (ap_Name c)")
  case None
  then show ?thesis by (simp add: applyAlterTopicPartCount_def)
next
  case (Some t)
  let ?q = "tm_PartitionCount t" and ?p = "ap_NewPartitionCount c"
  show ?thesis
  proof (cases "?p \<le> ?q")
    case True
    then show ?thesis using Some by (simp add: applyAlterTopicPartCount_def)
  next
    case False
    have q: "tm_Name t = ap_Name c" "0 < ?q" "?q < 2 ^ 31" using topics_invD(6) [OF inv Some] by auto
    have p: "?p < 2 ^ 31" using c by (simp add: in_int32_def)
    have w: "int32 (?p - ?q) = ?p - ?q" using False q p by (intro int32_id) (simp add: in_int32_def)
    let ?reps = "\<lambda>i. if i < length (ap_NewReplicaAssignments c) then ap_NewReplicaAssignments c ! i else []"
    have "fold (\<lambda>i. mput (PartitionKey (ap_Name c) (int32 (?q + int i)))
        \<lparr>pm_Topic = ap_Name c, pm_PartitionID = int32 (?q + int i), pm_ShardID = uint64 (NextShardID st + int i),
         pm_ReplicaNodeIDs = ?reps i, pm_LeaderNodeID = 0, pm_LeaderEpoch = 0\<rparr>)
        [0..<nat (?p - ?q)] (Partitions st) =
      new_parts (ap_Name c) ?q (NextShardID st) ?reps (nat (?p - ?q)) (Partitions st)"
      unfolding new_parts_def using p q shard_no_wrap [OF inv n]
      by (intro fold_cong) (auto simp: new_part_def int32_id in_int32_def)
    moreover have "uint64 (NextShardID st + (?p - ?q)) = NextShardID st + (?p - ?q)"
      using shard_no_wrap [OF inv n, of "?p - ?q"] p q False by simp
    ultimately have "grows (ap_Name c) (t\<lparr>tm_PartitionCount := ?p\<rparr>) ?q ?reps st (snd (applyAlterTopicPartCount c st))"
      using False p q Some w by (simp add: grows_def applyAlterTopicPartCount_def Let_def)
    then show ?thesis by blast
  qed
qed

lemmas grow_handlers = applyCreateTopic_grows applyAlterTopicPartCount_grows

lemma grow_handlers_inv:
  assumes inv: "topics_inv n st" and g: "st' = st \<or> (\<exists>name t first reps. grows name t first reps st st')"
  shows "topics_inv (Suc n) st'"
  using g topics_inv_grow [OF inv] topics_inv_mono [OF inv, of "Suc n"] by auto

lemma key_image:
  "PartitionKey name i \<in> (\<lambda>j. PartitionKey nm (int j)) ` {0..<nat c} \<longleftrightarrow> name = nm \<and> 0 \<le> i \<and> i < c"
proof
  assume "name = nm \<and> 0 \<le> i \<and> i < c"
  then show "PartitionKey name i \<in> (\<lambda>j. PartitionKey nm (int j)) ` {0..<nat c}"
    by (intro image_eqI [of _ _ "nat i"]) auto
qed auto

lemma applyDeleteTopic_inv:
  assumes inv: "topics_inv n st"
  shows "topics_inv n (snd (applyDeleteTopic c st))"
proof (cases "map_of (Topics st) (dt_Name c)")
  case None
  then show ?thesis using inv by (simp add: applyDeleteTopic_def)
next
  case (Some t)
  note D = topics_invD [OF inv]
  let ?st = "snd (applyDeleteTopic c st)"
  have T: "map_of (Topics ?st) = (map_of (Topics st))(dt_Name c := None)"
    using Some by (simp add: applyDeleteTopic_def)
  have "map_of (Partitions ?st) (PartitionKey name i) =
      (if name = dt_Name c \<and> 0 \<le> i \<and> i < tm_PartitionCount t then None
       else map_of (Partitions st) (PartitionKey name i))" for name i
    using Some by (simp add: applyDeleteTopic_def fold_mdel key_image)
  then have P: "map_of (Partitions ?st) (PartitionKey name i) =
      (if name = dt_Name c then None else map_of (Partitions st) (PartitionKey name i))" for name i
    using D(7) [of name i] Some by auto
  have sub: "map_of (Partitions st) k = Some p" if "map_of (Partitions ?st) k = Some p" for k p
    using that by (cases k) (auto simp: P split: if_splits)
  show ?thesis
  proof (rule topics_invI)
    show "map_of (Partitions ?st) (PartitionKey name i) \<noteq> None \<longleftrightarrow>
       (\<exists>t. map_of (Topics ?st) name = Some t \<and> 0 \<le> i \<and> i < tm_PartitionCount t)" for name i
      using D(7) [of name i] by (simp add: P T)
    show "k = k'" if "map_of (Partitions ?st) k = Some p" "map_of (Partitions ?st) k' = Some p'"
      "pm_ShardID p = pm_ShardID p'" for k k' p p'
      using D(9) sub that by blast
    show "pm_Topic p = pk_Topic k \<and> pm_PartitionID p = pk_PartitionID k \<and>
       1 \<le> pm_ShardID p \<and> pm_ShardID p < NextShardID ?st \<and> 0 \<le> pm_LeaderEpoch p"
      if "map_of (Partitions ?st) k = Some p" for k p
      using D(8) [OF sub [OF that]] Some by (simp add: applyDeleteTopic_def)
  qed (use D(1-5) D(6,10) Some T in \<open>auto simp: applyDeleteTopic_def map_ok_fold_mdel split: if_splits\<close>)
qed


lemma applyAlterTopicRetention_inv:
  assumes inv: "topics_inv n st"
  shows "topics_inv n (snd (applyAlterTopicRetention c st))"
proof (cases "map_of (Topics st) (ar_Name c)")
  case (Some t)
  note D = topics_invD [OF inv]
  show ?thesis
    by (rule topics_invI) (use D(1-5) D(6) [OF Some] D(6-10) Some in
      \<open>auto simp: applyAlterTopicRetention_def split: if_splits\<close>)
qed (use inv in \<open>simp add: applyAlterTopicRetention_def\<close>)

lemma applyRegisterNode_inv:
  assumes inv: "topics_inv n st"
  shows "topics_inv n (snd (applyRegisterNode c st))"
proof (rule topics_invI)
  show "ni_NodeID v = k" if "map_of (Nodes (snd (applyRegisterNode c st))) k = Some v" for k v
    using that topics_invD(10) [OF inv, of k v] by (auto simp: applyRegisterNode_def split: if_splits)
qed (use topics_invD(1-5) [OF inv] topics_invD(6-9) [OF inv] in \<open>simp_all add: applyRegisterNode_def\<close>)

lemma applyAssignPartitionLeader_inv:
  assumes inv: "topics_inv n st"
  shows "topics_inv n (snd (applyAssignPartitionLeader c st))"
proof -
  note D = topics_invD [OF inv]
  let ?k = "PartitionKey (al_Topic c) (al_PartitionID c)"
  consider "snd (applyAssignPartitionLeader c st) = st" | p where "map_of (Partitions st) ?k = Some p"
    "pm_LeaderEpoch p < al_LeaderEpoch c"
    "snd (applyAssignPartitionLeader c st) = st\<lparr>Partitions := mput ?k
       (p\<lparr>pm_LeaderNodeID := al_LeaderNodeID c, pm_LeaderEpoch := al_LeaderEpoch c\<rparr>) (Partitions st)\<rparr>"
  proof (cases "map_of (Partitions st) ?k")
    case (Some p)
    then show ?thesis
      using that by (cases "al_LeaderEpoch c \<le> pm_LeaderEpoch p") (simp_all add: applyAssignPartitionLeader_def)
  qed (simp add: applyAssignPartitionLeader_def)
  then show ?thesis
  proof cases
    case 2
    let ?p = "p\<lparr>pm_LeaderNodeID := al_LeaderNodeID c, pm_LeaderEpoch := al_LeaderEpoch c\<rparr>"
    have P: "\<exists>p0. map_of (Partitions st) k = Some p0 \<and> pm_ShardID p0 = pm_ShardID q \<and> pm_Topic p0 = pm_Topic q \<and>
        pm_PartitionID p0 = pm_PartitionID q \<and> pm_LeaderEpoch p0 \<le> pm_LeaderEpoch q"
      if "map_of (mput ?k ?p (Partitions st)) k = Some q" for k q
      using that 2(1,2) by (auto split: if_splits)
    show ?thesis unfolding 2(3)
    proof (rule topics_invI)
      fix k q assume "map_of (Partitions (st\<lparr>Partitions := mput ?k ?p (Partitions st)\<rparr>)) k = Some q"
      then have "map_of (mput ?k ?p (Partitions st)) k = Some q" by simp
      from P [OF this] D(8) [of k]
      show "pm_Topic q = pk_Topic k \<and> pm_PartitionID q = pk_PartitionID k \<and> 1 \<le> pm_ShardID q \<and>
          pm_ShardID q < NextShardID (st\<lparr>Partitions := mput ?k ?p (Partitions st)\<rparr>) \<and> 0 \<le> pm_LeaderEpoch q"
        by auto
    next
      fix k k' q q'
      assume "map_of (Partitions (st\<lparr>Partitions := mput ?k ?p (Partitions st)\<rparr>)) k = Some q"
        "map_of (Partitions (st\<lparr>Partitions := mput ?k ?p (Partitions st)\<rparr>)) k' = Some q'"
        and eq: "pm_ShardID q = pm_ShardID q'"
      then have a: "map_of (mput ?k ?p (Partitions st)) k = Some q" "map_of (mput ?k ?p (Partitions st)) k' = Some q'"
        by simp_all
      show "k = k'" using P [OF a(1)] P [OF a(2)] eq D(9) [of k _ k'] by auto
    next
      fix name i
      show "map_of (Partitions (st\<lparr>Partitions := mput ?k ?p (Partitions st)\<rparr>)) (PartitionKey name i) \<noteq> None \<longleftrightarrow>
        (\<exists>t. map_of (Topics (st\<lparr>Partitions := mput ?k ?p (Partitions st)\<rparr>)) name = Some t \<and> 0 \<le> i \<and> i < tm_PartitionCount t)"
        using D(7) [of name i] 2(1) by auto
    qed (use D(1-5) D(6,10) in simp_all)
  qed (use inv in simp)
qed

definition topic_view :: "MetadataState \<Rightarrow> _" where
  "topic_view st = (Topics st, Partitions st, Nodes st, NextShardID st)"

lemma group_handlers_frame:
  "topic_view (snd (applyJoinConsumerGroup c1 st)) = topic_view st"
  "topic_view (snd (applyLeaveConsumerGroup c2 st)) = topic_view st"
  "topic_view (snd (applyHeartbeatConsumerGroup c3 st)) = topic_view st"
  "topic_view (snd (applyCommitConsumerOffset c4 st)) = topic_view st"
  "topic_view (snd (applyRebalanceConsumerGroup c5 st)) = topic_view st"
  by (simp_all add: applyJoinConsumerGroup_def applyGroupStateJoin_def applyLeaveConsumerGroup_def
      applyGroupStateLeave_def applyHeartbeatConsumerGroup_def applyCommitConsumerOffset_def
      applyGroupStateCommitOffset_def applyRebalanceConsumerGroup_def Let_def topic_view_def split: option.split)

lemma topics_inv_view: "topic_view st' = topic_view st \<Longrightarrow> topics_inv n st' = topics_inv n st"
  by (simp add: topics_inv_def topic_view_def)

lemma group_handlers_inv:
  assumes "topics_inv n st"
  shows "topics_inv n (snd (applyJoinConsumerGroup c1 st))" "topics_inv n (snd (applyLeaveConsumerGroup c2 st))"
    "topics_inv n (snd (applyHeartbeatConsumerGroup c3 st))" "topics_inv n (snd (applyCommitConsumerOffset c4 st))"
    "topics_inv n (snd (applyRebalanceConsumerGroup c5 st))"
  by (simp_all add: assms group_handlers_frame [THEN topics_inv_view])

text \<open>A well-formed entry never panics, and it keeps the invariant.\<close>

lemma deref_ok:
  assumes "p \<noteq> None" "\<And>x. p = Some x \<Longrightarrow> Q (snd (f x st))"
  shows "\<exists>r st'. deref p f st = Inr (r, st') \<and> Q st'"
proof -
  obtain x where "p = Some x" using assms(1) by auto
  with assms(2) show ?thesis by (cases "f x st") (force simp: deref_def)
qed

lemma Update_step:
  assumes inv: "topics_inv n st" and n: "n < 2 ^ 32" and e: "entry_ok e"
  shows "\<exists>r st'. MetadataFSM_Update e st = Inr (r, st') \<and> topics_inv (Suc n) st'"
proof (cases e)
  case None
  then show ?thesis using topics_inv_mono [OF inv, of "Suc n"] by (simp add: MetadataFSM_Update_def)
next
  case (Some c)
  have inv': "topics_inv (Suc n) st" using topics_inv_mono [OF inv, of "Suc n"] by simp
  have "cmd_ok c" using e Some by (simp add: entry_ok_def)
  then have "\<exists>r st'. applyCommand c st = Inr (r, st') \<and> topics_inv (Suc n) st'"
  proof (cases c)
    case (CmdCreateTopic p)
    then show ?thesis
      using \<open>cmd_ok c\<close> grow_handlers_inv [OF inv applyCreateTopic_grows [OF inv n]] by (auto intro!: deref_ok split: option.splits)
  next
    case (CmdAlterTopicPartCount p)
    then show ?thesis
      using \<open>cmd_ok c\<close> grow_handlers_inv [OF inv applyAlterTopicPartCount_grows [OF inv n]] by (auto intro!: deref_ok split: option.splits)
  qed (auto intro!: deref_ok inv' applyDeleteTopic_inv [OF inv'] applyAlterTopicRetention_inv [OF inv']
      applyRegisterNode_inv [OF inv'] applyAssignPartitionLeader_inv [OF inv'] group_handlers_inv [OF inv'])
  then show ?thesis using Some by (simp add: MetadataFSM_Update_def)
qed

lemma topics_inv_New: "topics_inv 0 NewMetadataFSM"
  by (simp add: topics_inv_def NewMetadataFSM_def)

lemma meta_run_inv:
  assumes "topics_inv n st" "n + length es < 2 ^ 32" "list_all entry_ok es"
  shows "\<exists>st'. meta_run es st = Inr st' \<and> topics_inv (n + length es) st'"
  using assms
proof (induction es arbitrary: n st)
  case (Cons e es)
  have "n < 2 ^ 32" "entry_ok e" using Cons.prems by auto
  then obtain r st' where u: "MetadataFSM_Update e st = Inr (r, st')" "topics_inv (Suc n) st'"
    using Update_step [OF Cons.prems(1)] by blast
  show ?case using Cons.IH [OF u(2)] u Cons.prems by simp
qed simp


section \<open>Leader epochs\<close>

text \<open>
  How the partition table may evolve: a partition of the later state is a new shard, or it was
  there under the same key, with the same replicas and no larger epoch, and its leader has only
  changed together with the epoch.
\<close>

definition evolves :: "MetadataState \<Rightarrow> MetadataState \<Rightarrow> bool" where
  "evolves st st' \<longleftrightarrow> NextShardID st \<le> NextShardID st' \<and>
     (\<forall>k p'. map_of (Partitions st') k = Some p' \<longrightarrow> NextShardID st \<le> pm_ShardID p' \<or>
        (\<exists>p. map_of (Partitions st) k = Some p \<and> pm_ShardID p = pm_ShardID p' \<and>
           pm_ReplicaNodeIDs p = pm_ReplicaNodeIDs p' \<and> pm_LeaderEpoch p \<le> pm_LeaderEpoch p' \<and>
           (pm_LeaderEpoch p = pm_LeaderEpoch p' \<longrightarrow> pm_LeaderNodeID p = pm_LeaderNodeID p')))"

lemma evolves_refl [simp]: "evolves st st"
  by (auto simp: evolves_def)

lemma evolves_view: "topic_view st' = topic_view st \<Longrightarrow> evolves st st'"
  by (auto simp: evolves_def topic_view_def)

lemma evolves_trans:
  assumes "evolves a b" "evolves b c"
  shows "evolves a c"
  unfolding evolves_def
proof (intro conjI allI impI)
  show "NextShardID a \<le> NextShardID c" using assms by (simp add: evolves_def)
  fix k p' assume p': "map_of (Partitions c) k = Some p'"
  show "NextShardID a \<le> pm_ShardID p' \<or> (\<exists>p. map_of (Partitions a) k = Some p \<and> pm_ShardID p = pm_ShardID p' \<and>
           pm_ReplicaNodeIDs p = pm_ReplicaNodeIDs p' \<and> pm_LeaderEpoch p \<le> pm_LeaderEpoch p' \<and>
           (pm_LeaderEpoch p = pm_LeaderEpoch p' \<longrightarrow> pm_LeaderNodeID p = pm_LeaderNodeID p'))"
  proof (cases "NextShardID b \<le> pm_ShardID p'")
    case True
    then show ?thesis using assms(1) by (auto simp: evolves_def)
  next
    case False
    then obtain q where q: "map_of (Partitions b) k = Some q" "pm_ShardID q = pm_ShardID p'"
      "pm_ReplicaNodeIDs q = pm_ReplicaNodeIDs p'" "pm_LeaderEpoch q \<le> pm_LeaderEpoch p'"
      "pm_LeaderEpoch q = pm_LeaderEpoch p' \<longrightarrow> pm_LeaderNodeID q = pm_LeaderNodeID p'"
      using assms(2) p' unfolding evolves_def by blast
    moreover from q(1) have "NextShardID a \<le> pm_ShardID q \<or> (\<exists>p. map_of (Partitions a) k = Some p \<and>
        pm_ShardID p = pm_ShardID q \<and> pm_ReplicaNodeIDs p = pm_ReplicaNodeIDs q \<and>
        pm_LeaderEpoch p \<le> pm_LeaderEpoch q \<and> (pm_LeaderEpoch p = pm_LeaderEpoch q \<longrightarrow> pm_LeaderNodeID p = pm_LeaderNodeID q))"
      using assms(1) unfolding evolves_def by blast
    ultimately show ?thesis by auto
  qed
qed

lemma evolves_grow:
  assumes "st' = st \<or> (\<exists>name t first reps. grows name t first reps st st')"
  shows "evolves st st'"
proof (cases "st' = st")
  case False
  then obtain name t first reps where g: "grows name t first reps st st'" using assms by auto
  have P: "Partitions st' = new_parts name first (NextShardID st) reps (nat (tm_PartitionCount t - first)) (Partitions st)"
    and N: "NextShardID st \<le> NextShardID st'"
    using g by (auto simp: grows_def)
  show ?thesis unfolding evolves_def
  proof (intro conjI allI impI N)
    fix k p' assume "map_of (Partitions st') k = Some p'"
    then show "NextShardID st \<le> pm_ShardID p' \<or> (\<exists>p. map_of (Partitions st) k = Some p \<and> pm_ShardID p = pm_ShardID p' \<and>
           pm_ReplicaNodeIDs p = pm_ReplicaNodeIDs p' \<and> pm_LeaderEpoch p \<le> pm_LeaderEpoch p' \<and>
           (pm_LeaderEpoch p = pm_LeaderEpoch p' \<longrightarrow> pm_LeaderNodeID p = pm_LeaderNodeID p'))"
      by (cases k) (auto simp: P map_of_new_parts new_part_def split: if_splits)
  qed
qed simp

lemma applyDeleteTopic_evolves: "evolves st (snd (applyDeleteTopic c st))"
  by (auto simp: evolves_def applyDeleteTopic_def fold_mdel split: option.split if_splits)

lemma applyAssignPartitionLeader_evolves: "evolves st (snd (applyAssignPartitionLeader c st))"
  by (auto simp: evolves_def applyAssignPartitionLeader_def Let_def split: option.split if_splits)

lemma view_handlers_evolve:
  "evolves st (snd (applyAlterTopicRetention c st))" "evolves st (snd (applyRegisterNode c' st))"
  by (auto simp: evolves_def applyAlterTopicRetention_def applyRegisterNode_def split: option.split)

lemma deref_Inr: "deref p f st = Inr (r, st') \<Longrightarrow> \<exists>c. p = Some c \<and> st' = snd (f c st)"
  by (auto simp: deref_def split: option.splits)

lemma Update_evolves:
  assumes inv: "topics_inv n st" and n: "n < 2 ^ 32" and e: "entry_ok e" and r: "MetadataFSM_Update e st = Inr (r, st')"
  shows "evolves st st'"
proof (cases e)
  case (Some c)
  then have "applyCommand c st = Inr (r, st')" "cmd_ok c" using r e by (auto simp: MetadataFSM_Update_def entry_ok_def)
  then show ?thesis
    by (cases c) (auto dest!: deref_Inr intro: evolves_grow [OF applyCreateTopic_grows [OF inv n]]
      evolves_grow [OF applyAlterTopicPartCount_grows [OF inv n]] applyDeleteTopic_evolves
      applyAssignPartitionLeader_evolves view_handlers_evolve evolves_view [OF group_handlers_frame(1)]
      evolves_view [OF group_handlers_frame(2)] evolves_view [OF group_handlers_frame(3)]
      evolves_view [OF group_handlers_frame(4)] evolves_view [OF group_handlers_frame(5)])
qed (use r in \<open>simp add: MetadataFSM_Update_def\<close>)

lemma meta_run_evolves:
  assumes "topics_inv n st" "n + length es < 2 ^ 32" "list_all entry_ok es" "meta_run es st = Inr st'"
  shows "evolves st st'"
  using assms
proof (induction es arbitrary: n st)
  case (Cons e es)
  have n: "n < 2 ^ 32" "entry_ok e" using Cons.prems by auto
  then obtain r st1 where u: "MetadataFSM_Update e st = Inr (r, st1)" "topics_inv (Suc n) st1"
    using Update_step [OF Cons.prems(1)] by blast
  have "evolves st st1" by (rule Update_evolves [OF Cons.prems(1) n u(1)])
  moreover have "evolves st1 st'" using Cons.IH [OF u(2)] u Cons.prems by simp
  ultimately show ?case by (rule evolves_trans)
qed simp

lemma same_shard_evolves:
  assumes inv: "topics_inv n st" and ev: "evolves st st'"
    and p: "map_of (Partitions st) k = Some p" and p': "map_of (Partitions st') k' = Some p'"
    and shard: "pm_ShardID p = pm_ShardID p'"
  shows "k' = k \<and> pm_ReplicaNodeIDs p' = pm_ReplicaNodeIDs p \<and> pm_LeaderEpoch p \<le> pm_LeaderEpoch p' \<and>
    (pm_LeaderNodeID p' \<noteq> pm_LeaderNodeID p \<longrightarrow> pm_LeaderEpoch p < pm_LeaderEpoch p')"
proof -
  have "\<not> NextShardID st \<le> pm_ShardID p'" using topics_invD(8) [OF inv p] shard by simp
  then obtain q where q: "map_of (Partitions st) k' = Some q" "pm_ShardID q = pm_ShardID p'"
      "pm_ReplicaNodeIDs q = pm_ReplicaNodeIDs p'" "pm_LeaderEpoch q \<le> pm_LeaderEpoch p'"
      "pm_LeaderEpoch q = pm_LeaderEpoch p' \<longrightarrow> pm_LeaderNodeID q = pm_LeaderNodeID p'"
    using ev p' unfolding evolves_def by blast
  then have "k = k'" using topics_invD(9) [OF inv p q(1)] shard by simp
  then show ?thesis using q p by auto
qed

end
