(* ===== verification/Assignor.thy ===== *)
theory Assignor
  imports MetaTypes
begin

text \<open>
  Distribution of partitions over the members of a consumer group: the contract every assignment
  function of the program has (\<open>assignor\<close>), and \<open>rangeAssign\<close>, which the group coordinator runs
  (\<open>internal/coordinator/group/groupcoord.go\<close>) and of which the cluster package holds a copy
  (\<open>internal/coordinator/cluster/assignment.go\<close>).
\<close>

section \<open>The contract\<close>

lemma concat_owner:
  "distinct ms \<Longrightarrow> distinct (concat (map f ms)) \<Longrightarrow> m \<in> set ms \<Longrightarrow> m' \<in> set ms \<Longrightarrow>
   p \<in> set (f m) \<Longrightarrow> p \<in> set (f m') \<Longrightarrow> m = m'"
  by (induction ms) auto

locale assignor =
  fixes valid :: "'i \<Rightarrow> bool"
    and members :: "'i \<Rightarrow> string list"
    and parts :: "'i \<Rightarrow> 'p list"
    and assigned :: "'i \<Rightarrow> string \<Rightarrow> 'p list"
  assumes distinct_members: "valid i \<Longrightarrow> distinct (members i)"
    and distinct_parts: "valid i \<Longrightarrow> distinct (parts i)"
    and complete: "valid i \<Longrightarrow> members i \<noteq> [] \<Longrightarrow>
      mset (concat (map (assigned i) (members i))) = mset (parts i)"
begin

lemma assigned_distinct:
  assumes "valid i" "members i \<noteq> []"
  shows "distinct (concat (map (assigned i) (members i)))"
  using complete [OF assms] distinct_parts [OF assms(1)] mset_eq_imp_distinct_iff by blast

lemma one_owner:
  assumes "valid i" "members i \<noteq> []" "p \<in> set (parts i)"
  shows "\<exists>!m. m \<in> set (members i) \<and> p \<in> set (assigned i m)"
proof -
  have "p \<in> set (concat (map (assigned i) (members i)))"
    using mset_eq_setD [OF complete [OF assms(1,2)]] assms(3) by simp
  then obtain m where "m \<in> set (members i)" "p \<in> set (assigned i m)" by auto
  then show ?thesis
    using concat_owner [OF distinct_members [OF assms(1)] assigned_distinct [OF assms(1,2)]] by blast
qed

lemma nothing_else:
  assumes "valid i" "m \<in> set (members i)"
  shows "set (assigned i m) \<subseteq> set (parts i)"
proof -
  have "members i \<noteq> []" using assms(2) by auto
  from mset_eq_setD [OF complete [OF assms(1) this]] assms(2) show ?thesis by auto
qed

lemma sizes:
  assumes "valid i" "members i \<noteq> []"
  shows "sum_list (map (\<lambda>m. length (assigned i m)) (members i)) = length (parts i)"
  using arg_cong [OF complete [OF assms], of size] by (simp add: length_concat comp_def)

end

section \<open>Cutting a list into ranges\<close>

lemma slc_join:
  assumes "i \<le> j" "j \<le> k"
  shows "slc xs i j @ slc xs j k = slc xs i k"
proof -
  have "k - i = (j - i) + (k - j)" "drop (j - i) (drop i xs) = drop j xs" using assms by simp_all
  then show ?thesis by (simp add: slc_def take_add)
qed

lemma concat_ranges:
  assumes "\<And>i. i < n \<Longrightarrow> b i \<le> b (Suc i)"
  shows "concat (map (\<lambda>i. slc xs (b i) (b (Suc i))) [0..<n]) = slc xs (b 0) (b n)"
  using assms
proof (induction n)
  case (Suc n)
  have "b 0 \<le> b n" using Suc.prems by (induction n) (auto intro: order_trans le_SucI)
  moreover have "b n \<le> b (Suc n)" using Suc.prems by simp
  ultimately have "slc xs (b 0) (b n) @ slc xs (b n) (b (Suc n)) = slc xs (b 0) (b (Suc n))"
    by (rule slc_join)
  then show ?case using Suc by simp
qed (simp add: slc_def)

text \<open>Where the range of the \<open>i\<close>-th of \<open>m\<close> members begins among \<open>n\<close> partitions.\<close>

definition cut_at :: "nat \<Rightarrow> nat \<Rightarrow> nat \<Rightarrow> nat" where
  "cut_at n m i = i * (n div m) + min i (n mod m)"

lemma cut_at_0 [simp]: "cut_at n m 0 = 0"
  by (simp add: cut_at_def)

lemma cut_at_end [simp]: "0 < m \<Longrightarrow> cut_at n m m = n"
  by (simp add: cut_at_def min.absorb2)

lemma cut_at_Suc: "cut_at n m (Suc i) = cut_at n m i + n div m + (if i < n mod m then 1 else 0)"
  by (auto simp: cut_at_def)

section \<open>rangeAssign\<close>

fun assign_members :: "string \<Rightarrow> int \<Rightarrow> int \<Rightarrow> int \<Rightarrow> int \<Rightarrow> string list \<Rightarrow>
    (string, TopicPartition list) gomap \<Rightarrow> (string, TopicPartition list) gomap" where
  "assign_members topic bas remainder i cursor [] result = result"
| "assign_members topic bas remainder i cursor (memberID # ms) result =
     (let count = (if i < remainder then bas + 1 else bas)
      in assign_members topic bas remainder (i + 1) (cursor + count) ms
           (mput memberID (mget0 [] result memberID @
              map (\<lambda>p. TopicPartition topic (int32 p)) [cursor..cursor + count - 1]) result))"

definition rangeAssign :: "string list \<Rightarrow> string list \<Rightarrow> (string, int) gomap \<Rightarrow> (string, TopicPartition list) gomap" where
  "rangeAssign memberIDs topics partitionCounts =
     (if length memberIDs = 0 then []
      else
        let sorted = sort memberIDs;
            sortedTopics = sort topics;
            result = fold (\<lambda>m. mput m []) sorted []
        in fold (\<lambda>topic result.
             let nPartitions = mget0 0 partitionCounts topic
             in if nPartitions = 0 then result
                else let nMembers = int (length sorted);
                         bas = go_div nPartitions nMembers;
                         remainder = go_mod nPartitions nMembers
                     in assign_members topic bas remainder 0 0 sorted result) sortedTopics result)"

text \<open>The copy in the cluster package has the same text.\<close>

definition Cluster_rangeAssign :: "string list \<Rightarrow> string list \<Rightarrow> (string, int) gomap \<Rightarrow> (string, TopicPartition list) gomap" where
  "Cluster_rangeAssign memberIDs topics partitionCounts =
     (if length memberIDs = 0 then []
      else
        let sorted = sort memberIDs;
            sortedTopics = sort topics;
            result = fold (\<lambda>m. mput m []) sorted []
        in fold (\<lambda>topic result.
             let nPartitions = mget0 0 partitionCounts topic
             in if nPartitions = 0 then result
                else let nMembers = int (length sorted);
                         bas = go_div nPartitions nMembers;
                         remainder = go_mod nPartitions nMembers
                     in assign_members topic bas remainder 0 0 sorted result) sortedTopics result)"

text \<open>The partitions of one topic that fall to the \<open>i\<close>-th of \<open>m\<close> members.\<close>

definition topic_range :: "string \<Rightarrow> nat \<Rightarrow> nat \<Rightarrow> nat \<Rightarrow> TopicPartition list" where
  "topic_range topic n m i = map (\<lambda>p. TopicPartition topic (int p)) [cut_at n m i..<cut_at n m (Suc i)]"

lemma upto_nat: "[int a..int b - 1] = map int [a..<b]"
  by (rule nth_equalityI) (auto simp: nth_upto)

lemma cut_at_mono: "i \<le> j \<Longrightarrow> cut_at n m i \<le> cut_at n m j"
  unfolding cut_at_def by (intro add_mono mult_right_mono min.mono) auto

lemma cut_at_le: "i \<le> m \<Longrightarrow> 0 < m \<Longrightarrow> cut_at n m i \<le> n"
  using cut_at_mono [of i m n m] by simp

lemma assign_members_other:
  "k \<notin> set ms \<Longrightarrow> map_of (assign_members topic b r i c ms res) k = map_of res k"
  by (induction ms arbitrary: i c res) (auto simp: Let_def)

lemma assign_members_ok:
  "map_ok (assign_members topic b r i c ms res) \<longleftrightarrow> map_ok res"
  "set (mkeys (assign_members topic b r i c ms res)) = set ms \<union> set (mkeys res)"
  by (induction ms arbitrary: i c res) (auto simp: Let_def)

lemma assign_members_get:
  assumes "distinct ms" "n < 2 ^ 31" "0 < m" "i + length ms = m" "j < length ms"
  shows "map_of (assign_members topic (int (n div m)) (int (n mod m)) (int i) (int (cut_at n m i)) ms r) (ms ! j) =
    Some (mget0 [] r (ms ! j) @ topic_range topic n m (i + j))"
  using assms
proof (induction ms arbitrary: i j r)
  case (Cons x ms)
  let ?c = "if int i < int (n mod m) then int (n div m) + 1 else int (n div m)"
  have c: "int (cut_at n m i) + ?c = int (cut_at n m (Suc i))" by (simp add: cut_at_Suc)
  have le: "cut_at n m (Suc i) \<le> n" using Cons.prems by (intro cut_at_le) auto
  have ml: "map (\<lambda>p. TopicPartition topic (int32 p)) [int (cut_at n m i)..int (cut_at n m i) + ?c - 1] = topic_range topic n m i"
    unfolding c upto_nat topic_range_def using le Cons.prems(2) by (auto simp: int32_id in_int32_def)
  have si: "int i + 1 = int (Suc i)" by simp
  let ?r = "mput x (mget0 [] r x @ topic_range topic n m i) r"
  have st: "assign_members topic (int (n div m)) (int (n mod m)) (int i) (int (cut_at n m i)) (x # ms) r =
    assign_members topic (int (n div m)) (int (n mod m)) (int (Suc i)) (int (cut_at n m (Suc i))) ms ?r"
    by (simp only: assign_members.simps Let_def ml si) (simp only: c)
  show ?case
  proof (cases j)
    case 0
    then show ?thesis unfolding st using Cons.prems(1) by (simp add: assign_members_other)
  next
    case (Suc k)
    have "ms ! k \<noteq> x" using Cons.prems Suc by auto
    then show ?thesis unfolding st using Cons.IH [of "Suc i" k ?r] Cons.prems Suc by (simp add: mget0_def)
  qed
qed simp

text \<open>What the loop over the topics has added for a member.\<close>

definition member_share :: "string list \<Rightarrow> (string, int) gomap \<Rightarrow> nat \<Rightarrow> nat \<Rightarrow> TopicPartition list" where
  "member_share topics counts m i =
     concat (map (\<lambda>t. topic_range t (nat (mget0 0 counts t)) m i) topics)"

definition counts_ok :: "string list \<Rightarrow> (string, int) gomap \<Rightarrow> bool" where
  "counts_ok topics counts \<longleftrightarrow> (\<forall>t \<in> set topics. 0 \<le> mget0 0 counts t \<and> mget0 0 counts t < 2 ^ 31)"

definition topic_step :: "string list \<Rightarrow> (string, int) gomap \<Rightarrow> string \<Rightarrow>
    (string, TopicPartition list) gomap \<Rightarrow> (string, TopicPartition list) gomap" where
  "topic_step ms counts topic result =
     (let nPartitions = mget0 0 counts topic
      in if nPartitions = 0 then result
         else assign_members topic (go_div nPartitions (int (length ms))) (go_mod nPartitions (int (length ms))) 0 0 ms result)"

lemma topic_step_ok:
  "map_ok (topic_step ms counts t r) \<longleftrightarrow> map_ok r"
  "set ms \<subseteq> set (mkeys r) \<Longrightarrow> set (mkeys (topic_step ms counts t r)) = set (mkeys r)"
  by (auto simp: topic_step_def Let_def assign_members_ok)

lemma topic_range_0 [simp]: "topic_range t 0 m i = []"
  by (simp add: topic_range_def cut_at_def)

lemma topic_step_get:
  assumes "distinct ms" "j < length ms" "0 \<le> mget0 0 counts t" "mget0 0 counts t < 2 ^ 31"
    "map_of r (ms ! j) \<noteq> None"
  shows "map_of (topic_step ms counts t r) (ms ! j) =
    Some (mget0 [] r (ms ! j) @ topic_range t (nat (mget0 0 counts t)) (length ms) j)"
proof -
  obtain n where n: "mget0 0 counts t = int n" using assms(3) zero_le_imp_eq_int by blast
  show ?thesis
  proof (cases "n = 0")
    case True
    then show ?thesis using assms(5) n by (auto simp: topic_step_def mget0_def)
  next
    case False
    have m: "0 < length ms" using assms(2) by auto
    then have "topic_step ms counts t r = assign_members t (int (n div length ms)) (int (n mod length ms)) (int 0)
        (int (cut_at n (length ms) 0)) ms r"
      using False n by (simp add: topic_step_def Let_def go_int zdiv_int zmod_int)
    then show ?thesis using assign_members_get [OF assms(1), of n "length ms" 0 j t r] assms m n by simp
  qed
qed

lemma fold_topic_step:
  assumes "distinct ms" "j < length ms" "counts_ok ts counts" "map_of r (ms ! j) \<noteq> None"
  shows "map_of (fold (topic_step ms counts) ts r) (ms ! j) =
    Some (mget0 [] r (ms ! j) @ member_share ts counts (length ms) j)"
  using assms(3,4)
proof (induction ts arbitrary: r)
  case Nil
  then show ?case by (auto simp: member_share_def mget0_def)
next
  case (Cons t ts)
  have g: "map_of (topic_step ms counts t r) (ms ! j) =
      Some (mget0 [] r (ms ! j) @ topic_range t (nat (mget0 0 counts t)) (length ms) j)"
    using topic_step_get [OF assms(1,2)] Cons.prems by (simp add: counts_ok_def)
  have "counts_ok ts counts" using Cons.prems(1) by (simp add: counts_ok_def)
  from Cons.IH [OF this, of "topic_step ms counts t r"] g show ?case
    by (simp add: member_share_def mget0_def [of "[]" "topic_step ms counts t r"])
qed

lemma fold_topic_step_ok:
  assumes "set ms \<subseteq> set (mkeys r)"
  shows "map_ok (fold (topic_step ms counts) ts r) \<longleftrightarrow> map_ok r"
    "set (mkeys (fold (topic_step ms counts) ts r)) = set (mkeys r)"
  using assms by (induction ts arbitrary: r) (auto simp: topic_step_ok)

lemma init_result:
  "map_ok (fold (\<lambda>m. mput m []) ms [])" "set (mkeys (fold (\<lambda>m. mput m ([] :: 'b list)) ms [])) = set ms"
  "mget0 [] (fold (\<lambda>m. mput m ([] :: 'b list)) ms []) k = []"
proof -
  have "set (mkeys (fold (\<lambda>m. mput m ([] :: 'b list)) ms r)) = set ms \<union> set (mkeys r)" for r :: "('a \<times> 'b list) list"
    by (induction ms arbitrary: r) auto
  from this [of "[]"] show "set (mkeys (fold (\<lambda>m. mput m ([] :: 'b list)) ms [])) = set ms" by (simp add: mkeys_def)
  have "mget0 [] (fold (\<lambda>m. mput m ([] :: 'b list)) ms r) k = []" if "mget0 [] r k = []" for r :: "('a \<times> 'b list) list"
    using that by (induction ms arbitrary: r) (auto simp: mget0_def)
  then show "mget0 [] (fold (\<lambda>m. mput m ([] :: 'b list)) ms []) k = []" by (simp add: mget0_def)
qed (rule map_ok_fold_mput [THEN iffD2, OF map_ok_Nil])

lemma rangeAssign_fold:
  assumes "ms \<noteq> []"
  shows "rangeAssign ms topics counts =
    fold (topic_step (sort ms) counts) (sort topics) (fold (\<lambda>m. mput m []) (sort ms) [])"
  using assms unfolding rangeAssign_def topic_step_def Let_def by simp

lemma rangeAssign_keys:
  shows "map_ok (rangeAssign ms topics counts)" "set (mkeys (rangeAssign ms topics counts)) = set ms"
proof -
  let ?r = "fold (\<lambda>m. mput m []) (sort ms) [] :: (string, TopicPartition list) gomap"
  have "set (sort ms) \<subseteq> set (mkeys ?r)" by (simp only: init_result(2))
  from fold_topic_step_ok [OF this, of counts "sort topics"] init_result(1,2) [of "sort ms"]
  have "ms \<noteq> [] \<Longrightarrow> map_ok (rangeAssign ms topics counts) \<and> set (mkeys (rangeAssign ms topics counts)) = set ms"
    by (simp add: rangeAssign_fold)
  then show "map_ok (rangeAssign ms topics counts)" "set (mkeys (rangeAssign ms topics counts)) = set ms"
    by (cases "ms = []"; simp add: rangeAssign_def mkeys_def)+
qed

lemma rangeAssign_share:
  assumes "distinct ms" "counts_ok topics counts" "j < length ms"
  shows "map_of (rangeAssign ms topics counts) (sort ms ! j) = Some (member_share (sort topics) counts (length ms) j)"
proof -
  have "ms \<noteq> []" using assms by auto
  moreover have "map_of (fold (\<lambda>m. mput m []) (sort ms) [] :: (string, TopicPartition list) gomap) (sort ms ! j) \<noteq> None"
    using assms(3) unfolding mkeys_iff [symmetric] init_result(2) by (intro nth_mem) simp
  moreover have "counts_ok (sort topics) counts" using assms(2) by (simp add: counts_ok_def)
  ultimately show ?thesis
    using fold_topic_step [of "sort ms" j "sort topics" counts] assms by (simp add: rangeAssign_fold init_result(3))
qed


section \<open>rangeAssign meets the contract\<close>

definition all_partitions :: "string list \<Rightarrow> (string, int) gomap \<Rightarrow> TopicPartition list" where
  "all_partitions topics counts =
     concat (map (\<lambda>t. map (\<lambda>p. TopicPartition t (int p)) [0..<nat (mget0 0 counts t)]) topics)"

lemma mset_concat_map: "mset (concat (map f xs)) = (\<Sum>x\<in>#mset xs. mset (f x))"
  by (induction xs) simp_all

lemma concat_upt:
  assumes "\<And>i. i < n \<Longrightarrow> b i \<le> b (Suc i)"
  shows "b 0 \<le> b n \<and> concat (map (\<lambda>i. [b i..<b (Suc i)]) [0..<n]) = [b 0..<b n]"
  using assms
proof (induction n)
  case (Suc n)
  then have "b 0 \<le> b n" "b n \<le> b (Suc n)" by simp_all
  then have "[b 0..<b n] @ [b n..<b (Suc n)] = [b 0..<b (Suc n)]"
    using upt_add_eq_append [of "b 0" "b n" "b (Suc n) - b n"] by simp
  then show ?case using Suc \<open>b 0 \<le> b n\<close> \<open>b n \<le> b (Suc n)\<close> by (simp add: order_trans [of "b 0" "b n"])
qed simp

lemma topic_ranges:
  assumes "0 < m"
  shows "concat (map (topic_range t n m) [0..<m]) = map (\<lambda>p. TopicPartition t (int p)) [0..<n]"
proof -
  have "concat (map (\<lambda>i. [cut_at n m i..<cut_at n m (Suc i)]) [0..<m]) = [0..<n]"
    using concat_upt [of m "cut_at n m"] assms by (simp add: cut_at_mono)
  from arg_cong [OF this, of "map (\<lambda>p. TopicPartition t (int p))"] show ?thesis
    by (simp add: map_concat topic_range_def [abs_def] comp_def)
qed

lemma member_shares:
  assumes "0 < m"
  shows "mset (concat (map (member_share ts counts m) [0..<m])) = mset (all_partitions ts counts)"
proof -
  have "mset (concat (map (member_share ts counts m) [0..<m])) =
      (\<Sum>i\<in>#mset [0..<m]. \<Sum>t\<in>#mset ts. mset (topic_range t (nat (mget0 0 counts t)) m i))"
    unfolding mset_concat_map member_share_def ..
  also have "\<dots> = (\<Sum>t\<in>#mset ts. \<Sum>i\<in>#mset [0..<m]. mset (topic_range t (nat (mget0 0 counts t)) m i))"
    by (rule sum_mset.swap)
  also have "\<dots> = (\<Sum>t\<in>#mset ts. mset (map (\<lambda>p. TopicPartition t (int p)) [0..<nat (mget0 0 counts t)]))"
    unfolding mset_concat_map [symmetric] topic_ranges [OF assms] ..
  also have "\<dots> = mset (all_partitions ts counts)"
    unfolding all_partitions_def mset_concat_map ..
  finally show ?thesis .
qed

lemma all_partitions_sort: "mset (all_partitions (sort ts) counts) = mset (all_partitions ts counts)"
  unfolding all_partitions_def mset_concat_map by simp

lemma distinct_all_partitions: "distinct ts \<Longrightarrow> distinct (all_partitions ts counts)"
  by (induction ts) (auto simp: all_partitions_def distinct_map inj_on_def)

definition assign_input :: "string list \<times> string list \<times> (string, int) gomap \<Rightarrow> bool" where
  "assign_input i = (case i of (ms, ts, counts) \<Rightarrow> distinct ms \<and> distinct ts \<and> counts_ok ts counts)"

interpretation ra: assignor assign_input fst "\<lambda>(ms, ts, counts). all_partitions ts counts"
    "\<lambda>(ms, ts, counts) m. mget0 [] (rangeAssign ms ts counts) m"
proof (unfold_locales, goal_cases)
  case (3 i)
  obtain ms ts counts where i: "i = (ms, ts, counts)" by (cases i)
  have ok: "distinct ms" "counts_ok ts counts" "0 < length ms" using 3 i by (auto simp: assign_input_def)
  let ?f = "mget0 [] (rangeAssign ms ts counts)"
  have "map ?f (sort ms) = map (member_share (sort ts) counts (length ms)) [0..<length ms]"
    using rangeAssign_share [OF ok(1,2)] by (intro nth_equalityI) (auto simp: mget0_def)
  then have "mset (concat (map ?f (sort ms))) = mset (all_partitions (sort ts) counts)"
    using member_shares [OF ok(3)] by simp
  then show ?case
    using i all_partitions_sort by (simp add: mset_concat_map)
qed (auto simp: assign_input_def distinct_all_partitions)

lemma share_size:
  "length (topic_range t n m i) = n div m + (if i < n mod m then 1 else 0)"
  by (simp add: topic_range_def cut_at_Suc)

text \<open>No member has two partitions of a topic more than another.\<close>

lemma member_share_topic:
  assumes "distinct ts" "t \<in> set ts"
  shows "length (filter (\<lambda>tp. tp_Topic tp = t) (member_share ts counts m i)) =
    nat (mget0 0 counts t) div m + (if i < nat (mget0 0 counts t) mod m then 1 else 0)"
  using assms
proof (induction ts)
  case (Cons u ts)
  have self: "filter (\<lambda>tp. tp_Topic tp = t) (topic_range u n m i) = (if u = t then topic_range u n m i else [])" for n
    by (auto simp: topic_range_def filter_id_conv filter_empty_conv)
  have "t \<notin> set ts \<Longrightarrow> filter (\<lambda>tp. tp_Topic tp = t) (member_share ts counts m i) = []"
    by (auto simp: member_share_def topic_range_def filter_empty_conv)
  then show ?case using Cons self share_size [of t "nat (mget0 0 counts t)" m i]
    by (auto simp: member_share_def)
qed simp

lemma rangeAssign_balanced:
  assumes "distinct ms" "distinct ts" "counts_ok ts counts" "m \<in> set ms" "t \<in> set ts"
  shows "length (filter (\<lambda>tp. tp_Topic tp = t) (mget0 [] (rangeAssign ms ts counts) m)) \<in>
    {nat (mget0 0 counts t) div length ms, nat (mget0 0 counts t) div length ms + 1}"
proof -
  obtain j where j: "j < length ms" "m = sort ms ! j"
    using assms(4) by (metis in_set_conv_nth length_sort set_sort)
  then show ?thesis
    using rangeAssign_share [OF assms(1,3) j(1)] member_share_topic [of "sort ts" t counts "length ms" j] assms
    by (auto simp: mget0_def)
qed


lemma Cluster_rangeAssign_eq: "Cluster_rangeAssign = rangeAssign"
  by (intro ext) (simp only: Cluster_rangeAssign_def rangeAssign_def)

text \<open>The order in which the members were collected from a map does not matter.\<close>

lemma rangeAssign_perm:
  assumes "mset ms = mset ms'" "mset ts = mset ts'"
  shows "rangeAssign ms ts counts = rangeAssign ms' ts' counts"
proof -
  have "sort ms = sort ms'" by (rule properties_for_sort) (use assms in simp_all)
  moreover have "sort ts = sort ts'" by (rule properties_for_sort) (use assms in simp_all)
  moreover have "length ms = length ms'" using assms(1) by (rule mset_eq_length)
  ultimately show ?thesis by (simp only: rangeAssign_def)
qed

end
