(* ===== verification/MetaGroups.thy ===== *)
theory MetaGroups
  imports MetaInv Assignor
begin

text \<open>
  The consumer groups of the metadata state machine: the rebalancing of the groups it manages
  itself meets the contract of an assignment function, and what a commit stores is what the
  offset query returns.
\<close>

section \<open>Rebalancing inside the state machine\<close>

definition eligible_of :: "ConsumerGroupMeta \<times> (string, TopicMeta) gomap \<times> (PartitionKey, PartitionMeta) gomap \<Rightarrow> PartitionKey list" where
  "eligible_of i = (case i of (grp, topics, partitions) \<Rightarrow> sort (collectEligiblePartitions (cg_Members grp) topics partitions))"

lemma fold_set_assigned:
  assumes "distinct ms" "set is \<subseteq> {..<length ms}" "distinct is" "map_of m (ms ! i) = Some x" "i \<in> set is"
  shows "map_of (fold (\<lambda>i. set_assigned (ms ! i) (h i)) is m) (ms ! i) = Some (x\<lparr>mi_AssignedPartitions := h i\<rparr>)"
  using assms(2-)
proof (induction "is" arbitrary: m x)
  case (Cons j "is")
  have ij: "ms ! j \<noteq> ms ! i" if "j \<noteq> i" using that assms(1) Cons.prems by (auto simp: nth_eq_iff_index_eq)
  show ?case
  proof (cases "j = i")
    case True
    have other: "map_of (fold (\<lambda>i. set_assigned (ms ! i) (h i)) js m') (ms ! i) = map_of m' (ms ! i)"
      if "i \<notin> set js" "set js \<subseteq> {..<length ms}" for js m'
      using that
    proof (induction js arbitrary: m')
      case (Cons a js)
      have "ms ! a \<noteq> ms ! i" using Cons.prems assms(1) \<open>j = i\<close> \<open>set (j # is) \<subseteq> {..<length ms}\<close>
        by (auto simp: nth_eq_iff_index_eq)
      then have "map_of (set_assigned (ms ! a) (h a) m') (ms ! i) = map_of m' (ms ! i)"
        by (auto simp: set_assigned_def split: option.split)
      with Cons show ?case by simp
    qed simp
    have "i \<notin> set is" "set is \<subseteq> {..<length ms}" using Cons.prems True by auto
    moreover have "map_of (set_assigned (ms ! i) (h i) m) (ms ! i) = Some (x\<lparr>mi_AssignedPartitions := h i\<rparr>)"
      using Cons.prems(3) by (simp add: set_assigned_def)
    ultimately show ?thesis using True other by simp
  next
    case False
    then have "map_of (set_assigned (ms ! j) (h j) m) (ms ! i) = Some x"
      using ij Cons.prems(3) by (auto simp: set_assigned_def split: option.split)
    with Cons False show ?thesis by simp
  qed
qed simp

lemma map_ok_set_assigned [simp]: "map_ok (set_assigned k ps m) \<longleftrightarrow> map_ok m"
  by (auto simp: set_assigned_def split: option.split)

lemma mkeys_set_assigned [simp]: "set (mkeys (set_assigned k ps m)) = set (mkeys m)"
  by (auto simp: set_assigned_def mkeys_iff split: option.split)

lemma rebalance_ok:
  "map_ok (cg_Members (rebalance grp topics partitions)) \<longleftrightarrow> map_ok (cg_Members grp)"
  "set (mkeys (cg_Members (rebalance grp topics partitions))) = set (mkeys (cg_Members grp))"
proof -
  have "map_ok (fold (\<lambda>i. set_assigned (ms ! i) (h i)) js m) \<longleftrightarrow> map_ok m"
    "set (mkeys (fold (\<lambda>i. set_assigned (ms ! i) (h i)) js m)) = set (mkeys m)" for ms h js m
    by (induction js arbitrary: m) auto
  then show "map_ok (cg_Members (rebalance grp topics partitions)) \<longleftrightarrow> map_ok (cg_Members grp)"
    "set (mkeys (cg_Members (rebalance grp topics partitions))) = set (mkeys (cg_Members grp))"
    by (simp_all add: rebalance_def Let_def)
qed

lemma rebalance_get:
  fixes grp :: ConsumerGroupMeta and topics :: "(string, TopicMeta) gomap"
    and partitions :: "(PartitionKey, PartitionMeta) gomap"
  assumes "map_ok (cg_Members grp)" "i < length (cg_Members grp)"
  defines "ms \<equiv> sort (mkeys (cg_Members grp))" and "el \<equiv> eligible_of (grp, topics, partitions)"
    and "M \<equiv> length (cg_Members grp)"
  shows "\<exists>x. map_of (cg_Members grp) (ms ! i) = Some x \<and>
    map_of (cg_Members (rebalance grp topics partitions)) (ms ! i) =
      Some (x\<lparr>mi_AssignedPartitions := slc el (i * length el div M) (Suc i * length el div M)\<rparr>)"
proof -
  have len: "length ms = M" by (simp add: ms_def M_def mkeys_def)
  have d: "distinct ms" using distinct_mkeys [OF assms(1)] by (simp add: ms_def)
  have "ms ! i \<in> set (mkeys (cg_Members grp))" using assms(2) len by (metis M_def ms_def nth_mem set_sort)
  then obtain x where x: "map_of (cg_Members grp) (ms ! i) = Some x" by (auto simp: mkeys_iff)
  have "cg_Members (rebalance grp topics partitions) =
      fold (\<lambda>i. set_assigned (ms ! i) (slc el (i * length el div M) (Suc i * length el div M))) [0..<length ms] (cg_Members grp)"
    using assms(2) len unfolding rebalance_def Let_def sortedMemberIDs_def el_def eligible_of_def ms_def M_def
    by auto
  moreover have "i \<in> set [0..<length ms]" "set [0..<length ms] \<subseteq> {..<length ms}" using assms(2) len M_def by auto
  ultimately show ?thesis using fold_set_assigned [OF d, of "[0..<length ms]" "cg_Members grp" i x] x by auto
qed

definition rebalance_input :: "ConsumerGroupMeta \<times> (string, TopicMeta) gomap \<times> (PartitionKey, PartitionMeta) gomap \<Rightarrow> bool" where
  "rebalance_input i = (case i of (grp, topics, partitions) \<Rightarrow> map_ok (cg_Members grp) \<and> map_ok partitions)"

definition rebalanced :: "ConsumerGroupMeta \<times> (string, TopicMeta) gomap \<times> (PartitionKey, PartitionMeta) gomap \<Rightarrow> string \<Rightarrow> PartitionKey list" where
  "rebalanced i m = (case i of (grp, topics, partitions) \<Rightarrow>
     (case map_of (cg_Members (rebalance grp topics partitions)) m of None \<Rightarrow> [] | Some x \<Rightarrow> mi_AssignedPartitions x))"

interpretation reb: assignor rebalance_input "\<lambda>(grp, topics, partitions). mkeys (cg_Members grp)" eligible_of rebalanced
proof (unfold_locales, goal_cases)
  case (3 i)
  obtain grp topics partitions where i: "i = (grp, topics, partitions)" by (cases i)
  define ms where "ms = sort (mkeys (cg_Members grp))"
  define el where "el = eligible_of (grp, topics, partitions)"
  define M where "M = length (cg_Members grp)"
  have ok: "map_ok (cg_Members grp)" "0 < M" using 3 i by (auto simp: rebalance_input_def M_def mkeys_def)
  have len: "length ms = M" by (simp add: ms_def M_def mkeys_def)
  have "map (rebalanced i) ms = map (\<lambda>j. slc el (j * length el div M) (Suc j * length el div M)) [0..<M]"
  proof (rule nth_equalityI)
    show "map (rebalanced i) ms ! j = map (\<lambda>j. slc el (j * length el div M) (Suc j * length el div M)) [0..<M] ! j"
      if "j < length (map (rebalanced i) ms)" for j
      using that rebalance_get [OF ok(1), of j topics partitions] len
      by (auto simp: rebalanced_def i ms_def el_def M_def)
  qed (simp add: len)
  moreover have "concat (map (\<lambda>j. slc el (j * length el div M) (Suc j * length el div M)) [0..<M]) =
      slc el (0 * length el div M) (M * length el div M)"
    by (rule concat_ranges) (simp add: div_le_mono)
  ultimately have "concat (map (rebalanced i) ms) = el" using ok(2) by (simp add: slc_full)
  then have "mset (concat (map (rebalanced i) (mkeys (cg_Members grp)))) = mset el"
    by (metis ms_def mset_concat_map mset_sort)
  then show ?case using i by (simp add: el_def)
qed (auto simp: rebalance_input_def eligible_of_def collectEligiblePartitions_def Let_def distinct_mkeys)

lemma div_step:
  fixes a b c :: nat
  assumes "0 < c"
  shows "(a + b) div c - a div c \<in> {b div c, b div c + 1}"
proof -
  have "a mod c + b mod c < 2 * c" using assms mod_less_divisor [of c a] mod_less_divisor [of c b] by linarith
  then have "(a mod c + b mod c) div c < 2" by (simp add: less_mult_imp_div_less mult.commute)
  then show ?thesis using div_add1_eq [of a b c] by (auto simp: less_2_cases_iff)
qed

lemma rebalance_balanced:
  assumes "map_ok (cg_Members grp)" "m \<in> set (mkeys (cg_Members grp))"
  shows "length (rebalanced (grp, topics, partitions) m) \<in>
    {length (eligible_of (grp, topics, partitions)) div length (cg_Members grp),
     length (eligible_of (grp, topics, partitions)) div length (cg_Members grp) + 1}"
proof -
  define ms where "ms = sort (mkeys (cg_Members grp))"
  define el where "el = eligible_of (grp, topics, partitions)"
  define M where "M = length (cg_Members grp)"
  obtain j where j: "j < M" "m = ms ! j"
    using assms(2) by (metis M_def in_set_conv_nth length_map length_sort mkeys_def ms_def set_sort)
  have "rebalanced (grp, topics, partitions) m = slc el (j * length el div M) (Suc j * length el div M)"
    using rebalance_get [OF assms(1), of j topics partitions] j by (auto simp: rebalanced_def ms_def el_def M_def)
  moreover have "Suc j * length el div M \<le> length el"
    using j(1) by (metis Suc_leI div_le_mono mult_le_mono1 nonzero_mult_div_cancel_left not_less_zero)
  ultimately show ?thesis
    using div_step [of M "j * length el" "length el"] j(1) by (simp add: add.commute flip: el_def M_def)
qed


section \<open>Committed offsets\<close>

lemma fold_put_offsets:
  "map_of (fold (\<lambda>(tp, offset). mput tp offset) offs m) =
     map_of m ++ map_of (rev offs)"
  by (induction offs arbitrary: m) (auto simp: fun_eq_iff map_add_def split: option.splits)

lemma map_of_rev: "map_ok m \<Longrightarrow> map_of (rev m) = map_of m"
  by (rule map_of_inject_set [THEN iffD2]) (simp_all add: map_ok_def rev_map [symmetric])

lemma lookupGroupOffsets_get:
  "map_of (lookupGroupOffsets st grp ps) tp =
     (if tp \<in> set ps then
        Some (case map_of (GroupStates st) grp of None \<Rightarrow> - 1
              | Some g \<Rightarrow> (case map_of (gs_Offsets g) tp of None \<Rightarrow> - 1 | Some off \<Rightarrow> off))
      else None)"
proof -
  have a: "map_of (fold (\<lambda>tp. mput tp (- 1 :: int)) ps r) tp = (if tp \<in> set ps then Some (- 1) else map_of r tp)" for r
    by (induction ps arbitrary: r) auto
  have b: "map_of (fold (\<lambda>tp r. case map_of (gs_Offsets g) tp of None \<Rightarrow> r | Some offset \<Rightarrow> mput tp offset r) ps r) tp =
      (if tp \<in> set ps then (case map_of (gs_Offsets g) tp of None \<Rightarrow> map_of r tp | Some off \<Rightarrow> Some off) else map_of r tp)"
    for g :: GroupState and r
    by (induction ps arbitrary: r) (auto split: option.splits)
  show ?thesis by (auto simp: lookupGroupOffsets_def a b Let_def split: option.split)
qed

end
