(* ===== verification/MetaDet.thy ===== *)
theory MetaDet
  imports MetaGroups
begin

text \<open>
  Determinism of the metadata state machine.  Replicas hold the same maps, but Go may iterate them
  in different orders, and each replica decodes the maps inside a command for itself.  States and
  commands that differ in such orders only give equal results and such states again.
\<close>

section \<open>The same state up to the order of maps\<close>

definition map_rel :: "('v \<Rightarrow> 'v \<Rightarrow> bool) \<Rightarrow> ('k, 'v) gomap \<Rightarrow> ('k, 'v) gomap \<Rightarrow> bool" where
  "map_rel R m m' \<longleftrightarrow> map_ok m \<and> map_ok m' \<and> (\<forall>k. rel_option R (map_of m k) (map_of m' k))"

definition group_rel :: "ConsumerGroupMeta \<Rightarrow> ConsumerGroupMeta \<Rightarrow> bool" where
  "group_rel g g' \<longleftrightarrow> cg_GroupID g = cg_GroupID g' \<and> cg_GenerationID g = cg_GenerationID g' \<and>
     same_map (cg_Members g) (cg_Members g') \<and> same_map (cg_CommittedOffsets g) (cg_CommittedOffsets g')"

definition gstate_rel :: "GroupState \<Rightarrow> GroupState \<Rightarrow> bool" where
  "gstate_rel g g' \<longleftrightarrow> gs_GroupID g = gs_GroupID g' \<and> gs_GenerationID g = gs_GenerationID g' \<and>
     same_map (gs_Members g) (gs_Members g') \<and> same_map (gs_Assignments g) (gs_Assignments g') \<and>
     same_map (gs_Offsets g) (gs_Offsets g')"

definition state_rel :: "MetadataState \<Rightarrow> MetadataState \<Rightarrow> bool" where
  "state_rel st st' \<longleftrightarrow> same_map (Topics st) (Topics st') \<and> same_map (Partitions st) (Partitions st') \<and>
     same_map (Nodes st) (Nodes st') \<and> map_rel group_rel (Groups st) (Groups st') \<and>
     map_rel gstate_rel (GroupStates st) (GroupStates st') \<and> NextShardID st = NextShardID st'"

text \<open>The command decoded by another replica: equal, up to the order of the maps in it.\<close>

definition join_rel :: "JoinConsumerGroupCmd \<Rightarrow> JoinConsumerGroupCmd \<Rightarrow> bool" where
  "join_rel c c' \<longleftrightarrow> c' = c\<lparr>jg_NewAssignment := jg_NewAssignment c'\<rparr> \<and>
     rel_option same_map (jg_NewAssignment c) (jg_NewAssignment c')"

definition leave_rel :: "LeaveConsumerGroupCmd \<Rightarrow> LeaveConsumerGroupCmd \<Rightarrow> bool" where
  "leave_rel c c' \<longleftrightarrow> c' = c\<lparr>lg_NewAssignment := lg_NewAssignment c'\<rparr> \<and>
     rel_option same_map (lg_NewAssignment c) (lg_NewAssignment c')"

definition commit_rel :: "CommitConsumerOffsetCmd \<Rightarrow> CommitConsumerOffsetCmd \<Rightarrow> bool" where
  "commit_rel c c' \<longleftrightarrow> c' = c\<lparr>cc_GroupOffsets := cc_GroupOffsets c'\<rparr> \<and>
     rel_option same_map (cc_GroupOffsets c) (cc_GroupOffsets c')"

fun cmd_rel :: "MetadataCommand \<Rightarrow> MetadataCommand \<Rightarrow> bool" where
  "cmd_rel (CmdJoinConsumerGroup c) (CmdJoinConsumerGroup c') = rel_option join_rel c c'"
| "cmd_rel (CmdLeaveConsumerGroup c) (CmdLeaveConsumerGroup c') = rel_option leave_rel c c'"
| "cmd_rel (CmdCommitConsumerOffset c) (CmdCommitConsumerOffset c') = rel_option commit_rel c c'"
| "cmd_rel c c' = (c = c')"

definition result_rel :: "Result \<times> MetadataState \<Rightarrow> Result \<times> MetadataState \<Rightarrow> bool" where
  "result_rel x y \<longleftrightarrow> fst x = fst y \<and> state_rel (snd x) (snd y)"

lemma map_rel_get: "map_rel R m m' \<Longrightarrow> rel_option R (map_of m k) (map_of m' k)"
  by (simp add: map_rel_def)

lemma map_rel_mput: "map_rel R m m' \<Longrightarrow> R v v' \<Longrightarrow> map_rel R (mput k v m) (mput k v' m')"
  by (simp add: map_rel_def)

lemma same_map_fold_mput:
  "same_map m m' \<Longrightarrow> same_map (fold (\<lambda>i. mput (f i) (g i)) is m) (fold (\<lambda>i. mput (f i) (g i)) is m')"
  by (induction "is" arbitrary: m m') (simp_all add: same_map_mput)

lemma same_map_fold_mdel:
  "same_map m m' \<Longrightarrow> same_map (fold (\<lambda>i. mdel (f i)) is m) (fold (\<lambda>i. mdel (f i)) is m')"
  by (induction "is" arbitrary: m m') (simp_all add: same_map_mdel)

lemma same_map_fold_mdel':
  "same_map m m' \<Longrightarrow> same_map (fold mdel ks m) (fold mdel ks m')"
  using same_map_fold_mdel [of m m' id ks] by simp

lemma same_map_put_offsets:
  assumes "same_map offs offs'" "same_map m m'"
  shows "same_map (fold (\<lambda>(tp, offset). mput tp offset) offs m) (fold (\<lambda>(tp, offset). mput tp offset) offs' m')"
proof -
  have ok: "map_ok (fold (\<lambda>(tp, offset). mput tp offset) xs y) = map_ok y" for xs and y :: "('a \<times> 'b) list"
    unfolding case_prod_beta by (rule map_ok_fold_mput)
  show ?thesis using assms by (simp add: same_map_def ok fold_put_offsets map_of_rev)
qed

lemmas same_simps = same_map_mput same_map_mdel same_map_fold_mput same_map_fold_mdel map_rel_mput

section \<open>Topic handlers\<close>

lemma state_rel_maps:
  assumes "state_rel st st'"
  shows "map_of (Topics st') = map_of (Topics st)" "map_of (Partitions st') = map_of (Partitions st)"
    "NextShardID st' = NextShardID st"
    "same_map (Topics st) (Topics st')" "same_map (Partitions st) (Partitions st')" "same_map (Nodes st) (Nodes st')"
  using assms by (simp_all add: state_rel_def same_map_def)

lemma create_det:
  assumes "state_rel st st'"
  shows "result_rel (applyCreateTopic c st) (applyCreateTopic c st')"
  unfolding applyCreateTopic_def Let_def state_rel_maps(1,3) [OF assms] result_rel_def
  using assms by (simp add: state_rel_def same_simps)

lemma delete_det:
  assumes "state_rel st st'"
  shows "result_rel (applyDeleteTopic c st) (applyDeleteTopic c st')"
  unfolding applyDeleteTopic_def state_rel_maps(1,3) [OF assms] result_rel_def
  using assms by (simp add: state_rel_def same_simps split: option.split)

lemma alter_det:
  assumes "state_rel st st'"
  shows "result_rel (applyAlterTopicPartCount c st) (applyAlterTopicPartCount c st')"
  unfolding applyAlterTopicPartCount_def Let_def state_rel_maps(1,3) [OF assms] result_rel_def
  using assms by (simp add: state_rel_def same_simps split: option.split)

lemma retention_det:
  assumes "state_rel st st'"
  shows "result_rel (applyAlterTopicRetention c st) (applyAlterTopicRetention c st')"
  unfolding applyAlterTopicRetention_def state_rel_maps(1) [OF assms] result_rel_def
  using assms by (simp add: state_rel_def same_simps split: option.split)

lemma register_det:
  assumes "state_rel st st'"
  shows "result_rel (applyRegisterNode c st) (applyRegisterNode c st')"
  using assms by (simp add: applyRegisterNode_def result_rel_def state_rel_def same_simps)

lemma leader_det:
  assumes "state_rel st st'"
  shows "result_rel (applyAssignPartitionLeader c st) (applyAssignPartitionLeader c st')"
  unfolding applyAssignPartitionLeader_def Let_def state_rel_maps(2) [OF assms] result_rel_def
  using assms by (simp add: state_rel_def same_simps split: option.split)

section \<open>Group handlers\<close>

lemma eligible_det:
  assumes "same_map ms ms'" "same_map ts ts'" "same_map ps ps'"
  shows "sort (collectEligiblePartitions ms ts ps) = sort (collectEligiblePartitions ms' ts' ps')"
proof -
  have "set ms = set ms'" using mset_eq_setD [OF same_map_mset [OF assms(1)]] .
  then have sub: "set (concat (map mi_SubscribedTopics (mvals ms))) = set (concat (map mi_SubscribedTopics (mvals ms')))"
    by (simp add: mvals_def)
  have "mset (mkeys ps) = mset (mkeys ps')"
    using same_map_mset [OF assms(3)] by (simp add: mkeys_def)
  then have "mset (collectEligiblePartitions ms ts ps) = mset (collectEligiblePartitions ms' ts' ps')"
    unfolding collectEligiblePartitions_def Let_def sub same_map_get [OF assms(2)] mset_filter by simp
  then show ?thesis by (intro properties_for_sort) simp_all
qed

lemma same_map_set_assigned: "same_map m m' \<Longrightarrow> same_map (set_assigned k ps m) (set_assigned k ps m')"
  by (auto simp: set_assigned_def same_map_get same_map_mput split: option.split)

lemma rebalance_det:
  assumes "group_rel g g'" "same_map ts ts'" "same_map ps ps'"
  shows "group_rel (rebalance g ts ps) (rebalance g' ts' ps')"
proof -
  have m: "same_map (cg_Members g) (cg_Members g')" using assms(1) by (simp add: group_rel_def)
  have f: "same_map m m' \<Longrightarrow> same_map (fold (\<lambda>i. set_assigned (f i) (h i)) is m) (fold (\<lambda>i. set_assigned (f i) (h i)) is m')"
    for m m' f h "is" by (induction "is" arbitrary: m m') (simp_all add: same_map_set_assigned)
  show ?thesis
    using assms(1) f [OF m] unfolding rebalance_def Let_def sortedMemberIDs_def
      eligible_det [OF m assms(2,3)] same_map_sort_keys [OF m]
    by (auto simp: group_rel_def)
qed

lemma group_rel_upd:
  "group_rel g g' \<Longrightarrow> same_map x y \<Longrightarrow> group_rel (g\<lparr>cg_Members := x\<rparr>) (g'\<lparr>cg_Members := y\<rparr>)"
  "group_rel g g' \<Longrightarrow> group_rel (g\<lparr>cg_GenerationID := n\<rparr>) (g'\<lparr>cg_GenerationID := n\<rparr>)"
  "group_rel g g' \<Longrightarrow> same_map z w \<Longrightarrow> group_rel (g\<lparr>cg_CommittedOffsets := z\<rparr>) (g'\<lparr>cg_CommittedOffsets := w\<rparr>)"
  by (simp_all add: group_rel_def)

lemma group_rel_eq:
  "group_rel g g' \<Longrightarrow> cg_GenerationID g' = cg_GenerationID g"
  "group_rel g g' \<Longrightarrow> same_map (cg_Members g) (cg_Members g')"
  "group_rel g g' \<Longrightarrow> same_map (cg_CommittedOffsets g) (cg_CommittedOffsets g')"
  by (simp_all add: group_rel_def)

lemma state_rel_groups:
  "state_rel st st' \<Longrightarrow> group_rel g g' \<Longrightarrow>
   state_rel (st\<lparr>Groups := mput k g (Groups st)\<rparr>) (st'\<lparr>Groups := mput k g' (Groups st')\<rparr>)"
  "state_rel st st' \<Longrightarrow> gstate_rel h h' \<Longrightarrow>
   state_rel (st\<lparr>GroupStates := mput k h (GroupStates st)\<rparr>) (st'\<lparr>GroupStates := mput k h' (GroupStates st')\<rparr>)"
  by (simp_all add: state_rel_def map_rel_mput)

lemma state_rel_get:
  assumes "state_rel st st'"
  shows "rel_option group_rel (map_of (Groups st) k) (map_of (Groups st') k)"
    "rel_option gstate_rel (map_of (GroupStates st) k) (map_of (GroupStates st') k)"
    "same_map (Topics st) (Topics st')" "same_map (Partitions st) (Partitions st')"
  using assms by (simp_all add: state_rel_def map_rel_def)

text \<open>A rebalanced group with its generation bumped, on both sides.\<close>

lemma rebalanced_det:
  assumes "state_rel st st'" "group_rel g g'" "same_map x y"
  shows "group_rel ((rebalance (g\<lparr>cg_Members := x\<rparr>) (Topics st) (Partitions st))
      \<lparr>cg_GenerationID := int32 (cg_GenerationID (rebalance (g\<lparr>cg_Members := x\<rparr>) (Topics st) (Partitions st)) + 1)\<rparr>)
    ((rebalance (g'\<lparr>cg_Members := y\<rparr>) (Topics st') (Partitions st'))
      \<lparr>cg_GenerationID := int32 (cg_GenerationID (rebalance (g'\<lparr>cg_Members := y\<rparr>) (Topics st') (Partitions st')) + 1)\<rparr>)"
proof -
  have "group_rel (rebalance (g\<lparr>cg_Members := x\<rparr>) (Topics st) (Partitions st))
      (rebalance (g'\<lparr>cg_Members := y\<rparr>) (Topics st') (Partitions st'))"
    by (rule rebalance_det [OF group_rel_upd(1) [OF assms(2,3)] state_rel_get(3,4) [OF assms(1)]])
  then show ?thesis by (simp add: group_rel_def)
qed


lemma rel_default:
  "rel_option R x y \<Longrightarrow> R z z \<Longrightarrow> R (case x of None \<Rightarrow> z | Some g \<Rightarrow> g) (case y of None \<Rightarrow> z | Some g \<Rightarrow> g)"
  by (auto elim: option.rel_cases)

lemma group_rel_members: "group_rel g g' \<Longrightarrow> map_of (cg_Members g') = map_of (cg_Members g)"
  by (simp add: group_rel_def same_map_def)

lemma join_legacy_det:
  assumes st: "state_rel st st'" and c: "join_rel c c'" and m: "jg_Member c = None"
  shows "result_rel (applyJoinConsumerGroup c st) (applyJoinConsumerGroup c' st')"
proof -
  obtain a' where c': "c' = c\<lparr>jg_NewAssignment := a'\<rparr>" using c by (auto simp: join_rel_def)
  define z where "z = \<lparr>cg_GroupID = jg_GroupID c, cg_GenerationID = 0, cg_Members = [], cg_CommittedOffsets = []\<rparr>"
  define g where "g = (case map_of (Groups st) (jg_GroupID c) of None \<Rightarrow> z | Some g \<Rightarrow> g)"
  define g' where "g' = (case map_of (Groups st') (jg_GroupID c) of None \<Rightarrow> z | Some g \<Rightarrow> g)"
  have gg: "group_rel g g'"
    unfolding g_def g'_def by (rule rel_default [OF state_rel_get(1) [OF st]]) (simp add: z_def group_rel_def same_map_def)
  define k where "k = (if jg_MemberID c = [] then ''member-'' @ jg_ClientHost c @ ''-'' @ format_int (jg_JoinedAtMs c) else jg_MemberID c)"
  define v where "v = \<lparr>mi_MemberID = k, mi_ClientHost = jg_ClientHost c, mi_SubscribedTopics = jg_SubscribedTopics c,
    mi_AssignedPartitions = [], mi_LastHeartbeatMs = jg_JoinedAtMs c\<rparr>"
  define r where "r g st = (let h = rebalance (g\<lparr>cg_Members := mput k v (cg_Members g)\<rparr>) (Topics st) (Partitions st)
    in h\<lparr>cg_GenerationID := int32 (cg_GenerationID h + 1)\<rparr>)" for g :: ConsumerGroupMeta and st :: MetadataState
  have app: "applyJoinConsumerGroup d s = (Result ResultOK (JoinData \<lparr>jr_MemberID = k,
        jr_AssignedPartitions = (case map_of (cg_Members (r h s)) k of None \<Rightarrow> [] | Some m \<Rightarrow> mi_AssignedPartitions m),
        jr_GenerationID = cg_GenerationID (r h s)\<rparr>),
      s\<lparr>Groups := mput (jg_GroupID c) (r h s) (Groups s)\<rparr>)"
    if "d = c \<or> d = c'" "h = (case map_of (Groups s) (jg_GroupID c) of None \<Rightarrow> z | Some g \<Rightarrow> g)" for d s h
  proof -
    have "jg_Member d = None" "jg_GroupID d = jg_GroupID c" "jg_MemberID d = jg_MemberID c" "jg_ClientHost d = jg_ClientHost c"
      "jg_JoinedAtMs d = jg_JoinedAtMs c" "jg_SubscribedTopics d = jg_SubscribedTopics c"
      using that(1) m c' by auto
    then show ?thesis
      unfolding that(2) by (simp only: applyJoinConsumerGroup_def option.case Let_def r_def v_def k_def z_def)
  qed
  have "group_rel (r g st) (r g' st')"
    unfolding r_def Let_def by (rule rebalanced_det [OF st gg same_map_mput [OF group_rel_eq(2) [OF gg]]])
  then show ?thesis
    using app [of c g st] app [of c' g' st'] state_rel_groups(1) [OF st]
    by (simp add: result_rel_def g_def g'_def group_rel_members group_rel_eq(1))
qed

lemma join_state_det:
  assumes st: "state_rel st st'" and c: "join_rel c c'"
  shows "result_rel (applyGroupStateJoin c m st) (applyGroupStateJoin c' m st')"
proof -
  obtain a' where c': "c' = c\<lparr>jg_NewAssignment := a'\<rparr>" "rel_option same_map (jg_NewAssignment c) a'"
    using c by (auto simp: join_rel_def)
  define z where "z = \<lparr>gs_GroupID = jg_GroupID c, gs_Members = [], gs_GenerationID = 0, gs_Assignments = [], gs_Offsets = []\<rparr>"
  define g where "g = (case map_of (GroupStates st) (jg_GroupID c) of None \<Rightarrow> z | Some g \<Rightarrow> g)"
  define g' where "g' = (case map_of (GroupStates st') (jg_GroupID c) of None \<Rightarrow> z | Some g \<Rightarrow> g)"
  have gg: "gstate_rel g g'"
    unfolding g_def g'_def by (rule rel_default [OF state_rel_get(2) [OF st]]) (simp add: z_def gstate_rel_def same_map_def)
  define F where "F a g = (let g = g\<lparr>gs_Members := mput (jg_MemberID c) m (gs_Members g)\<rparr>;
      g = (case a of None \<Rightarrow> g | Some a \<Rightarrow> g\<lparr>gs_Assignments := a\<rparr>)
    in g\<lparr>gs_GenerationID := int32 (gs_GenerationID g + 1)\<rparr>)" for a and g :: GroupState
  have app: "applyGroupStateJoin c m st = (OKResult, st\<lparr>GroupStates := mput (jg_GroupID c) (F (jg_NewAssignment c) g) (GroupStates st)\<rparr>)"
    "applyGroupStateJoin c' m st' = (OKResult, st'\<lparr>GroupStates := mput (jg_GroupID c) (F a' g') (GroupStates st')\<rparr>)"
    by (simp_all add: applyGroupStateJoin_def c'(1) Let_def F_def g_def g'_def z_def split: option.split)
  have "gstate_rel (F (jg_NewAssignment c) g) (F a' g')"
    using gg c'(2) by (auto simp: F_def gstate_rel_def same_map_mput elim: option.rel_cases)
  then show ?thesis using app state_rel_groups(2) [OF st] by (simp add: result_rel_def)
qed

lemma join_det:
  assumes st: "state_rel st st'" and c: "join_rel c c'"
  shows "result_rel (applyJoinConsumerGroup c st) (applyJoinConsumerGroup c' st')"
proof (cases "jg_Member c")
  case None
  then show ?thesis by (rule join_legacy_det [OF assms])
next
  case (Some m)
  obtain a' where "c' = c\<lparr>jg_NewAssignment := a'\<rparr>" using c by (auto simp: join_rel_def)
  then show ?thesis using Some join_state_det [OF assms, of m] by (simp add: applyJoinConsumerGroup_def)
qed

lemma gstate_rel_members: "gstate_rel g g' \<Longrightarrow> map_of (gs_Members g') = map_of (gs_Members g)"
  by (simp add: gstate_rel_def same_map_def)

lemma leave_state_det:
  assumes st: "state_rel st st'" and c: "leave_rel c c'"
  shows "result_rel (applyGroupStateLeave c st) (applyGroupStateLeave c' st')"
proof -
  obtain a' where c': "c' = c\<lparr>lg_NewAssignment := a'\<rparr>" "rel_option same_map (lg_NewAssignment c) a'"
    using c by (auto simp: leave_rel_def)
  define F where "F a g = (let g = g\<lparr>gs_Members := mdel (lg_MemberID c) (gs_Members g)\<rparr>;
      g = (case a of Some a \<Rightarrow> g\<lparr>gs_Assignments := a\<rparr> | None \<Rightarrow> g\<lparr>gs_Assignments := []\<rparr>);
      g = g\<lparr>gs_GenerationID := int32 (gs_GenerationID g + 1)\<rparr>
    in if length (gs_Members g) = 0 then g\<lparr>gs_Assignments := []\<rparr> else g)" for a and g :: GroupState
  show ?thesis
  proof (cases "map_of (GroupStates st) (lg_GroupID c)")
    case None
    then have "map_of (GroupStates st') (lg_GroupID c) = None"
      using state_rel_get(2) [OF st, of "lg_GroupID c"] by simp
    with None st show ?thesis by (simp add: applyGroupStateLeave_def c'(1) result_rel_def)
  next
    case (Some g)
    then obtain g' where g': "map_of (GroupStates st') (lg_GroupID c) = Some g'" and gg: "gstate_rel g g'"
      using state_rel_get(2) [OF st, of "lg_GroupID c"] by (auto elim: option.rel_cases)
    have "same_map (mdel (lg_MemberID c) (gs_Members g)) (mdel (lg_MemberID c) (gs_Members g'))"
      using gg by (simp add: gstate_rel_def same_map_mdel)
    from same_map_length [OF this] this have "gstate_rel (F (lg_NewAssignment c) g) (F a' g')"
      using gg c'(2) by (auto simp: F_def Let_def gstate_rel_def same_map_refl elim: option.rel_cases)
    moreover have "applyGroupStateLeave d s =
        (if map_of (gs_Members h) (lg_MemberID c) = None then (ErrorResult ResultErrNotFound ''member not found'', s)
         else (OKResult, s\<lparr>GroupStates := mput (lg_GroupID c) (F (lg_NewAssignment d) h) (GroupStates s)\<rparr>))"
      if "d = c \<or> d = c'" "map_of (GroupStates s) (lg_GroupID c) = Some h" for d s h
      using that by (auto simp: applyGroupStateLeave_def c'(1) F_def Let_def)
    ultimately show ?thesis
      using Some g' state_rel_groups(2) [OF st] st by (simp add: result_rel_def gstate_rel_members [OF gg] c'(1))
  qed
qed

lemma leave_det:
  assumes st: "state_rel st st'" and c: "leave_rel c c'"
  shows "result_rel (applyLeaveConsumerGroup c st) (applyLeaveConsumerGroup c' st')"
proof -
  obtain a' where c': "c' = c\<lparr>lg_NewAssignment := a'\<rparr>" using c by (auto simp: leave_rel_def)
  have gs: "(map_of (GroupStates st') (lg_GroupID c) = None) = (map_of (GroupStates st) (lg_GroupID c) = None)"
    using state_rel_get(2) [OF st, of "lg_GroupID c"] by (auto elim: option.rel_cases)
  define r where "r g st = (let h = rebalance (g\<lparr>cg_Members := mdel (lg_MemberID c) (cg_Members g)\<rparr>) (Topics st) (Partitions st)
    in h\<lparr>cg_GenerationID := int32 (cg_GenerationID h + 1)\<rparr>)" for g :: ConsumerGroupMeta and st :: MetadataState
  show ?thesis
  proof (cases "map_of (GroupStates st) (lg_GroupID c) \<noteq> None")
    case True
    then show ?thesis using leave_state_det [OF assms] gs by (simp add: applyLeaveConsumerGroup_def c')
  next
    case False
    have app: "applyLeaveConsumerGroup d s =
        (case map_of (Groups s) (lg_GroupID c) of None \<Rightarrow> (ErrorResult ResultErrNotFound ''group not found'', s)
         | Some h \<Rightarrow> if map_of (cg_Members h) (lg_MemberID c) = None then (ErrorResult ResultErrNotFound ''member not found'', s)
           else (OKResult, s\<lparr>Groups := mput (lg_GroupID c) (r h s) (Groups s)\<rparr>))"
      if "d = c \<or> d = c'" "map_of (GroupStates s) (lg_GroupID c) = None" for d s
      using that by (auto simp: applyLeaveConsumerGroup_def c' r_def Let_def split: option.split)
    show ?thesis
    proof (cases "map_of (Groups st) (lg_GroupID c)")
      case None
      then have "map_of (Groups st') (lg_GroupID c) = None" using state_rel_get(1) [OF st, of "lg_GroupID c"] by simp
      with None False gs st show ?thesis by (simp add: app result_rel_def)
    next
      case (Some g)
      then obtain g' where g': "map_of (Groups st') (lg_GroupID c) = Some g'" and gg: "group_rel g g'"
        using state_rel_get(1) [OF st, of "lg_GroupID c"] by (auto elim: option.rel_cases)
      have "group_rel (r g st) (r g' st')"
        unfolding r_def Let_def by (rule rebalanced_det [OF st gg same_map_mdel [OF group_rel_eq(2) [OF gg]]])
      with Some g' False gs st show ?thesis
        using state_rel_groups(1) [OF st] by (simp add: app result_rel_def group_rel_members [OF gg])
    qed
  qed
qed


lemma heartbeat_det:
  assumes st: "state_rel st st'"
  shows "result_rel (applyHeartbeatConsumerGroup c st) (applyHeartbeatConsumerGroup c st')"
proof (cases "map_of (Groups st) (hb_GroupID c)")
  case None
  then have "map_of (Groups st') (hb_GroupID c) = None" using state_rel_get(1) [OF st, of "hb_GroupID c"] by simp
  with None st show ?thesis by (simp add: applyHeartbeatConsumerGroup_def result_rel_def)
next
  case (Some g)
  then obtain g' where g': "map_of (Groups st') (hb_GroupID c) = Some g'" and gg: "group_rel g g'"
    using state_rel_get(1) [OF st, of "hb_GroupID c"] by (auto elim: option.rel_cases)
  have "group_rel (g\<lparr>cg_Members := mput k v (cg_Members g)\<rparr>) (g'\<lparr>cg_Members := mput k v (cg_Members g')\<rparr>)" for k v
    by (rule group_rel_upd(1) [OF gg same_map_mput [OF group_rel_eq(2) [OF gg]]])
  with Some g' st show ?thesis
    using state_rel_groups(1) [OF st] group_rel_eq(1) [OF gg]
    by (simp add: applyHeartbeatConsumerGroup_def Let_def result_rel_def group_rel_members [OF gg] split: option.split)
qed

lemma commit_det:
  assumes st: "state_rel st st'" and c: "commit_rel c c'"
  shows "result_rel (applyCommitConsumerOffset c st) (applyCommitConsumerOffset c' st')"
proof -
  obtain a' where c': "c' = c\<lparr>cc_GroupOffsets := a'\<rparr>" "rel_option same_map (cc_GroupOffsets c) a'"
    using c by (auto simp: commit_rel_def)
  show ?thesis
  proof (cases "cc_GroupOffsets c")
    case None
    then have "a' = None" using c'(2) by simp
    then show ?thesis
      using None c'(1) st state_rel_get(1) [OF st, of "cc_GroupID c"] state_rel_groups(1) [OF st]
      by (auto simp: applyCommitConsumerOffset_def result_rel_def group_rel_def same_map_fold_mput
          elim!: option.rel_cases)
  next
    case (Some offs)
    then obtain offs' where o: "a' = Some offs'" "same_map offs offs'" using c'(2) by (auto elim: option.rel_cases)
    then show ?thesis
      using Some c'(1) st state_rel_get(2) [OF st, of "cc_GroupID c"] state_rel_groups(2) [OF st]
      by (auto simp: applyCommitConsumerOffset_def applyGroupStateCommitOffset_def result_rel_def gstate_rel_def
          same_map_put_offsets [OF o(2)] elim!: option.rel_cases)
  qed
qed

lemma rebalance_cmd_det:
  assumes st: "state_rel st st'"
  shows "result_rel (applyRebalanceConsumerGroup c st) (applyRebalanceConsumerGroup c st')"
proof (cases "map_of (Groups st) (rb_GroupID c)")
  case None
  then have "map_of (Groups st') (rb_GroupID c) = None" using state_rel_get(1) [OF st, of "rb_GroupID c"] by simp
  with None st show ?thesis by (simp add: applyRebalanceConsumerGroup_def result_rel_def)
next
  case (Some g)
  then obtain g' where g': "map_of (Groups st') (rb_GroupID c) = Some g'" and gg: "group_rel g g'"
    using state_rel_get(1) [OF st, of "rb_GroupID c"] by (auto elim: option.rel_cases)
  have "same_map (fold mdel (rb_ExpiredMemberIDs c) (cg_Members g)) (fold mdel (rb_ExpiredMemberIDs c) (cg_Members g'))"
    by (rule same_map_fold_mdel' [OF group_rel_eq(2) [OF gg]])
  from rebalanced_det [OF st gg this] Some g' show ?thesis
    using state_rel_groups(1) [OF st] by (simp add: applyRebalanceConsumerGroup_def Let_def result_rel_def)
qed

section \<open>Determinism\<close>

definition outcome_rel :: "go_error + (Result \<times> MetadataState) \<Rightarrow> go_error + (Result \<times> MetadataState) \<Rightarrow> bool" where
  "outcome_rel = rel_sum (=) result_rel"

lemma deref_det:
  assumes "rel_option R c c'" "\<And>x x'. R x x' \<Longrightarrow> result_rel (f x st) (f x' st')"
  shows "outcome_rel (deref c f st) (deref c' f st')"
  using assms by (auto simp: outcome_rel_def deref_def elim!: option.rel_cases)

lemma cmd_rel_cases:
  assumes "cmd_rel c c'"
  obtains a a' where "c = CmdJoinConsumerGroup a" "c' = CmdJoinConsumerGroup a'" "rel_option join_rel a a'"
  | a a' where "c = CmdLeaveConsumerGroup a" "c' = CmdLeaveConsumerGroup a'" "rel_option leave_rel a a'"
  | a a' where "c = CmdCommitConsumerOffset a" "c' = CmdCommitConsumerOffset a'" "rel_option commit_rel a a'"
  | "c' = c" "\<And>a. c \<noteq> CmdJoinConsumerGroup a" "\<And>a. c \<noteq> CmdLeaveConsumerGroup a" "\<And>a. c \<noteq> CmdCommitConsumerOffset a"
  using assms by (cases c; cases c') auto

lemma deref_same:
  "(\<And>x. result_rel (f x st) (f x st')) \<Longrightarrow> outcome_rel (deref p f st) (deref p f st')"
  by (rule deref_det [of "(=)"]) (auto simp: option.rel_eq)

lemma outcome_same: "state_rel st st' \<Longrightarrow> outcome_rel (Inr (r, st)) (Inr (r, st'))"
  by (simp add: outcome_rel_def result_rel_def)

lemma applyCommand_det:
  assumes st: "state_rel st st'" and c: "cmd_rel c c'"
  shows "outcome_rel (applyCommand c st) (applyCommand c' st')"
  using c
proof (cases rule: cmd_rel_cases)
  case 4
  then show ?thesis
    using st by (cases c) (auto intro!: deref_same create_det [OF st] delete_det [OF st] alter_det [OF st]
        retention_det [OF st] register_det [OF st] leader_det [OF st] heartbeat_det [OF st] rebalance_cmd_det [OF st]
        outcome_same)
qed (auto intro: deref_det [OF _ join_det [OF st]] deref_det [OF _ leave_det [OF st]] deref_det [OF _ commit_det [OF st]])

definition entry_rel :: "MetadataCommand option \<Rightarrow> MetadataCommand option \<Rightarrow> bool" where
  "entry_rel = rel_option cmd_rel"

lemma Update_det:
  assumes "state_rel st st'" "entry_rel e e'"
  shows "outcome_rel (MetadataFSM_Update e st) (MetadataFSM_Update e' st')"
  using assms applyCommand_det [OF assms(1)]
  by (auto simp: MetadataFSM_Update_def entry_rel_def outcome_rel_def result_rel_def elim!: option.rel_cases)

lemma meta_run_det:
  assumes "state_rel st st'" "list_all2 entry_rel es es'"
  shows "rel_sum (=) state_rel (meta_run es st) (meta_run es' st')"
  using assms(2,1)
proof (induction es es' arbitrary: st st' rule: list_all2_induct)
  case (Cons e es e' es')
  have "outcome_rel (MetadataFSM_Update e st) (MetadataFSM_Update e' st')" by (rule Update_det [OF Cons.prems Cons.hyps(1)])
  then show ?case
    using Cons.IH by (cases "MetadataFSM_Update e st"; cases "MetadataFSM_Update e' st'")
      (auto simp: outcome_rel_def result_rel_def split: prod.splits)
qed simp

text \<open>Two replicas that agree answer the list queries in the same order.\<close>

lemma map_vals_keys:
  assumes "map_ok m" "\<And>k v. map_of m k = Some v \<Longrightarrow> f v = k"
  shows "map f (mvals m) = mkeys m"
  using assms by (auto simp: mvals_def mkeys_def map_ok_def)

lemma list_queries_det:
  assumes st: "state_rel st st'" and inv: "topics_inv n st"
  shows "MetadataFSM_Lookup (query0 QueryListTopics) st = MetadataFSM_Lookup (query0 QueryListTopics) st'"
    "MetadataFSM_Lookup (query0 QueryListNodes) st = MetadataFSM_Lookup (query0 QueryListNodes) st'"
proof -
  note D = topics_invD [OF inv]
  have "distinct (map tm_Name (mvals (Topics st)))" "distinct (map ni_NodeID (mvals (Nodes st)))"
    using map_vals_keys [of "Topics st" tm_Name] map_vals_keys [of "Nodes st" ni_NodeID] D(1,3,6,10) distinct_mkeys
    by metis+
  then show "MetadataFSM_Lookup (query0 QueryListTopics) st = MetadataFSM_Lookup (query0 QueryListTopics) st'"
    "MetadataFSM_Lookup (query0 QueryListNodes) st = MetadataFSM_Lookup (query0 QueryListNodes) st'"
    using state_rel_maps(4,6) [OF st] same_map_sort_vals
    by (simp_all add: MetadataFSM_Lookup_def query0_def) blast+
qed

end
