(* ===== verification/PropsMeta.thy ===== *)
theory PropsMeta
  imports MetaDet
begin

text \<open>
  The properties of the metadata state machine: its invariant along any run, the order of leader
  epochs, agreement of replicas, the rebalancing, committed offsets and the text form of keys.
\<close>

definition demo_create :: MetadataCommand where
  "demo_create = CmdCreateTopic (Some \<lparr>ct_Name = ''a'', ct_PartitionCount = 2, ct_ReplicationFactor = 1,
     ct_RetentionMs = 0, ct_RetentionBytes = - 1, ct_CreatedAtMs = 7, ct_ReplicaNodeIDs = [[1], [2]]\<rparr>)"

definition demo_leader :: "int \<Rightarrow> MetadataCommand" where
  "demo_leader epoch = CmdAssignPartitionLeader (Some \<lparr>al_Topic = ''a'', al_PartitionID = 1,
     al_LeaderNodeID = 2, al_LeaderEpoch = epoch\<rparr>)"

definition demo_join :: "string \<Rightarrow> MetadataCommand" where
  "demo_join m = CmdJoinConsumerGroup (Some \<lparr>jg_GroupID = ''g'', jg_MemberID = m, jg_ClientHost = ''h'',
     jg_SubscribedTopics = [''a''], jg_JoinedAtMs = 1, jg_Member = None, jg_NewAssignment = None\<rparr>)"

text \<open>
  C8. The invariant of the topic tables.  Fewer than 2 to the 32 well-formed entries, applied to
  the initial state, never panic; afterwards the partitions of a topic are exactly the numbers
  below its partition count, and different partitions have different shard numbers, all between 1
  and the next free one, which has not wrapped around.
\<close>

theorem metadata_invariant:
  assumes "list_all entry_ok es" "length es < 2 ^ 32"
  shows "\<exists>st. meta_run es NewMetadataFSM = Inr st \<and>
    (\<forall>name i. map_of (Partitions st) (PartitionKey name i) \<noteq> None \<longleftrightarrow>
       (\<exists>t. map_of (Topics st) name = Some t \<and> 0 \<le> i \<and> i < tm_PartitionCount t)) \<and>
    (\<forall>k p. map_of (Partitions st) k = Some p \<longrightarrow> pm_Topic p = pk_Topic k \<and> pm_PartitionID p = pk_PartitionID k \<and>
       1 \<le> pm_ShardID p \<and> pm_ShardID p < NextShardID st) \<and>
    (\<forall>k k' p p'. map_of (Partitions st) k = Some p \<longrightarrow> map_of (Partitions st) k' = Some p' \<longrightarrow>
       pm_ShardID p = pm_ShardID p' \<longrightarrow> k = k') \<and>
    NextShardID st \<le> 2 ^ 63"
proof -
  obtain st where st: "meta_run es NewMetadataFSM = Inr st" "topics_inv (length es) st"
    using meta_run_inv [OF topics_inv_New, of es] assms by auto
  note D = topics_invD [OF st(2)]
  have "int (length es) * 2 ^ 31 \<le> (2 ^ 32 - 1) * 2 ^ 31" using assms(2) by simp
  then have "NextShardID st \<le> 2 ^ 63" using D(5) by simp
  with st(1) D(7-9) show ?thesis by blast
qed

theorem metadata_invariant_witness:
  "\<exists>st. meta_run [Some demo_create, None, Some (demo_leader 3)] NewMetadataFSM = Inr st \<and>
    (\<forall>name i. map_of (Partitions st) (PartitionKey name i) \<noteq> None \<longleftrightarrow>
       (\<exists>t. map_of (Topics st) name = Some t \<and> 0 \<le> i \<and> i < tm_PartitionCount t)) \<and> NextShardID st \<le> 2 ^ 63"
  using metadata_invariant [of "[Some demo_create, None, Some (demo_leader 3)]"]
  by (auto simp: entry_ok_def demo_create_def demo_leader_def in_int32_def)

text \<open>
  C29. Leader epochs never go back.  Between two points of a run, a shard keeps its topic, its
  partition number and its replicas, its leader epoch does not decrease, and its leader changes
  only together with a strictly larger epoch.  A shard number that is gone never comes back.
\<close>

theorem leader_epochs_grow:
  assumes "list_all entry_ok (es @ es')" "length (es @ es') < 2 ^ 32"
    and "meta_run es NewMetadataFSM = Inr st" "meta_run es' st = Inr st'"
    and "map_of (Partitions st) k = Some p" "map_of (Partitions st') k' = Some p'" "pm_ShardID p = pm_ShardID p'"
  shows "k' = k \<and> pm_ReplicaNodeIDs p' = pm_ReplicaNodeIDs p \<and> pm_LeaderEpoch p \<le> pm_LeaderEpoch p' \<and>
    (pm_LeaderNodeID p' \<noteq> pm_LeaderNodeID p \<longrightarrow> pm_LeaderEpoch p < pm_LeaderEpoch p')"
proof -
  have inv: "topics_inv (length es) st"
    using meta_run_inv [OF topics_inv_New, of es] assms(1-3) by auto
  have "evolves st st'" by (rule meta_run_evolves [OF inv _ _ assms(4)]) (use assms(1,2) in auto)
  from same_shard_evolves [OF inv this assms(5-7)] show ?thesis .
qed

definition demo_meta :: MetadataState where
  "demo_meta = (case meta_run [Some demo_create] NewMetadataFSM of Inr st \<Rightarrow> st | Inl _ \<Rightarrow> NewMetadataFSM)"

definition demo_meta' :: MetadataState where
  "demo_meta' = (case meta_run [Some (demo_leader 3)] demo_meta of Inr st \<Rightarrow> st | Inl _ \<Rightarrow> demo_meta)"

lemma demo_meta_run: "meta_run [Some demo_create] NewMetadataFSM = Inr demo_meta"
  "meta_run [Some (demo_leader 3)] demo_meta = Inr demo_meta'"
  by (simp_all add: demo_meta_def demo_meta'_def demo_create_def demo_leader_def MetadataFSM_Update_def deref_def
      split: prod.split)

lemma demo_meta_parts:
  "map_of (Partitions demo_meta) (PartitionKey ''a'' 1) = Some \<lparr>pm_Topic = ''a'', pm_PartitionID = 1, pm_ShardID = 2,
     pm_ReplicaNodeIDs = [2], pm_LeaderNodeID = 0, pm_LeaderEpoch = 0\<rparr>"
  "map_of (Partitions demo_meta') (PartitionKey ''a'' 1) = Some \<lparr>pm_Topic = ''a'', pm_PartitionID = 1, pm_ShardID = 2,
     pm_ReplicaNodeIDs = [2], pm_LeaderNodeID = 2, pm_LeaderEpoch = 3\<rparr>"
  by code_simp+

theorem leader_epochs_grow_witness:
  "\<exists>p p'. map_of (Partitions demo_meta) (PartitionKey ''a'' 1) = Some p \<and>
    map_of (Partitions demo_meta') (PartitionKey ''a'' 1) = Some p' \<and> pm_LeaderEpoch p < pm_LeaderEpoch p'"
  using leader_epochs_grow [of "[Some demo_create]" "[Some (demo_leader 3)]", OF _ _ demo_meta_run demo_meta_parts]
  by (simp add: demo_meta_parts entry_ok_def demo_create_def demo_leader_def in_int32_def)

text \<open>
  C9. Replicas agree.  Two replicas whose maps are equal, whatever order their entries have, and
  that apply the same entries, whatever order the maps inside the commands decode to, return equal
  results for the next entry and stay equal; or both panic in the same way.
\<close>

theorem replicas_agree:
  assumes "state_rel st st'" "list_all2 entry_rel es es'" "entry_rel e e'"
    and "meta_run es st = Inr st1" "meta_run es' st' = Inr st1'"
  shows "rel_sum (=) (\<lambda>x y. fst x = fst y \<and> state_rel (snd x) (snd y)) (MetadataFSM_Update e st1) (MetadataFSM_Update e' st1')"
proof -
  have "state_rel st1 st1'" using meta_run_det [OF assms(1,2)] assms(4,5) by simp
  from Update_det [OF this assms(3)] show ?thesis
    by (simp add: outcome_rel_def result_rel_def [abs_def])
qed

theorem replicas_agree_witness:
  "rel_sum (=) (\<lambda>x y. fst x = fst y \<and> state_rel (snd x) (snd y))
     (MetadataFSM_Update (Some (demo_join ''m'')) demo_meta) (MetadataFSM_Update (Some (demo_join ''m'')) demo_meta)"
  by (rule replicas_agree [of NewMetadataFSM NewMetadataFSM "[Some demo_create]" "[Some demo_create]", OF _ _ _ demo_meta_run(1) demo_meta_run(1)])
    (simp_all add: state_rel_def NewMetadataFSM_def same_map_def map_rel_def entry_rel_def demo_create_def demo_join_def
      join_rel_def)


definition demo_members :: "(string, MemberInfo) gomap" where
  "demo_members = map (\<lambda>m. (m, \<lparr>mi_MemberID = m, mi_ClientHost = ''h'', mi_SubscribedTopics = [''a''],
     mi_AssignedPartitions = [], mi_LastHeartbeatMs = 0\<rparr>)) [''y'', ''x'']"

definition demo_group :: ConsumerGroupMeta where
  "demo_group = \<lparr>cg_GroupID = ''g'', cg_GenerationID = 0, cg_Members = demo_members, cg_CommittedOffsets = []\<rparr>"


text \<open>
  Committed offsets can be read back.  After a commit to an existing group, the offset query
  returns the committed value for every partition of the commit, the earlier value for the others,
  and -1 where nothing was ever committed; it answers for exactly the partitions asked for.
\<close>

theorem commit_then_fetch:
  assumes "map_of (GroupStates st) grp = Some g" "map_ok offs"
  shows "\<exists>st'. applyCommand (CmdCommitConsumerOffset (Some \<lparr>cc_GroupID = grp, cc_Offsets = [], cc_GroupOffsets = Some offs\<rparr>)) st =
      Inr (OKResult, st') \<and>
    (\<forall>ps tp. map_of (lookupGroupOffsets st' grp ps) tp =
       (if tp \<in> set ps then
          Some (case map_of offs tp of Some off \<Rightarrow> off
                | None \<Rightarrow> (case map_of (gs_Offsets g) tp of Some off \<Rightarrow> off | None \<Rightarrow> - 1))
        else None))"
  using assms
  by (auto simp: deref_def applyCommitConsumerOffset_def applyGroupStateCommitOffset_def lookupGroupOffsets_get
      fold_put_offsets map_of_rev map_add_def split: option.split)

definition demo_gstate :: GroupState where
  "demo_gstate = \<lparr>gs_GroupID = ''g'', gs_Members = [], gs_GenerationID = 4, gs_Assignments = [],
     gs_Offsets = [(TopicPartition ''a'' 1, 8)]\<rparr>"

theorem commit_then_fetch_witness:
  "\<exists>st'. applyCommand (CmdCommitConsumerOffset (Some \<lparr>cc_GroupID = ''g'', cc_Offsets = [],
       cc_GroupOffsets = Some [(TopicPartition ''a'' 0, 5)]\<rparr>)) (demo_meta\<lparr>GroupStates := [(''g'', demo_gstate)]\<rparr>) =
      Inr (OKResult, st') \<and>
    map_of (lookupGroupOffsets st' ''g'' [TopicPartition ''a'' 0, TopicPartition ''a'' 1]) (TopicPartition ''a'' 0) = Some 5 \<and>
    map_of (lookupGroupOffsets st' ''g'' [TopicPartition ''a'' 0, TopicPartition ''a'' 1]) (TopicPartition ''a'' 1) = Some 8"
  using commit_then_fetch [of "demo_meta\<lparr>GroupStates := [(''g'', demo_gstate)]\<rparr>" "''g''" demo_gstate "[(TopicPartition ''a'' 0, 5)]"]
  by (auto simp: demo_gstate_def map_ok_def)

text \<open>
  Map keys survive the snapshot.  The text form of a partition key or topic partition parses
  back to the key, for every topic name, also one that contains the separator byte.
\<close>

theorem key_text_roundtrip:
  assumes "in_int32 i"
  shows "PartitionKey_UnmarshalText (PartitionKey_MarshalText (PartitionKey t i)) = Inr (PartitionKey t i) \<and>
    TopicPartition_UnmarshalText (TopicPartition_MarshalText (TopicPartition t i)) = Inr (TopicPartition t i)"
  using assms PartitionKey_text [of "PartitionKey t i"] TopicPartition_text [of "TopicPartition t i"] by simp

theorem key_text_roundtrip_witness:
  "PartitionKey_UnmarshalText (PartitionKey_MarshalText (PartitionKey [CHR 0x00, CHR ''7''] 12)) =
    Inr (PartitionKey [CHR 0x00, CHR ''7''] 12)"
  using key_text_roundtrip [of 12 "[CHR 0x00, CHR ''7'']"] by (simp add: in_int32_def)

end
