(* ===== verification/Host.thy ===== *)
theory Host
  imports MetaInv Partition
begin

text \<open>
  The raft host (\<open>internal/raft/host.go\<close>) as the coordinators see it.  Consensus itself is the
  dragonboat library; a host is a record of the operations of \<open>nodeHostIface\<close> and
  \<open>raftHostIface\<close> on an arbitrary environment state, and \<open>meta_host\<close> states what the
  coordinators rely on: a successful proposal is applied to the replicated state after some
  commands of other nodes, and a lookup reads the local replica at some later point.  Two hosts
  built from the metadata state machine meet this contract: \<open>local_host\<close>, where no other node is
  active, and \<open>sim_host\<close>, which follows a schedule of foreign commands and failures.
\<close>

section \<open>Shard configuration and timeouts\<close>

record DbConfig =
  ReplicaID :: int
  db_ShardID :: int
  ElectionRTT :: int
  HeartbeatRTT :: int
  CheckQuorum :: bool
  MaxInMemLogSize :: int
  SnapshotEntries :: int
  CompactionOverhead :: int

definition metadataShardID :: int where
  "metadataShardID = 0"

definition defaultProposeTimeout :: int where
  "defaultProposeTimeout = 5 * 1000000000"

definition shardConfig :: "int \<Rightarrow> int \<Rightarrow> DbConfig" where
  "shardConfig nodeID shardID =
     \<lparr>ReplicaID = nodeID, db_ShardID = shardID, ElectionRTT = 10, HeartbeatRTT = 1, CheckQuorum = True,
      MaxInMemLogSize = 32 * 2 ^ 20, SnapshotEntries = 2 ^ 62, CompactionOverhead = 2 ^ 62\<rparr>"

text \<open>The deadline of the context, if it has one, and the current time, in nanoseconds.\<close>

definition proposeTimeout :: "int option \<Rightarrow> int \<Rightarrow> int" where
  "proposeTimeout deadline now =
     (case deadline of
        None \<Rightarrow> defaultProposeTimeout
      | Some d \<Rightarrow> if d - now > 0 then d - now else 1000000)"

section \<open>The wire form of a command\<close>

text \<open>
  \<open>SyncProposeMetadata\<close> encodes the command as JSON and \<open>Update\<close> decodes it.  What arrives is the
  command, except that an empty map in a field marked \<open>omitempty\<close> arrives as nil.
\<close>

definition omitempty :: "('k, 'v) gomap option \<Rightarrow> ('k, 'v) gomap option" where
  "omitempty x = (if x = Some [] then None else x)"

fun wire :: "MetadataCommand \<Rightarrow> MetadataCommand" where
  "wire (CmdJoinConsumerGroup (Some c)) =
     CmdJoinConsumerGroup (Some (c\<lparr>jg_NewAssignment := omitempty (jg_NewAssignment c)\<rparr>))"
| "wire (CmdLeaveConsumerGroup (Some c)) =
     CmdLeaveConsumerGroup (Some (c\<lparr>lg_NewAssignment := omitempty (lg_NewAssignment c)\<rparr>))"
| "wire (CmdCommitConsumerOffset (Some c)) =
     CmdCommitConsumerOffset (Some (c\<lparr>cc_GroupOffsets := omitempty (cc_GroupOffsets c)\<rparr>))"
| "wire c = c"

section \<open>The interface\<close>

record 'h host =
  SyncProposeMetadata :: "MetadataCommand \<Rightarrow> 'h \<Rightarrow> (go_error + Result) \<times> 'h"
  LookupMetadata :: "MetadataQuery \<Rightarrow> 'h \<Rightarrow> (go_error + MetadataAnswer) \<times> 'h"
  GetLeaderID :: "int \<Rightarrow> 'h \<Rightarrow> go_error + (int \<times> int \<times> bool)"
  LiveMembers :: "string \<Rightarrow> 'h \<Rightarrow> (string, MemberState) gomap"

text \<open>
  \<open>LiveMembers\<close> is not an operation of the interface.  The struct copy that a group lookup returns
  shares the members map with the state machine, so a later read of it sees the members as they
  are then; the field gives the contents of the map of a group at that moment.
\<close>

text \<open>The panic of a failed type assertion on an answer.\<close>

abbreviation bad_type :: go_error where
  "bad_type \<equiv> GoPanic ''interface conversion''"

text \<open>One command of another node; a replica that panics on it is gone.\<close>

definition apply1 :: "MetadataCommand \<Rightarrow> MetadataState \<Rightarrow> MetadataState" where
  "apply1 c st = (case applyCommand c st of Inr (r, st') \<Rightarrow> st' | Inl e \<Rightarrow> st)"

definition apply_all :: "MetadataCommand list \<Rightarrow> MetadataState \<Rightarrow> MetadataState" where
  "apply_all cs st = fold apply1 cs st"

definition members_of :: "string \<Rightarrow> MetadataState \<Rightarrow> (string, MemberState) gomap" where
  "members_of grp st = (case map_of (GroupStates st) grp of None \<Rightarrow> [] | Some g \<Rightarrow> gs_Members g)"

locale meta_host =
  fixes host :: "'h host"
    and meta :: "'h \<Rightarrow> MetadataState"
  assumes lookup_env: "LookupMetadata host q h = (x, h') \<Longrightarrow> \<exists>cs. meta h' = apply_all cs (meta h)"
    and lookup_answer: "LookupMetadata host q h = (Inr a, h') \<Longrightarrow> MetadataFSM_Lookup q (meta h') = Inr a"
    and propose_env: "SyncProposeMetadata host c h = (Inl e, h') \<Longrightarrow> \<exists>cs. meta h' = apply_all cs (meta h)"
    and propose_result: "SyncProposeMetadata host c h = (Inr r, h') \<Longrightarrow>
      \<exists>cs. applyCommand (wire c) (apply_all cs (meta h)) = Inr (r, meta h')"
    and live_members: "LiveMembers host grp h = members_of grp (meta h)"

section \<open>A host without other nodes\<close>

definition local_propose :: "MetadataCommand \<Rightarrow> MetadataState \<Rightarrow> (go_error + Result) \<times> MetadataState" where
  "local_propose c st = (case applyCommand (wire c) st of Inl e \<Rightarrow> (Inl e, st) | Inr (r, st') \<Rightarrow> (Inr r, st'))"

definition local_host :: "(int \<Rightarrow> go_error + (int \<times> int \<times> bool)) \<Rightarrow> MetadataState host" where
  "local_host leader =
     \<lparr>SyncProposeMetadata = local_propose,
      LookupMetadata = (\<lambda>q st. (MetadataFSM_Lookup q st, st)),
      GetLeaderID = (\<lambda>shard st. leader shard),
      LiveMembers = members_of\<rparr>"

lemma apply_all_simps [simp]:
  "apply_all [] st = st" "apply_all (c # cs) st = apply_all cs (apply1 c st)"
  "apply_all (cs @ ds) st = apply_all ds (apply_all cs st)"
  by (simp_all add: apply_all_def)

interpretation lh: meta_host "local_host leader" "\<lambda>st. st" for leader
proof (unfold_locales, goal_cases)
  case (1 q h r h')
  then show ?case by (intro exI [of _ "[]"]) (simp add: local_host_def)
next
  case (3 c h e h')
  then show ?case
    by (intro exI [of _ "[]"]) (auto simp: local_host_def local_propose_def split: sum.splits prod.splits)
next
  case (4 c h r h')
  then show ?case
    by (intro exI [of _ "[]"]) (auto simp: local_host_def local_propose_def split: sum.splits prod.splits)
qed (auto simp: local_host_def)

section \<open>A host with a schedule\<close>

text \<open>
  Every call takes the next item of the schedule: the commands other nodes commit before it, and
  whether it then fails (a timeout, no quorum).  A proposal that times out and is committed all the
  same appears among the commands of a later item.
\<close>

record sim =
  sim_meta :: MetadataState
  sim_sched :: "(MetadataCommand list \<times> go_error option) list"

definition sim_next :: "sim \<Rightarrow> go_error option \<times> sim" where
  "sim_next h = (case sim_sched h of
     [] \<Rightarrow> (None, h)
   | (cs, e) # sched \<Rightarrow> (e, \<lparr>sim_meta = apply_all cs (sim_meta h), sim_sched = sched\<rparr>))"

definition sim_host :: "(int \<Rightarrow> go_error + (int \<times> int \<times> bool)) \<Rightarrow> sim host" where
  "sim_host leader =
     \<lparr>SyncProposeMetadata = (\<lambda>c h.
        (case sim_next h of
           (Some e, h') \<Rightarrow> (Inl e, h')
         | (None, h') \<Rightarrow> (case local_propose c (sim_meta h') of (r, st') \<Rightarrow> (r, h'\<lparr>sim_meta := st'\<rparr>)))),
      LookupMetadata = (\<lambda>q h.
        (case sim_next h of
           (Some e, h') \<Rightarrow> (Inl e, h')
         | (None, h') \<Rightarrow> (MetadataFSM_Lookup q (sim_meta h'), h'))),
      GetLeaderID = (\<lambda>shard h. leader shard),
      LiveMembers = (\<lambda>grp h. members_of grp (sim_meta h))\<rparr>"

lemma sim_next_env: "sim_next h = (x, h') \<Longrightarrow> \<exists>cs. sim_meta h' = apply_all cs (sim_meta h)"
  by (auto simp: sim_next_def split: list.splits prod.splits intro: exI [of _ "[]"])

interpretation sh: meta_host "sim_host leader" sim_meta for leader
proof (unfold_locales, goal_cases)
  case (1 q h r h')
  then show ?case using sim_next_env [of h] by (auto simp: sim_host_def split: prod.splits option.splits)
next
  case (2 q h a h')
  then show ?case by (auto simp: sim_host_def split: prod.splits option.splits)
next
  case (3 c h e h')
  then obtain x h1 where "sim_next h = (x, h1)" "sim_meta h' = sim_meta h1"
    by (auto simp: sim_host_def local_propose_def split: prod.splits option.splits sum.splits)
  then show ?case using sim_next_env [of h] by auto
next
  case (4 c h r h')
  then obtain h1 where h1: "sim_next h = (None, h1)" "applyCommand (wire c) (sim_meta h1) = Inr (r, sim_meta h')"
    by (auto simp: sim_host_def local_propose_def split: prod.splits option.splits sum.splits)
  then show ?case using sim_next_env [OF h1(1)] by auto
qed (simp add: sim_host_def)

section \<open>What foreign commands cannot undo\<close>

text \<open>A group, once it is in \<open>GroupStates\<close>, stays there.\<close>

lemma handlers_keep_group:
  assumes "map_of (GroupStates st) grp \<noteq> None"
  shows "map_of (GroupStates (snd (applyCreateTopic c1 st))) grp \<noteq> None"
    "map_of (GroupStates (snd (applyDeleteTopic c2 st))) grp \<noteq> None"
    "map_of (GroupStates (snd (applyAlterTopicPartCount c3 st))) grp \<noteq> None"
    "map_of (GroupStates (snd (applyAlterTopicRetention c4 st))) grp \<noteq> None"
    "map_of (GroupStates (snd (applyRegisterNode c5 st))) grp \<noteq> None"
    "map_of (GroupStates (snd (applyAssignPartitionLeader c6 st))) grp \<noteq> None"
    "map_of (GroupStates (snd (applyJoinConsumerGroup c7 st))) grp \<noteq> None"
    "map_of (GroupStates (snd (applyLeaveConsumerGroup c8 st))) grp \<noteq> None"
    "map_of (GroupStates (snd (applyHeartbeatConsumerGroup c9 st))) grp \<noteq> None"
    "map_of (GroupStates (snd (applyCommitConsumerOffset c10 st))) grp \<noteq> None"
    "map_of (GroupStates (snd (applyRebalanceConsumerGroup c11 st))) grp \<noteq> None"
  using assms
  by (simp_all add: applyCreateTopic_def applyDeleteTopic_def applyAlterTopicPartCount_def applyAlterTopicRetention_def
      applyRegisterNode_def applyAssignPartitionLeader_def applyJoinConsumerGroup_def applyGroupStateJoin_def
      applyLeaveConsumerGroup_def applyGroupStateLeave_def applyHeartbeatConsumerGroup_def applyCommitConsumerOffset_def
      applyGroupStateCommitOffset_def applyRebalanceConsumerGroup_def Let_def split: option.split)

lemma apply1_keeps_group:
  assumes "map_of (GroupStates st) grp \<noteq> None"
  shows "map_of (GroupStates (apply1 c st)) grp \<noteq> None"
proof -
  have "map_of (GroupStates st') grp \<noteq> None" if "applyCommand c st = Inr (r, st')" for r st'
    using that handlers_keep_group [OF assms] assms by (cases c) (auto dest!: deref_Inr)
  then show ?thesis using assms by (auto simp: apply1_def split: sum.split)
qed

lemma apply_all_keeps_group:
  "map_of (GroupStates st) grp \<noteq> None \<Longrightarrow> map_of (GroupStates (apply_all cs st)) grp \<noteq> None"
  by (induction cs arbitrary: st) (simp_all add: apply1_keeps_group del: not_None_eq)

end
