(* ===== verification/GroupCoord.thy ===== *)
theory GroupCoord
  imports Host Assignor
begin

text \<open>
  The group coordinator (\<open>internal/coordinator/group/groupcoord.go\<close>).  Its state is the table of
  last heartbeats; everything else goes through the raft host.  The time, a fresh member id and
  the host are arguments.  Errors are values of \<open>go_error\<close>, a failed type assertion is a panic.
\<close>

section \<open>Types\<close>

record GroupCoordinatorConfig =
  gcc_MetadataShardID :: int
  ThisNodeID :: int
  SessionTimeoutMinMs :: int
  SessionTimeoutMaxMs :: int
  SweepIntervalMs :: int

record JoinGroupRequest =
  jq_GroupID :: string
  jq_MemberID :: string
  jq_Topics :: "string list"
  jq_SessionTimeoutMs :: int
  jq_HeartbeatIntervalMs :: int

record JoinGroupResponse =
  jp_MemberID :: string
  jp_GenerationID :: int
  jp_Assignments :: "TopicPartition list"

record LeaveGroupRequest =
  lq_GroupID :: string
  lq_MemberID :: string

record GroupCoordinator =
  gc_config :: GroupCoordinatorConfig
  lastHeartbeat :: "(string, (string, int) gomap) gomap"

definition NewGroupCoordinator :: "GroupCoordinatorConfig \<Rightarrow> GroupCoordinator" where
  "NewGroupCoordinator config =
     (let config = (if SessionTimeoutMinMs config = 0 then config\<lparr>SessionTimeoutMinMs := 1000\<rparr> else config);
          config = (if SessionTimeoutMaxMs config = 0 then config\<lparr>SessionTimeoutMaxMs := 300000\<rparr> else config);
          config = (if SweepIntervalMs config = 0 then config\<lparr>SweepIntervalMs := 5000\<rparr> else config)
      in \<lparr>gc_config = config, lastHeartbeat = []\<rparr>)"

section \<open>The heartbeat table\<close>

definition set_heartbeat :: "string \<Rightarrow> string \<Rightarrow> int \<Rightarrow> GroupCoordinator \<Rightarrow> GroupCoordinator" where
  "set_heartbeat groupID memberID now gc =
     gc\<lparr>lastHeartbeat := mput groupID (mput memberID now (mget0 [] (lastHeartbeat gc) groupID)) (lastHeartbeat gc)\<rparr>"

definition del_heartbeat :: "string \<Rightarrow> string \<Rightarrow> GroupCoordinator \<Rightarrow> GroupCoordinator" where
  "del_heartbeat groupID memberID gc =
     (case map_of (lastHeartbeat gc) groupID of
        None \<Rightarrow> gc
      | Some t \<Rightarrow> gc\<lparr>lastHeartbeat := mput groupID (mdel memberID t) (lastHeartbeat gc)\<rparr>)"

definition get_heartbeat :: "string \<Rightarrow> string \<Rightarrow> GroupCoordinator \<Rightarrow> int option" where
  "get_heartbeat groupID memberID gc = map_of (mget0 [] (lastHeartbeat gc) groupID) memberID"

section \<open>Joining and leaving\<close>

definition topicSetsEqual :: "string list \<Rightarrow> string list \<Rightarrow> bool" where
  "topicSetsEqual a b \<longleftrightarrow>
     (if length a \<noteq> length b then False
      else let sa = sort a; sb = sort b in list_all (\<lambda>i. sa ! i = sb ! i) [0..<length sa])"

fun join_counts :: "'h host \<Rightarrow> string list \<Rightarrow> (string, int) gomap \<Rightarrow> 'h \<Rightarrow> (go_error + (string, int) gomap) \<times> 'h" where
  "join_counts nh [] partitionCounts h = (Inr partitionCounts, h)"
| "join_counts nh (topic # topics) partitionCounts h =
     (case LookupMetadata nh ((query0 QueryGetTopic)\<lparr>mq_TopicName := topic\<rparr>) h of
        (Inl err, h) \<Rightarrow>
          if errors_Is err MetadataErrNotFound then (Inl (Wrapped ''topic'' (GroupE GErrNotFound)), h)
          else (Inl (Wrapped ''lookup topic'' err), h)
      | (Inr (AnsTopic tm), h) \<Rightarrow> join_counts nh topics (mput topic (tm_PartitionCount tm) partitionCounts) h
      | (Inr _, h) \<Rightarrow> (Inl bad_type, h))"

definition group_query :: "string \<Rightarrow> MetadataQuery" where
  "group_query groupID = (query0 QueryGetGroupState)\<lparr>mq_GroupID := groupID\<rparr>"

definition others :: "string \<Rightarrow> (string, MemberState) gomap \<Rightarrow> string list" where
  "others memberID members = filter (\<lambda>id. id \<noteq> memberID) (mkeys members)"

definition JoinGroup :: "'h host \<Rightarrow> int \<Rightarrow> string \<Rightarrow> JoinGroupRequest \<Rightarrow> GroupCoordinator \<Rightarrow> 'h \<Rightarrow>
    (go_error + JoinGroupResponse) \<times> GroupCoordinator \<times> 'h" where
  "JoinGroup nh now uuid req gc h =
     (if jq_SessionTimeoutMs req < SessionTimeoutMinMs (gc_config gc) \<or>
         jq_SessionTimeoutMs req > SessionTimeoutMaxMs (gc_config gc)
      then (Inl (Wrapped ''session_timeout_ms out of range'' (GroupE GErrInvalidArgument)), gc, h)
      else (case join_counts nh (jq_Topics req) [] h of
        (Inl err, h) \<Rightarrow> (Inl err, gc, h)
      | (Inr partitionCounts, h) \<Rightarrow> (case LookupMetadata nh (group_query (jq_GroupID req)) h of
        (Inl err, h) \<Rightarrow> (Inl (Wrapped ''lookup group'' err), gc, h)
      | (Inr groupRaw, h) \<Rightarrow>
          if (case groupRaw of AnsNil \<Rightarrow> False | AnsGroupState g \<Rightarrow> False | _ \<Rightarrow> True) then (Inl bad_type, gc, h)
          else
            let members = (case groupRaw of AnsGroupState g \<Rightarrow> LiveMembers nh (jq_GroupID req) h | _ \<Rightarrow> [])
            in if members \<noteq> [] \<and> \<not> topicSetsEqual (ms_SubscribedTopics (snd (hd members))) (jq_Topics req)
               then (Inl (Wrapped ''mixed topic subscriptions in group'' (GroupE GErrInvalidArgument)), gc, h)
               else
                 let memberID = (if jq_MemberID req = [] then uuid else jq_MemberID req);
                     memberIDs = memberID # others memberID members;
                     newAssignment = rangeAssign memberIDs (jq_Topics req) partitionCounts;
                     member = \<lparr>ms_MemberID = memberID, ms_SubscribedTopics = jq_Topics req,
                       ms_SessionTimeoutMs = jq_SessionTimeoutMs req,
                       ms_HeartbeatIntervalMs = jq_HeartbeatIntervalMs req, ms_JoinedAt = now\<rparr>
                 in (case SyncProposeMetadata nh (CmdJoinConsumerGroup (Some
                       \<lparr>jg_GroupID = jq_GroupID req, jg_MemberID = memberID, jg_ClientHost = [],
                        jg_SubscribedTopics = [], jg_JoinedAtMs = 0, jg_Member = Some member,
                        jg_NewAssignment = Some newAssignment\<rparr>)) h of
                       (Inl err, h) \<Rightarrow> (Inl (Wrapped ''propose join'' err), gc, h)
                     | (Inr r, h) \<Rightarrow> (case LookupMetadata nh (group_query (jq_GroupID req)) h of
                       (Inl err, h) \<Rightarrow> (Inl (Wrapped ''lookup group after join'' err), gc, h)
                     | (Inr (AnsGroupState updatedGroup), h) \<Rightarrow>
                         (Inr \<lparr>jp_MemberID = memberID, jp_GenerationID = gs_GenerationID updatedGroup,
                               jp_Assignments = mget0 [] (gs_Assignments updatedGroup) memberID\<rparr>,
                          set_heartbeat (jq_GroupID req) memberID now gc, h)
                     | (Inr _, h) \<Rightarrow> (Inl bad_type, gc, h))))))"

fun leave_counts :: "'h host \<Rightarrow> string list \<Rightarrow> (string, int) gomap \<Rightarrow> 'h \<Rightarrow> (go_error + (string, int) gomap) \<times> 'h" where
  "leave_counts nh [] partitionCounts h = (Inr partitionCounts, h)"
| "leave_counts nh (topic # topics) partitionCounts h =
     (case LookupMetadata nh ((query0 QueryGetTopic)\<lparr>mq_TopicName := topic\<rparr>) h of
        (Inl err, h) \<Rightarrow>
          if errors_Is err MetadataErrNotFound then leave_counts nh topics partitionCounts h
          else (Inl (Wrapped ''lookup topic'' err), h)
      | (Inr (AnsTopic tm), h) \<Rightarrow> leave_counts nh topics (mput topic (tm_PartitionCount tm) partitionCounts) h
      | (Inr _, h) \<Rightarrow> (Inl bad_type, h))"

definition leave_cmd :: "string \<Rightarrow> string \<Rightarrow> string \<Rightarrow> (string, TopicPartition list) gomap \<Rightarrow> MetadataCommand" where
  "leave_cmd groupID memberID reason newAssignment =
     CmdLeaveConsumerGroup (Some \<lparr>lg_GroupID = groupID, lg_MemberID = memberID, lg_Reason = reason,
       lg_NewAssignment = Some newAssignment\<rparr>)"

definition LeaveGroup :: "'h host \<Rightarrow> LeaveGroupRequest \<Rightarrow> GroupCoordinator \<Rightarrow> 'h \<Rightarrow>
    go_error option \<times> GroupCoordinator \<times> 'h" where
  "LeaveGroup nh req gc h =
     (case LookupMetadata nh (group_query (lq_GroupID req)) h of
        (Inl err, h) \<Rightarrow> (Some (Wrapped ''lookup group'' err), gc, h)
      | (Inr AnsNil, h) \<Rightarrow> (Some (GroupE ErrNotGroupMember), gc, h)
      | (Inr (AnsGroupState g), h) \<Rightarrow>
          let members = LiveMembers nh (lq_GroupID req) h
          in (case map_of members (lq_MemberID req) of
                None \<Rightarrow> (Some (GroupE ErrNotGroupMember), gc, h)
              | Some ms \<Rightarrow>
                  let newMemberIDs = others (lq_MemberID req) members
                  in (case leave_counts nh (ms_SubscribedTopics ms) [] h of
                        (Inl err, h) \<Rightarrow> (Some err, gc, h)
                      | (Inr partitionCounts, h) \<Rightarrow>
                          let newAssignment = rangeAssign newMemberIDs (ms_SubscribedTopics ms) partitionCounts
                          in (case SyncProposeMetadata nh
                                (leave_cmd (lq_GroupID req) (lq_MemberID req) ''voluntary'' newAssignment) h of
                                (Inl err, h) \<Rightarrow> (Some (Wrapped ''propose leave'' err), gc, h)
                              | (Inr r, h) \<Rightarrow> (None, del_heartbeat (lq_GroupID req) (lq_MemberID req) gc, h))))
      | (Inr _, h) \<Rightarrow> (Some bad_type, gc, h))"

section \<open>Offsets\<close>

definition CommitOffset :: "'h host \<Rightarrow> string \<Rightarrow> string \<Rightarrow> int \<Rightarrow> (TopicPartition, int) gomap \<Rightarrow> 'h \<Rightarrow>
    go_error option \<times> 'h" where
  "CommitOffset nh groupID memberID generationID offsets h =
     (case LookupMetadata nh (group_query groupID) h of
        (Inl err, h) \<Rightarrow> (Some (Wrapped ''lookup group'' err), h)
      | (Inr AnsNil, h) \<Rightarrow> (Some (GroupE ErrNotGroupMember), h)
      | (Inr (AnsGroupState g), h) \<Rightarrow>
          if map_of (LiveMembers nh groupID h) memberID = None then (Some (GroupE ErrNotGroupMember), h)
          else if generationID \<noteq> gs_GenerationID g
          then (Some (Wrapped ''client generation'' (GroupE ErrStaleGeneration)), h)
          else if \<not> list_all (\<lambda>tp. tp \<in> set (mget0 [] (gs_Assignments g) memberID)) (mkeys offsets)
          then (Some (Wrapped ''partition not assigned to member'' (GroupE GErrInvalidArgument)), h)
          else (case SyncProposeMetadata nh (CmdCommitConsumerOffset (Some
                  \<lparr>cc_GroupID = groupID, cc_Offsets = [], cc_GroupOffsets = Some offsets\<rparr>)) h of
                  (Inl err, h) \<Rightarrow> (Some (Wrapped ''propose commit offset'' err), h)
                | (Inr r, h) \<Rightarrow> (None, h))
      | (Inr _, h) \<Rightarrow> (Some bad_type, h))"

definition FetchCommittedOffsets :: "'h host \<Rightarrow> string \<Rightarrow> TopicPartition list \<Rightarrow> 'h \<Rightarrow>
    (go_error + (TopicPartition, int) gomap) \<times> 'h" where
  "FetchCommittedOffsets nh groupID partitions h =
     (case LookupMetadata nh ((query0 QueryGetGroupOffsets)\<lparr>mq_GroupID := groupID, mq_Partitions := partitions\<rparr>) h of
        (Inl err, h) \<Rightarrow> (Inl (Wrapped ''lookup group offsets'' err), h)
      | (Inr (AnsOffsets m), h) \<Rightarrow> (Inr m, h)
      | (Inr _, h) \<Rightarrow> (Inr [], h))"

section \<open>Heartbeats and the session sweep\<close>

definition Heartbeat :: "'h host \<Rightarrow> int \<Rightarrow> string \<Rightarrow> string \<Rightarrow> int \<Rightarrow> GroupCoordinator \<Rightarrow> 'h \<Rightarrow>
    (go_error + bool) \<times> GroupCoordinator \<times> 'h" where
  "Heartbeat nh now groupID memberID generationID gc h =
     (case LookupMetadata nh (group_query groupID) h of
        (Inl err, h) \<Rightarrow> (Inl (Wrapped ''lookup group'' err), gc, h)
      | (Inr AnsNil, h) \<Rightarrow> (Inl (GroupE ErrNotGroupMember), gc, h)
      | (Inr (AnsGroupState g), h) \<Rightarrow>
          if map_of (LiveMembers nh groupID h) memberID = None then (Inl (GroupE ErrNotGroupMember), gc, h)
          else (Inr (gs_GenerationID g > generationID), set_heartbeat groupID memberID now gc, h)
      | (Inr _, h) \<Rightarrow> (Inl bad_type, gc, h))"

definition RebuildHeartbeatTable :: "'h host \<Rightarrow> int \<Rightarrow> GroupCoordinator \<Rightarrow> 'h \<Rightarrow> GroupCoordinator \<times> 'h" where
  "RebuildHeartbeatTable nh now gc h =
     (case LookupMetadata nh (query0 QueryGetAllGroupStates) h of
        (Inr (AnsGroupStates groups), h) \<Rightarrow>
          (fold (\<lambda>(groupID, g) gc.
             let gc = gc\<lparr>lastHeartbeat := mput groupID (mget0 [] (lastHeartbeat gc) groupID) (lastHeartbeat gc)\<rparr>
             in fold (\<lambda>memberID. set_heartbeat groupID memberID now) (mkeys (LiveMembers nh groupID h)) gc) groups gc, h)
      | (_, h) \<Rightarrow> (gc, h))"

fun sweep_counts :: "'h host \<Rightarrow> string list \<Rightarrow> (string, int) gomap \<Rightarrow> 'h \<Rightarrow> (go_error + (string, int) gomap) \<times> 'h" where
  "sweep_counts nh [] partitionCounts h = (Inr partitionCounts, h)"
| "sweep_counts nh (topic # topics) partitionCounts h =
     (case LookupMetadata nh ((query0 QueryGetTopic)\<lparr>mq_TopicName := topic\<rparr>) h of
        (Inl err, h) \<Rightarrow> sweep_counts nh topics partitionCounts h
      | (Inr AnsNil, h) \<Rightarrow> sweep_counts nh topics partitionCounts h
      | (Inr (AnsTopic tm), h) \<Rightarrow> sweep_counts nh topics (mput topic (tm_PartitionCount tm) partitionCounts) h
      | (Inr _, h) \<Rightarrow> (Inl bad_type, h))"

text \<open>
  The loop over the members of a group ranges over the live map: a member that an earlier turn has
  removed is not visited, and the remaining members are those of that moment.
\<close>

definition expired :: "int \<Rightarrow> string \<Rightarrow> string \<Rightarrow> MemberState \<Rightarrow> GroupCoordinator \<Rightarrow> bool" where
  "expired now groupID memberID ms gc =
     (case get_heartbeat groupID memberID gc of
        None \<Rightarrow> False
      | Some lastHB \<Rightarrow> now - lastHB > ms_SessionTimeoutMs ms * 1000000)"

fun sweep_members :: "'h host \<Rightarrow> int \<Rightarrow> string \<Rightarrow> string list \<Rightarrow> GroupCoordinator \<Rightarrow> 'h \<Rightarrow>
    go_error option \<times> GroupCoordinator \<times> 'h" where
  "sweep_members nh now groupID [] gc h = (None, gc, h)"
| "sweep_members nh now groupID (memberID # ids) gc h =
     (case map_of (LiveMembers nh groupID h) memberID of
        None \<Rightarrow> sweep_members nh now groupID ids gc h
      | Some ms \<Rightarrow>
          if \<not> expired now groupID memberID ms gc then sweep_members nh now groupID ids gc h
          else
            let remainingMembers = others memberID (LiveMembers nh groupID h)
            in (case sweep_counts nh (ms_SubscribedTopics ms) [] h of
                  (Inl err, h) \<Rightarrow> (Some err, gc, h)
                | (Inr partitionCounts, h) \<Rightarrow>
                    let newAssignment = rangeAssign remainingMembers (ms_SubscribedTopics ms) partitionCounts
                    in (case SyncProposeMetadata nh (leave_cmd groupID memberID ''timeout'' newAssignment) h of
                          (Inl err, h) \<Rightarrow> sweep_members nh now groupID ids gc h
                        | (Inr r, h) \<Rightarrow> sweep_members nh now groupID ids (del_heartbeat groupID memberID gc) h)))"

fun sweep_groups :: "'h host \<Rightarrow> int \<Rightarrow> string list \<Rightarrow> GroupCoordinator \<Rightarrow> 'h \<Rightarrow> go_error option \<times> GroupCoordinator \<times> 'h" where
  "sweep_groups nh now [] gc h = (None, gc, h)"
| "sweep_groups nh now (groupID # gs) gc h =
     (case sweep_members nh now groupID (mkeys (LiveMembers nh groupID h)) gc h of
        (Some err, gc, h) \<Rightarrow> (Some err, gc, h)
      | (None, gc, h) \<Rightarrow> sweep_groups nh now gs gc h)"

definition sweepOnce :: "'h host \<Rightarrow> int \<Rightarrow> GroupCoordinator \<Rightarrow> 'h \<Rightarrow> go_error option \<times> GroupCoordinator \<times> 'h" where
  "sweepOnce nh now gc h =
     (case GetLeaderID nh (gcc_MetadataShardID (gc_config gc)) h of
        Inl err \<Rightarrow> (None, gc, h)
      | Inr (leaderID, term, valid) \<Rightarrow>
          if \<not> valid \<or> leaderID \<noteq> ThisNodeID (gc_config gc) then (None, gc, h)
          else (case LookupMetadata nh (query0 QueryGetAllGroupStates) h of
                  (Inr (AnsGroupStates groups), h) \<Rightarrow> sweep_groups nh now (mkeys groups) gc h
                | (_, h) \<Rightarrow> (None, gc, h)))"

end
