(* ===== verification/GroupLemmas.thy ===== *)
theory GroupLemmas
  imports GroupCoord
begin

text \<open>
  What the group coordinator guarantees: joining and leaving give every partition exactly one
  owner, commits are authorised whatever other nodes do, the sweep removes exactly the members that
  are overdue, and how generations evolve when two members share a group.
\<close>

section \<open>On a host without other nodes\<close>

lemma local_host_simps [simp]:
  "LookupMetadata (local_host l) q st = (MetadataFSM_Lookup q st, st)"
  "SyncProposeMetadata (local_host l) c st = local_propose c st"
  "LiveMembers (local_host l) grp st = members_of grp st"
  "GetLeaderID (local_host l) shard st = l shard"
  by (simp_all add: local_host_def)

lemma group_query_lookup [simp]:
  "MetadataFSM_Lookup (group_query grp) st =
     Inr (case map_of (GroupStates st) grp of None \<Rightarrow> AnsNil | Some g \<Rightarrow> AnsGroupState g)"
  by (simp add: group_query_def query0_def MetadataFSM_Lookup_def lookupGroupState_def split: option.split)

lemma topic_query_lookup [simp]:
  "MetadataFSM_Lookup ((query0 QueryGetTopic)\<lparr>mq_TopicName := t\<rparr>) st =
     (case map_of (Topics st) t of None \<Rightarrow> Inl MetadataErrNotFound | Some tm \<Rightarrow> Inr (AnsTopic tm))"
  by (simp add: query0_def MetadataFSM_Lookup_def)

definition topic_count :: "MetadataState \<Rightarrow> string \<Rightarrow> int" where
  "topic_count st t = (case map_of (Topics st) t of None \<Rightarrow> 0 | Some tm \<Rightarrow> tm_PartitionCount tm)"

lemma join_counts_local:
  "\<forall>t \<in> set ts. map_of (Topics st) t \<noteq> None \<Longrightarrow>
   join_counts (local_host l) ts pc st = (Inr (fold (\<lambda>t. mput t (topic_count st t)) ts pc), st)"
proof (induction ts arbitrary: pc)
  case (Cons t ts)
  then obtain tm where "map_of (Topics st) t = Some tm" by auto
  then show ?case using Cons by (simp add: topic_count_def)
qed simp

lemma leave_counts_local:
  "\<exists>pc'. leave_counts (local_host l) ts pc st = (Inr pc', st) \<and>
     (\<forall>t. mget0 0 pc' t = (if t \<in> set ts \<and> map_of (Topics st) t \<noteq> None then topic_count st t else mget0 0 pc t))"
proof (induction ts arbitrary: pc)
  case (Cons t ts)
  show ?case
  proof (cases "map_of (Topics st) t")
    case None
    then show ?thesis using Cons.IH [of pc] by auto
  next
    case (Some tm)
    then show ?thesis using Cons.IH [of "mput t (tm_PartitionCount tm) pc"] by (auto simp: mget0_def topic_count_def)
  qed
qed simp

lemma sweep_counts_local:
  "sweep_counts (local_host l) ts pc st = leave_counts (local_host l) ts pc st"
  by (induction ts arbitrary: pc) (simp_all split: option.split)

lemma counts_fold: "mget0 0 (fold (\<lambda>t. mput t (f t)) ts []) t = (if t \<in> set ts then f t else 0)"
proof -
  have "mget0 0 (fold (\<lambda>t. mput t (f t)) ts m) t = (if t \<in> set ts then f t else mget0 0 m t)" for m
    by (induction ts arbitrary: m) (auto simp: mget0_def)
  from this [of "[]"] show ?thesis by (simp add: mget0_def)
qed

section \<open>Complete assignments\<close>

text \<open>
  Every partition of the given topics belongs to exactly one member of the group, members own
  nothing else, and exactly the members have an entry.
\<close>

definition subscribed_parts :: "MetadataState \<Rightarrow> string list \<Rightarrow> TopicPartition set" where
  "subscribed_parts st ts = {TopicPartition t i | t i. t \<in> set ts \<and> 0 \<le> i \<and> i < topic_count st t}"

definition fully_assigned :: "GroupState \<Rightarrow> TopicPartition set \<Rightarrow> bool" where
  "fully_assigned g ps \<longleftrightarrow>
     set (mkeys (gs_Assignments g)) = set (mkeys (gs_Members g)) \<and>
     (\<forall>p \<in> ps. \<exists>!m. m \<in> set (mkeys (gs_Members g)) \<and> p \<in> set (mget0 [] (gs_Assignments g) m)) \<and>
     (\<forall>m. set (mget0 [] (gs_Assignments g) m) \<subseteq> ps)"

lemma all_partitions_set:
  "(\<And>t. t \<in> set ts \<Longrightarrow> mget0 0 pc t = topic_count st t) \<Longrightarrow> set (all_partitions ts pc) = subscribed_parts st ts"
  by (force simp: all_partitions_def subscribed_parts_def image_iff intro: bexI [of _ "nat _"])

lemma topic_count_range: "topics_inv n st \<Longrightarrow> 0 \<le> topic_count st t \<and> topic_count st t < 2 ^ 31"
  using topics_invD(6) [of n st t] by (fastforce simp: topic_count_def split: option.split)

lemma rangeAssign_full:
  assumes "distinct ms" "ms \<noteq> []" "distinct ts" "topics_inv n st"
    and pc: "\<And>t. t \<in> set ts \<Longrightarrow> mget0 0 pc t = topic_count st t"
    and g: "set (mkeys (gs_Members g)) = set ms" "gs_Assignments g = rangeAssign ms ts pc"
  shows "fully_assigned g (subscribed_parts st ts)"
proof -
  let ?i = "(ms, ts, pc)"
  have v: "assign_input ?i"
    using assms(1,3) pc topic_count_range [OF assms(4)] by (auto simp: assign_input_def counts_ok_def)
  have "p \<in> subscribed_parts st ts \<Longrightarrow> \<exists>!m. m \<in> set ms \<and> p \<in> set (mget0 [] (rangeAssign ms ts pc) m)" for p
    using ra.one_owner [OF v, of p] assms(2) all_partitions_set [OF pc] by simp
  moreover have "set (mget0 [] (rangeAssign ms ts pc) m) \<subseteq> subscribed_parts st ts" for m
  proof (cases "m \<in> set ms")
    case True
    then show ?thesis using ra.nothing_else [OF v, of m] all_partitions_set [OF pc] by simp
  next
    case False
    then have "map_of (rangeAssign ms ts pc) m = None"
      using rangeAssign_keys(2) [of ms ts pc] mkeys_iff [of m "rangeAssign ms ts pc"] by simp
    then show ?thesis by (simp add: mget0_def)
  qed
  ultimately show ?thesis using g rangeAssign_keys(2) [of ms ts pc] by (simp add: fully_assigned_def)
qed

lemma mkeys_others: "set (others m ms) = set (mkeys ms) - {m}"
  by (auto simp: others_def)

lemma distinct_others: "map_ok ms \<Longrightarrow> distinct (others m ms)"
  by (simp add: others_def distinct_mkeys)


section \<open>Joining\<close>

definition group_or_new :: "MetadataState \<Rightarrow> string \<Rightarrow> GroupState" where
  "group_or_new st grp = (case map_of (GroupStates st) grp of
     None \<Rightarrow> \<lparr>gs_GroupID = grp, gs_Members = [], gs_GenerationID = 0, gs_Assignments = [], gs_Offsets = []\<rparr>
   | Some g \<Rightarrow> g)"

lemma members_of_new: "members_of grp st = gs_Members (group_or_new st grp)"
  by (simp add: members_of_def group_or_new_def split: option.split)

definition joined :: "MetadataState \<Rightarrow> string \<Rightarrow> string \<Rightarrow> MemberState \<Rightarrow> (string, TopicPartition list) gomap \<Rightarrow> GroupState" where
  "joined st grp mid member a = (let g = group_or_new st grp in
     g\<lparr>gs_Members := mput mid member (gs_Members g), gs_Assignments := a,
       gs_GenerationID := int32 (gs_GenerationID g + 1)\<rparr>)"

lemma propose_join:
  assumes "jg_Member c = Some member" "jg_NewAssignment c = Some a" "a \<noteq> []"
  shows "local_propose (CmdJoinConsumerGroup (Some c)) st =
    (Inr OKResult, st\<lparr>GroupStates := mput (jg_GroupID c) (joined st (jg_GroupID c) (jg_MemberID c) member a) (GroupStates st)\<rparr>)"
  using assms by (simp add: local_propose_def deref_def applyJoinConsumerGroup_def applyGroupStateJoin_def
      omitempty_def joined_def group_or_new_def Let_def split: option.split)

lemma topicSetsEqual_iff: "topicSetsEqual a b \<longleftrightarrow> mset a = mset b"
proof (cases "length a = length b")
  case True
  then have "topicSetsEqual a b \<longleftrightarrow> sort a = sort b"
    by (auto simp: topicSetsEqual_def Let_def list_all_iff intro!: nth_equalityI)
  also have "\<dots> \<longleftrightarrow> mset a = mset b"
    by (metis mset_sort properties_for_sort sorted_sort)
  finally show ?thesis .
qed (auto simp: topicSetsEqual_def dest: mset_eq_length)

definition join_member :: "int \<Rightarrow> string \<Rightarrow> JoinGroupRequest \<Rightarrow> MemberState" where
  "join_member now mid req = \<lparr>ms_MemberID = mid, ms_SubscribedTopics = jq_Topics req,
     ms_SessionTimeoutMs = jq_SessionTimeoutMs req, ms_HeartbeatIntervalMs = jq_HeartbeatIntervalMs req, ms_JoinedAt = now\<rparr>"

definition join_id :: "string \<Rightarrow> JoinGroupRequest \<Rightarrow> string" where
  "join_id uuid req = (if jq_MemberID req = [] then uuid else jq_MemberID req)"

text \<open>What the coordinator checks before it proposes a join.\<close>

definition join_ok :: "MetadataState \<Rightarrow> JoinGroupRequest \<Rightarrow> GroupCoordinator \<Rightarrow> bool" where
  "join_ok st req gc \<longleftrightarrow>
     SessionTimeoutMinMs (gc_config gc) \<le> jq_SessionTimeoutMs req \<and> jq_SessionTimeoutMs req \<le> SessionTimeoutMaxMs (gc_config gc) \<and>
     (\<forall>t \<in> set (jq_Topics req). map_of (Topics st) t \<noteq> None) \<and>
     list_all (\<lambda>(m, ms). mset (ms_SubscribedTopics ms) = mset (jq_Topics req)) (members_of (jq_GroupID req) st)"

lemma JoinGroup_local:
  fixes uuid :: string
  assumes ok: "join_ok st req gc" and inv: "topics_inv n st" and d: "distinct (jq_Topics req)"
    and mo: "map_ok (members_of (jq_GroupID req) st)"
  defines "mid \<equiv> join_id uuid req" and "grp \<equiv> jq_GroupID req"
  shows "\<exists>g'. JoinGroup (local_host l) now uuid req gc st =
      (Inr \<lparr>jp_MemberID = mid, jp_GenerationID = gs_GenerationID g', jp_Assignments = mget0 [] (gs_Assignments g') mid\<rparr>,
       set_heartbeat grp mid now gc, st\<lparr>GroupStates := mput grp g' (GroupStates st)\<rparr>) \<and>
    gs_Members g' = mput mid (join_member now mid req) (members_of grp st) \<and>
    gs_GenerationID g' = int32 (gs_GenerationID (group_or_new st grp) + 1) \<and>
    gs_Offsets g' = gs_Offsets (group_or_new st grp) \<and>
    fully_assigned g' (subscribed_parts st (jq_Topics req))"
proof -
  let ?ts = "jq_Topics req" and ?mem = "members_of grp st"
  define pc where "pc = fold (\<lambda>t. mput t (topic_count st t)) ?ts []"
  define ids where "ids = mid # others mid ?mem"
  define g' where "g' = joined st grp mid (join_member now mid req) (rangeAssign ids ?ts pc)"
  have counts: "join_counts (local_host l) ?ts [] st = (Inr pc, st)"
    using ok join_counts_local [of ?ts st l "[]"] by (simp add: join_ok_def pc_def)
  have pc: "mget0 0 pc t = topic_count st t" if "t \<in> set ?ts" for t
    using that by (simp add: pc_def counts_fold)
  have ne: "rangeAssign ids ?ts pc \<noteq> []" using rangeAssign_keys(2) [of ids ?ts pc] by (auto simp: ids_def mkeys_def)
  have hd: "?mem = [] \<or> topicSetsEqual (ms_SubscribedTopics (snd (hd ?mem))) ?ts"
    using ok by (cases ?mem) (auto simp: join_ok_def topicSetsEqual_iff grp_def)
  have raw: "(case map_of (GroupStates st) grp of None \<Rightarrow> AnsNil | Some g \<Rightarrow> AnsGroupState g) = AnsNil \<and> ?mem = [] \<or>
      (\<exists>g. (case map_of (GroupStates st) grp of None \<Rightarrow> AnsNil | Some g \<Rightarrow> AnsGroupState g) = AnsGroupState g)"
    by (simp add: members_of_def split: option.split)
  have run: "JoinGroup (local_host l) now uuid req gc st =
      (Inr \<lparr>jp_MemberID = mid, jp_GenerationID = gs_GenerationID g', jp_Assignments = mget0 [] (gs_Assignments g') mid\<rparr>,
       set_heartbeat grp mid now gc, st\<lparr>GroupStates := mput grp g' (GroupStates st)\<rparr>)"
    using ok counts hd raw ne unfolding JoinGroup_def
    by (auto simp: join_ok_def Let_def propose_join g'_def ids_def grp_def mid_def join_id_def join_member_def
        simp del: not_None_eq)
  have "fully_assigned g' (subscribed_parts st ?ts)"
    by (rule rangeAssign_full [OF _ _ d inv pc, of ids])
      (use mo in \<open>auto simp: ids_def g'_def joined_def Let_def mkeys_others distinct_others members_of_new grp_def\<close>)
  then show ?thesis using run by (intro exI [of _ g']) (simp add: g'_def joined_def Let_def members_of_new)
qed


section \<open>Leaving\<close>

definition left_group :: "GroupState \<Rightarrow> string \<Rightarrow> (string, TopicPartition list) gomap \<Rightarrow> GroupState" where
  "left_group g mid a = g\<lparr>gs_Members := mdel mid (gs_Members g), gs_Assignments := a,
     gs_GenerationID := int32 (gs_GenerationID g + 1)\<rparr>"

lemma propose_leave:
  assumes g: "map_of (GroupStates st) grp = Some g" "map_of (gs_Members g) mid \<noteq> None"
  shows "local_propose (leave_cmd grp mid why (rangeAssign (others mid (gs_Members g)) ts pc)) st =
    (Inr OKResult, st\<lparr>GroupStates := mput grp (left_group g mid (rangeAssign (others mid (gs_Members g)) ts pc)) (GroupStates st)\<rparr>)"
proof -
  let ?a = "rangeAssign (others mid (gs_Members g)) ts pc"
  have "mdel mid (gs_Members g) = [] \<longleftrightarrow> others mid (gs_Members g) = []"
    by (metis list.set(1) mkeys_mdel mkeys_others set_empty mkeys_def map_is_Nil_conv)
  then have "mdel mid (gs_Members g) = [] \<Longrightarrow> ?a = []" by (simp add: rangeAssign_def)
  then show ?thesis
    using g by (cases g) (auto simp: local_propose_def leave_cmd_def deref_def applyLeaveConsumerGroup_def applyGroupStateLeave_def
      omitempty_def left_group_def Let_def)
qed

lemma LeaveGroup_local:
  assumes g: "map_of (GroupStates st) (lq_GroupID req) = Some g" "map_of (gs_Members g) (lq_MemberID req) = Some ms"
    and inv: "topics_inv n st" and d: "distinct (ms_SubscribedTopics ms)" and mo: "map_ok (gs_Members g)"
  shows "\<exists>g'. LeaveGroup (local_host l) req gc st =
      (None, del_heartbeat (lq_GroupID req) (lq_MemberID req) gc,
       st\<lparr>GroupStates := mput (lq_GroupID req) g' (GroupStates st)\<rparr>) \<and>
    gs_Members g' = mdel (lq_MemberID req) (gs_Members g) \<and>
    gs_GenerationID g' = int32 (gs_GenerationID g + 1) \<and> gs_Offsets g' = gs_Offsets g \<and>
    (gs_Members g' \<noteq> [] \<longrightarrow> fully_assigned g' (subscribed_parts st (ms_SubscribedTopics ms)))"
proof -
  let ?ts = "ms_SubscribedTopics ms" and ?mid = "lq_MemberID req" and ?grp = "lq_GroupID req"
  obtain pc where pc: "leave_counts (local_host l) ?ts [] st = (Inr pc, st)"
    "\<And>t. mget0 0 pc t = (if t \<in> set ?ts \<and> map_of (Topics st) t \<noteq> None then topic_count st t else mget0 0 [] t)"
    using leave_counts_local [of l ?ts "[]" st] by blast
  have cnt: "mget0 0 pc t = topic_count st t" if "t \<in> set ?ts" for t
    using that pc(2) [of t] by (auto simp: topic_count_def mget0_def split: option.split)
  define ids where "ids = others ?mid (gs_Members g)"
  define g' where "g' = left_group g ?mid (rangeAssign ids ?ts pc)"
  have run: "LeaveGroup (local_host l) req gc st =
      (None, del_heartbeat ?grp ?mid gc, st\<lparr>GroupStates := mput ?grp g' (GroupStates st)\<rparr>)"
    using g pc(1) propose_leave [OF g(1), of ?mid _ ?ts pc]
    by (simp add: LeaveGroup_def Let_def members_of_def g'_def ids_def)
  have keys: "set (mkeys (gs_Members g')) = set ids" by (simp add: g'_def left_group_def ids_def mkeys_others)
  have "gs_Members g' \<noteq> [] \<Longrightarrow> fully_assigned g' (subscribed_parts st ?ts)"
    by (rule rangeAssign_full [OF _ _ d inv cnt keys])
      (use mo keys in \<open>auto simp: ids_def g'_def left_group_def distinct_others mkeys_def\<close>)
  then show ?thesis using run by (intro exI [of _ g']) (simp add: g'_def left_group_def)
qed


section \<open>Offsets are committed by their owner\<close>

lemma commit_applied:
  assumes "map_of (GroupStates st) grp = Some g" "offs \<noteq> []"
    "applyCommand (wire (CmdCommitConsumerOffset (Some \<lparr>cc_GroupID = grp, cc_Offsets = [], cc_GroupOffsets = Some offs\<rparr>))) st =
      Inr (r, st')"
  shows "r = OKResult \<and> st' = st\<lparr>GroupStates := mput grp
    (g\<lparr>gs_Offsets := fold (\<lambda>(tp, offset). mput tp offset) offs (gs_Offsets g)\<rparr>) (GroupStates st)\<rparr>"
  using assms by (auto simp: deref_def applyCommitConsumerOffset_def applyGroupStateCommitOffset_def omitempty_def)

context meta_host
begin

lemma group_lookup:
  assumes "LookupMetadata host (group_query grp) h = (Inr x, h')"
  shows "x = (case map_of (GroupStates (meta h')) grp of None \<Rightarrow> AnsNil | Some g \<Rightarrow> AnsGroupState g)"
  using lookup_answer [OF assms] by simp

text \<open>
  Whatever other nodes do in between: a commit that returns without error was checked against a
  state of the group that this node has seen, and it has been applied to a later one.
\<close>

lemma CommitOffset_authorised:
  assumes run: "CommitOffset host grp mid gen offs h = (None, h')" and offs: "offs \<noteq> []"
  shows "\<exists>cs g cs' g'. map_of (GroupStates (apply_all cs (meta h))) grp = Some g \<and>
    map_of (gs_Members g) mid \<noteq> None \<and> gs_GenerationID g = gen \<and>
    set (mkeys offs) \<subseteq> set (mget0 [] (gs_Assignments g) mid) \<and>
    map_of (GroupStates (apply_all cs' (apply_all cs (meta h)))) grp = Some g' \<and>
    meta h' = (apply_all cs' (apply_all cs (meta h)))\<lparr>GroupStates := mput grp
      (g'\<lparr>gs_Offsets := fold (\<lambda>(tp, offset). mput tp offset) offs (gs_Offsets g')\<rparr>)
      (GroupStates (apply_all cs' (apply_all cs (meta h))))\<rparr>"
proof -
  obtain x h1 where l: "LookupMetadata host (group_query grp) h = (Inr x, h1)"
    using run by (auto simp: CommitOffset_def split: prod.splits sum.splits)
  obtain cs where cs: "meta h1 = apply_all cs (meta h)" using lookup_env [OF l] by blast
  have x: "x = (case map_of (GroupStates (meta h1)) grp of None \<Rightarrow> AnsNil | Some g \<Rightarrow> AnsGroupState g)"
    by (rule group_lookup [OF l])
  then obtain g where g: "map_of (GroupStates (meta h1)) grp = Some g"
    using run l by (cases "map_of (GroupStates (meta h1)) grp") (auto simp: CommitOffset_def)
  have checks: "map_of (gs_Members g) mid \<noteq> None" "gs_GenerationID g = gen"
    "set (mkeys offs) \<subseteq> set (mget0 [] (gs_Assignments g) mid)"
    using run l x g by (auto simp: CommitOffset_def live_members members_of_def list_all_iff split: if_splits)
  then obtain r where p: "SyncProposeMetadata host (CmdCommitConsumerOffset (Some
      \<lparr>cc_GroupID = grp, cc_Offsets = [], cc_GroupOffsets = Some offs\<rparr>)) h1 = (Inr r, h')"
    using run l x g by (auto simp: CommitOffset_def live_members members_of_def split: if_splits prod.splits sum.splits)
  obtain cs' where cs': "applyCommand (wire (CmdCommitConsumerOffset (Some
      \<lparr>cc_GroupID = grp, cc_Offsets = [], cc_GroupOffsets = Some offs\<rparr>))) (apply_all cs' (meta h1)) = Inr (r, meta h')"
    using propose_result [OF p] by blast
  obtain g' where g': "map_of (GroupStates (apply_all cs' (meta h1))) grp = Some g'"
    using apply_all_keeps_group [of "meta h1" grp cs'] g by auto
  show ?thesis using checks g g' cs commit_applied [OF g' offs cs'] by metis
qed

end


section \<open>The session sweep\<close>

text \<open>The members a sweep leaves: those without a heartbeat entry and those in time.\<close>

definition survivor :: "int \<Rightarrow> string \<Rightarrow> GroupCoordinator \<Rightarrow> string set \<Rightarrow> (string, MemberState) gomap \<Rightarrow> string \<Rightarrow> MemberState option" where
  "survivor now grp gc ids members m =
     (case map_of members m of
        None \<Rightarrow> None
      | Some ms \<Rightarrow> if m \<in> ids \<and> expired now grp m ms gc then None else Some ms)"

lemma get_del_heartbeat:
  "get_heartbeat k m' (del_heartbeat grp m gc) = (if k = grp \<and> m' = m then None else get_heartbeat k m' gc)"
  by (auto simp: get_heartbeat_def del_heartbeat_def mget0_def split: option.split)

lemma get_set_heartbeat:
  "get_heartbeat k m' (set_heartbeat grp m now gc) = (if k = grp \<and> m' = m then Some now else get_heartbeat k m' gc)"
  by (auto simp: get_heartbeat_def set_heartbeat_def mget0_def)

lemma expired_cong: "get_heartbeat grp m gc = get_heartbeat grp m gc' \<Longrightarrow> expired now grp m ms gc = expired now grp m ms gc'"
  by (simp add: expired_def)

lemma sweep_step:
  assumes g: "map_of (GroupStates st) grp = Some g" "map_of (gs_Members g) m = Some ms" "expired now grp m ms gc"
  shows "\<exists>st1. sweep_members (local_host l) now grp (m # ids) gc st =
      sweep_members (local_host l) now grp ids (del_heartbeat grp m gc) st1 \<and>
    (\<forall>k. k \<noteq> grp \<longrightarrow> map_of (GroupStates st1) k = map_of (GroupStates st) k) \<and>
    members_of grp st1 = mdel m (members_of grp st)"
proof -
  obtain pc where pc: "leave_counts (local_host l) (ms_SubscribedTopics ms) [] st = (Inr pc, st)"
    using leave_counts_local [of l "ms_SubscribedTopics ms" "[]" st] by blast
  have "map_of (gs_Members g) m \<noteq> None" using g by simp
  note p = propose_leave [OF g(1) this, of "''timeout''" "ms_SubscribedTopics ms" pc]
  show ?thesis
    using g pc p by (auto simp: members_of_def sweep_counts_local left_group_def Let_def)
qed

lemma sweep_members_local:
  "\<exists>gc' st'. sweep_members (local_host l) now grp ids gc st = (None, gc', st') \<and>
    (\<forall>k. k \<noteq> grp \<longrightarrow> map_of (GroupStates st') k = map_of (GroupStates st) k \<and>
       (\<forall>m. get_heartbeat k m gc' = get_heartbeat k m gc)) \<and>
    (\<forall>m. map_of (members_of grp st') m = survivor now grp gc (set ids) (members_of grp st) m)"
proof (induction ids arbitrary: gc st)
  case Nil
  show ?case by (auto simp: survivor_def split: option.split)
next
  case (Cons m ids)
  show ?case
  proof (cases "\<exists>g ms. map_of (GroupStates st) grp = Some g \<and> map_of (gs_Members g) m = Some ms \<and> expired now grp m ms gc")
    case True
    then obtain g ms where g: "map_of (GroupStates st) grp = Some g" "map_of (gs_Members g) m = Some ms"
      "expired now grp m ms gc" by blast
    obtain st1 where st1: "sweep_members (local_host l) now grp (m # ids) gc st =
        sweep_members (local_host l) now grp ids (del_heartbeat grp m gc) st1"
      "\<And>k. k \<noteq> grp \<Longrightarrow> map_of (GroupStates st1) k = map_of (GroupStates st) k"
      "members_of grp st1 = mdel m (members_of grp st)"
      using sweep_step [OF g] by blast
    have "survivor now grp (del_heartbeat grp m gc) (set ids) (mdel m (members_of grp st)) x =
        survivor now grp gc (set (m # ids)) (members_of grp st) x" for x
      using g expired_cong [of grp x "del_heartbeat grp m gc" gc]
      by (auto simp: survivor_def get_del_heartbeat members_of_def split: option.split)
    then show ?thesis
      using Cons.IH [of "del_heartbeat grp m gc" st1] st1 by (auto simp: get_del_heartbeat)
  next
    case False
    then have "sweep_members (local_host l) now grp (m # ids) gc st = sweep_members (local_host l) now grp ids gc st"
      by (auto simp: members_of_def split: option.split)
    moreover have "survivor now grp gc (set ids) (members_of grp st) x = survivor now grp gc (set (m # ids)) (members_of grp st) x" for x
      using False by (auto simp: survivor_def members_of_def split: option.splits)
    ultimately show ?thesis using Cons.IH [of gc st] by auto
  qed
qed

lemma members_of_cong: "map_of (GroupStates st') k = map_of (GroupStates st) k \<Longrightarrow> members_of k st' = members_of k st"
  by (simp add: members_of_def)

lemma sweep_groups_local:
  assumes "distinct gs"
  shows "\<exists>gc' st'. sweep_groups (local_host l) now gs gc st = (None, gc', st') \<and>
    (\<forall>k. k \<notin> set gs \<longrightarrow> map_of (GroupStates st') k = map_of (GroupStates st) k) \<and>
    (\<forall>k m. k \<in> set gs \<longrightarrow> map_of (members_of k st') m = survivor now k gc (set (mkeys (members_of k st))) (members_of k st) m)"
  using assms
proof (induction gs arbitrary: gc st)
  case (Cons grp gs)
  obtain gc1 st1 where s1: "sweep_members (local_host l) now grp (mkeys (members_of grp st)) gc st = (None, gc1, st1)"
    "\<And>k. k \<noteq> grp \<Longrightarrow> map_of (GroupStates st1) k = map_of (GroupStates st) k"
    "\<And>k m. k \<noteq> grp \<Longrightarrow> get_heartbeat k m gc1 = get_heartbeat k m gc"
    "\<And>m. map_of (members_of grp st1) m = survivor now grp gc (set (mkeys (members_of grp st))) (members_of grp st) m"
    using sweep_members_local [of l now grp "mkeys (members_of grp st)" gc st] by auto
  obtain gc2 st2 where s2: "sweep_groups (local_host l) now gs gc1 st1 = (None, gc2, st2)"
    "\<And>k. k \<notin> set gs \<Longrightarrow> map_of (GroupStates st2) k = map_of (GroupStates st1) k"
    "\<And>k m. k \<in> set gs \<Longrightarrow> map_of (members_of k st2) m = survivor now k gc1 (set (mkeys (members_of k st1))) (members_of k st1) m"
    using Cons.IH [of gc1 st1] Cons.prems by auto
  have grp: "map_of (members_of grp st2) m = survivor now grp gc (set (mkeys (members_of grp st))) (members_of grp st) m" for m
    using s1(4) members_of_cong [OF s2(2), of grp] Cons.prems by simp
  have rest: "map_of (members_of k st2) m = survivor now k gc (set (mkeys (members_of k st))) (members_of k st) m"
    if "k \<in> set gs" for k m
  proof -
    have "k \<noteq> grp" using that Cons.prems by auto
    then show ?thesis
      using s2(3) [OF that] members_of_cong [OF s1(2), of k] expired_cong [OF s1(3), of k]
      by (simp add: survivor_def cong: option.case_cong)
  qed
  show ?case using s1(1,2) s2(1,2) grp rest Cons.prems by auto
qed simp

lemma sweepOnce_local:
  assumes "l (gcc_MetadataShardID (gc_config gc)) = Inr (ThisNodeID (gc_config gc), term, True)" "map_ok (GroupStates st)"
  shows "\<exists>gc' st'. sweepOnce (local_host l) now gc st = (None, gc', st') \<and>
    (\<forall>grp m. map_of (members_of grp st') m =
       (case map_of (members_of grp st) m of
          None \<Rightarrow> None
        | Some ms \<Rightarrow> if expired now grp m ms gc then None else Some ms))"
proof -
  have q: "MetadataFSM_Lookup (query0 QueryGetAllGroupStates) st = Inr (AnsGroupStates (GroupStates st))"
    by (simp add: MetadataFSM_Lookup_def lookupGroupState_def query0_def)
  obtain gc' st' where r: "sweep_groups (local_host l) now (mkeys (GroupStates st)) gc st = (None, gc', st')"
    "\<And>k. k \<notin> set (mkeys (GroupStates st)) \<Longrightarrow> map_of (GroupStates st') k = map_of (GroupStates st) k"
    "\<And>k m. k \<in> set (mkeys (GroupStates st)) \<Longrightarrow>
      map_of (members_of k st') m = survivor now k gc (set (mkeys (members_of k st))) (members_of k st) m"
    using sweep_groups_local [OF distinct_mkeys [OF assms(2)], of l now gc st] by blast
  have "map_of (members_of grp st') m = survivor now grp gc (set (mkeys (members_of grp st))) (members_of grp st) m" for grp m
  proof (cases "grp \<in> set (mkeys (GroupStates st))")
    case False
    then have "map_of (GroupStates st) grp = None" by (simp add: mkeys_iff)
    then show ?thesis using r(2) [OF False] by (simp add: members_of_def survivor_def)
  qed (rule r(3))
  moreover have "m \<in> set (mkeys (members_of grp st))" if "map_of (members_of grp st) m = Some ms" for grp m ms
    using that by (simp add: mkeys_iff)
  ultimately show ?thesis
    using r(1) assms(1) q by (auto simp: sweepOnce_def survivor_def split: option.split)
qed


section \<open>Generations\<close>

lemma Heartbeat_local:
  assumes "map_of (GroupStates st) grp = Some g" "map_of (gs_Members g) m \<noteq> None"
  shows "Heartbeat (local_host l) now grp m gen gc st = (Inr (gen < gs_GenerationID g), set_heartbeat grp m now gc, st)"
  using assms by (simp add: Heartbeat_def members_of_def)

text \<open>
  Two members that follow the protocol: the one whose heartbeat reports a newer generation joins
  again, which makes a new generation for the other.  \<open>rejoin_rounds n\<close> plays \<open>n\<close> such rounds and
  says whether every heartbeat asked for a rejoin.
\<close>

fun rejoin_rounds :: "(int \<Rightarrow> go_error + (int \<times> int \<times> bool)) \<Rightarrow> int \<Rightarrow> nat \<Rightarrow> JoinGroupRequest \<times> int \<Rightarrow> JoinGroupRequest \<times> int \<Rightarrow>
    GroupCoordinator \<Rightarrow> MetadataState \<Rightarrow> bool" where
  "rejoin_rounds l now 0 stale fresh gc st = True"
| "rejoin_rounds l now (Suc n) stale fresh gc st =
     (case Heartbeat (local_host l) now (jq_GroupID (fst stale)) (jq_MemberID (fst stale)) (snd stale) gc st of
        (Inr True, gc, st) \<Rightarrow>
          (case JoinGroup (local_host l) now [] (fst stale) gc st of
             (Inr resp, gc, st) \<Rightarrow> rejoin_rounds l now n fresh (fst stale, jp_GenerationID resp) gc st
           | _ \<Rightarrow> False)
      | _ \<Rightarrow> False)"

definition pair_ok :: "JoinGroupRequest \<Rightarrow> JoinGroupRequest \<Rightarrow> GroupCoordinatorConfig \<Rightarrow> nat \<Rightarrow> GroupState \<Rightarrow> MetadataState \<Rightarrow> bool" where
  "pair_ok x y cfg k g st \<longleftrightarrow>
     (\<forall>r \<in> {x, y}. jq_MemberID r \<noteq> [] \<and> jq_GroupID r = jq_GroupID x \<and> mset (jq_Topics r) = mset (jq_Topics x) \<and>
        distinct (jq_Topics r) \<and> SessionTimeoutMinMs cfg \<le> jq_SessionTimeoutMs r \<and>
        jq_SessionTimeoutMs r \<le> SessionTimeoutMaxMs cfg \<and> (\<forall>t \<in> set (jq_Topics r). map_of (Topics st) t \<noteq> None) \<and>
        map_of (gs_Members g) (jq_MemberID r) \<noteq> None) \<and>
     topics_inv k st \<and> map_of (GroupStates st) (jq_GroupID x) = Some g \<and> map_ok (gs_Members g) \<and>
     list_all (\<lambda>(m, ms). mset (ms_SubscribedTopics ms) = mset (jq_Topics x)) (gs_Members g)"

lemma set_mput: "set (mput k v m) \<subseteq> insert (k, v) (set m)"
  by (induction m) auto

lemma pair_step:
  assumes ok: "pair_ok x y cfg k g st" and gc: "gc_config gc = cfg"
    and gen: "0 \<le> gs_GenerationID g" "gs_GenerationID g + 1 < 2 ^ 31"
  shows "\<exists>g' st' as. JoinGroup (local_host l) now [] x gc st =
      (Inr \<lparr>jp_MemberID = jq_MemberID x, jp_GenerationID = gs_GenerationID g + 1, jp_Assignments = as\<rparr>,
       set_heartbeat (jq_GroupID x) (jq_MemberID x) now gc, st') \<and>
    gs_GenerationID g' = gs_GenerationID g + 1 \<and> pair_ok y x cfg k g' st'"
proof -
  have g: "map_of (GroupStates st) (jq_GroupID x) = Some g" and mem: "members_of (jq_GroupID x) st = gs_Members g"
    and new: "group_or_new st (jq_GroupID x) = g"
    using ok by (auto simp: pair_ok_def members_of_def group_or_new_def)
  have "join_ok st x gc" "topics_inv k st" "distinct (jq_Topics x)" "map_ok (members_of (jq_GroupID x) st)"
    using ok gc mem by (auto simp: pair_ok_def join_ok_def)
  from JoinGroup_local [OF this, of l now "[]"] obtain g' where r: "JoinGroup (local_host l) now [] x gc st =
      (Inr \<lparr>jp_MemberID = jq_MemberID x, jp_GenerationID = gs_GenerationID g', jp_Assignments = mget0 [] (gs_Assignments g') (jq_MemberID x)\<rparr>,
       set_heartbeat (jq_GroupID x) (jq_MemberID x) now gc, st\<lparr>GroupStates := mput (jq_GroupID x) g' (GroupStates st)\<rparr>)"
    "gs_Members g' = mput (jq_MemberID x) (join_member now (jq_MemberID x) x) (gs_Members g)"
    "gs_GenerationID g' = int32 (gs_GenerationID g + 1)"
    using ok mem new by (auto simp: join_id_def pair_ok_def)
  have gen': "gs_GenerationID g' = gs_GenerationID g + 1" using r(3) gen by (simp add: int32_id in_int32_def)
  let ?st = "st\<lparr>GroupStates := mput (jq_GroupID x) g' (GroupStates st)\<rparr>"
  have "topics_inv k ?st" using ok topics_inv_view [of ?st st k] by (simp add: topic_view_def pair_ok_def)
  moreover have "list_all (\<lambda>(m, ms). mset (ms_SubscribedTopics ms) = mset (jq_Topics x)) (gs_Members g')"
    using ok set_mput [of "jq_MemberID x" "join_member now (jq_MemberID x) x" "gs_Members g"]
    by (auto simp: r(2) pair_ok_def list_all_iff join_member_def)
  ultimately have "pair_ok y x cfg k g' ?st" using ok by (auto simp: pair_ok_def r(2))
  then show ?thesis using r(1) gen' by auto
qed

lemma rejoin_rounds_forever:
  assumes "pair_ok x y cfg k g st" "gc_config gc = cfg" "0 \<le> gs_GenerationID g" "gs_GenerationID g + int n < 2 ^ 31"
    "gx < gs_GenerationID g" "gy = gs_GenerationID g"
  shows "rejoin_rounds l now n (x, gx) (y, gy) gc st"
  using assms
proof (induction n arbitrary: x y g gc st gx gy)
  case (Suc n)
  have hb: "Heartbeat (local_host l) now (jq_GroupID x) (jq_MemberID x) gx gc st =
      (Inr True, set_heartbeat (jq_GroupID x) (jq_MemberID x) now gc, st)"
    using Suc.prems Heartbeat_local [of st "jq_GroupID x" g "jq_MemberID x" l now gx gc] by (simp add: pair_ok_def)
  let ?gc = "set_heartbeat (jq_GroupID x) (jq_MemberID x) now gc"
  have "gc_config ?gc = cfg" using Suc.prems by (simp add: set_heartbeat_def)
  from pair_step [OF Suc.prems(1) this, of l now] Suc.prems obtain g' st' as where j: "JoinGroup (local_host l) now [] x ?gc st =
      (Inr \<lparr>jp_MemberID = jq_MemberID x, jp_GenerationID = gs_GenerationID g + 1, jp_Assignments = as\<rparr>,
       set_heartbeat (jq_GroupID x) (jq_MemberID x) now ?gc, st')"
    "gs_GenerationID g' = gs_GenerationID g + 1" "pair_ok y x cfg k g' st'" by auto
  have "rejoin_rounds l now n (y, gy) (x, gs_GenerationID g + 1) (set_heartbeat (jq_GroupID x) (jq_MemberID x) now ?gc) st'"
    by (rule Suc.IH [OF j(3)]) (use Suc.prems j(2) in \<open>auto simp: set_heartbeat_def\<close>)
  then show ?case by (simp add: hb j(1))
qed simp

end
