(* ===== verification/PropsGroup.thy ===== *)
theory PropsGroup
  imports GroupLemmas PropsMeta
begin

text \<open>
  The properties of the group coordinator, with witnesses on a state with one topic of two
  partitions.
\<close>

definition demo_leads :: "int \<Rightarrow> go_error + (int \<times> int \<times> bool)" where
  "demo_leads shard = Inr (1, 5, True)"

definition demo_gc :: GroupCoordinator where
  "demo_gc = NewGroupCoordinator \<lparr>gcc_MetadataShardID = 0, ThisNodeID = 1, SessionTimeoutMinMs = 0,
     SessionTimeoutMaxMs = 0, SweepIntervalMs = 0\<rparr>"

definition demo_req :: "string \<Rightarrow> JoinGroupRequest" where
  "demo_req m = \<lparr>jq_GroupID = ''g'', jq_MemberID = m, jq_Topics = [''a''], jq_SessionTimeoutMs = 2000,
     jq_HeartbeatIntervalMs = 500\<rparr>"

lemma demo_meta_inv: "topics_inv 1 demo_meta"
  using meta_run_inv [OF topics_inv_New, of "[Some demo_create]"] demo_meta_run(1)
  by (simp add: entry_ok_def demo_create_def in_int32_def)

lemma demo_meta_state:
  "Topics demo_meta = [(''a'', \<lparr>tm_Name = ''a'', tm_PartitionCount = 2, tm_ReplicationFactor = 1, tm_RetentionMs = 0,
     tm_RetentionBytes = - 1, tm_CreatedAtMs = 7\<rparr>)]" "GroupStates demo_meta = []"
  by code_simp+

definition demo_member :: "string \<Rightarrow> MemberState" where
  "demo_member m = \<lparr>ms_MemberID = m, ms_SubscribedTopics = [''a''], ms_SessionTimeoutMs = 2000,
     ms_HeartbeatIntervalMs = 500, ms_JoinedAt = 0\<rparr>"

definition demo_pair :: GroupState where
  "demo_pair = \<lparr>gs_GroupID = ''g'', gs_Members = [(''x'', demo_member ''x''), (''y'', demo_member ''y'')],
     gs_GenerationID = 2, gs_Assignments = [(''x'', [TopicPartition ''a'' 0]), (''y'', [TopicPartition ''a'' 1])],
     gs_Offsets = []\<rparr>"

definition demo_pair_state :: MetadataState where
  "demo_pair_state = demo_meta\<lparr>GroupStates := [(''g'', demo_pair)]\<rparr>"

lemma demo_pair_inv: "topics_inv 1 demo_pair_state"
  using topics_inv_view [of demo_pair_state demo_meta 1] demo_meta_inv
  by (simp add: topic_view_def demo_pair_state_def)

lemma demo_pair_simps [simp]:
  "map_of (GroupStates demo_pair_state) ''g'' = Some demo_pair" "members_of ''g'' demo_pair_state = gs_Members demo_pair"
  "Topics demo_pair_state = Topics demo_meta" "map_ok (gs_Members demo_pair)"
  by (simp_all add: demo_pair_state_def members_of_def demo_pair_def map_ok_def)

lemma demo_gc_config [simp]:
  "gc_config demo_gc = \<lparr>gcc_MetadataShardID = 0, ThisNodeID = 1, SessionTimeoutMinMs = 1000,
     SessionTimeoutMaxMs = 300000, SweepIntervalMs = 5000\<rparr>"
  by (simp add: demo_gc_def NewGroupCoordinator_def)

text \<open>
  C11. A join shares out every partition.  When the coordinator's checks pass, \<open>JoinGroup\<close> adds the
  member, moves to the next generation, keeps the committed offsets, and assigns every partition of
  the subscribed topics to exactly one member of the group; the response carries the new
  generation and the share of the new member.
\<close>

theorem join_assigns_all:
  assumes "join_ok st req gc" "topics_inv n st" "distinct (jq_Topics req)" "map_ok (members_of (jq_GroupID req) st)"
  shows "\<exists>g'. JoinGroup (local_host l) now uuid req gc st =
      (Inr \<lparr>jp_MemberID = join_id uuid req, jp_GenerationID = gs_GenerationID g',
            jp_Assignments = mget0 [] (gs_Assignments g') (join_id uuid req)\<rparr>,
       set_heartbeat (jq_GroupID req) (join_id uuid req) now gc,
       st\<lparr>GroupStates := mput (jq_GroupID req) g' (GroupStates st)\<rparr>) \<and>
    gs_Members g' = mput (join_id uuid req) (join_member now (join_id uuid req) req) (members_of (jq_GroupID req) st) \<and>
    gs_GenerationID g' = int32 (gs_GenerationID (group_or_new st (jq_GroupID req)) + 1) \<and>
    gs_Offsets g' = gs_Offsets (group_or_new st (jq_GroupID req)) \<and>
    fully_assigned g' (subscribed_parts st (jq_Topics req))"
  by (rule JoinGroup_local [OF assms])

theorem join_assigns_all_witness:
  "\<exists>g' gc'. JoinGroup (local_host demo_leads) 9 ''u'' (demo_req ''z'') demo_gc demo_pair_state =
      (Inr \<lparr>jp_MemberID = ''z'', jp_GenerationID = 3, jp_Assignments = mget0 [] (gs_Assignments g') ''z''\<rparr>,
       gc', demo_pair_state\<lparr>GroupStates := mput ''g'' g' (GroupStates demo_pair_state)\<rparr>) \<and>
    fully_assigned g' (subscribed_parts demo_pair_state [''a''])"
proof -
  have "join_ok demo_pair_state (demo_req ''z'') demo_gc"
    by (simp add: join_ok_def demo_req_def demo_meta_state demo_pair_def demo_member_def)
  from join_assigns_all [OF this demo_pair_inv, of demo_leads 9 "''u''"] show ?thesis
    by (auto simp: demo_req_def join_id_def group_or_new_def demo_pair_def map_ok_def int32_id in_int32_def)
qed

text \<open>
  C27. A leave shares the partitions out again.  \<open>LeaveGroup\<close> of a member removes it, moves to the
  next generation, keeps the committed offsets, and if members remain, every partition of the
  subscribed topics that still exist belongs to exactly one of them.
\<close>

theorem leave_reassigns_all:
  assumes "map_of (GroupStates st) (lq_GroupID req) = Some g" "map_of (gs_Members g) (lq_MemberID req) = Some ms"
    "topics_inv n st" "distinct (ms_SubscribedTopics ms)" "map_ok (gs_Members g)"
  shows "\<exists>g'. LeaveGroup (local_host l) req gc st =
      (None, del_heartbeat (lq_GroupID req) (lq_MemberID req) gc,
       st\<lparr>GroupStates := mput (lq_GroupID req) g' (GroupStates st)\<rparr>) \<and>
    gs_Members g' = mdel (lq_MemberID req) (gs_Members g) \<and>
    gs_GenerationID g' = int32 (gs_GenerationID g + 1) \<and> gs_Offsets g' = gs_Offsets g \<and>
    (gs_Members g' \<noteq> [] \<longrightarrow> fully_assigned g' (subscribed_parts st (ms_SubscribedTopics ms)))"
  by (rule LeaveGroup_local [OF assms])

theorem leave_reassigns_all_witness:
  "\<exists>g' gc'. LeaveGroup (local_host demo_leads) \<lparr>lq_GroupID = ''g'', lq_MemberID = ''x''\<rparr> demo_gc demo_pair_state =
      (None, gc', demo_pair_state\<lparr>GroupStates := mput ''g'' g' (GroupStates demo_pair_state)\<rparr>) \<and>
    gs_Members g' = [(''y'', demo_member ''y'')] \<and> fully_assigned g' (subscribed_parts demo_pair_state [''a''])"
  using leave_reassigns_all [of demo_pair_state "\<lparr>lq_GroupID = ''g'', lq_MemberID = ''x''\<rparr>" demo_pair "demo_member ''x''" 1
      demo_leads demo_gc] demo_pair_inv
  by (auto simp: demo_pair_def demo_member_def map_ok_def)





text \<open>
  C40. Two members never settle.  Two members of a group that rejoin whenever a heartbeat reports a
  newer generation, as clients do, rejoin in every round: each join makes a generation the other
  does not have.  The rounds go on until the generation counter is used up.
\<close>

theorem rejoin_never_settles:
  assumes "pair_ok x y (gc_config gc) k g st" "0 \<le> gs_GenerationID g" "gs_GenerationID g + int n < 2 ^ 31"
    "gx < gs_GenerationID g"
  shows "rejoin_rounds l now n (x, gx) (y, gs_GenerationID g) gc st"
  using rejoin_rounds_forever [OF assms(1) _ assms(2-4)] by simp

theorem rejoin_never_settles_witness:
  "rejoin_rounds demo_leads 0 1000000 (demo_req ''x'', 1) (demo_req ''y'', 2) demo_gc demo_pair_state"
proof -
  have "pair_ok (demo_req ''x'') (demo_req ''y'') (gc_config demo_gc) 1 demo_pair demo_pair_state"
    using demo_pair_inv demo_pair_simps
    by (auto simp: pair_ok_def demo_req_def demo_meta_state demo_pair_def demo_member_def)
  from rejoin_never_settles [OF this, of 1000000 1 demo_leads 0] show ?thesis by (simp add: demo_pair_def)
qed

text \<open>
  Concurrent joins can lose an assignment.  When another member's join is committed between the
  lookup and the proposal of a join, the later join replaces the assignment it has never seen: the
  other member is in the group, but all partitions belong to the member that came second.
\<close>

theorem concurrent_join_drops_member:
  "\<exists>resp gc' h'. JoinGroup (sim_host demo_leads) 9 ''u'' (demo_req ''b'') demo_gc
      \<lparr>sim_meta = demo_meta, sim_sched = [([], None), ([], None), ([CmdJoinConsumerGroup (Some
         \<lparr>jg_GroupID = ''g'', jg_MemberID = ''c'', jg_ClientHost = [], jg_SubscribedTopics = [], jg_JoinedAtMs = 0,
          jg_Member = Some (demo_member ''c''), jg_NewAssignment = Some (rangeAssign [''c''] [''a''] [(''a'', 2)])\<rparr>)], None)]\<rparr> =
      (Inr resp, gc', h') \<and>
    set (mkeys (members_of ''g'' (sim_meta h'))) = {''b'', ''c''} \<and>
    jp_Assignments resp = [TopicPartition ''a'' 0, TopicPartition ''a'' 1] \<and>
    mget0 [] (gs_Assignments (group_or_new (sim_meta h') ''g'')) ''c'' = []"
proof -
  let ?h = "\<lparr>sim_meta = demo_meta, sim_sched = [([], None), ([], None), ([CmdJoinConsumerGroup (Some
         \<lparr>jg_GroupID = ''g'', jg_MemberID = ''c'', jg_ClientHost = [], jg_SubscribedTopics = [], jg_JoinedAtMs = 0,
          jg_Member = Some (demo_member ''c''), jg_NewAssignment = Some (rangeAssign [''c''] [''a''] [(''a'', 2)])\<rparr>)], None)]\<rparr>"
  let ?r = "JoinGroup (sim_host demo_leads) 9 ''u'' (demo_req ''b'') demo_gc ?h"
  have "map_sum (\<lambda>_. ()) jp_Assignments (fst ?r) = Inr [TopicPartition ''a'' 0, TopicPartition ''a'' 1]"
    "mkeys (members_of ''g'' (sim_meta (snd (snd ?r)))) = [''c'', ''b'']"
    "mget0 [] (gs_Assignments (group_or_new (sim_meta (snd (snd ?r))) ''g'')) ''c'' = []"
    by code_simp+
  then show ?thesis
    by (intro exI [of _ "projr (fst ?r)"] exI [of _ "fst (snd ?r)"] exI [of _ "snd (snd ?r)"])
      (cases "fst ?r"; auto simp: prod_eq_iff)
qed

text \<open>
  C24. Range assignment is complete and balanced.  For distinct members and topics, every partition
  of the topics goes to exactly one member, no member gets anything else, and for each topic the
  members' shares differ by at most one.
\<close>

theorem range_assignment:
  assumes "distinct ms" "ms \<noteq> []" "distinct ts" "counts_ok ts counts"
  shows "(\<forall>p \<in> set (all_partitions ts counts). \<exists>!m. m \<in> set ms \<and> p \<in> set (mget0 [] (rangeAssign ms ts counts) m)) \<and>
    (\<forall>m \<in> set ms. set (mget0 [] (rangeAssign ms ts counts) m) \<subseteq> set (all_partitions ts counts) \<and>
      (\<forall>t \<in> set ts. length (filter (\<lambda>tp. tp_Topic tp = t) (mget0 [] (rangeAssign ms ts counts) m)) \<in>
         {nat (mget0 0 counts t) div length ms, nat (mget0 0 counts t) div length ms + 1})) \<and>
    Cluster_rangeAssign ms ts counts = rangeAssign ms ts counts"
proof -
  have v: "assign_input (ms, ts, counts)" using assms by (simp add: assign_input_def)
  show ?thesis
    using ra.one_owner [OF v] ra.nothing_else [OF v] rangeAssign_balanced [OF assms(1,3,4)] assms(2)
      Cluster_rangeAssign_eq by simp
qed

theorem range_assignment_witness:
  "(\<exists>!m. m \<in> {''y'', ''x''} \<and>
     TopicPartition ''a'' 2 \<in> set (mget0 [] (rangeAssign [''y'', ''x''] [''a''] [(''a'', 3)]) m)) \<and>
   mget0 [] (rangeAssign [''y'', ''x''] [''a''] [(''a'', 3)]) ''x'' = [TopicPartition ''a'' 0, TopicPartition ''a'' 1]"
proof -
  have e: "TopicPartition ''a'' 2 \<in> set (all_partitions [''a''] [(''a'', 3)])"
    and x: "mget0 [] (rangeAssign [''y'', ''x''] [''a''] [(''a'', 3)]) ''x'' = [TopicPartition ''a'' 0, TopicPartition ''a'' 1]"
    by code_simp+
  have "counts_ok [''a''] [(''a'', 3)]" by (simp add: counts_ok_def mget0_def)
  then have "\<exists>!m. m \<in> set [''y'', ''x''] \<and>
      TopicPartition ''a'' 2 \<in> set (mget0 [] (rangeAssign [''y'', ''x''] [''a''] [(''a'', 3)]) m)"
    using range_assignment [of "[''y'', ''x'']" "[''a'']" "[(''a'', 3)]", THEN conjunct1, THEN bspec, OF _ _ _ _ e] by simp
  then show ?thesis using x by simp
qed

end
