(* ===== verification/PartHost.thy ===== *)
theory PartHost
  imports Host
begin

text \<open>
  The partition side of the raft host, as the data coordinator sees it
  (\<open>internal/raft/host.go\<close>, and \<open>raftHostIface\<close> of \<open>internal/coordinator/data/data.go\<close>).
  \<open>data_host\<close> is the record of the operations; \<open>psim_host\<close> runs them on the state machines of
  the node, the metadata one and one partition state machine per shard, under a schedule of what
  other nodes commit and of failures.
\<close>

record 'h data_host =
  dh_meta :: "'h host"
  LookupPartition :: "int \<Rightarrow> PartitionQuery \<Rightarrow> 'h \<Rightarrow> (go_error + PartitionAnswer) \<times> 'h"
  SyncProposePartition :: "int \<Rightarrow> PartitionCommand \<Rightarrow> 'h \<Rightarrow> (go_error + int) \<times> 'h"
  ProposePartition :: "int \<Rightarrow> PartitionCommand \<Rightarrow> 'h \<Rightarrow> go_error option \<times> 'h"

definition part_query :: "PartitionQueryType \<Rightarrow> PartitionQuery" where
  "part_query t = \<lparr>pq_Type = t, pq_Offset = 0, pq_TimestampMs = 0, pq_MaxBytes = 0\<rparr>"

section \<open>What happens to a partition\<close>

text \<open>
  Between two calls of a client a partition replica applies committed commands, in entries with
  consecutive indexes, or its background loop enforces the retention limits.
\<close>

datatype part_event = Committed "bytes list" | RetentionTick int

definition entries_after :: "int \<Rightarrow> bytes list \<Rightarrow> Entry list" where
  "entries_after idx cmds =
     map (\<lambda>i. \<lparr>e_Index = idx + 1 + int i, e_Cmd = cmds ! i, e_Result = 0\<rparr>) [0..<length cmds]"

fun on_event :: "os_env \<Rightarrow> StorageConfig \<Rightarrow> (bytes \<Rightarrow> go_error + (int \<times> int)) \<Rightarrow> part_event \<Rightarrow> PartitionFSM \<Rightarrow> PartitionFSM" where
  "on_event os cfg dec (Committed cmds) f =
     snd (PartitionFSM_Update os cfg dec (entries_after (lastAppliedIndex f) cmds) f)"
| "on_event os cfg dec (RetentionTick now) f =
     (case fsm_storage f of None \<Rightarrow> f | Some s \<Rightarrow> f\<lparr>fsm_storage := Some (retention_tick now s)\<rparr>)"

definition on_events :: "os_env \<Rightarrow> StorageConfig \<Rightarrow> (bytes \<Rightarrow> go_error + (int \<times> int)) \<Rightarrow> part_event list \<Rightarrow> PartitionFSM \<Rightarrow> PartitionFSM" where
  "on_events os cfg dec evs f = fold (on_event os cfg dec) evs f"

section \<open>A node with a schedule\<close>

type_synonym part_sched = "(MetadataCommand list \<times> (int \<times> part_event) list \<times> go_error option) list"

record psim =
  ps_meta :: MetadataState
  ps_shards :: "(int, PartitionFSM) gomap"
  ps_sched :: part_sched

definition shard_event :: "os_env \<Rightarrow> StorageConfig \<Rightarrow> (bytes \<Rightarrow> go_error + (int \<times> int)) \<Rightarrow> int \<times> part_event \<Rightarrow>
    (int, PartitionFSM) gomap \<Rightarrow> (int, PartitionFSM) gomap" where
  "shard_event os cfg dec ev shards =
     (case map_of shards (fst ev) of
        None \<Rightarrow> shards
      | Some f \<Rightarrow> mput (fst ev) (on_event os cfg dec (snd ev) f) shards)"

definition psim_next :: "os_env \<Rightarrow> StorageConfig \<Rightarrow> (bytes \<Rightarrow> go_error + (int \<times> int)) \<Rightarrow> psim \<Rightarrow> go_error option \<times> psim" where
  "psim_next os cfg dec h = (case ps_sched h of
     [] \<Rightarrow> (None, h)
   | (cs, evs, e) # sched \<Rightarrow>
       (e, \<lparr>ps_meta = apply_all cs (ps_meta h), ps_shards = fold (shard_event os cfg dec) evs (ps_shards h),
            ps_sched = sched\<rparr>))"

definition psim_meta_host :: "os_env \<Rightarrow> StorageConfig \<Rightarrow> (bytes \<Rightarrow> go_error + (int \<times> int)) \<Rightarrow>
    (int \<Rightarrow> go_error + (int \<times> int \<times> bool)) \<Rightarrow> psim host" where
  "psim_meta_host os cfg dec leader =
     \<lparr>SyncProposeMetadata = (\<lambda>c h.
        (case psim_next os cfg dec h of
           (Some e, h') \<Rightarrow> (Inl e, h')
         | (None, h') \<Rightarrow> (case local_propose c (ps_meta h') of (r, st') \<Rightarrow> (r, h'\<lparr>ps_meta := st'\<rparr>)))),
      LookupMetadata = (\<lambda>q h.
        (case psim_next os cfg dec h of
           (Some e, h') \<Rightarrow> (Inl e, h')
         | (None, h') \<Rightarrow> (MetadataFSM_Lookup q (ps_meta h'), h'))),
      GetLeaderID = (\<lambda>shard h. leader shard),
      LiveMembers = (\<lambda>grp h. members_of grp (ps_meta h))\<rparr>"

text \<open>
  A command of \<open>ProposePartition\<close> is committed at some later point; here before the next call.
\<close>

definition psim_host :: "os_env \<Rightarrow> StorageConfig \<Rightarrow> (bytes \<Rightarrow> go_error + (int \<times> int)) \<Rightarrow>
    (int \<Rightarrow> go_error + (int \<times> int \<times> bool)) \<Rightarrow> psim data_host" where
  "psim_host os cfg dec leader =
     \<lparr>dh_meta = psim_meta_host os cfg dec leader,
      LookupPartition = (\<lambda>shard q h.
        (case psim_next os cfg dec h of
           (Some e, h') \<Rightarrow> (Inl e, h')
         | (None, h') \<Rightarrow>
             (case map_of (ps_shards h') shard of
                None \<Rightarrow> (Inl (SysErr ''shard not found''), h')
              | Some f \<Rightarrow> (PartitionFSM_Lookup q f, h')))),
      SyncProposePartition = (\<lambda>shard c h.
        (case psim_next os cfg dec h of
           (Some e, h') \<Rightarrow> (Inl e, h')
         | (None, h') \<Rightarrow>
             (case map_of (ps_shards h') shard of
                None \<Rightarrow> (Inl (SysErr ''shard not found''), h')
              | Some f \<Rightarrow>
                  (case PartitionFSM_Update os cfg dec (entries_after (lastAppliedIndex f) [PartitionCommand_Marshal c]) f of
                     (Inl e, f') \<Rightarrow> (Inl e, h'\<lparr>ps_shards := mput shard f' (ps_shards h')\<rparr>)
                   | (Inr es, f') \<Rightarrow> (Inr (e_Result (hd es)), h'\<lparr>ps_shards := mput shard f' (ps_shards h')\<rparr>))))),
      ProposePartition = (\<lambda>shard c h.
        (case psim_next os cfg dec h of
           (Some e, h') \<Rightarrow> (Some e, h')
         | (None, h') \<Rightarrow> (None, h'\<lparr>ps_sched := ([], [(shard, Committed [PartitionCommand_Marshal c])], None) # ps_sched h'\<rparr>)))\<rparr>"


lemma psim_next_env: "psim_next os cfg dec h = (x, h') \<Longrightarrow> \<exists>cs. ps_meta h' = apply_all cs (ps_meta h)"
  by (auto simp: psim_next_def split: list.splits prod.splits intro: exI [of _ "[]"])

interpretation ph: meta_host "psim_meta_host os cfg dec leader" ps_meta for os cfg dec leader
proof (unfold_locales, goal_cases)
  case (1 q h r h')
  then show ?case
    using psim_next_env [of os cfg dec h] by (auto simp: psim_meta_host_def split: prod.splits option.splits)
next
  case (2 q h a h')
  then show ?case by (auto simp: psim_meta_host_def split: prod.splits option.splits)
next
  case (3 c h e h')
  then obtain x h1 where "psim_next os cfg dec h = (x, h1)" "ps_meta h' = ps_meta h1"
    by (auto simp: psim_meta_host_def local_propose_def split: prod.splits option.splits sum.splits)
  then show ?case using psim_next_env [of os cfg dec h] by auto
next
  case (4 c h r h')
  then obtain h1 where h1: "psim_next os cfg dec h = (None, h1)" "applyCommand (wire c) (ps_meta h1) = Inr (r, ps_meta h')"
    by (auto simp: psim_meta_host_def local_propose_def split: prod.splits option.splits sum.splits)
  then show ?case using psim_next_env [OF h1(1)] by auto
qed (simp add: psim_meta_host_def)

end
