(* ===== verification/DataCoord.thy ===== *)
theory DataCoord
  imports PartHost
begin

text \<open>
  The data coordinator (\<open>internal/coordinator/data/data.go\<close>): routing of produce and fetch
  requests to the partition shards of this node.  Its state is the registry of the shards that run
  here and a cache of node addresses.  Times are in nanoseconds and are arguments: a pair is the
  two readings of the clock \<open>nodeAddress\<close> may take.
\<close>

section \<open>Types\<close>

definition AcksAll :: int where
  "AcksAll = - 1"

definition AcksZero :: int where
  "AcksZero = 0"

record shardEntry =
  se_ShardID :: int
  se_Topic :: string
  se_PartitionID :: int

record nodeAddrEntry =
  na_address :: string
  na_fetchedAt :: int

record DataCoordinatorConfig =
  dcc_NodeID :: int
  NodeAddressCacheTTLMs :: int

record DataCoordinator =
  dc_config :: DataCoordinatorConfig
  shardRegistry :: "(string \<times> int, shardEntry) gomap"
  nodeAddrCache :: "(int, nodeAddrEntry) gomap"

definition NewDataCoordinator :: "DataCoordinatorConfig \<Rightarrow> DataCoordinator" where
  "NewDataCoordinator cfg = \<lparr>dc_config = cfg, shardRegistry = [], nodeAddrCache = []\<rparr>"

section \<open>The registry\<close>

definition StartPartitionReplica :: "string \<Rightarrow> int \<Rightarrow> int \<Rightarrow> DataCoordinator \<Rightarrow> DataCoordinator" where
  "StartPartitionReplica topic partitionID shardID dc =
     dc\<lparr>shardRegistry := mput (topic, partitionID)
        \<lparr>se_ShardID = shardID, se_Topic = topic, se_PartitionID = partitionID\<rparr> (shardRegistry dc)\<rparr>"

definition StopPartitionReplica :: "string \<Rightarrow> int \<Rightarrow> int \<Rightarrow> DataCoordinator \<Rightarrow> DataCoordinator" where
  "StopPartitionReplica topic partitionID shardID dc =
     dc\<lparr>shardRegistry := mdel (topic, partitionID) (shardRegistry dc)\<rparr>"

section \<open>Finding the leader\<close>

definition nodeAddress :: "'h data_host \<Rightarrow> int \<times> int \<Rightarrow> int \<Rightarrow> DataCoordinator \<Rightarrow> 'h \<Rightarrow>
    string \<times> DataCoordinator \<times> 'h" where
  "nodeAddress nh t nodeID dc h =
     (let ttl = int64 (NodeAddressCacheTTLMs (dc_config dc) * 1000000);
          hit = (case map_of (nodeAddrCache dc) nodeID of
                   None \<Rightarrow> None
                 | Some entry \<Rightarrow>
                     if ttl \<le> 0 \<or> fst t - na_fetchedAt entry < ttl then Some (na_address entry) else None)
      in case hit of
           Some address \<Rightarrow> (address, dc, h)
         | None \<Rightarrow>
             (case LookupMetadata (dh_meta nh) (query0 QueryListNodes) h of
                (Inr (AnsNodes nodes), h) \<Rightarrow>
                  let address = (case find (\<lambda>n. ni_NodeID n = nodeID) nodes of None \<Rightarrow> [] | Some n \<Rightarrow> ni_Address n)
                  in (address,
                      dc\<lparr>nodeAddrCache := mput nodeID \<lparr>na_address = address, na_fetchedAt = snd t\<rparr> (nodeAddrCache dc)\<rparr>, h)
              | (_, h) \<Rightarrow> ([], dc, h)))"

definition partition_query :: "string \<Rightarrow> int \<Rightarrow> MetadataQuery" where
  "partition_query topic partitionID =
     (query0 QueryGetPartition)\<lparr>mq_TopicName := topic, mq_PartitionID := partitionID\<rparr>"

definition leaderCheck :: "'h data_host \<Rightarrow> int \<times> int \<Rightarrow> string \<Rightarrow> int \<Rightarrow> DataCoordinator \<Rightarrow> 'h \<Rightarrow>
    (go_error + int) \<times> DataCoordinator \<times> 'h" where
  "leaderCheck nh t topic partitionID dc h =
     (case LookupMetadata (dh_meta nh) (partition_query topic partitionID) h of
        (Inl err, h) \<Rightarrow> (Inl (DataE DErrUnavailable), dc, h)
      | (Inr AnsNil, h) \<Rightarrow> (Inl (DataE ErrPartitionNotFound), dc, h)
      | (Inr (AnsPartition pm), h) \<Rightarrow>
          if pm_LeaderNodeID pm \<noteq> dcc_NodeID (dc_config dc)
          then (case nodeAddress nh t (pm_LeaderNodeID pm) dc h of
                  (addr, dc, h) \<Rightarrow> (Inl (NotLeaderError (pm_LeaderNodeID pm) addr), dc, h))
          else (case map_of (shardRegistry dc) (topic, partitionID) of
                  None \<Rightarrow> (Inl (DataE DErrUnavailable), dc, h)
                | Some entry \<Rightarrow> (Inr (se_ShardID entry), dc, h))
      | (Inr _, h) \<Rightarrow> (Inl bad_type, dc, h))"

section \<open>Produce\<close>

definition Produce :: "'h data_host \<Rightarrow> int \<times> int \<Rightarrow> string \<Rightarrow> int \<Rightarrow> bytes \<Rightarrow> int \<Rightarrow> DataCoordinator \<Rightarrow> 'h \<Rightarrow>
    (go_error + int) \<times> DataCoordinator \<times> 'h" where
  "Produce nh t topic partitionID batch acks dc h =
     (case leaderCheck nh t topic partitionID dc h of
        (Inl err, dc, h) \<Rightarrow> (Inl err, dc, h)
      | (Inr shardID, dc, h) \<Rightarrow>
          let cmd = \<lparr>pc_Type = CmdAppendBatch, pc_Payload = batch\<rparr>
          in if acks = AcksAll
             then (case SyncProposePartition nh shardID cmd h of
                     (Inl err, h) \<Rightarrow> (Inl err, dc, h)
                   | (Inr v, h) \<Rightarrow> (Inr (int64 v), dc, h))
             else (case ProposePartition nh shardID cmd h of
                     (Some err, h) \<Rightarrow> (Inl err, dc, h)
                   | (None, h) \<Rightarrow> (Inr (- 1), dc, h)))"

section \<open>Fetch\<close>

text \<open>
  One round of the long poll observes the clock, the clock readings of \<open>nodeAddress\<close>, and which
  case of the final \<open>select\<close> fires.  The loop runs over the observations; \<open>None\<close> is a call that
  still waits when they end.
\<close>

datatype wake = NewData | Elapsed | Cancelled

record poll =
  po_now :: int
  po_addr :: "int \<times> int"
  po_wake :: wake

definition read_query :: "int \<Rightarrow> int \<Rightarrow> PartitionQuery" where
  "read_query offset maxBytes = (part_query QueryRead)\<lparr>pq_Offset := offset, pq_MaxBytes := maxBytes\<rparr>"

fun longPoll_loop :: "'h data_host \<Rightarrow> string \<Rightarrow> int \<Rightarrow> int \<Rightarrow> int \<Rightarrow> int \<Rightarrow> int \<Rightarrow> poll list \<Rightarrow> DataCoordinator \<Rightarrow> 'h \<Rightarrow>
    ((go_error + (bytes \<times> int)) \<times> DataCoordinator \<times> 'h) option" where
  "longPoll_loop nh topic partitionID shardID offset maxBytes deadline [] dc h = None"
| "longPoll_loop nh topic partitionID shardID offset maxBytes deadline (p # ps) dc h =
     (if deadline - po_now p \<le> 0 then Some (Inr ([], 0), dc, h)
      else (case LookupPartition nh shardID (part_query QueryGetNewDataCh) h of
        (Inl err, h) \<Rightarrow> Some (Inl err, dc, h)
      | (Inr (ChannelAnswer ch), h) \<Rightarrow>
      (case LookupMetadata (dh_meta nh) (partition_query topic partitionID) h of
        (Inl err, h) \<Rightarrow> Some (Inl (DataE DErrUnavailable), dc, h)
      | (Inr AnsNil, h) \<Rightarrow> Some (Inl (DataE DErrUnavailable), dc, h)
      | (Inr (AnsPartition pm), h) \<Rightarrow>
          if pm_LeaderNodeID pm \<noteq> dcc_NodeID (dc_config dc)
          then (case nodeAddress nh (po_addr p) (pm_LeaderNodeID pm) dc h of
                  (addr, dc, h) \<Rightarrow> Some (Inl (NotLeaderError (pm_LeaderNodeID pm) addr), dc, h))
          else (case LookupPartition nh shardID (read_query offset maxBytes) h of
            (Inl err, h) \<Rightarrow> Some (Inl err, dc, h)
          | (Inr (PartitionLookupResult batches nxt), h) \<Rightarrow>
              if 0 < length batches then Some (Inr (batches, nxt), dc, h)
              else (case po_wake p of
                      NewData \<Rightarrow> longPoll_loop nh topic partitionID shardID offset maxBytes deadline ps dc h
                    | Elapsed \<Rightarrow> Some (Inr ([], 0), dc, h)
                    | Cancelled \<Rightarrow> Some (Inl ContextErr, dc, h))
          | (Inr _, h) \<Rightarrow> Some (Inl bad_type, dc, h))
      | (Inr _, h) \<Rightarrow> Some (Inl bad_type, dc, h))
      | (Inr _, h) \<Rightarrow> Some (Inl bad_type, dc, h)))"

definition fetchWithLongPoll :: "'h data_host \<Rightarrow> int \<Rightarrow> string \<Rightarrow> int \<Rightarrow> int \<Rightarrow> int \<Rightarrow> int \<Rightarrow> int \<Rightarrow> poll list \<Rightarrow> DataCoordinator \<Rightarrow> 'h \<Rightarrow>
    ((go_error + (bytes \<times> int)) \<times> DataCoordinator \<times> 'h) option" where
  "fetchWithLongPoll nh now topic partitionID shardID offset maxBytes maxWaitMs ps dc h =
     (let deadline = now + int64 (maxWaitMs * 1000000)
      in longPoll_loop nh topic partitionID shardID offset maxBytes deadline ps dc h)"

definition Fetch :: "'h data_host \<Rightarrow> int \<times> int \<Rightarrow> int \<Rightarrow> string \<Rightarrow> int \<Rightarrow> int \<Rightarrow> int \<Rightarrow> int \<Rightarrow> poll list \<Rightarrow> DataCoordinator \<Rightarrow> 'h \<Rightarrow>
    ((go_error + (bytes \<times> int)) \<times> DataCoordinator \<times> 'h) option" where
  "Fetch nh t now topic partitionID offset maxBytes maxWaitMs ps dc h =
     (case leaderCheck nh t topic partitionID dc h of
        (Inl err, dc, h) \<Rightarrow> Some (Inl err, dc, h)
      | (Inr shardID, dc, h) \<Rightarrow>
          if maxWaitMs = 0
          then (case LookupPartition nh shardID (read_query offset maxBytes) h of
                  (Inl err, h) \<Rightarrow> Some (Inl err, dc, h)
                | (Inr (PartitionLookupResult batches nxt), h) \<Rightarrow> Some (Inr (batches, nxt), dc, h)
                | (Inr _, h) \<Rightarrow> Some (Inl bad_type, dc, h))
          else fetchWithLongPoll nh now topic partitionID shardID offset maxBytes maxWaitMs ps dc h)"

section \<open>Offsets\<close>

definition lookup_offset :: "'h data_host \<Rightarrow> PartitionQueryType \<Rightarrow> int \<Rightarrow> 'h \<Rightarrow> (go_error + int) \<times> 'h" where
  "lookup_offset nh q shardID h =
     (case LookupPartition nh shardID (part_query q) h of
        (Inl err, h) \<Rightarrow> (Inl err, h)
      | (Inr (OffsetAnswer off), h) \<Rightarrow> (Inr off, h)
      | (Inr _, h) \<Rightarrow> (Inl bad_type, h))"

definition GetEarliestOffset :: "'h data_host \<Rightarrow> int \<times> int \<Rightarrow> string \<Rightarrow> int \<Rightarrow> DataCoordinator \<Rightarrow> 'h \<Rightarrow>
    (go_error + int) \<times> DataCoordinator \<times> 'h" where
  "GetEarliestOffset nh t topic partitionID dc h =
     (case leaderCheck nh t topic partitionID dc h of
        (Inl err, dc, h) \<Rightarrow> (Inl err, dc, h)
      | (Inr shardID, dc, h) \<Rightarrow> (case lookup_offset nh QueryEarliestOffset shardID h of (r, h) \<Rightarrow> (r, dc, h)))"

definition GetLatestOffset :: "'h data_host \<Rightarrow> int \<times> int \<Rightarrow> string \<Rightarrow> int \<Rightarrow> DataCoordinator \<Rightarrow> 'h \<Rightarrow>
    (go_error + int) \<times> DataCoordinator \<times> 'h" where
  "GetLatestOffset nh t topic partitionID dc h =
     (case leaderCheck nh t topic partitionID dc h of
        (Inl err, dc, h) \<Rightarrow> (Inl err, dc, h)
      | (Inr shardID, dc, h) \<Rightarrow> (case lookup_offset nh QueryLatestOffset shardID h of (r, h) \<Rightarrow> (r, dc, h)))"

definition GetOffsetByTimestamp :: "'h data_host \<Rightarrow> int \<times> int \<Rightarrow> string \<Rightarrow> int \<Rightarrow> int \<Rightarrow> DataCoordinator \<Rightarrow> 'h \<Rightarrow>
    (go_error + int) \<times> DataCoordinator \<times> 'h" where
  "GetOffsetByTimestamp nh t topic partitionID timestampMs dc h =
     (case leaderCheck nh t topic partitionID dc h of
        (Inl err, dc, h) \<Rightarrow> (Inl err, dc, h)
      | (Inr shardID, dc, h) \<Rightarrow>
          (case LookupPartition nh shardID
                  ((part_query QueryReadByTime)\<lparr>pq_TimestampMs := timestampMs, pq_MaxBytes := 512\<rparr>) h of
             (Inl err, h) \<Rightarrow>
               if errors_Is err (StorageE ErrTimestampNotFound) then (Inl (DataE ErrOffsetNotFound), dc, h)
               else (Inl err, dc, h)
           | (Inr (PartitionLookupResult batches nxt), h) \<Rightarrow>
               if length batches < 8 then (Inl (DataE ErrOffsetNotFound), dc, h)
               else (Inr (int64 (be_int (slc batches 0 8))), dc, h)
           | (Inr _, h) \<Rightarrow> (Inl bad_type, dc, h)))"

definition PartitionOffsets :: "'h data_host \<Rightarrow> int \<Rightarrow> 'h \<Rightarrow> (go_error + (int \<times> int)) \<times> 'h" where
  "PartitionOffsets nh shardID h =
     (case lookup_offset nh QueryEarliestOffset shardID h of
        (Inl err, h) \<Rightarrow> (Inl err, h)
      | (Inr earliest, h) \<Rightarrow>
          (case lookup_offset nh QueryLatestOffset shardID h of
             (Inl err, h) \<Rightarrow> (Inl err, h)
           | (Inr latest, h) \<Rightarrow> (Inr (earliest, latest), h)))"

end
