(* ===== verification/DataLemmas.thy ===== *)
theory DataLemmas
  imports DataCoord
begin

text \<open>
  Lemmas about the data coordinator and the partition replicas behind it: the log of a gapless
  storage read as one chain of batches, the states a replica reaches by committed commands and
  retention ticks (\<open>part_reach\<close>), and the behaviour of the coordinator on a node that leads the
  partition.
\<close>

section \<open>The log of a gapless storage\<close>

lemma segments_chain:
  assumes "successively (\<lambda>g h. seg_end g = seg_baseOffset h) gs" "gs \<noteq> []"
    "\<forall>g \<in> set gs. list_all wf_batch (seg_batches g) \<and> chain (seg_baseOffset g) (seg_batches g)"
  shows "chain (seg_baseOffset (hd gs)) (concat (map seg_batches gs)) \<and>
    log_end (seg_baseOffset (hd gs)) (concat (map seg_batches gs)) = seg_end (last gs)"
  using assms
proof (induction gs)
  case (Cons g gs)
  then show ?case by (cases gs) (auto simp: seg_end_def)
qed simp

lemma storage_log_chain:
  assumes "storage_inv cfg s" "gapless s"
  shows "chain (Storage_EarliestOffset s) (storage_log s)" "list_all wf_batch (storage_log s)"
    "log_end (Storage_EarliestOffset s) (storage_log s) = nextOffset s"
proof -
  have ok: "\<forall>g \<in> set (segments s). list_all wf_batch (seg_batches g) \<and> chain (seg_baseOffset g) (seg_batches g)"
    using storage_inv_seg_ok [OF assms(1)] by (auto simp: seg_ok_def log_ok_def)
  then show "list_all wf_batch (storage_log s)" by (auto simp: storage_log_def list_all_iff)
  have "segments s \<noteq> []" using assms(1) by (simp add: storage_inv_def)
  then show "chain (Storage_EarliestOffset s) (storage_log s)"
    "log_end (Storage_EarliestOffset s) (storage_log s) = nextOffset s"
    using segments_chain [of "segments s"] ok assms
    by (simp_all add: storage_inv_def storage_log_def gapless_def Storage_EarliestOffset_def SegmentStorage_BaseOffset_def hd_conv_nth)
qed

lemma chain_cover_unique:
  assumes "chain base bs" "list_all wf_batch bs" "b \<in> set bs" "c \<in> set bs" "covers b off" "covers c off"
  shows "b = c"
  using assms
proof (induction bs arbitrary: base)
  case (Cons x bs)
  have "bend x \<le> boff y" if "y \<in> set bs" for y
    using chain_after [of base x bs y] Cons.prems(1,2) that by simp
  then show ?case using Cons by (fastforce simp: covers_def)
qed simp

section \<open>Updates with appends and retention changes\<close>

definition cmd_fine :: "(bytes \<Rightarrow> go_error + (int \<times> int)) \<Rightarrow> bytes \<Rightarrow> bool" where
  "cmd_fine dec c \<longleftrightarrow> (case c of [] \<Rightarrow> False
     | k # payload \<Rightarrow> k = CmdAppendBatch \<and> wf_batch payload \<or> k = CmdRetentionConfig \<and> \<not> isl (dec payload))"

definition cmd_batches :: "bytes list \<Rightarrow> bytes list" where
  "cmd_batches cmds = map tl (filter (\<lambda>c. hd c = CmdAppendBatch) cmds)"

lemma cmd_fine_batch: "cmd_fine dec c \<Longrightarrow> hd c = CmdAppendBatch \<Longrightarrow> wf_batch (tl c)"
  by (cases c) (auto simp: cmd_fine_def CmdAppendBatch_def CmdRetentionConfig_def)

lemma cmd_batches_wf: "list_all (cmd_fine dec) cmds \<Longrightarrow> list_all wf_batch (cmd_batches cmds)"
  using cmd_fine_batch by (auto simp: cmd_batches_def list_all_iff)

lemma set_retention_frame [simp]:
  "storage_inv cfg (Storage_SetRetentionConfig ms lim s) = storage_inv cfg s"
  "storage_log (Storage_SetRetentionConfig ms lim s) = storage_log s"
  "nextOffset (Storage_SetRetentionConfig ms lim s) = nextOffset s"
  "newDataCh (Storage_SetRetentionConfig ms lim s) = newDataCh s"
  "gapless (Storage_SetRetentionConfig ms lim s) = gapless s"
  "Storage_EarliestOffset (Storage_SetRetentionConfig ms lim s) = Storage_EarliestOffset s"
  by (simp_all add: Storage_SetRetentionConfig_def storage_inv_def storage_log_def gapless_def
      Storage_EarliestOffset_def no_stray_files_def)

text \<open>What a run of well-formed commands does to a storage.\<close>

definition grown :: "StorageConfig \<Rightarrow> bytes list \<Rightarrow> storageImpl \<Rightarrow> storageImpl \<Rightarrow> bool" where
  "grown cfg bs s s' \<longleftrightarrow> storage_inv cfg s' \<and> storage_log s' = storage_log s @ stamp_all bs (nextOffset s) \<and>
     nextOffset s' = log_end (nextOffset s) bs \<and> newDataCh s' = newDataCh s + length bs \<and>
     Storage_EarliestOffset s' = Storage_EarliestOffset s \<and> (gapless s \<longrightarrow> gapless s')"

lemma grown_Nil: "storage_inv cfg s \<Longrightarrow> grown cfg [] s s"
  by (simp add: grown_def)

lemma grown_retention: "grown cfg bs (Storage_SetRetentionConfig ms lim s) s' = grown cfg bs s s'"
  by (simp add: grown_def)

lemma grown_append:
  assumes "os_ok os" "cfg_ok cfg" "storage_inv cfg s" "wf_batch b" "nextOffset s + bcount b < 2 ^ 63"
  shows "\<exists>s1. Storage_Append os cfg b s = (Inr (nextOffset s), s1) \<and> storage_inv cfg s1 \<and>
    nextOffset s1 = nextOffset s + bcount b \<and> (\<forall>bs s'. grown cfg bs s1 s' \<longrightarrow> grown cfg (b # bs) s s')"
proof -
  obtain s1 where s1: "Storage_Append os cfg b s = (Inr (nextOffset s), s1)" "storage_inv cfg s1"
    "storage_log s1 = storage_log s @ [stamp b (nextOffset s)]" "nextOffset s1 = nextOffset s + bcount b"
    "newDataCh s1 = Suc (newDataCh s)" "Storage_EarliestOffset s1 = Storage_EarliestOffset s" "gapless s \<longrightarrow> gapless s1"
    using Storage_Append_refines [OF assms] by (auto simp: stamp_def)
  then have "\<forall>bs s'. grown cfg bs s1 s' \<longrightarrow> grown cfg (b # bs) s s'" by (simp add: grown_def)
  with s1 show ?thesis by blast
qed

lemma Update_loop_grown:
  assumes "os_ok os" "cfg_ok cfg" "storage_inv cfg s" "list_all (cmd_fine dec) (map e_Cmd es)"
    "log_end (nextOffset s) (cmd_batches (map e_Cmd es)) < 2 ^ 63"
  shows "\<exists>rs s'. Update_loop os cfg dec es s = (Inr rs, s') \<and> length rs = length es \<and>
    grown cfg (cmd_batches (map e_Cmd es)) s s'"
  using assms(3-)
proof (induction es arbitrary: s)
  case (Cons e es)
  obtain k p where c: "e_Cmd e = k # p" using Cons.prems(2) by (auto simp: cmd_fine_def split: list.splits)
  let ?bs = "cmd_batches (map e_Cmd es)"
  show ?case
  proof (cases "k = CmdAppendBatch")
    case True
    have wf: "wf_batch p" using Cons.prems(2) c True
      by (simp add: cmd_fine_def CmdAppendBatch_def CmdRetentionConfig_def)
    have bt: "cmd_batches (map e_Cmd (e # es)) = p # ?bs" using c True by (simp add: cmd_batches_def)
    have "list_all wf_batch ?bs" using cmd_batches_wf [of dec] Cons.prems(2) by simp
    then have "nextOffset s + bcount p < 2 ^ 63"
      using wf_log_end(1) [of ?bs "nextOffset s + bcount p"] Cons.prems(3) bt by simp
    then obtain s1 where s1: "Storage_Append os cfg p s = (Inr (nextOffset s), s1)" "storage_inv cfg s1"
      "nextOffset s1 = nextOffset s + bcount p" "\<forall>bs s'. grown cfg bs s1 s' \<longrightarrow> grown cfg (p # bs) s s'"
      using grown_append [OF assms(1,2) Cons.prems(1) wf] by blast
    obtain rs s' where "Update_loop os cfg dec es s1 = (Inr rs, s')" "length rs = length es" "grown cfg ?bs s1 s'"
      using Cons.IH [of s1] s1 Cons.prems bt by auto
    then show ?thesis using s1 c True bt by simp
  next
    case False
    have k: "k = CmdRetentionConfig" "\<not> isl (dec p)" using Cons.prems(2) c False by (auto simp: cmd_fine_def)
    obtain ms lim where d: "dec p = Inr (ms, lim)" using k(2) by (cases "dec p") auto
    have bt: "cmd_batches (map e_Cmd (e # es)) = ?bs" using c False by (simp add: cmd_batches_def)
    obtain rs s' where "Update_loop os cfg dec es (Storage_SetRetentionConfig ms lim s) = (Inr rs, s')"
      "length rs = length es" "grown cfg ?bs (Storage_SetRetentionConfig ms lim s) s'"
      using Cons.IH [of "Storage_SetRetentionConfig ms lim s"] Cons.prems bt by auto
    then show ?thesis using c False k(1) d bt by (simp add: grown_retention)
  qed
qed (simp add: cmd_batches_def grown_Nil)


section \<open>Reachable states of a partition replica\<close>

fun ev_fine :: "(bytes \<Rightarrow> go_error + (int \<times> int)) \<Rightarrow> part_event \<Rightarrow> PartitionFSM \<Rightarrow> bool" where
  "ev_fine dec (Committed cmds) f \<longleftrightarrow> cmds \<noteq> [] \<and> list_all (cmd_fine dec) cmds \<and>
     (case fsm_storage f of None \<Rightarrow> False | Some s \<Rightarrow> log_end (nextOffset s) (cmd_batches cmds) < 2 ^ 63)"
| "ev_fine dec (RetentionTick now) f \<longleftrightarrow> True"

fun is_commit :: "part_event \<Rightarrow> bool" where
  "is_commit (Committed cmds) = True"
| "is_commit (RetentionTick now) = False"

inductive part_reach :: "os_env \<Rightarrow> StorageConfig \<Rightarrow> (bytes \<Rightarrow> go_error + (int \<times> int)) \<Rightarrow> (part_event \<Rightarrow> bool) \<Rightarrow>
    PartitionFSM \<Rightarrow> PartitionFSM \<Rightarrow> bool" for os cfg dec P f where
  part_reach_refl: "part_reach os cfg dec P f f"
| part_reach_step: "part_reach os cfg dec P f g \<Longrightarrow> P ev \<Longrightarrow> ev_fine dec ev g \<Longrightarrow>
    part_reach os cfg dec P f (on_event os cfg dec ev g)"

definition part_fine :: "StorageConfig \<Rightarrow> PartitionFSM \<Rightarrow> bool" where
  "part_fine cfg f \<longleftrightarrow> \<not> fsm_closed f \<and> (case fsm_storage f of None \<Rightarrow> False | Some s \<Rightarrow> storage_inv cfg s)"

lemma part_fineE:
  assumes "part_fine cfg f"
  obtains s where "fsm_storage f = Some s" "storage_inv cfg s" "\<not> fsm_closed f"
  using assms by (auto simp: part_fine_def split: option.splits)

lemma entries_after_cmds: "map e_Cmd (entries_after idx cmds) = cmds"
  by (auto simp: entries_after_def intro: nth_equalityI)

lemma Update_grown:
  assumes "os_ok os" "cfg_ok cfg" "fsm_storage f = Some s" "storage_inv cfg s" "cmds \<noteq> []"
    "list_all (cmd_fine dec) cmds" "log_end (nextOffset s) (cmd_batches cmds) < 2 ^ 63"
  shows "\<exists>f' s'. snd (PartitionFSM_Update os cfg dec (entries_after idx cmds) f) = f' \<and>
    fsm_storage f' = Some s' \<and> fsm_closed f' = fsm_closed f \<and> grown cfg (cmd_batches cmds) s s'"
proof -
  have ne: "entries_after idx cmds \<noteq> []" using assms(5) by (simp add: entries_after_def)
  obtain rs s' where u: "Update_loop os cfg dec (entries_after idx cmds) s = (Inr rs, s')"
    "grown cfg (cmd_batches cmds) s s'"
    using Update_loop_grown [OF assms(1,2,4), of dec "entries_after idx cmds"] assms(6,7)
    by (auto simp: entries_after_cmds)
  then have "segments s' \<noteq> []" by (simp add: grown_def storage_inv_def)
  then show ?thesis
    using u ne assms(1,3) unfolding PartitionFSM_Update_def persistApplied_def Storage_Sync_def
    by (auto simp: Let_def LogSegment_Sync_def split: option.splits)
qed

lemma retention_tick_frame:
  assumes "storage_inv cfg s"
  shows "storage_inv cfg (retention_tick now s)" "nextOffset (retention_tick now s) = nextOffset s"
    "newDataCh (retention_tick now s) = newDataCh s"
  using Storage_EnforceRetention_inv [OF assms, of now "retentionMs s" "retentionBytes s"]
  by (simp_all add: retention_tick_def prod_eq_iff)
     (simp add: Storage_EnforceRetention_def Let_def)

lemma on_event_fine:
  assumes "os_ok os" "cfg_ok cfg" "fsm_storage f = Some s" "storage_inv cfg s" "\<not> fsm_closed f" "ev_fine dec ev f"
  shows "\<exists>s'. fsm_storage (on_event os cfg dec ev f) = Some s' \<and> storage_inv cfg s' \<and>
    \<not> fsm_closed (on_event os cfg dec ev f) \<and> newDataCh s \<le> newDataCh s' \<and>
    (newDataCh s' = newDataCh s \<longrightarrow> nextOffset s' = nextOffset s) \<and>
    (is_commit ev \<longrightarrow> (\<exists>bs. list_all wf_batch bs \<and> grown cfg bs s s'))"
proof (cases ev)
  case (Committed cmds)
  then obtain s' where s': "fsm_storage (on_event os cfg dec ev f) = Some s'"
    "\<not> fsm_closed (on_event os cfg dec ev f)" "grown cfg (cmd_batches cmds) s s'"
    using Update_grown [OF assms(1-4), of cmds dec "lastAppliedIndex f"] assms(3,5,6) by auto
  then show ?thesis using cmd_batches_wf [of dec cmds] assms(6) Committed
    by (auto simp: grown_def)
next
  case (RetentionTick now)
  then show ?thesis using assms retention_tick_frame [OF assms(4)] by simp
qed

lemma part_reach_fine:
  assumes "os_ok os" "cfg_ok cfg" "part_reach os cfg dec P f g" "part_fine cfg f" "fsm_storage f = Some s"
  shows "\<exists>s'. fsm_storage g = Some s' \<and> storage_inv cfg s' \<and> \<not> fsm_closed g \<and> newDataCh s \<le> newDataCh s' \<and>
    (newDataCh s' = newDataCh s \<longrightarrow> nextOffset s' = nextOffset s)"
  using assms(3)
proof induction
  case part_reach_refl
  then show ?case using assms(4,5) by (auto elim: part_fineE)
next
  case (part_reach_step g ev)
  then obtain s1 where s1: "fsm_storage g = Some s1" "storage_inv cfg s1" "\<not> fsm_closed g" "newDataCh s \<le> newDataCh s1"
    "newDataCh s1 = newDataCh s \<longrightarrow> nextOffset s1 = nextOffset s" by blast
  then show ?case using on_event_fine [OF assms(1,2) s1(1,2,3) part_reach_step.hyps(3)] by fastforce
qed

lemma part_reach_grown:
  assumes "os_ok os" "cfg_ok cfg" "part_reach os cfg dec is_commit f g" "part_fine cfg f" "fsm_storage f = Some s"
  shows "\<exists>s' more. fsm_storage g = Some s' \<and> storage_inv cfg s' \<and> \<not> fsm_closed g \<and>
    storage_log s' = storage_log s @ more \<and> Storage_EarliestOffset s' = Storage_EarliestOffset s \<and>
    nextOffset s \<le> nextOffset s' \<and> (gapless s \<longrightarrow> gapless s')"
  using assms(3)
proof induction
  case part_reach_refl
  then show ?case using assms(4,5) by (auto elim: part_fineE)
next
  case (part_reach_step g ev)
  then obtain s1 more where s1: "fsm_storage g = Some s1" "storage_inv cfg s1" "\<not> fsm_closed g"
    "storage_log s1 = storage_log s @ more" "Storage_EarliestOffset s1 = Storage_EarliestOffset s"
    "nextOffset s \<le> nextOffset s1" "gapless s \<longrightarrow> gapless s1" by blast
  obtain s' bs where s': "fsm_storage (on_event os cfg dec ev g) = Some s'" "\<not> fsm_closed (on_event os cfg dec ev g)"
    "list_all wf_batch bs" "grown cfg bs s1 s'"
    using on_event_fine [OF assms(1,2) s1(1,2,3) part_reach_step.hyps(3)] part_reach_step.hyps(2) by blast
  then show ?case using s1 wf_log_end(1) [OF s'(3), of "nextOffset s1"] by (auto simp: grown_def)
qed


section \<open>Reading what was written\<close>

lemma read_stamped:
  assumes cfg: "cfg_ok cfg" and inv: "storage_inv cfg s" "gapless s"
    and log: "storage_log s = pre @ c # post" and c: "covers c off"
  shows "\<exists>rs. Storage_Read s off mx = Inr (concat (c # rs), bend (last (c # rs))) \<and> off < bend (last (c # rs)) \<and>
    (rs = [] \<or> int (length (concat (c # rs))) \<le> mx)"
proof -
  note ch = storage_log_chain [OF inv]
  have chp: "list_all wf_batch pre" "list_all wf_batch post" "boff c = log_end (Storage_EarliestOffset s) pre"
    using ch log by simp_all
  have "Storage_EarliestOffset s \<le> off" "off < Storage_LatestOffset s"
    using wf_log_end(1) [OF chp(1), of "Storage_EarliestOffset s"] wf_log_end(1) [OF chp(2), of "bend c"] chp(3) c ch(3) log
    by (simp_all add: covers_def bend_def Storage_LatestOffset_def)
  then obtain b rs xs ys where r: "Storage_Read s off mx = Inr (concat (b # rs), bend (last (b # rs)))"
    "storage_log s = xs @ (b # rs) @ ys" "covers b off" "off < bend (last (b # rs))"
    "rs = [] \<or> int (length (concat (b # rs))) \<le> mx"
    using Storage_Read_progress [OF cfg inv] by blast
  have "b \<in> set (storage_log s)" using r(2) by simp
  moreover have "c \<in> set (storage_log s)" using log by simp
  ultimately have "b = c" by (rule chain_cover_unique [OF ch(1,2) _ _ r(3) c])
  then show ?thesis using r by blast
qed

lemma read_at_end:
  assumes "storage_inv cfg s"
  shows "Storage_Read s (nextOffset s) mx = Inr ([], nextOffset s)"
proof -
  have "segments s \<noteq> []" using assms by (simp add: storage_inv_def)
  moreover from this have "seg_baseOffset (segments s ! 0) \<le> nextOffset s"
    using storage_inv_bases [OF assms, of 0 "length (segments s) - 1"] seg_end_ge [OF storage_inv_seg_ok [OF assms, of "last (segments s)"]]
      assms by (simp add: storage_inv_def last_conv_nth)
  ultimately show ?thesis by (simp add: Storage_Read_def SegmentStorage_BaseOffset_def)
qed

lemma covers_stamp:
  assumes "os_ok os" "cfg_ok cfg" "storage_inv cfg s" "wf_batch b"
  shows "covers (stamp b (nextOffset s)) (nextOffset s)"
proof -
  have "boff (stamp b (nextOffset s)) = nextOffset s" "bcount (stamp b (nextOffset s)) = bcount b" "0 < bcount b"
    using bcount_overwrite [of b "nextOffset s"] assms pst.nxt_range [of os cfg s]
    by (simp_all add: stamp_def wf_batch_def framed_def int64_id in_int64_def)
  then show ?thesis by (simp add: covers_def bend_def)
qed

section \<open>The coordinator on a node\<close>

text \<open>The node leads the partition and routes it to the shard.\<close>

definition routes :: "string \<Rightarrow> int \<Rightarrow> int \<Rightarrow> DataCoordinator \<Rightarrow> MetadataState \<Rightarrow> bool" where
  "routes topic partitionID shardID dc st \<longleftrightarrow>
     (case map_of (Partitions st) (PartitionKey topic partitionID) of
        None \<Rightarrow> False | Some pm \<Rightarrow> pm_LeaderNodeID pm = dcc_NodeID (dc_config dc)) \<and>
     map_option se_ShardID (map_of (shardRegistry dc) (topic, partitionID)) = Some shardID"

lemma psim_quiet [simp]: "ps_sched h = [] \<Longrightarrow> psim_next os cfg dec h = (None, h)"
  by (simp add: psim_next_def)

lemma psim_lookups:
  assumes "psim_next os cfg dec h = (None, h')"
  shows "map_of (ps_shards h') shard = Some f \<Longrightarrow>
      LookupPartition (psim_host os cfg dec leader) shard q h = (PartitionFSM_Lookup q f, h')"
    "LookupMetadata (dh_meta (psim_host os cfg dec leader)) mq h = (MetadataFSM_Lookup mq (ps_meta h'), h')"
  using assms by (simp_all add: psim_host_def psim_meta_host_def)

lemma leaderCheck_routes:
  assumes "psim_next os cfg dec h = (None, h')" "routes topic pid shard dc (ps_meta h')"
  shows "leaderCheck (psim_host os cfg dec leader) t topic pid dc h = (Inr shard, dc, h')"
  using assms(2) psim_lookups(2) [OF assms(1)]
  by (auto simp: leaderCheck_def partition_query_def query0_def MetadataFSM_Lookup_def routes_def split: option.splits)

lemma Storage_Sync_ok: "os_ok os \<Longrightarrow> storage_inv cfg s \<Longrightarrow> Storage_Sync os s = None"
  by (simp add: Storage_Sync_def LogSegment_Sync_def storage_inv_def active_ok_def seg_active_def seg_ok_def)

lemma Update_one_append:
  assumes "os_ok os" "cfg_ok cfg" "fsm_storage f = Some s" "storage_inv cfg s" "wf_batch b" "nextOffset s + bcount b < 2 ^ 63"
  shows "\<exists>e f' s'. PartitionFSM_Update os cfg dec (entries_after idx [CmdAppendBatch # b]) f = (Inr [e], f') \<and>
    e_Result e = uint64 (nextOffset s) \<and> fsm_storage f' = Some s' \<and> fsm_closed f' = fsm_closed f \<and>
    grown cfg [b] s s'"
proof -
  obtain s1 where s1: "Storage_Append os cfg b s = (Inr (nextOffset s), s1)" "storage_inv cfg s1"
    "\<forall>bs s'. grown cfg bs s1 s' \<longrightarrow> grown cfg (b # bs) s s'"
    using grown_append [OF assms(1,2,4,5,6)] by blast
  then show ?thesis
    using grown_Nil [OF s1(2)] assms(1,3) Storage_Sync_ok [OF assms(1) s1(2)]
    by (simp add: PartitionFSM_Update_def entries_after_def persistApplied_def)
qed

lemma Produce_all_ok:
  assumes os: "os_ok os" and cfg: "cfg_ok cfg" and q: "ps_sched h = []"
    and r: "routes topic pid shard dc (ps_meta h)" and f: "map_of (ps_shards h) shard = Some f"
    and s: "fsm_storage f = Some s" "storage_inv cfg s"
    and b: "wf_batch b" "nextOffset s + bcount b < 2 ^ 63"
  shows "\<exists>f' s'. Produce (psim_host os cfg dec leader) t topic pid b AcksAll dc h =
      (Inr (nextOffset s), dc, h\<lparr>ps_shards := mput shard f' (ps_shards h)\<rparr>) \<and>
    fsm_storage f' = Some s' \<and> fsm_closed f' = fsm_closed f \<and> grown cfg [b] s s'"
proof -
  have n: "0 \<le> nextOffset s \<and> nextOffset s < 2 ^ 63" using pst.nxt_range os cfg s(2) by blast
  then have "int64 (uint64 (nextOffset s)) = nextOffset s"
    by (simp add: uint64_id int64_id in_int64_def)
  then show ?thesis
    using Update_one_append [OF os cfg s b, of dec "lastAppliedIndex f"] leaderCheck_routes [OF psim_quiet [OF q] r, of os cfg dec leader t] q f
    by (auto simp: Produce_def psim_host_def PartitionCommand_Marshal_def)
qed

lemma Fetch_now_ok:
  assumes "ps_sched h = []" "routes topic pid shard dc (ps_meta h)" "map_of (ps_shards h) shard = Some f"
    "fsm_storage f = Some s" "\<not> fsm_closed f" "Storage_Read s off mx = Inr (data, nxt)"
  shows "Fetch (psim_host os cfg dec leader) t now topic pid off mx 0 ps dc h = Some (Inr (data, nxt), dc, h)"
  using assms leaderCheck_routes [OF psim_quiet [OF assms(1)] assms(2), of os cfg dec leader t]
  by (simp add: Fetch_def psim_host_def PartitionFSM_Lookup_def read_query_def part_query_def)


lemma psim_item [simp]:
  "ps_sched h = ([], evs, None) # sched \<Longrightarrow>
   psim_next os cfg dec h = (None, h\<lparr>ps_shards := fold (shard_event os cfg dec) evs (ps_shards h), ps_sched := sched\<rparr>)"
  by (simp add: psim_next_def)

lemma longPoll_round:
  assumes n: "psim_next os cfg dec h0 = (None, h1)" "psim_next os cfg dec h1 = (None, h2)" "psim_next os cfg dec h2 = (None, h3)"
    and r: "routes topic pid shard dc (ps_meta h2)"
    and f: "map_of (ps_shards h1) shard = Some fa" "fsm_storage fa = Some sa" "\<not> fsm_closed fa"
    and g: "map_of (ps_shards h3) shard = Some fb" "fsm_storage fb = Some sb" "\<not> fsm_closed fb"
    and d: "Storage_Read sb off mx = Inr (data, nxt)" and t: "po_now p < deadline"
  shows "longPoll_loop (psim_host os cfg dec leader) topic pid shard off mx deadline (p # ps) dc h0 =
    (if 0 < length data then Some (Inr (data, nxt), dc, h3)
     else (case po_wake p of
             NewData \<Rightarrow> longPoll_loop (psim_host os cfg dec leader) topic pid shard off mx deadline ps dc h3
           | Elapsed \<Rightarrow> Some (Inr ([], 0), dc, h3)
           | Cancelled \<Rightarrow> Some (Inl ContextErr, dc, h3)))"
  using t r f g d psim_lookups(1) [OF n(1) f(1)] psim_lookups(2) [OF n(2)] psim_lookups(1) [OF n(3) g(1)]
  by (simp add: PartitionFSM_Lookup_def read_query_def part_query_def partition_query_def query0_def
      MetadataFSM_Lookup_def routes_def split: option.splits)

section \<open>A node that does not lead the partition\<close>

lemma nodeAddress_quiet:
  assumes "psim_next os cfg dec h = (None, h)"
  shows "\<exists>addr dc'. nodeAddress (psim_host os cfg dec leader) t n dc h = (addr, dc', h)"
  using psim_lookups(2) [OF assms, of leader "query0 QueryListNodes"]
  by (auto simp: nodeAddress_def Let_def query0_def MetadataFSM_Lookup_def split: option.split)

lemma leaderCheck_refuses:
  assumes "psim_next os cfg dec h = (None, h)" "\<nexists>shard. routes topic pid shard dc (ps_meta h)"
  shows "\<exists>e dc'. leaderCheck (psim_host os cfg dec leader) t topic pid dc h = (Inl e, dc', h) \<and>
    (case map_of (Partitions (ps_meta h)) (PartitionKey topic pid) of
       None \<Rightarrow> e = DataE DErrUnavailable
     | Some pm \<Rightarrow> if pm_LeaderNodeID pm = dcc_NodeID (dc_config dc) then e = DataE DErrUnavailable
                  else (\<exists>addr. e = NotLeaderError (pm_LeaderNodeID pm) addr))"
proof (cases "map_of (Partitions (ps_meta h)) (PartitionKey topic pid)")
  case None
  then show ?thesis using psim_lookups(2) [OF assms(1), of leader "partition_query topic pid"]
    by (simp add: leaderCheck_def partition_query_def query0_def MetadataFSM_Lookup_def)
next
  case (Some pm)
  obtain addr dc' where "nodeAddress (psim_host os cfg dec leader) t (pm_LeaderNodeID pm) dc h = (addr, dc', h)"
    using nodeAddress_quiet [OF assms(1)] by blast
  then show ?thesis using Some assms(2) psim_lookups(2) [OF assms(1), of leader "partition_query topic pid"]
    by (auto simp: leaderCheck_def partition_query_def query0_def MetadataFSM_Lookup_def routes_def split: option.split)
qed

context meta_host
begin

lemma leaderCheck_sound:
  assumes "dh_meta nh = host" "leaderCheck nh t topic pid dc h = (Inr shard, dc', h')"
  shows "routes topic pid shard dc (meta h') \<and> dc' = dc"
proof -
  obtain r h1 where l: "LookupMetadata host (partition_query topic pid) h = (r, h1)" by fastforce
  from l assms obtain a where a: "r = Inr a" by (cases r) (auto simp: leaderCheck_def)
  have ans: "MetadataFSM_Lookup (partition_query topic pid) (meta h1) = Inr a"
    by (rule lookup_answer [OF l [unfolded a]])
  from l a assms ans show ?thesis
    by (auto simp: leaderCheck_def routes_def partition_query_def query0_def MetadataFSM_Lookup_def
        split: MetadataAnswer.splits if_splits option.splits prod.splits)
qed

end

text \<open>Whatever other nodes do meanwhile, a request goes to a shard only on the leader.\<close>

lemma psim_leaderCheck_sound:
  "leaderCheck (psim_host os cfg dec leader) t topic pid dc h = (Inr shard, dc', h') \<Longrightarrow>
   routes topic pid shard dc (ps_meta h') \<and> dc' = dc"
  by (rule ph.leaderCheck_sound [of "psim_host os cfg dec leader"]) (simp_all add: psim_host_def)

end
