(* ===== verification/PropsData.thy ===== *)
theory PropsData
  imports DataLemmas PropsPartition PropsMeta
begin

text \<open>
  The properties of the data coordinator: the path of a batch from \<open>Produce\<close> to \<open>Fetch\<close>, the
  long poll, and the refusal of requests for partitions this node does not lead.
\<close>

definition demo_lead :: "int \<Rightarrow> go_error + (int \<times> int \<times> bool)" where
  "demo_lead shard = Inr (1, 5, True)"

definition demo_dc :: DataCoordinator where
  "demo_dc = StartPartitionReplica ''a'' 0 1 (NewDataCoordinator \<lparr>dcc_NodeID = 2, NodeAddressCacheTTLMs = 0\<rparr>)"

definition demo_part :: PartitionMeta where
  "demo_part = \<lparr>pm_Topic = ''a'', pm_PartitionID = 0, pm_ShardID = 1, pm_ReplicaNodeIDs = [2], pm_LeaderNodeID = 2, pm_LeaderEpoch = 3\<rparr>"

definition demo_node :: psim where
  "demo_node = \<lparr>ps_meta = NewMetadataFSM\<lparr>Partitions := [(PartitionKey ''a'' 0, demo_part)]\<rparr>,
     ps_shards = [(1, demo_fsm)], ps_sched = []\<rparr>"

lemma demo_node_routes: "routes ''a'' 0 1 demo_dc (ps_meta demo_node)"
  by (simp add: routes_def demo_node_def demo_dc_def demo_part_def StartPartitionReplica_def NewDataCoordinator_def)

lemma demo_fsm_fine: "part_fine demo_cfg demo_fsm" "fsm_storage demo_fsm = Some demo_empty" "\<not> fsm_closed demo_fsm"
  by (simp_all add: part_fine_def demo_fsm_def NewPartitionFSM_def demo_empty_ok)

lemma demo_empty_channel: "newDataCh demo_empty = 0"
  using Storage_Open_empty [OF demo_ok] by (auto simp: demo_empty_def Storage_Open_def split: sum.splits prod.splits)

text \<open>
  C4. What is produced can be fetched.  On the leader of a partition, \<open>Produce\<close> with full
  acknowledgement returns the next offset of the log; and whatever batches and retention settings
  are committed afterwards, a \<open>Fetch\<close> at that offset returns data that begins with the batch,
  stamped with the offset, and a next offset beyond it.
\<close>

theorem produce_then_fetch:
  assumes "os_ok os" "cfg_ok cfg" "ps_sched h = []" "routes topic pid shard dc (ps_meta h)"
    "map_of (ps_shards h) shard = Some f" "part_fine cfg f" "fsm_storage f = Some s" "gapless s"
    "wf_batch b" "nextOffset s + bcount b < 2 ^ 63"
  shows "\<exists>f1. Produce (psim_host os cfg dec leader) t topic pid b AcksAll dc h =
      (Inr (nextOffset s), dc, h\<lparr>ps_shards := mput shard f1 (ps_shards h)\<rparr>) \<and>
    (\<forall>f2. part_reach os cfg dec is_commit f1 f2 \<longrightarrow>
      (\<exists>rs nxt. Fetch (psim_host os cfg dec leader) t' now topic pid (nextOffset s) mx 0 ps dc
          (h\<lparr>ps_shards := mput shard f2 (ps_shards h)\<rparr>) =
        Some (Inr (stamp b (nextOffset s) @ concat rs, nxt), dc, h\<lparr>ps_shards := mput shard f2 (ps_shards h)\<rparr>) \<and>
        nextOffset s < nxt))"
proof -
  let ?n = "nextOffset s"
  have inv: "storage_inv cfg s" using assms(6,7) by (auto elim: part_fineE)
  obtain f1 s1 where p: "Produce (psim_host os cfg dec leader) t topic pid b AcksAll dc h =
      (Inr ?n, dc, h\<lparr>ps_shards := mput shard f1 (ps_shards h)\<rparr>)"
    "fsm_storage f1 = Some s1" "fsm_closed f1 = fsm_closed f" "grown cfg [b] s s1"
    using Produce_all_ok [OF assms(1-5,7) inv assms(9,10)] by blast
  have f1: "part_fine cfg f1" using p(2-4) assms(6) by (simp add: part_fine_def grown_def)
  have "\<exists>rs nxt. Fetch (psim_host os cfg dec leader) t' now topic pid ?n mx 0 ps dc
          (h\<lparr>ps_shards := mput shard f2 (ps_shards h)\<rparr>) =
        Some (Inr (stamp b ?n @ concat rs, nxt), dc, h\<lparr>ps_shards := mput shard f2 (ps_shards h)\<rparr>) \<and> ?n < nxt"
    if reach: "part_reach os cfg dec is_commit f1 f2" for f2
  proof -
    obtain s2 more where s2: "fsm_storage f2 = Some s2" "storage_inv cfg s2" "\<not> fsm_closed f2"
      "storage_log s2 = storage_log s1 @ more" "gapless s1 \<longrightarrow> gapless s2"
      using part_reach_grown [OF assms(1,2) reach f1 p(2)] by blast
    have g: "gapless s2" "storage_log s2 = storage_log s @ stamp b ?n # more"
      using s2(4,5) p(4) assms(8) by (simp_all add: grown_def)
    have "covers (stamp b ?n) ?n" by (rule covers_stamp [OF assms(1,2) inv assms(9)])
    from read_stamped [OF assms(2) s2(2) g this, of mx] obtain rs where
      r: "Storage_Read s2 ?n mx = Inr (concat (stamp b ?n # rs), bend (last (stamp b ?n # rs)))"
        "?n < bend (last (stamp b ?n # rs))" by blast
    then have "Fetch (psim_host os cfg dec leader) t' now topic pid ?n mx 0 ps dc
          (h\<lparr>ps_shards := mput shard f2 (ps_shards h)\<rparr>) =
        Some (Inr (concat (stamp b ?n # rs), bend (last (stamp b ?n # rs))), dc, h\<lparr>ps_shards := mput shard f2 (ps_shards h)\<rparr>)"
      using assms(3,4) s2(1,3) by (intro Fetch_now_ok [where shard = shard and f = f2 and s = s2]) simp_all
    then show ?thesis using r(2) by fastforce
  qed
  with p(1) show ?thesis by blast
qed

theorem produce_then_fetch_witness:
  "\<exists>f1 rs nxt. Produce (psim_host demo_os demo_cfg (\<lambda>_. Inr (0, 0)) demo_lead) (0, 0) ''a'' 0 sample_batch AcksAll demo_dc demo_node =
      (Inr 0, demo_dc, demo_node\<lparr>ps_shards := mput 1 f1 (ps_shards demo_node)\<rparr>) \<and>
    Fetch (psim_host demo_os demo_cfg (\<lambda>_. Inr (0, 0)) demo_lead) (0, 0) 0 ''a'' 0 0 10 0 [] demo_dc
        (demo_node\<lparr>ps_shards := mput 1 f1 (ps_shards demo_node)\<rparr>) =
      Some (Inr (stamp sample_batch 0 @ concat rs, nxt), demo_dc, demo_node\<lparr>ps_shards := mput 1 f1 (ps_shards demo_node)\<rparr>) \<and>
    0 < nxt"
  using produce_then_fetch [OF demo_ok _ demo_node_routes _ demo_fsm_fine(1,2) demo_empty_ok(4) sample_wf(1),
      of "\<lambda>_. Inr (0, 0)" demo_lead "(0, 0)" "(0, 0)" 0 10 "[]"] demo_empty_ok(3) sample_wf(3) part_reach_refl
  by (fastforce simp: demo_node_def)

text \<open>
  C16. No wake-up is lost.  The long poll takes the notification channel first and reads
  afterwards.  If that read finds nothing at the offset, and data at the offset exists at any later
  time, then the channel taken has been closed by then, so the poll does not sleep through it.
\<close>

theorem no_lost_wakeup:
  assumes "os_ok os" "cfg_ok cfg" "part_fine cfg f0"
    "part_reach os cfg dec P f0 f1" "part_reach os cfg dec P f1 f2"
    "PartitionFSM_Lookup (part_query QueryGetNewDataCh) f0 = Inr (ChannelAnswer ch)"
    "PartitionFSM_Lookup (read_query off mx) f1 = Inr (PartitionLookupResult [] nxt)"
    "fsm_storage f1 = Some s1" "gapless s1"
    "fsm_storage f2 = Some s2" "off < Storage_LatestOffset s2"
  shows "channel_closed s2 ch"
proof -
  obtain s0 where s0: "fsm_storage f0 = Some s0" "storage_inv cfg s0" "\<not> fsm_closed f0"
    using assms(3) by (rule part_fineE)
  then have ch: "ch = newDataCh s0"
    using assms(6) by (simp add: PartitionFSM_Lookup_def part_query_def Storage_NewDataCh_def)
  have s1: "storage_inv cfg s1" "\<not> fsm_closed f1" "newDataCh s0 \<le> newDataCh s1"
    using part_reach_fine [OF assms(1,2,4,3) s0(1)] assms(8) by auto
  have s2: "newDataCh s1 \<le> newDataCh s2" "newDataCh s2 = newDataCh s1 \<longrightarrow> nextOffset s2 = nextOffset s1"
    using part_reach_fine [OF assms(1,2,5) _ assms(8)] assms(8,10) s1 by (auto simp: part_fine_def)
  have rd: "Storage_Read s1 off mx = Inr ([], nxt)"
    using assms(7,8) s1(2)
    by (simp add: PartitionFSM_Lookup_def read_query_def part_query_def split: sum.splits prod.splits)
  have "nextOffset s1 \<le> off"
  proof (rule ccontr)
    assume "\<not> nextOffset s1 \<le> off"
    moreover have "Storage_EarliestOffset s1 \<le> off"
      using rd s1(1) by (auto simp: Storage_Read_def Storage_EarliestOffset_def storage_inv_def Let_def split: if_splits)
    ultimately obtain b rs pre post where "concat (b # rs) = []" "storage_log s1 = pre @ (b # rs) @ post"
      using Storage_Read_progress [OF assms(2) s1(1) assms(9), of off mx] rd by (auto simp: Storage_LatestOffset_def)
    moreover have "list_all wf_batch (storage_log s1)" by (rule storage_log_chain(2) [OF s1(1) assms(9)])
    ultimately show False by (auto simp: wf_batch_def framed_def)
  qed
  then show ?thesis
    using assms(11) s2 s1(3) ch by (cases "newDataCh s2 = newDataCh s1") (simp_all add: channel_closed_def Storage_LatestOffset_def)
qed

theorem no_lost_wakeup_witness:
  "\<exists>s2. fsm_storage (on_event demo_os demo_cfg (\<lambda>_. Inr (0, 0)) (Committed [CmdAppendBatch # sample_batch]) demo_fsm) = Some s2 \<and>
    channel_closed s2 0"
proof -
  let ?ev = "Committed [CmdAppendBatch # sample_batch]"
  have fine: "ev_fine (\<lambda>_. Inr (0, 0)) ?ev demo_fsm"
    using sample_wf demo_empty_ok(3) by (simp add: demo_fsm_fine(2) cmd_fine_def cmd_batches_def)
  have step: "part_reach demo_os demo_cfg (\<lambda>_. Inr (0, 0)) (\<lambda>_. True) demo_fsm
      (on_event demo_os demo_cfg (\<lambda>_. Inr (0, 0)) ?ev demo_fsm)"
    by (rule part_reach_step [OF part_reach_refl _ fine]) simp
  obtain s2 where s2: "fsm_storage (on_event demo_os demo_cfg (\<lambda>_. Inr (0, 0)) ?ev demo_fsm) = Some s2" "nextOffset s2 = 2"
    using Update_grown [OF demo_ok demo_fsm_fine(2) demo_empty_ok(1), of "[CmdAppendBatch # sample_batch]" "\<lambda>_. Inr (0, 0)"
        "lastAppliedIndex demo_fsm"] fine sample_wf demo_empty_ok(3)
    by (auto simp: demo_fsm_fine(2) grown_def cmd_batches_def)
  have "PartitionFSM_Lookup (part_query QueryGetNewDataCh) demo_fsm = Inr (ChannelAnswer 0)"
    "PartitionFSM_Lookup (read_query 0 10) demo_fsm = Inr (PartitionLookupResult [] 0)"
    using demo_fsm_fine read_at_end [OF demo_empty_ok(1)] demo_empty_ok(3) demo_empty_channel
    by (simp_all add: PartitionFSM_Lookup_def part_query_def read_query_def Storage_NewDataCh_def)
  then have "channel_closed s2 0"
    using no_lost_wakeup [OF demo_ok demo_fsm_fine(1) part_reach_refl step _ _ demo_fsm_fine(2) demo_empty_ok(4) s2(1)] s2(2)
    by (auto simp: Storage_LatestOffset_def)
  with s2(1) show ?thesis by blast
qed



text \<open>
  C37. Only the leader serves.  When the metadata do not name this node as the leader of the
  partition, or no shard is registered for it, every request fails with the same error and leaves
  the node as it was: the leader's identity when another node leads, otherwise unavailable, also
  when the partition does not exist.
\<close>

theorem refused_unless_leader:
  assumes "ps_sched h = []" "\<nexists>shard. routes topic pid shard dc (ps_meta h)"
  shows "\<exists>e dc'. Produce (psim_host os cfg dec leader) t topic pid b acks dc h = (Inl e, dc', h) \<and>
    Fetch (psim_host os cfg dec leader) t now topic pid off mx maxWaitMs ps dc h = Some (Inl e, dc', h) \<and>
    GetEarliestOffset (psim_host os cfg dec leader) t topic pid dc h = (Inl e, dc', h) \<and>
    GetLatestOffset (psim_host os cfg dec leader) t topic pid dc h = (Inl e, dc', h) \<and>
    GetOffsetByTimestamp (psim_host os cfg dec leader) t topic pid ts dc h = (Inl e, dc', h) \<and>
    (case map_of (Partitions (ps_meta h)) (PartitionKey topic pid) of
       None \<Rightarrow> e = DataE DErrUnavailable
     | Some pm \<Rightarrow> if pm_LeaderNodeID pm = dcc_NodeID (dc_config dc) then e = DataE DErrUnavailable
                  else (\<exists>addr. e = NotLeaderError (pm_LeaderNodeID pm) addr))"
proof -
  obtain e dc' where "leaderCheck (psim_host os cfg dec leader) t topic pid dc h = (Inl e, dc', h)"
    "case map_of (Partitions (ps_meta h)) (PartitionKey topic pid) of
       None \<Rightarrow> e = DataE DErrUnavailable
     | Some pm \<Rightarrow> if pm_LeaderNodeID pm = dcc_NodeID (dc_config dc) then e = DataE DErrUnavailable
                  else (\<exists>addr. e = NotLeaderError (pm_LeaderNodeID pm) addr)"
    using leaderCheck_refuses [OF psim_quiet [OF assms(1)] assms(2)] by blast
  then show ?thesis
    by (simp add: Produce_def Fetch_def GetEarliestOffset_def GetLatestOffset_def GetOffsetByTimestamp_def)
qed

theorem refused_unless_leader_witness:
  "\<exists>e dc'. Produce (psim_host demo_os demo_cfg (\<lambda>_. Inr (0, 0)) demo_lead) (0, 0) ''b'' 0 sample_batch AcksAll demo_dc demo_node =
      (Inl e, dc', demo_node) \<and> e = DataE DErrUnavailable"
proof -
  have "ps_sched demo_node = []" "\<nexists>shard. routes ''b'' 0 shard demo_dc (ps_meta demo_node)"
    and none: "map_of (Partitions (ps_meta demo_node)) (PartitionKey ''b'' 0) = None"
    by (simp_all add: demo_node_def routes_def)
  then show ?thesis
    using refused_unless_leader [of demo_node "''b''" 0 demo_dc demo_os demo_cfg "\<lambda>_. Inr (0, 0)" demo_lead "(0, 0)" sample_batch AcksAll
        0 0 0 0 "[]" 0]
    unfolding none by auto
qed

end
