(* ===== verification/GoText.thy ===== *)
theory GoText
  imports GoMaps
begin

text \<open>
  Splitting, trimming and path functions of \<open>strings\<close> and \<open>path/filepath\<close> (on Unix), as the
  configuration loader and the coordinators use them.  A string is its list of bytes.
\<close>

section \<open>Splitting and joining\<close>

text \<open>\<open>strings.Split\<close> with a separator of one byte; the result is never empty.\<close>

fun strings_Split :: "string \<Rightarrow> char \<Rightarrow> string list" where
  "strings_Split [] sep = [[]]"
| "strings_Split (c # s) sep =
     (if c = sep then [] # strings_Split s sep
      else (case strings_Split s sep of [] \<Rightarrow> [[c]] | w # ws \<Rightarrow> (c # w) # ws))"

text \<open>\<open>strings.SplitN(s, sep, 2)\<close>.\<close>

definition strings_SplitN2 :: "string \<Rightarrow> char \<Rightarrow> string list" where
  "strings_SplitN2 s sep =
     (let w = takeWhile (\<lambda>c. c \<noteq> sep) s
      in if length w = length s then [s] else [w, drop (Suc (length w)) s])"

fun strings_Join :: "string list \<Rightarrow> char \<Rightarrow> string" where
  "strings_Join [] sep = []"
| "strings_Join [w] sep = w"
| "strings_Join (w # ws) sep = w @ [sep] @ strings_Join ws sep"

lemma strings_Split_ne [simp]: "strings_Split s sep \<noteq> []"
  by (induction s) (auto split: list.split)

lemma Split_word: "sep \<notin> set w \<Longrightarrow> strings_Split w sep = [w]"
  by (induction w) auto

lemma Split_append: "sep \<notin> set w \<Longrightarrow> strings_Split (w @ sep # s) sep = w # strings_Split s sep"
  by (induction w) auto

lemma Split_Join: "ws \<noteq> [] \<Longrightarrow> \<forall>w \<in> set ws. sep \<notin> set w \<Longrightarrow> strings_Split (strings_Join ws sep) sep = ws"
  by (induction ws sep rule: strings_Join.induct) (auto simp: Split_word Split_append)

lemma SplitN2_pair: "sep \<notin> set k \<Longrightarrow> strings_SplitN2 (k @ sep # v) sep = [k, v]"
  by (simp add: strings_SplitN2_def takeWhile_append)

section \<open>Trimming\<close>

text \<open>The UTF-8 encodings of the white space characters of Unicode.\<close>

definition white_space :: "string list" where
  "white_space = map (\<lambda>b. [char_of (b :: nat)]) [9, 10, 11, 12, 13, 32]
     @ map (map char_of) ([[194, 133], [194, 160], [225, 154, 128], [226, 128, 168], [226, 128, 169],
         [226, 128, 175], [226, 129, 159], [227, 128, 128]] :: nat list list)
     @ map (\<lambda>b. map char_of [226, 128, b]) [128..<139 :: nat]"

definition strip1 :: "(string \<Rightarrow> string) \<Rightarrow> string \<Rightarrow> string option" where
  "strip1 f s = map_option (\<lambda>w. drop (length w) s) (find (\<lambda>w. take (length w) s = f w) white_space)"

text \<open>\<open>n\<close> is a bound on the number of characters; the length of the string suffices.\<close>

fun strip :: "nat \<Rightarrow> (string \<Rightarrow> string) \<Rightarrow> string \<Rightarrow> string" where
  "strip 0 f s = s"
| "strip (Suc n) f s = (case strip1 f s of None \<Rightarrow> s | Some t \<Rightarrow> strip n f t)"

definition strings_TrimSpace :: "string \<Rightarrow> string" where
  "strings_TrimSpace s =
     (let t = strip (length s) id s in rev (strip (length t) rev (rev t)))"

text \<open>A string that neither begins nor ends with a byte that is, or ends, a white space character.\<close>

definition plain_byte :: "char \<Rightarrow> bool" where
  "plain_byte c \<longleftrightarrow> 33 \<le> (of_char c :: nat) \<and> (of_char c :: nat) < 128"

lemma white_space_ends: "w \<in> set white_space \<Longrightarrow> w \<noteq> [] \<and> \<not> plain_byte (hd w) \<and> \<not> plain_byte (last w)"
  by (auto simp: white_space_def plain_byte_def upt_rec)

lemma strip_plain:
  assumes "s = [] \<or> plain_byte (hd s)" "f = id \<or> f = rev"
  shows "strip n f s = s"
proof -
  have "take (length w) s \<noteq> f w" if "w \<in> set white_space" for w
  proof
    assume eq: "take (length w) s = f w"
    have ne: "w \<noteq> []" "f w \<noteq> []" using white_space_ends [OF that] assms(2) by auto
    then have "s \<noteq> []" using eq by auto
    moreover from this eq ne have "hd (f w) = hd s" by (metis hd_take length_greater_0_conv)
    moreover have "hd (f w) = hd w \<or> hd (f w) = last w" using assms(2) ne by (auto simp: hd_rev)
    ultimately show False using white_space_ends [OF that] assms(1) by auto
  qed
  then have "strip1 f s = None" by (auto simp: strip1_def find_None_iff)
  then show ?thesis by (cases n) simp_all
qed

lemma TrimSpace_plain:
  assumes "list_all plain_byte s"
  shows "strings_TrimSpace s = s"
proof -
  have "s = [] \<or> plain_byte (hd s)" "rev s = [] \<or> plain_byte (hd (rev s))"
    using assms by (cases "s = []"; simp add: list_all_iff hd_rev)+
  then show ?thesis by (simp add: strings_TrimSpace_def strip_plain)
qed

section \<open>Paths\<close>

definition clean_step :: "bool \<Rightarrow> string \<Rightarrow> string list \<Rightarrow> string list" where
  "clean_step rooted c out =
     (if c = [] \<or> c = ''.'' then out
      else if c = ''..'' then
        (if out \<noteq> [] \<and> last out \<noteq> ''..'' then butlast out
         else if rooted then out else out @ [c])
      else out @ [c])"

definition filepath_Clean :: "string \<Rightarrow> string" where
  "filepath_Clean path =
     (let rooted = (path \<noteq> [] \<and> hd path = CHR ''/'');
          out = fold (clean_step rooted) (strings_Split path (CHR ''/'')) [];
          res = (if rooted then ''/'' else []) @ strings_Join out (CHR ''/'')
      in if res = [] then ''.'' else res)"

definition filepath_Join :: "string list \<Rightarrow> string" where
  "filepath_Join elems =
     (let rest = dropWhile (\<lambda>e. e = []) elems
      in if rest = [] then [] else filepath_Clean (strings_Join rest (CHR ''/'')))"

end
