(* ===== verification/ClusterCoord.thy ===== *)
theory ClusterCoord
  imports DataCoord GoText
begin

text \<open>
  The cluster coordinator (\<open>internal/coordinator/cluster/cluster.go\<close>): topics, the assignment of
  replicas to nodes, and the reconciliation of the shards that run on this node with the metadata.
  Its state is the table of running shards and the last known leaders.  A goroutine that
  \<open>reconcileOnce\<close> starts is a \<open>task\<close>; tasks run later, in any order.  Times are in nanoseconds.
\<close>

section \<open>Types\<close>

text \<open>\<open>CoordinatorConfig\<close> of the package; the fields carry a prefix.\<close>

record ClusterConfig =
  cl_NodeID :: int
  cl_RaftAddress :: string
  cl_DataAddr :: string
  cl_AdvertiseDataAddr :: string
  cl_DataDir :: string
  cl_Peers :: "(int, string) gomap"
  cl_BootstrapTimeoutMs :: int
  cl_ReconcileIntervalMs :: int
  cl_LeaderCheckIntervalMs :: int
  cl_EagerReconcileOnCreate :: bool

record shardInfo =
  si_Topic :: string
  si_PartitionID :: int
  si_ShardID :: int
  si_Peers :: "(int, string) gomap"

record leaderRecord =
  lr_nodeID :: int
  lr_term :: int

record TopicConfigOverrides =
  tc_RetentionMs :: "int option"
  tc_RetentionBytes :: "int option"

record TopicInfo =
  ti_Name :: string
  ti_PartitionCount :: int
  ti_ReplicationFactor :: int
  ti_RetentionMs :: int
  ti_RetentionBytes :: int
  ti_CreatedAtMs :: int

record PartitionInfo =
  pi_PartitionID :: int
  pi_ShardID :: int
  pi_LeaderNodeID :: int
  pi_LeaderEpoch :: int
  pi_ReplicaNodeIDs :: "int list"

record TopicDescription =
  td_TopicInfo :: TopicInfo
  td_Partitions :: "PartitionInfo list"

record NodeDescriptor =
  nd_NodeID :: int
  nd_Address :: string

record ClusterCoordinator =
  cl_config :: ClusterConfig
  runningShards :: "(int, shardInfo) gomap"
  lastKnownLeader :: "(int, leaderRecord) gomap"

definition NewClusterCoordinator :: "ClusterConfig \<Rightarrow> ClusterCoordinator" where
  "NewClusterCoordinator cfg = \<lparr>cl_config = cfg, runningShards = [], lastKnownLeader = []\<rparr>"

record 'h cluster_host =
  ch_meta :: "'h host"
  StartMetadataShard :: "(int, string) gomap \<Rightarrow> bool \<Rightarrow> 'h \<Rightarrow> go_error option \<times> 'h"
  StartPartitionShard :: "int \<Rightarrow> (int, string) gomap \<Rightarrow> bool \<Rightarrow> string \<Rightarrow> int \<Rightarrow> 'h \<Rightarrow> go_error option \<times> 'h"
  StopPartitionShard :: "int \<Rightarrow> 'h \<Rightarrow> go_error option \<times> 'h"
  ch_ProposePartition :: "int \<Rightarrow> PartitionCommand \<Rightarrow> 'h \<Rightarrow> go_error option \<times> 'h"

abbreviation ch_lookup :: "'h cluster_host \<Rightarrow> MetadataQuery \<Rightarrow> 'h \<Rightarrow> (go_error + MetadataAnswer) \<times> 'h" where
  "ch_lookup nh \<equiv> LookupMetadata (ch_meta nh)"

text \<open>\<open>syncProposeMetadata\<close> and \<open>proposePartition\<close> add a timing metric to the call of the host.\<close>

definition syncProposeMetadata :: "'h cluster_host \<Rightarrow> MetadataCommand \<Rightarrow> 'h \<Rightarrow> (go_error + Result) \<times> 'h" where
  "syncProposeMetadata nh cmd h = SyncProposeMetadata (ch_meta nh) cmd h"

definition proposePartition :: "'h cluster_host \<Rightarrow> int \<Rightarrow> PartitionCommand \<Rightarrow> 'h \<Rightarrow> go_error option \<times> 'h" where
  "proposePartition nh shardID cmd h = ch_ProposePartition nh shardID cmd h"

section \<open>Names, hashes and replicas\<close>

text \<open>The regular expression \<open>^[a-zA-Z0-9._-]{1,255}$\<close>.\<close>

definition topic_char :: "char \<Rightarrow> bool" where
  "topic_char c \<longleftrightarrow> (CHR ''a'' \<le> c \<and> c \<le> CHR ''z'') \<or> (CHR ''A'' \<le> c \<and> c \<le> CHR ''Z'') \<or>
     (CHR ''0'' \<le> c \<and> c \<le> CHR ''9'') \<or> c = CHR ''.'' \<or> c = CHR ''_'' \<or> c = CHR ''-''"

definition topicNameRe :: "string \<Rightarrow> bool" where
  "topicNameRe name \<longleftrightarrow> 1 \<le> length name \<and> length name \<le> 255 \<and> list_all topic_char name"

text \<open>The 32-bit FNV-1a hash of the standard library.\<close>

definition fnv32a :: "string \<Rightarrow> 32 word" where
  "fnv32a s = foldl (\<lambda>h c. (h XOR of_char c) * 16777619) 2166136261 s"

definition assignReplicas :: "NodeInfo list \<Rightarrow> string \<Rightarrow> int \<Rightarrow> int \<Rightarrow> go_error + int list" where
  "assignReplicas nodes topicName partitionID rf =
     (let sorted = sort_key ni_NodeID nodes; n = int (length sorted)
      in if n = 0 then Inl (GoPanic ''integer divide by zero'')
         else let start = uint (fnv32a topicName) mod n
              in if rf < 0 then Inl (GoPanic ''makeslice: len out of range'')
                 else let idx = map (\<lambda>r. go_mod (start + partitionID + int r) n) [0..<nat rf]
                      in if list_ex (\<lambda>i. i < 0) idx then Inl (GoPanic ''index out of range'')
                         else Inr (map (\<lambda>i. ni_NodeID (sorted ! nat i)) idx))"

fun assign_all :: "NodeInfo list \<Rightarrow> string \<Rightarrow> int list \<Rightarrow> int \<Rightarrow> go_error + int list list" where
  "assign_all nodes name [] rf = Inr []"
| "assign_all nodes name (p # ps) rf =
     (case assignReplicas nodes name p rf of
        Inl e \<Rightarrow> Inl e
      | Inr r \<Rightarrow> (case assign_all nodes name ps rf of Inl e \<Rightarrow> Inl e | Inr rs \<Rightarrow> Inr (r # rs)))"

definition buildPeerMap :: "int list \<Rightarrow> (int, string) gomap \<Rightarrow> (int, string) gomap" where
  "buildPeerMap replicaIDs raftPeers =
     fold (\<lambda>nid peers. case map_of raftPeers nid of None \<Rightarrow> peers | Some addr \<Rightarrow> mput nid addr peers) replicaIDs []"

definition partitionDir :: "string \<Rightarrow> string \<Rightarrow> int \<Rightarrow> string" where
  "partitionDir dataDir topic partitionID = filepath_Join [dataDir, ''partitions'', topic, format_int partitionID]"

definition topicInfoFromMeta :: "TopicMeta \<Rightarrow> TopicInfo" where
  "topicInfoFromMeta m =
     \<lparr>ti_Name = tm_Name m, ti_PartitionCount = tm_PartitionCount m, ti_ReplicationFactor = tm_ReplicationFactor m,
      ti_RetentionMs = tm_RetentionMs m, ti_RetentionBytes = tm_RetentionBytes m, ti_CreatedAtMs = tm_CreatedAtMs m\<rparr>"

section \<open>Reconciliation\<close>

datatype task = StartShard int shardInfo | StopShard int shardInfo

definition topic_query :: "QueryType \<Rightarrow> string \<Rightarrow> MetadataQuery" where
  "topic_query t name = (query0 t)\<lparr>mq_TopicName := name\<rparr>"

definition expect :: "ClusterConfig \<Rightarrow> PartitionMeta \<Rightarrow> (int, shardInfo) gomap \<Rightarrow> (int, shardInfo) gomap" where
  "expect cfg pm expected =
     (if cl_NodeID cfg \<in> set (pm_ReplicaNodeIDs pm)
      then mput (pm_ShardID pm)
             \<lparr>si_Topic = pm_Topic pm, si_PartitionID = pm_PartitionID pm, si_ShardID = pm_ShardID pm,
              si_Peers = buildPeerMap (pm_ReplicaNodeIDs pm) (cl_Peers cfg)\<rparr> expected
      else expected)"

fun expected_loop :: "'h cluster_host \<Rightarrow> ClusterConfig \<Rightarrow> TopicMeta list \<Rightarrow> (int, shardInfo) gomap \<Rightarrow> 'h \<Rightarrow>
    (go_error + (int, shardInfo) gomap) \<times> 'h" where
  "expected_loop nh cfg [] expected h = (Inr expected, h)"
| "expected_loop nh cfg (tm # topics) expected h =
     (case ch_lookup nh (topic_query QueryGetPartitions (tm_Name tm)) h of
        (Inl err, h) \<Rightarrow> expected_loop nh cfg topics expected h
      | (Inr (AnsPartitions pms), h) \<Rightarrow> expected_loop nh cfg topics (fold (expect cfg) pms expected) h
      | (Inr _, h) \<Rightarrow> (Inl bad_type, h))"

definition reconcileOnce :: "'h cluster_host \<Rightarrow> ClusterCoordinator \<Rightarrow> 'h \<Rightarrow> (go_error + task list) \<times> 'h" where
  "reconcileOnce nh cc h =
     (case ch_lookup nh (query0 QueryListTopics) h of
        (Inl err, h) \<Rightarrow> (Inr [], h)
      | (Inr (AnsTopics topics), h) \<Rightarrow>
          (case expected_loop nh (cl_config cc) topics [] h of
             (Inl e, h) \<Rightarrow> (Inl e, h)
           | (Inr expected, h) \<Rightarrow>
               (Inr (map (\<lambda>(shardID, info). StartShard shardID info)
                       (filter (\<lambda>(shardID, info). map_of (runningShards cc) shardID = None) expected)
                     @ map (\<lambda>(shardID, info). StopShard shardID info)
                       (filter (\<lambda>(shardID, info). map_of expected shardID = None) (runningShards cc))), h))
      | (Inr _, h) \<Rightarrow> (Inl bad_type, h))"

definition startShard :: "'h cluster_host \<Rightarrow> int \<Rightarrow> shardInfo \<Rightarrow> ClusterCoordinator \<Rightarrow> DataCoordinator \<Rightarrow> 'h \<Rightarrow>
    ClusterCoordinator \<times> DataCoordinator \<times> 'h" where
  "startShard nh shardID info cc dc h =
     (case StartPartitionShard nh shardID (si_Peers info) False (si_Topic info) (si_PartitionID info) h of
        (Some err, h) \<Rightarrow> (cc, dc, h)
      | (None, h) \<Rightarrow>
          (cc\<lparr>runningShards := mput shardID info (runningShards cc)\<rparr>,
           StartPartitionReplica (si_Topic info) (si_PartitionID info) shardID dc, h))"

text \<open>The last component of the result is the directory given to \<open>os.RemoveAll\<close>.\<close>

definition stopShard :: "'h cluster_host \<Rightarrow> int \<Rightarrow> shardInfo \<Rightarrow> ClusterCoordinator \<Rightarrow> DataCoordinator \<Rightarrow> 'h \<Rightarrow>
    ClusterCoordinator \<times> DataCoordinator \<times> 'h \<times> string" where
  "stopShard nh shardID info cc dc h =
     (let dc = StopPartitionReplica (si_Topic info) (si_PartitionID info) shardID dc;
          h = snd (StopPartitionShard nh shardID h);
          cc = cc\<lparr>runningShards := mdel shardID (runningShards cc)\<rparr>
      in (cc, dc, h, partitionDir (cl_DataDir (cl_config cc)) (si_Topic info) (si_PartitionID info)))"

fun run_task :: "'h cluster_host \<Rightarrow> task \<Rightarrow> ClusterCoordinator \<times> DataCoordinator \<times> 'h \<Rightarrow>
    ClusterCoordinator \<times> DataCoordinator \<times> 'h" where
  "run_task nh (StartShard shardID info) (cc, dc, h) = startShard nh shardID info cc dc h"
| "run_task nh (StopShard shardID info) (cc, dc, h) =
     (case stopShard nh shardID info cc dc h of (cc, dc, h, dir) \<Rightarrow> (cc, dc, h))"

text \<open>
  The background loop: at every tick it reads the coordinator as it is then, so a tick carries
  it.  The result lists the tasks of each round.
\<close>

datatype 'a loop_event = Tick 'a | Done

fun reconcileLoop :: "'h cluster_host \<Rightarrow> ClusterCoordinator loop_event list \<Rightarrow> 'h \<Rightarrow> (go_error + task list) list \<times> 'h" where
  "reconcileLoop nh [] h = ([], h)"
| "reconcileLoop nh (Done # evs) h = ([], h)"
| "reconcileLoop nh (Tick cc # evs) h =
     (case reconcileOnce nh cc h of
        (r, h) \<Rightarrow> (case reconcileLoop nh evs h of (rs, h) \<Rightarrow> (r # rs, h)))"

section \<open>Leaders\<close>

fun sweep_loop :: "'h cluster_host \<Rightarrow> (int \<times> shardInfo) list \<Rightarrow> ClusterCoordinator \<Rightarrow> 'h \<Rightarrow> ClusterCoordinator \<times> 'h" where
  "sweep_loop nh [] cc h = (cc, h)"
| "sweep_loop nh ((shardID, info) # shards) cc h =
     (case GetLeaderID (ch_meta nh) shardID h of
        Inl err \<Rightarrow> sweep_loop nh shards cc h
      | Inr (leaderID, term_no, valid) \<Rightarrow>
          if \<not> valid then sweep_loop nh shards cc h
          else
            let last = mget0 \<lparr>lr_nodeID = 0, lr_term = 0\<rparr> (lastKnownLeader cc) shardID
            in if leaderID = lr_nodeID last \<and> term_no = lr_term last then sweep_loop nh shards cc h
               else (case syncProposeMetadata nh (CmdAssignPartitionLeader (Some
                       \<lparr>al_Topic = si_Topic info, al_PartitionID = si_PartitionID info,
                        al_LeaderNodeID = leaderID, al_LeaderEpoch = int64 term_no\<rparr>)) h of
                       (Inl err, h) \<Rightarrow> sweep_loop nh shards cc h
                     | (Inr r, h) \<Rightarrow>
                         sweep_loop nh shards
                           (cc\<lparr>lastKnownLeader := mput shardID \<lparr>lr_nodeID = leaderID, lr_term = term_no\<rparr>
                              (lastKnownLeader cc)\<rparr>) h))"

definition sweepLeaders :: "'h cluster_host \<Rightarrow> ClusterCoordinator \<Rightarrow> 'h \<Rightarrow> ClusterCoordinator \<times> 'h" where
  "sweepLeaders nh cc h = sweep_loop nh (runningShards cc) cc h"

text \<open>Here a tick carries the running shards; the known leaders are changed by the sweeps only.\<close>

fun leaderSweepLoop :: "'h cluster_host \<Rightarrow> (int, shardInfo) gomap loop_event list \<Rightarrow> ClusterCoordinator \<Rightarrow> 'h \<Rightarrow>
    ClusterCoordinator \<times> 'h" where
  "leaderSweepLoop nh [] cc h = (cc, h)"
| "leaderSweepLoop nh (Done # evs) cc h = (cc, h)"
| "leaderSweepLoop nh (Tick shards # evs) cc h =
     (case sweepLeaders nh (cc\<lparr>runningShards := shards\<rparr>) h of (cc, h) \<Rightarrow> leaderSweepLoop nh evs cc h)"

section \<open>Bootstrap\<close>

text \<open>
  A failed attempt observes the clock after the call and which case of the \<open>select\<close> fires: the
  200 ms timer, or the end of the context.  \<open>None\<close> is a call that still waits when the
  observations end.
\<close>

record attempt =
  at_now :: int
  at_done :: bool

fun wait_leader :: "'h cluster_host \<Rightarrow> int \<Rightarrow> attempt list \<Rightarrow> 'h \<Rightarrow> ((go_error + attempt list) \<times> 'h) option" where
  "wait_leader nh deadline ps h =
     (case ch_lookup nh (query0 QueryListNodes) h of
        (Inr a, h) \<Rightarrow> Some (Inr ps, h)
      | (Inl err, h) \<Rightarrow>
          (case ps of
             [] \<Rightarrow> None
           | p # ps \<Rightarrow>
               if at_now p > deadline then Some (Inl (NewError ''bootstrap: timed out waiting for metadata shard leader''), h)
               else if at_done p then Some (Inl ContextErr, h)
               else wait_leader nh deadline ps h))"

fun register_loop :: "'h cluster_host \<Rightarrow> MetadataCommand \<Rightarrow> int \<Rightarrow> attempt list \<Rightarrow> 'h \<Rightarrow> ((go_error + attempt list) \<times> 'h) option" where
  "register_loop nh cmd deadline ps h =
     (case syncProposeMetadata nh cmd h of
        (Inr r, h) \<Rightarrow> Some (Inr ps, h)
      | (Inl err, h) \<Rightarrow>
          (case ps of
             [] \<Rightarrow> None
           | p # ps \<Rightarrow>
               if at_now p > deadline then Some (Inl (Wrapped ''register node'' err), h)
               else if at_done p then Some (Inl ContextErr, h)
               else register_loop nh cmd deadline ps h))"

declare wait_leader.simps [simp del] register_loop.simps [simp del]

definition reg_address :: "ClusterConfig \<Rightarrow> string" where
  "reg_address cfg =
     (let a = cl_AdvertiseDataAddr cfg;
          a = (if a = [] then cl_DataAddr cfg else a)
      in if a = [] then cl_RaftAddress cfg else a)"

definition Bootstrap :: "'h cluster_host \<Rightarrow> int \<Rightarrow> attempt list \<Rightarrow> ClusterCoordinator \<Rightarrow> 'h \<Rightarrow>
    ((go_error + task list) \<times> 'h) option" where
  "Bootstrap nh now ps cc h =
     (case StartMetadataShard nh (cl_Peers (cl_config cc)) False h of
        (Some err, h) \<Rightarrow> Some (Inl (Wrapped ''start metadata shard'' err), h)
      | (None, h) \<Rightarrow>
          let deadline = now + int64 (cl_BootstrapTimeoutMs (cl_config cc) * 1000000)
          in (case wait_leader nh deadline ps h of
                None \<Rightarrow> None
              | Some (Inl err, h) \<Rightarrow> Some (Inl err, h)
              | Some (Inr ps, h) \<Rightarrow>
                  (case register_loop nh (CmdRegisterNode (Some
                          \<lparr>rn_NodeID = cl_NodeID (cl_config cc), rn_Address = reg_address (cl_config cc)\<rparr>)) deadline ps h of
                     None \<Rightarrow> None
                   | Some (Inl err, h) \<Rightarrow> Some (Inl err, h)
                   | Some (Inr ps, h) \<Rightarrow> Some (reconcileOnce nh cc h))))"

section \<open>Topics\<close>

definition CreateTopic :: "'h cluster_host \<Rightarrow> int \<Rightarrow> string \<Rightarrow> int \<Rightarrow> int \<Rightarrow> TopicConfigOverrides \<Rightarrow> ClusterCoordinator \<Rightarrow> 'h \<Rightarrow>
    (go_error + (TopicInfo \<times> task list)) \<times> 'h" where
  "CreateTopic nh nowMs name partitionCount replicationFactor configOverrides cc h =
     (if \<not> topicNameRe name then (Inl (Wrapped ''topic name is invalid'' (ClusterE CErrInvalidArgument)), h)
      else if partitionCount < 1 then (Inl (Wrapped ''partitionCount must be >= 1'' (ClusterE CErrInvalidArgument)), h)
      else if replicationFactor < 1 then (Inl (Wrapped ''replicationFactor must be >= 1'' (ClusterE CErrInvalidArgument)), h)
      else (case ch_lookup nh (query0 QueryListNodes) h of
        (Inl err, h) \<Rightarrow> (Inl (Wrapped ''lookup nodes'' err), h)
      | (Inr (AnsNodes nodes), h) \<Rightarrow>
          if replicationFactor > int (length nodes)
          then (Inl (Wrapped ''replicationFactor exceeds cluster size'' (ClusterE CErrInvalidArgument)), h)
          else (case assign_all nodes name (map int [0..<nat partitionCount]) replicationFactor of
            Inl e \<Rightarrow> (Inl e, h)
          | Inr replicaNodeIDs \<Rightarrow>
              let retMs = (case tc_RetentionMs configOverrides of None \<Rightarrow> 0 | Some v \<Rightarrow> v);
                  retBytes = (case tc_RetentionBytes configOverrides of None \<Rightarrow> - 1 | Some v \<Rightarrow> v)
              in (case syncProposeMetadata nh (CmdCreateTopic (Some
                    \<lparr>ct_Name = name, ct_PartitionCount = partitionCount, ct_ReplicationFactor = replicationFactor,
                     ct_RetentionMs = retMs, ct_RetentionBytes = retBytes, ct_CreatedAtMs = nowMs,
                     ct_ReplicaNodeIDs = replicaNodeIDs\<rparr>)) h of
                    (Inl err, h) \<Rightarrow> (Inl (Wrapped ''propose create topic'' err), h)
                  | (Inr result, h) \<Rightarrow>
                      if r_Value result \<noteq> ResultOK
                      then if r_Value result = ResultErrAlreadyExists then (Inl (ClusterE CErrTopicAlreadyExists), h)
                           else (Inl (NewError ''create topic FSM error''), h)
                      else
                        let info = \<lparr>ti_Name = name, ti_PartitionCount = partitionCount,
                              ti_ReplicationFactor = replicationFactor, ti_RetentionMs = retMs,
                              ti_RetentionBytes = retBytes, ti_CreatedAtMs = nowMs\<rparr>
                        in if cl_EagerReconcileOnCreate (cl_config cc)
                           then (case reconcileOnce nh cc h of
                                   (Inl e, h) \<Rightarrow> (Inl e, h)
                                 | (Inr tasks, h) \<Rightarrow> (Inr (info, tasks), h))
                           else (Inr (info, []), h)))
      | (Inr _, h) \<Rightarrow> (Inl bad_type, h)))"

text \<open>The lookup with which several operations begin.\<close>

definition lookup_topic :: "'h cluster_host \<Rightarrow> string \<Rightarrow> 'h \<Rightarrow> (go_error + MetadataAnswer) \<times> 'h" where
  "lookup_topic nh name h =
     (case ch_lookup nh (topic_query QueryGetTopic name) h of
        (Inl err, h) \<Rightarrow>
          if errors_Is err MetadataErrNotFound then (Inl (ClusterE CErrTopicNotFound), h)
          else (Inl (Wrapped ''lookup topic'' err), h)
      | (Inr a, h) \<Rightarrow> (Inr a, h))"

definition DeleteTopic :: "'h cluster_host \<Rightarrow> string \<Rightarrow> 'h \<Rightarrow> go_error option \<times> 'h" where
  "DeleteTopic nh name h =
     (case lookup_topic nh name h of
        (Inl err, h) \<Rightarrow> (Some err, h)
      | (Inr a, h) \<Rightarrow>
          (case syncProposeMetadata nh (CmdDeleteTopic (Some \<lparr>dt_Name = name\<rparr>)) h of
             (Inl err, h) \<Rightarrow> (Some err, h)
           | (Inr r, h) \<Rightarrow> (None, h)))"

definition ListTopics :: "'h cluster_host \<Rightarrow> 'h \<Rightarrow> (go_error + TopicInfo list) \<times> 'h" where
  "ListTopics nh h =
     (case ch_lookup nh (query0 QueryListTopics) h of
        (Inl err, h) \<Rightarrow> (Inl err, h)
      | (Inr (AnsTopics metas), h) \<Rightarrow> (Inr (map topicInfoFromMeta metas), h)
      | (Inr _, h) \<Rightarrow> (Inl bad_type, h))"

definition partition_info :: "PartitionMeta \<Rightarrow> PartitionInfo" where
  "partition_info pm =
     \<lparr>pi_PartitionID = pm_PartitionID pm, pi_ShardID = pm_ShardID pm, pi_LeaderNodeID = pm_LeaderNodeID pm,
      pi_LeaderEpoch = pm_LeaderEpoch pm, pi_ReplicaNodeIDs = pm_ReplicaNodeIDs pm\<rparr>"

definition DescribeTopic :: "'h cluster_host \<Rightarrow> string \<Rightarrow> 'h \<Rightarrow> (go_error + TopicDescription) \<times> 'h" where
  "DescribeTopic nh name h =
     (case lookup_topic nh name h of
        (Inl err, h) \<Rightarrow> (Inl err, h)
      | (Inr (AnsTopic tm), h) \<Rightarrow>
          (case ch_lookup nh (topic_query QueryGetPartitions name) h of
             (Inl err, h) \<Rightarrow> (Inl (Wrapped ''lookup partitions'' err), h)
           | (Inr (AnsPartitions pms), h) \<Rightarrow>
               (Inr \<lparr>td_TopicInfo = topicInfoFromMeta tm, td_Partitions = map partition_info pms\<rparr>, h)
           | (Inr _, h) \<Rightarrow> (Inl bad_type, h))
      | (Inr _, h) \<Rightarrow> (Inl bad_type, h))"

definition AlterTopicPartitionCount :: "'h cluster_host \<Rightarrow> string \<Rightarrow> int \<Rightarrow> 'h \<Rightarrow> go_error option \<times> 'h" where
  "AlterTopicPartitionCount nh name newCount h =
     (case lookup_topic nh name h of
        (Inl err, h) \<Rightarrow> (Some err, h)
      | (Inr (AnsTopic tm), h) \<Rightarrow>
          if newCount \<le> tm_PartitionCount tm
          then (Some (Wrapped ''newCount must be greater than current'' (ClusterE CErrInvalidArgument)), h)
          else (case ch_lookup nh (query0 QueryListNodes) h of
                  (Inl err, h) \<Rightarrow> (Some (Wrapped ''lookup nodes'' err), h)
                | (Inr (AnsNodes nodes), h) \<Rightarrow>
                    let addCount = int32 (newCount - tm_PartitionCount tm)
                    in if addCount < 0 then (Some (GoPanic ''makeslice: len out of range''), h)
                       else (case assign_all nodes name
                                (map (\<lambda>i. int32 (tm_PartitionCount tm + int i)) [0..<nat addCount])
                                (tm_ReplicationFactor tm) of
                         Inl e \<Rightarrow> (Some e, h)
                       | Inr newAssignments \<Rightarrow>
                           (case syncProposeMetadata nh (CmdAlterTopicPartCount (Some
                                   \<lparr>ap_Name = name, ap_NewPartitionCount = newCount,
                                    ap_NewReplicaAssignments = newAssignments\<rparr>)) h of
                              (Inl err, h) \<Rightarrow> (Some err, h)
                            | (Inr r, h) \<Rightarrow> (None, h)))
                | (Inr _, h) \<Rightarrow> (Some bad_type, h))
      | (Inr _, h) \<Rightarrow> (Some bad_type, h))"

text \<open>
  The proposals to the partition shards, calls of \<open>proposePartition\<close>, run in their own
  goroutines; their arguments are returned with the result.  \<open>marshal\<close> encodes the payload.
\<close>

definition AlterTopicRetention :: "'h cluster_host \<Rightarrow> (int \<Rightarrow> int \<Rightarrow> bytes) \<Rightarrow> string \<Rightarrow> int \<Rightarrow> int \<Rightarrow> 'h \<Rightarrow>
    (go_error + (int \<times> PartitionCommand) list) \<times> 'h" where
  "AlterTopicRetention nh marshal name retMs retBytes h =
     (case lookup_topic nh name h of
        (Inl err, h) \<Rightarrow> (Inl err, h)
      | (Inr a, h) \<Rightarrow>
          (case syncProposeMetadata nh (CmdAlterTopicRetention (Some
                  \<lparr>ar_Name = name, ar_RetentionMs = retMs, ar_RetentionBytes = retBytes\<rparr>)) h of
             (Inl err, h) \<Rightarrow> (Inl err, h)
           | (Inr r, h) \<Rightarrow>
               (case ch_lookup nh (topic_query QueryGetPartitions name) h of
                  (Inl err, h) \<Rightarrow> (Inr [], h)
                | (Inr (AnsPartitions pms), h) \<Rightarrow>
                    (Inr (map (\<lambda>pm. (pm_ShardID pm,
                        \<lparr>pc_Type = CmdRetentionConfig, pc_Payload = marshal retMs retBytes\<rparr>)) pms), h)
                | (Inr _, h) \<Rightarrow> (Inl bad_type, h))))"

definition DescribeCluster :: "'h cluster_host \<Rightarrow> 'h \<Rightarrow> (go_error + NodeDescriptor list) \<times> 'h" where
  "DescribeCluster nh h =
     (case ch_lookup nh (query0 QueryListNodes) h of
        (Inl err, h) \<Rightarrow> (Inl err, h)
      | (Inr (AnsNodes nodes), h) \<Rightarrow>
          (Inr (map (\<lambda>n. \<lparr>nd_NodeID = ni_NodeID n, nd_Address = ni_Address n\<rparr>) nodes), h)
      | (Inr _, h) \<Rightarrow> (Inl bad_type, h))"

end
