(* ===== verification/ClusterTopics.thy ===== *)
theory ClusterTopics
  imports ClusterCoord
begin

text \<open>
  Lemmas about the cluster coordinator: the ring of nodes replicas are taken from, the waiting
  loops of \<open>Bootstrap\<close>, and the operations on topics on a host without other activity.
\<close>

section \<open>The ring of nodes\<close>

lemma mod_shift_inj:
  assumes "(a + int r) mod n = (a + int s) mod n" "int r < n" "int s < n"
  shows "r = s"
proof -
  have "n dvd (a + int r) - (a + int s)" using assms(1) by (rule mod_eq_dvd_iff [THEN iffD1])
  then have "n dvd int r - int s" by simp
  then have "int r - int s = 0" using assms(2,3) zdvd_not_zless [of "\<bar>int r - int s\<bar>" n] by fastforce
  then show ?thesis by simp
qed

definition ring :: "NodeInfo list \<Rightarrow> string \<Rightarrow> int \<Rightarrow> int" where
  "ring nodes name i =
     ni_NodeID (sort_key ni_NodeID nodes ! nat ((uint (fnv32a name) mod int (length nodes) + i) mod int (length nodes)))"

lemma ring_in:
  assumes "nodes \<noteq> []"
  shows "ring nodes name i \<in> ni_NodeID ` set nodes"
proof -
  have "nat (j mod int (length nodes)) < length (sort_key ni_NodeID nodes)" for j
    using assms pos_mod_bound [of "int (length nodes)" j] pos_mod_sign [of "int (length nodes)" j] by (simp add: nat_less_iff)
  then show ?thesis unfolding ring_def using nth_mem [of _ "sort_key ni_NodeID nodes"] by force
qed

lemma ring_inj:
  assumes "distinct (map ni_NodeID nodes)" "ring nodes name (p + int r) = ring nodes name (p + int s)"
    "r < length nodes" "s < length nodes"
  shows "r = s"
proof -
  let ?n = "int (length nodes)" and ?st = "uint (fnv32a name) mod int (length nodes)"
  let ?so = "map ni_NodeID (sort_key ni_NodeID nodes)"
  have n: "0 < ?n" using assms(3) by linarith
  have b: "nat (j mod ?n) < length ?so" for j
    using pos_mod_bound [OF n, of j] pos_mod_sign [OF n, of j] by (simp add: nat_less_iff)
  have "distinct ?so" using assms(1) by (simp add: distinct_map)
  moreover have "?so ! nat ((?st + (p + int r)) mod ?n) = ?so ! nat ((?st + (p + int s)) mod ?n)"
    using assms(2) b by (simp add: ring_def)
  ultimately have "nat ((?st + (p + int r)) mod ?n) = nat ((?st + (p + int s)) mod ?n)"
    using b by (simp only: nth_eq_iff_index_eq)
  then have "(?st + (p + int r)) mod ?n = (?st + (p + int s)) mod ?n"
    using pos_mod_sign [OF n] by (metis nat_0_le)
  then show ?thesis using mod_shift_inj [of "?st + p" r ?n s] assms(3,4) by (simp add: add.assoc)
qed

lemma assignReplicas_ring:
  assumes "nodes \<noteq> []" "0 \<le> pid" "0 \<le> rf"
  shows "assignReplicas nodes name pid rf = Inr (map (\<lambda>r. ring nodes name (pid + int r)) [0..<nat rf])"
proof -
  let ?n = "int (length nodes)" and ?st = "uint (fnv32a name) mod int (length nodes)"
  have n: "0 < ?n" using assms(1) by simp
  have g: "go_mod (?st + pid + int r) ?n = (?st + (pid + int r)) mod ?n" for r
    using go_mod_nonneg [of "?st + pid + int r" ?n] assms(2) pos_mod_sign [OF n] n by (simp add: add.assoc)
  have pos: "\<not> (?st + (pid + int r)) mod ?n < 0" for r using pos_mod_sign [OF n] by (simp add: not_less)
  show ?thesis
    unfolding assignReplicas_def Let_def length_sort g
    using n assms(3) pos by (simp add: list_ex_iff ring_def)
qed

lemma assignReplicas_ok:
  assumes "distinct (map ni_NodeID nodes)" "0 \<le> pid" "0 \<le> rf" "rf \<le> int (length nodes)" "nodes \<noteq> []"
  shows "\<exists>rs. assignReplicas nodes name pid rf = Inr rs \<and> length rs = nat rf \<and> distinct rs \<and>
    set rs \<subseteq> ni_NodeID ` set nodes"
proof -
  have "inj_on (\<lambda>r. ring nodes name (pid + int r)) (set [0..<nat rf])"
    using ring_inj [OF assms(1)] assms(4) by (intro inj_onI) fastforce
  then show ?thesis
    using assignReplicas_ring [OF assms(5,2,3), of name] ring_in [OF assms(5)] by (auto simp: distinct_map)
qed

lemma assign_all_ok:
  assumes "nodes \<noteq> []" "list_all (\<lambda>p. 0 \<le> p) ps" "0 \<le> rf"
  shows "assign_all nodes name ps rf = Inr (map (\<lambda>p. map (\<lambda>r. ring nodes name (p + int r)) [0..<nat rf]) ps)"
  using assms by (induction ps) (simp_all add: assignReplicas_ring)

section \<open>Waiting\<close>

lemma wait_leader_returns:
  assumes "\<exists>p \<in> set ps. deadline < at_now p \<or> at_done p"
  shows "\<exists>r h'. wait_leader nh deadline ps h = Some (r, h') \<and>
    (\<forall>qs. r = Inr qs \<longrightarrow> (\<exists>q \<in> set qs. deadline < at_now q \<or> at_done q))"
  using assms
proof (induction ps arbitrary: h)
  case (Cons p ps)
  then show ?case
    by (subst wait_leader.simps) (auto split: prod.split sum.split)
qed simp

lemma register_loop_returns:
  assumes "\<exists>p \<in> set ps. deadline < at_now p \<or> at_done p"
  shows "register_loop nh cmd deadline ps h \<noteq> None"
  using assms
proof (induction ps arbitrary: h)
  case (Cons p ps)
  then show ?case by (subst register_loop.simps) (auto split: prod.split sum.split)
qed simp

lemma Bootstrap_returns:
  assumes "0 \<le> cl_BootstrapTimeoutMs (cl_config cc)" "cl_BootstrapTimeoutMs (cl_config cc) < 2 ^ 40"
    "\<exists>p \<in> set ps. now + cl_BootstrapTimeoutMs (cl_config cc) * 1000000 < at_now p \<or> at_done p"
  shows "Bootstrap nh now ps cc h \<noteq> None"
proof -
  let ?d = "now + cl_BootstrapTimeoutMs (cl_config cc) * 1000000"
  have t: "int64 (cl_BootstrapTimeoutMs (cl_config cc) * 1000000) = cl_BootstrapTimeoutMs (cl_config cc) * 1000000"
    using assms(1,2) by (simp add: int64_id in_int64_def)
  obtain e h1 where s: "StartMetadataShard nh (cl_Peers (cl_config cc)) False h = (e, h1)" by fastforce
  obtain r h2 where w: "wait_leader nh ?d ps h1 = Some (r, h2)"
    "\<forall>qs. r = Inr qs \<longrightarrow> (\<exists>q \<in> set qs. ?d < at_now q \<or> at_done q)"
    using wait_leader_returns [OF assms(3), of nh h1] by blast
  show ?thesis
  proof (cases r)
    case (Inl err)
    then show ?thesis using s w(1) unfolding Bootstrap_def Let_def t by (cases e) simp_all
  next
    case (Inr qs)
    let ?cmd = "CmdRegisterNode (Some \<lparr>rn_NodeID = cl_NodeID (cl_config cc), rn_Address = reg_address (cl_config cc)\<rparr>)"
    have "register_loop nh ?cmd ?d qs h2 \<noteq> None" by (rule register_loop_returns) (simp add: w(2) Inr)
    then obtain x h3 where "register_loop nh ?cmd ?d qs h2 = Some (x, h3)" by (auto simp del: split_paired_Ex)
    then show ?thesis using s w(1) Inr unfolding Bootstrap_def Let_def t by (cases e; cases x) simp_all
  qed
qed

section \<open>What a node should run\<close>

definition topic_parts :: "MetadataState \<Rightarrow> string \<Rightarrow> PartitionMeta list" where
  "topic_parts st name = sort_key pm_PartitionID (mvals (filter (\<lambda>(key, p). pk_Topic key = name) (Partitions st)))"

definition expected_of :: "ClusterConfig \<Rightarrow> MetadataState \<Rightarrow> TopicMeta list \<Rightarrow> (int, shardInfo) gomap \<Rightarrow> (int, shardInfo) gomap" where
  "expected_of cfg st topics expected =
     fold (\<lambda>tm ex. if map_of (Topics st) (tm_Name tm) = None then ex else fold (expect cfg) (topic_parts st (tm_Name tm)) ex)
       topics expected"

abbreviation all_topics :: "MetadataState \<Rightarrow> TopicMeta list" where
  "all_topics st \<equiv> sort_key tm_Name (mvals (Topics st))"

section \<open>Creating topics\<close>

definition node_list :: "MetadataState \<Rightarrow> NodeInfo list" where
  "node_list st = sort_key ni_NodeID (mvals (Nodes st))"

lemma node_list_ids:
  assumes "topics_inv n st"
  shows "distinct (map ni_NodeID (node_list st))" "length (node_list st) = length (Nodes st)"
    "ni_NodeID ` set (node_list st) = set (mkeys (Nodes st))"
proof -
  have m: "map_ok (Nodes st)" by (rule topics_invD(3) [OF assms])
  have eq: "map ni_NodeID (mvals (Nodes st)) = mkeys (Nodes st)"
    using topics_invD(10) [OF assms] m by (auto simp: mvals_def mkeys_def map_ok_def)
  then have "distinct (map ni_NodeID (mvals (Nodes st)))" using distinct_mkeys [OF m] by simp
  then show "distinct (map ni_NodeID (node_list st))" by (simp add: node_list_def distinct_map)
  show "ni_NodeID ` set (node_list st) = set (mkeys (Nodes st))" by (simp add: node_list_def eq [symmetric])
  show "length (node_list st) = length (Nodes st)" by (simp add: node_list_def mvals_def)
qed

text \<open>What \<open>CreateTopic\<close> accepts.\<close>

definition create_args_ok :: "string \<Rightarrow> int \<Rightarrow> int \<Rightarrow> MetadataState \<Rightarrow> bool" where
  "create_args_ok name pc rf st \<longleftrightarrow> topicNameRe name \<and> 1 \<le> pc \<and> 1 \<le> rf \<and> rf \<le> int (length (Nodes st))"

definition topic_created :: "string \<Rightarrow> int \<Rightarrow> int \<Rightarrow> MetadataState \<Rightarrow> MetadataState \<Rightarrow> bool" where
  "topic_created name pc rf st st' \<longleftrightarrow>
     (\<forall>i. 0 \<le> i \<and> i < pc \<longrightarrow> (\<exists>pm. map_of (Partitions st') (PartitionKey name i) = Some pm \<and>
        length (pm_ReplicaNodeIDs pm) = nat rf \<and> distinct (pm_ReplicaNodeIDs pm) \<and>
        set (pm_ReplicaNodeIDs pm) \<subseteq> set (mkeys (Nodes st)) \<and> pm_LeaderNodeID pm = 0 \<and>
        NextShardID st \<le> pm_ShardID pm)) \<and>
     (\<forall>t i. t \<noteq> name \<longrightarrow> map_of (Partitions st') (PartitionKey t i) = map_of (Partitions st) (PartitionKey t i))"

lemma grows_created:
  assumes inv: "topics_inv n st" and g: "grows name t 0 reps st st'" and rf: "1 \<le> rf" "rf \<le> int (length (Nodes st))"
    and reps: "\<forall>i < nat (tm_PartitionCount t). reps i = map (\<lambda>r. ring (node_list st) name (int i + int r)) [0..<nat rf]"
  shows "topic_created name (tm_PartitionCount t) rf st st'"
proof -
  have ne: "node_list st \<noteq> []" using node_list_ids(2) [OF inv] rf by auto
  have P: "map_of (Partitions st') (PartitionKey nm i) =
     (if nm = name \<and> 0 \<le> i \<and> i < tm_PartitionCount t
      then Some (new_part name i (NextShardID st + i) (reps (nat i)))
      else map_of (Partitions st) (PartitionKey nm i))" for nm i
    using g map_of_new_parts [of name 0 "NextShardID st" reps "nat (tm_PartitionCount t)" "Partitions st" nm i]
    by (auto simp: grows_def)
  have R: "\<exists>rs. reps (nat i) = rs \<and> length rs = nat rf \<and> distinct rs \<and> set rs \<subseteq> set (mkeys (Nodes st))"
    if "0 \<le> i" "i < tm_PartitionCount t" for i
  proof -
    have "assignReplicas (node_list st) name i rf = Inr (reps (nat i))"
      using assignReplicas_ring [OF ne that(1), of rf name] rf reps that by simp
    then show ?thesis
      using assignReplicas_ok [OF node_list_ids(1) [OF inv] that(1), of rf name] node_list_ids(2,3) [OF inv] rf ne by auto
  qed
  show ?thesis
    unfolding topic_created_def using P R by (auto simp: new_part_def)
qed


definition create_cmd :: "int \<Rightarrow> string \<Rightarrow> int \<Rightarrow> int \<Rightarrow> TopicConfigOverrides \<Rightarrow> MetadataState \<Rightarrow> CreateTopicCmd" where
  "create_cmd now name pc rf ov st =
     \<lparr>ct_Name = name, ct_PartitionCount = pc, ct_ReplicationFactor = rf,
      ct_RetentionMs = (case tc_RetentionMs ov of None \<Rightarrow> 0 | Some v \<Rightarrow> v),
      ct_RetentionBytes = (case tc_RetentionBytes ov of None \<Rightarrow> - 1 | Some v \<Rightarrow> v), ct_CreatedAtMs = now,
      ct_ReplicaNodeIDs = map (\<lambda>p. map (\<lambda>r. ring (node_list st) name (p + int r)) [0..<nat rf]) (map int [0..<nat pc])\<rparr>"

section \<open>A quiet host\<close>

text \<open>
  A host on which nothing else happens: lookups answer from the metadata and leave the state alone,
  and a proposal is applied at once.
\<close>

locale quiet_host =
  fixes nh :: "'h cluster_host"
    and meta :: "'h \<Rightarrow> MetadataState"
    and set_meta :: "MetadataState \<Rightarrow> 'h \<Rightarrow> 'h"
    and quiet :: "'h \<Rightarrow> bool"
  assumes quiet_lookup: "quiet h \<Longrightarrow> ch_lookup nh q h = (MetadataFSM_Lookup q (meta h), h)"
    and quiet_propose: "quiet h \<Longrightarrow>
      syncProposeMetadata nh c h = (case local_propose c (meta h) of (r, st) \<Rightarrow> (r, set_meta st h))"
    and meta_set: "meta (set_meta st h) = st"
    and quiet_set: "quiet (set_meta st h) = quiet h"
    and set_same: "set_meta (meta h) h = h"
begin

lemma expected_loop_quiet:
  "quiet h \<Longrightarrow> expected_loop nh cfg topics ex h = (Inr (expected_of cfg (meta h) topics ex), h)"
  by (induction topics arbitrary: ex)
    (simp_all add: quiet_lookup expected_of_def topic_parts_def topic_query_def query0_def MetadataFSM_Lookup_def)

lemma reconcileOnce_quiet:
  "quiet h \<Longrightarrow> reconcileOnce nh cc h =
     (let ex = expected_of (cl_config cc) (meta h) (all_topics (meta h)) []
      in Inr (map (\<lambda>(shardID, info). StartShard shardID info)
                (filter (\<lambda>(shardID, info). map_of (runningShards cc) shardID = None) ex)
              @ map (\<lambda>(shardID, info). StopShard shardID info)
                (filter (\<lambda>(shardID, info). map_of ex shardID = None) (runningShards cc))), h)"
  by (simp add: reconcileOnce_def quiet_lookup expected_loop_quiet query0_def MetadataFSM_Lookup_def Let_def)

lemma CreateTopic_refuses:
  assumes "quiet h" "topics_inv n (meta h)" "\<not> create_args_ok name pc rf (meta h)"
  shows "\<exists>m. CreateTopic nh now name pc rf ov cc h = (Inl (Wrapped m (ClusterE CErrInvalidArgument)), h)"
proof -
  have "length (sort_key ni_NodeID (mvals (Nodes (meta h)))) = length (Nodes (meta h))" by (simp add: mvals_def)
  then show ?thesis using assms(1,3)
    by (auto simp: quiet_lookup CreateTopic_def create_args_ok_def query0_def MetadataFSM_Lookup_def not_le not_less)
qed

lemma CreateTopic_quiet:
  assumes "quiet h" "topics_inv n (meta h)" "create_args_ok name pc rf (meta h)"
  shows "CreateTopic nh now name pc rf ov cc h =
    (case applyCreateTopic (create_cmd now name pc rf ov (meta h)) (meta h) of
       (result, st) \<Rightarrow>
         (if r_Value result = ResultOK
          then Inr (\<lparr>ti_Name = name, ti_PartitionCount = pc, ti_ReplicationFactor = rf,
                 ti_RetentionMs = (case tc_RetentionMs ov of None \<Rightarrow> 0 | Some v \<Rightarrow> v),
                 ti_RetentionBytes = (case tc_RetentionBytes ov of None \<Rightarrow> - 1 | Some v \<Rightarrow> v), ti_CreatedAtMs = now\<rparr>,
               if cl_EagerReconcileOnCreate (cl_config cc)
               then projr (fst (reconcileOnce nh cc (set_meta st h))) else [])
          else if r_Value result = ResultErrAlreadyExists then Inl (ClusterE CErrTopicAlreadyExists)
          else Inl (NewError ''create topic FSM error''), set_meta st h))"
proof -
  let ?st = "meta h"
  have l: "length (node_list ?st) = length (Nodes ?st)" by (rule node_list_ids(2) [OF assms(2)])
  then have ne: "node_list ?st \<noteq> []" using assms(3) by (auto simp: create_args_ok_def)
  have a: "assign_all (node_list ?st) name (map int [0..<nat pc]) rf =
      Inr (ct_ReplicaNodeIDs (create_cmd now name pc rf ov ?st))"
    using assign_all_ok [OF ne, of "map int [0..<nat pc]" rf name] assms(3)
    by (simp add: create_cmd_def create_args_ok_def list_all_iff)
  have q: "MetadataFSM_Lookup (query0 QueryListNodes) ?st = Inr (AnsNodes (node_list ?st))"
    by (simp add: query0_def MetadataFSM_Lookup_def node_list_def)
  obtain r st where ap: "applyCreateTopic (create_cmd now name pc rf ov ?st) ?st = (r, st)" by fastforce
  show ?thesis
    using assms(1,3) l a ap
    by (simp add: quiet_lookup quiet_propose quiet_set meta_set CreateTopic_def q create_args_ok_def local_propose_def deref_def create_cmd_def reconcileOnce_quiet Let_def)
qed

lemma CreateTopic_total:
  assumes "quiet h" "topics_inv n (meta h)" "n < 2 ^ 32" "pc < 2 ^ 31"
  shows "if create_args_ok name pc rf (meta h) \<and> map_of (Topics (meta h)) name = None
    then \<exists>info tasks st'. CreateTopic nh now name pc rf ov cc h = (Inr (info, tasks), set_meta st' h) \<and>
      topics_inv (Suc n) st' \<and> topic_created name pc rf (meta h) st' \<and>
      map_option topicInfoFromMeta (map_of (Topics st') name) = Some info
    else \<exists>e. CreateTopic nh now name pc rf ov cc h = (Inl e, h) \<and>
      (if create_args_ok name pc rf (meta h) then e = ClusterE CErrTopicAlreadyExists
       else errors_Is e (ClusterE CErrInvalidArgument))"
proof (cases "create_args_ok name pc rf (meta h)")
  case False
  then show ?thesis using CreateTopic_refuses [OF assms(1,2) False, of now ov cc] by auto
next
  case ok: True
  let ?st = "meta h" and ?c = "create_cmd now name pc rf ov (meta h)"
  show ?thesis
  proof (cases "map_of (Topics ?st) name")
    case (Some t)
    then have "applyCreateTopic ?c ?st = (ErrorResult ResultErrAlreadyExists ''topic already exists'', ?st)"
      by (simp add: applyCreateTopic_def create_cmd_def)
    then show ?thesis using CreateTopic_quiet [OF assms(1,2) ok, of now ov cc] Some ok by (simp add: ErrorResult_def set_same)
  next
    case None
    have pc: "0 < pc" "1 \<le> rf" "rf \<le> int (length (Nodes ?st))" using ok by (simp_all add: create_args_ok_def)
    note cr = applyCreateTopic_ok [OF assms(2,3), of ?c]
    have len: "int32 (int (length (ct_ReplicaNodeIDs ?c))) = pc"
      using pc assms(4) by (simp add: create_cmd_def int32_id in_int32_def)
    obtain st' where ap: "applyCreateTopic ?c ?st = (OKResult, st')"
      using cr(1) None pc assms(4) len by (cases "applyCreateTopic ?c ?st") (simp add: create_cmd_def)
    obtain t where g: "grows name t 0 (\<lambda>i. ct_ReplicaNodeIDs ?c ! i) ?st st'" "tm_PartitionCount t = pc"
      "topicInfoFromMeta t = \<lparr>ti_Name = name, ti_PartitionCount = pc, ti_ReplicationFactor = rf,
         ti_RetentionMs = (case tc_RetentionMs ov of None \<Rightarrow> 0 | Some v \<Rightarrow> v),
         ti_RetentionBytes = (case tc_RetentionBytes ov of None \<Rightarrow> - 1 | Some v \<Rightarrow> v), ti_CreatedAtMs = now\<rparr>"
      using cr(2) None pc assms(4) len ap
      by (simp add: create_cmd_def topicInfoFromMeta_def)
    have "topic_created name pc rf ?st st'"
      using grows_created [OF assms(2) g(1) pc(2,3)] g(2) by (simp add: create_cmd_def)
    moreover have "topics_inv (Suc n) st'" by (rule topics_inv_grow [OF assms(2) g(1)])
    moreover have "map_of (Topics st') name = Some t" using g(1) by (simp add: grows_def)
    ultimately show ?thesis
      using CreateTopic_quiet [OF assms(1,2) ok, of now ov cc] ap None ok g(3) by (auto simp: OKResult_def)
  qed
qed

lemma CreateTopic_topics:
  assumes "quiet h" "topics_inv n (meta h)" "create_args_ok name pc rf (meta h)"
    "CreateTopic nh now name pc rf ov cc h = (Inr (info, tasks), set_meta st' h)"
  shows "\<exists>t. Topics st' = mput name t (Topics (meta h)) \<and> tm_Name t = name \<and> tm_PartitionCount t = pc \<and>
    tm_ReplicationFactor t = rf \<and> tm_RetentionMs t = (case tc_RetentionMs ov of None \<Rightarrow> 0 | Some v \<Rightarrow> v) \<and>
    tm_RetentionBytes t = (case tc_RetentionBytes ov of None \<Rightarrow> - 1 | Some v \<Rightarrow> v)"
proof -
  obtain r st where ap: "applyCreateTopic (create_cmd now name pc rf ov (meta h)) (meta h) = (r, st)" by fastforce
  then have "r_Value r = ResultOK" "set_meta st' h = set_meta st h"
    using CreateTopic_quiet [OF assms(1-3), of now ov cc] assms(4) by (simp_all split: if_splits)
  then have "r_Value r = ResultOK" "st' = st" using meta_set by metis+
  then show ?thesis
    using ap by (auto simp: applyCreateTopic_def create_cmd_def ErrorResult_def ResultOK_def ResultErrAlreadyExists_def
        ResultErrInvalidArg_def Let_def split: if_splits)
qed

lemma ListTopics_quiet:
  "quiet h \<Longrightarrow> ListTopics nh h = (Inr (map topicInfoFromMeta (all_topics (meta h))), h)"
  by (simp add: ListTopics_def quiet_lookup query0_def MetadataFSM_Lookup_def)

end

end
