(* ===== verification/ClusterLemmas.thy ===== *)
theory ClusterLemmas
  imports ClusterTopics
begin

text \<open>
  The convergence of reconciliation, on a node with the shards the raft library runs there: the
  tasks of one round, in any order, leave exactly the shards that belong on the node.
\<close>

section \<open>A node without other activity\<close>

text \<open>
  The replicated metadata together with the shards the raft library runs on this node.  Starting a
  shard that runs and stopping one that does not are errors, as in the library.
\<close>

record nsim =
  ns_meta :: MetadataState
  ns_running :: "int list"

definition node_host :: "(int \<Rightarrow> go_error + (int \<times> int \<times> bool)) \<Rightarrow> nsim cluster_host" where
  "node_host leader =
     \<lparr>ch_meta = \<lparr>SyncProposeMetadata = (\<lambda>c h. case local_propose c (ns_meta h) of (r, st) \<Rightarrow> (r, h\<lparr>ns_meta := st\<rparr>)),
        LookupMetadata = (\<lambda>q h. (MetadataFSM_Lookup q (ns_meta h), h)),
        GetLeaderID = (\<lambda>shard h. leader shard),
        LiveMembers = (\<lambda>grp h. members_of grp (ns_meta h))\<rparr>,
      StartMetadataShard = (\<lambda>peers join h. (None, h)),
      StartPartitionShard = (\<lambda>shard peers join topic pid h.
        if shard \<in> set (ns_running h) then (Some (SysErr ''shard already exists''), h)
        else (None, h\<lparr>ns_running := shard # ns_running h\<rparr>)),
      StopPartitionShard = (\<lambda>shard h.
        if shard \<in> set (ns_running h) then (None, h\<lparr>ns_running := removeAll shard (ns_running h)\<rparr>)
        else (Some (SysErr ''shard not found''), h)),
      ch_ProposePartition = (\<lambda>shard c h. (None, h))\<rparr>"

interpretation nh: meta_host "ch_meta (node_host leader)" ns_meta for leader
proof (unfold_locales, goal_cases)
  case (1 q h r h')
  then show ?case by (intro exI [of _ "[]"]) (simp add: node_host_def)
next
  case (3 c h e h')
  then show ?case
    by (intro exI [of _ "[]"]) (auto simp: node_host_def local_propose_def split: sum.splits prod.splits)
next
  case (4 c h r h')
  then show ?case
    by (intro exI [of _ "[]"]) (auto simp: node_host_def local_propose_def split: sum.splits prod.splits)
qed (auto simp: node_host_def)

lemma node_ops [simp]:
  "ch_lookup (node_host leader) q h = (MetadataFSM_Lookup q (ns_meta h), h)"
  "syncProposeMetadata (node_host leader) c h = (case local_propose c (ns_meta h) of (r, st) \<Rightarrow> (r, h\<lparr>ns_meta := st\<rparr>))"
  "GetLeaderID (ch_meta (node_host leader)) shard h = leader shard"
  by (simp_all add: node_host_def syncProposeMetadata_def)

interpretation nq: quiet_host "node_host leader" ns_meta "\<lambda>st h. h\<lparr>ns_meta := st\<rparr>" "\<lambda>h. True" for leader
  by unfold_locales simp_all

lemmas reconcileOnce_node = nq.reconcileOnce_quiet [OF TrueI]

section \<open>Reconciliation converges\<close>

text \<open>The shards with a replica on the node.\<close>

definition hosted :: "ClusterConfig \<Rightarrow> PartitionMeta set \<Rightarrow> int set" where
  "hosted cfg pms = pm_ShardID ` {pm \<in> pms. cl_NodeID cfg \<in> set (pm_ReplicaNodeIDs pm)}"

definition wanted :: "ClusterConfig \<Rightarrow> MetadataState \<Rightarrow> int set" where
  "wanted cfg st = hosted cfg (set (mvals (Partitions st)))"

lemma hosted_UN: "hosted cfg (\<Union>x \<in> A. B x) = (\<Union>x \<in> A. hosted cfg (B x))"
  by (auto simp: hosted_def)

lemma fold_expect:
  "set (mkeys (fold (expect cfg) pms ex)) = set (mkeys ex) \<union> hosted cfg (set pms)"
  by (induction pms arbitrary: ex) (auto simp: expect_def hosted_def)

lemma expected_of_keys:
  "set (mkeys (expected_of cfg st topics ex)) = set (mkeys ex) \<union>
     (\<Union>tm \<in> {tm \<in> set topics. map_of (Topics st) (tm_Name tm) \<noteq> None}. hosted cfg (set (topic_parts st (tm_Name tm))))"
proof (induction topics arbitrary: ex)
  case (Cons tm topics)
  have eq: "expected_of cfg st (tm # topics) ex = expected_of cfg st topics
      (if map_of (Topics st) (tm_Name tm) = None then ex else fold (expect cfg) (topic_parts st (tm_Name tm)) ex)"
    by (simp add: expected_of_def)
  show ?case unfolding eq Cons.IH by (auto simp: fold_expect)
qed (simp add: expected_of_def)

lemma expected_wanted:
  assumes inv: "topics_inv n st"
  shows "set (mkeys (expected_of cfg st (all_topics st) [])) = wanted cfg st"
proof -
  have ex: "\<exists>tm \<in> set (mvals (Topics st)). tm_Name tm = pk_Topic k \<and> map_of (Topics st) (tm_Name tm) \<noteq> None"
    if "(k, pm) \<in> set (Partitions st)" for k pm
  proof -
    have "map_of (Partitions st) k = Some pm" using that topics_invD(2) [OF inv] by (simp add: map_ok_def)
    then obtain t where t: "map_of (Topics st) (pk_Topic k) = Some t"
      using topics_invD(7) [OF inv, of "pk_Topic k" "pk_PartitionID k"] by auto
    then have "t \<in> set (mvals (Topics st))" by (auto simp: mvals_def dest!: map_of_SomeD intro: rev_image_eqI)
    then show ?thesis using t topics_invD(6) [OF inv t] by auto
  qed
  have parts: "set (topic_parts st name) = {p. \<exists>k. (k, p) \<in> set (Partitions st) \<and> pk_Topic k = name}" for name
    by (force simp: topic_parts_def mvals_def)
  have "(\<Union>tm \<in> {tm \<in> set (mvals (Topics st)). map_of (Topics st) (tm_Name tm) \<noteq> None}. set (topic_parts st (tm_Name tm)))
      = set (mvals (Partitions st))"
  proof (intro equalityI subsetI)
    fix p assume "p \<in> set (mvals (Partitions st))"
    then obtain k where k: "(k, p) \<in> set (Partitions st)" by (auto simp: mvals_def)
    then obtain tm where tm: "tm \<in> {tm \<in> set (mvals (Topics st)). map_of (Topics st) (tm_Name tm) \<noteq> None}"
      "tm_Name tm = pk_Topic k" using ex by blast
    moreover have "p \<in> set (topic_parts st (tm_Name tm))" unfolding parts tm(2) using k by blast
    ultimately show "p \<in> (\<Union>tm \<in> {tm \<in> set (mvals (Topics st)). map_of (Topics st) (tm_Name tm) \<noteq> None}.
        set (topic_parts st (tm_Name tm)))" by (intro UN_I)
  qed (force simp: parts mvals_def)
  then show ?thesis unfolding expected_of_keys wanted_def by (simp add: mkeys_def hosted_UN [symmetric])
qed

definition started :: "task list \<Rightarrow> int set" where
  "started ts = {sh. \<exists>info. StartShard sh info \<in> set ts}"

definition stopped :: "task list \<Rightarrow> int set" where
  "stopped ts = {sh. \<exists>info. StopShard sh info \<in> set ts}"

lemma started_simps [simp]:
  "started [] = {}" "started (StartShard sh info # ts) = insert sh (started ts)" "started (StopShard sh info # ts) = started ts"
  "stopped [] = {}" "stopped (StartShard sh info # ts) = stopped ts" "stopped (StopShard sh info # ts) = insert sh (stopped ts)"
  by (auto simp: started_def stopped_def)

lemma started_tasks:
  "started (map (\<lambda>(s, i). StartShard s i) xs @ map (\<lambda>(s, i). StopShard s i) ys) = fst ` set xs"
  "stopped (map (\<lambda>(s, i). StartShard s i) xs @ map (\<lambda>(s, i). StopShard s i) ys) = fst ` set ys"
  by (force simp: started_def stopped_def)+

lemma filter_keys: "fst ` set (filter (\<lambda>(k, v). map_of m k = None) xs) = set (mkeys xs) - set (mkeys m)"
  by (force simp: mkeys_def map_of_eq_None_iff)

text \<open>The coordinator and the raft library agree on what runs.\<close>

definition in_step :: "ClusterCoordinator \<Rightarrow> nsim \<Rightarrow> bool" where
  "in_step cc h \<longleftrightarrow> map_ok (runningShards cc) \<and> set (ns_running h) = set (mkeys (runningShards cc))"

lemma node_shards [simp]:
  "StartPartitionShard (node_host leader) shard peers join topic pid h =
     (if shard \<in> set (ns_running h) then (Some (SysErr ''shard already exists''), h)
      else (None, h\<lparr>ns_running := shard # ns_running h\<rparr>))"
  "StopPartitionShard (node_host leader) shard h =
     (if shard \<in> set (ns_running h) then (None, h\<lparr>ns_running := removeAll shard (ns_running h)\<rparr>)
      else (Some (SysErr ''shard not found''), h))"
  by (simp_all add: node_host_def)

lemma run_task_step:
  assumes "in_step cc h" "run_task (node_host leader) t (cc, dc, h) = (cc', dc', h')"
  shows "in_step cc' h' \<and> ns_meta h' = ns_meta h \<and> cl_config cc' = cl_config cc \<and>
    set (mkeys (runningShards cc')) = (set (mkeys (runningShards cc)) \<union> started [t]) - stopped [t]"
proof (cases t)
  case (StartShard sh info)
  show ?thesis
  proof (cases "sh \<in> set (ns_running h)")
    case True
    then have "cc' = cc" "h' = h" using assms(2) StartShard by (simp_all add: startShard_def)
    then show ?thesis using assms(1) True StartShard by (simp add: in_step_def insert_absorb)
  next
    case False
    then have "cc' = cc\<lparr>runningShards := mput sh info (runningShards cc)\<rparr>" "h' = h\<lparr>ns_running := sh # ns_running h\<rparr>"
      using assms(2) StartShard by (simp_all add: startShard_def)
    then show ?thesis using assms(1) StartShard by (simp add: in_step_def)
  qed
next
  case (StopShard sh info)
  have "cc' = cc\<lparr>runningShards := mdel sh (runningShards cc)\<rparr>"
    using assms(2) StopShard by (simp add: stopShard_def Let_def)
  moreover have "ns_meta h' = ns_meta h" "set (ns_running h') = set (ns_running h) - {sh}"
    using assms(2) StopShard by (auto simp: stopShard_def Let_def split: if_splits)
  ultimately show ?thesis using assms(1) StopShard by (simp add: in_step_def)
qed

lemma run_tasks_step:
  assumes "in_step cc h" "started ts \<inter> stopped ts = {}" "fold (run_task (node_host leader)) ts (cc, dc, h) = (cc', dc', h')"
  shows "in_step cc' h' \<and> ns_meta h' = ns_meta h \<and> cl_config cc' = cl_config cc \<and>
    set (mkeys (runningShards cc')) = (set (mkeys (runningShards cc)) \<union> started ts) - stopped ts"
  using assms
proof (induction ts arbitrary: cc dc h)
  case (Cons t ts)
  obtain cc1 dc1 h1 where r: "run_task (node_host leader) t (cc, dc, h) = (cc1, dc1, h1)" by (metis prod_cases3)
  have d: "started ts \<inter> stopped ts = {}" "started [t] \<inter> stopped ts = {}" "stopped [t] \<inter> started ts = {}"
    "started (t # ts) = started [t] \<union> started ts" "stopped (t # ts) = stopped [t] \<union> stopped ts"
    using Cons.prems(2) by (cases t; auto)+
  note s1 = run_task_step [OF Cons.prems(1) r]
  have f: "fold (run_task (node_host leader)) ts (cc1, dc1, h1) = (cc', dc', h')" using Cons.prems(3) r by simp
  then show ?case using Cons.IH [OF _ d(1) f] s1 d by auto
qed auto

lemma reconcile_tasks:
  assumes "reconcileOnce (node_host leader) cc h = (Inr tasks, h')" "topics_inv n (ns_meta h)"
  shows "h' = h" "started tasks = wanted (cl_config cc) (ns_meta h) - set (mkeys (runningShards cc))"
    "stopped tasks = set (mkeys (runningShards cc)) - wanted (cl_config cc) (ns_meta h)"
proof -
  let ?ex = "expected_of (cl_config cc) (ns_meta h) (all_topics (ns_meta h)) []"
  have w: "set (mkeys ?ex) = wanted (cl_config cc) (ns_meta h)" by (rule expected_wanted [OF assms(2)])
  show "h' = h" using assms(1) by (simp add: reconcileOnce_node Let_def)
  have t: "tasks = map (\<lambda>(shardID, info). StartShard shardID info) (filter (\<lambda>(shardID, info). map_of (runningShards cc) shardID = None) ?ex)
      @ map (\<lambda>(shardID, info). StopShard shardID info) (filter (\<lambda>(shardID, info). map_of ?ex shardID = None) (runningShards cc))"
    using assms(1) by (auto simp: reconcileOnce_node Let_def)
  show "started tasks = wanted (cl_config cc) (ns_meta h) - set (mkeys (runningShards cc))"
    "stopped tasks = set (mkeys (runningShards cc)) - wanted (cl_config cc) (ns_meta h)"
    unfolding t w [symmetric] started_tasks filter_keys by (rule refl)+
qed

lemma reconcile_idle:
  assumes "topics_inv n (ns_meta h)" "set (mkeys (runningShards cc)) = wanted (cl_config cc) (ns_meta h)"
  shows "reconcileOnce (node_host leader) cc h = (Inr [], h)"
proof -
  let ?ex = "expected_of (cl_config cc) (ns_meta h) (all_topics (ns_meta h)) []"
  have k: "set (mkeys (runningShards cc)) = set (mkeys ?ex)" using expected_wanted [OF assms(1)] assms(2) by simp
  have "map_of (runningShards cc) sh \<noteq> None" if "(sh, i) \<in> set ?ex" for sh i
    using k that unfolding mkeys_iff [symmetric] by (force simp: mkeys_def)
  moreover have "map_of ?ex sh \<noteq> None" if "(sh, i) \<in> set (runningShards cc)" for sh i
    using k that unfolding mkeys_iff [symmetric] by (force simp: mkeys_def)
  ultimately show ?thesis by (auto simp: reconcileOnce_node Let_def filter_empty_conv)
qed

end
