(* ===== verification/PropsCluster.thy ===== *)
theory PropsCluster
  imports ClusterLemmas
begin

text \<open>
  The properties of the cluster coordinator: replica assignment, topic creation, the end of
  \<open>Bootstrap\<close>, and the reconciliation of running shards with the metadata.
\<close>

definition demo_nodes :: "NodeInfo list" where
  "demo_nodes = [\<lparr>ni_NodeID = 3, ni_Address = ''c''\<rparr>, \<lparr>ni_NodeID = 1, ni_Address = ''a''\<rparr>, \<lparr>ni_NodeID = 2, ni_Address = ''b''\<rparr>]"

definition demo_ccfg :: ClusterConfig where
  "demo_ccfg = \<lparr>cl_NodeID = 1, cl_RaftAddress = ''r'', cl_DataAddr = ''d'', cl_AdvertiseDataAddr = [], cl_DataDir = ''/data'',
     cl_Peers = [(1, ''r'')], cl_BootstrapTimeoutMs = 1000, cl_ReconcileIntervalMs = 500,
     cl_LeaderCheckIntervalMs = 1000, cl_EagerReconcileOnCreate = True\<rparr>"

definition demo_coord :: ClusterCoordinator where
  "demo_coord = NewClusterCoordinator demo_ccfg"

definition demo_state :: MetadataState where
  "demo_state = snd (applyRegisterNode \<lparr>rn_NodeID = 1, rn_Address = ''d''\<rparr> NewMetadataFSM)"

definition demo_sim :: nsim where
  "demo_sim = \<lparr>ns_meta = demo_state, ns_running = []\<rparr>"

definition demo_over :: TopicConfigOverrides where
  "demo_over = \<lparr>tc_RetentionMs = None, tc_RetentionBytes = Some 100\<rparr>"

lemma demo_state_inv: "topics_inv 1 demo_state"
  by (simp add: topics_inv_def demo_state_def applyRegisterNode_def NewMetadataFSM_def map_ok_def)

text \<open>
  C18. Replicas are spread.  With node ids that are distinct and enough nodes, a partition gets the
  asked number of replicas, on different nodes of the cluster; and the first replicas of as many
  consecutive partitions as there are nodes are on different nodes.
\<close>

theorem replicas_spread:
  assumes "distinct (map ni_NodeID nodes)" "nodes \<noteq> []" "0 \<le> pid" "0 \<le> rf" "rf \<le> int (length nodes)"
  shows "(\<exists>rs. assignReplicas nodes name pid rf = Inr rs \<and> length rs = nat rf \<and> distinct rs \<and>
      set rs \<subseteq> ni_NodeID ` set nodes) \<and>
    (\<forall>p q. pid \<le> p \<and> p < q \<and> q < pid + int (length nodes) \<longrightarrow>
      assignReplicas nodes name p 1 \<noteq> assignReplicas nodes name q 1)"
proof (intro conjI allI impI)
  show "\<exists>rs. assignReplicas nodes name pid rf = Inr rs \<and> length rs = nat rf \<and> distinct rs \<and> set rs \<subseteq> ni_NodeID ` set nodes"
    by (rule assignReplicas_ok [OF assms(1,3,4,5,2)])
next
  fix p q
  assume pq: "pid \<le> p \<and> p < q \<and> q < pid + int (length nodes)"
  then have "p = pid + int (nat (p - pid))" "q = pid + int (nat (q - pid))"
    "nat (p - pid) < length nodes" "nat (q - pid) < length nodes" by auto
  then have "ring nodes name p \<noteq> ring nodes name q" using ring_inj [OF assms(1), of name pid] pq by (metis less_irrefl)
  then show "assignReplicas nodes name p 1 \<noteq> assignReplicas nodes name q 1"
    using assignReplicas_ring [OF assms(2), of p 1 name] assignReplicas_ring [OF assms(2), of q 1 name] pq assms(3) by simp
qed

theorem replicas_spread_witness:
  "(\<exists>rs. assignReplicas demo_nodes ''orders'' 4 2 = Inr rs \<and> length rs = 2 \<and> distinct rs \<and> set rs \<subseteq> {1, 2, 3}) \<and>
   assignReplicas demo_nodes ''orders'' 4 1 \<noteq> assignReplicas demo_nodes ''orders'' 6 1"
proof -
  have "distinct (map ni_NodeID demo_nodes)" "demo_nodes \<noteq> []" "length demo_nodes = 3" "ni_NodeID ` set demo_nodes = {1, 2, 3}"
    by (auto simp: demo_nodes_def)
  then show ?thesis using replicas_spread [of demo_nodes 4 2 "''orders''"] by simp
qed



text \<open>
  C35. \<open>Bootstrap\<close> ends.  Its two waiting loops share one deadline.  Whatever the host answers, if
  the clock advances by at least the 200 ms of the timer between failed attempts, then after more
  than the timeout divided by 200 ms failed attempts the call has returned.
\<close>

theorem bootstrap_returns:
  assumes "0 \<le> cl_BootstrapTimeoutMs (cl_config cc)" "cl_BootstrapTimeoutMs (cl_config cc) < 2 ^ 40"
    "\<forall>i < length ps. now + 200000000 * int i \<le> at_now (ps ! i)"
    "cl_BootstrapTimeoutMs (cl_config cc) div 200 + 1 < int (length ps)"
  shows "\<exists>r h'. Bootstrap nh now ps cc h = Some (r, h')"
proof -
  let ?t = "cl_BootstrapTimeoutMs (cl_config cc)" and ?i = "length ps - 1"
  have i: "?i < length ps" "?t div 200 + 1 \<le> int ?i" using assms(1,4) by (auto simp: pos_imp_zdiv_nonneg_iff)
  have "?t < 200 * (?t div 200 + 1)" by simp
  also have "\<dots> \<le> 200 * int ?i" using i(2) by (intro mult_left_mono) simp_all
  finally have "now + ?t * 1000000 < at_now (ps ! ?i)" using assms(3) i(1) by fastforce
  then have "\<exists>p \<in> set ps. now + ?t * 1000000 < at_now p \<or> at_done p" using i(1) nth_mem by blast
  then show ?thesis using Bootstrap_returns [OF assms(1,2)] by fastforce
qed

definition demo_attempts :: "attempt list" where
  "demo_attempts = map (\<lambda>i. \<lparr>at_now = 200000000 * int i, at_done = False\<rparr>) [0..<7]"

theorem bootstrap_returns_witness:
  "\<exists>r h'. Bootstrap (node_host (\<lambda>_. Inr (1, 1, True))) 0 demo_attempts demo_coord demo_sim = Some (r, h')"
  by (rule bootstrap_returns) (simp_all add: demo_coord_def demo_ccfg_def demo_attempts_def NewClusterCoordinator_def)

text \<open>
  C10. Reconciliation converges in one round.  The goroutines that one \<open>reconcileOnce\<close> starts, run
  in whatever order, leave exactly the shards running that have a replica on the node, for the
  coordinator and for the raft library alike, and a further \<open>reconcileOnce\<close> finds nothing to do.
\<close>

theorem reconcile_converges:
  assumes "topics_inv n (ns_meta h)" "in_step cc h"
  shows "\<exists>tasks. reconcileOnce (node_host leader) cc h = (Inr tasks, h) \<and>
    (\<forall>ts. mset ts = mset tasks \<longrightarrow>
      (\<exists>cc' dc' h'. fold (run_task (node_host leader)) ts (cc, dc, h) = (cc', dc', h') \<and>
        set (mkeys (runningShards cc')) = wanted (cl_config cc) (ns_meta h) \<and> in_step cc' h' \<and> ns_meta h' = ns_meta h \<and>
        reconcileOnce (node_host leader) cc' h' = (Inr [], h')))"
proof -
  let ?w = "wanted (cl_config cc) (ns_meta h)"
  obtain tasks where t: "reconcileOnce (node_host leader) cc h = (Inr tasks, h)"
    by (simp add: reconcileOnce_node Let_def)
  note st = reconcile_tasks(2,3) [OF t assms(1)]
  have "\<exists>cc' dc' h'. fold (run_task (node_host leader)) ts (cc, dc, h) = (cc', dc', h') \<and>
        set (mkeys (runningShards cc')) = ?w \<and> in_step cc' h' \<and> ns_meta h' = ns_meta h \<and>
        reconcileOnce (node_host leader) cc' h' = (Inr [], h')" if perm: "mset ts = mset tasks" for ts
  proof -
    obtain cc' dc' h' where f: "fold (run_task (node_host leader)) ts (cc, dc, h) = (cc', dc', h')" by (metis prod_cases3)
    have "set ts = set tasks" using perm by (rule mset_eq_setD)
    then have s: "started ts = started tasks" "stopped ts = stopped tasks" by (simp_all add: started_def stopped_def)
    then have "started ts \<inter> stopped ts = {}" unfolding s st by blast
    note r = run_tasks_step [OF assms(2) this f]
    then have k: "set (mkeys (runningShards cc')) = ?w" unfolding s st by blast
    then show ?thesis using f r reconcile_idle [of n h' cc' leader] assms(1) by auto
  qed
  with t show ?thesis by blast
qed

definition demo_created :: MetadataState where
  "demo_created = snd (applyCreateTopic (create_cmd 7 ''a'' 2 1 demo_over demo_state) demo_state)"

lemma demo_created_inv: "topics_inv (Suc 1) demo_created"
  using grow_handlers_inv [OF demo_state_inv applyCreateTopic_grows [OF demo_state_inv]]
  by (simp add: demo_created_def create_cmd_def in_int32_def)

theorem reconcile_converges_witness:
  "\<exists>tasks cc' dc' h'. reconcileOnce (node_host (\<lambda>_. Inr (1, 1, True))) demo_coord \<lparr>ns_meta = demo_created, ns_running = []\<rparr> =
      (Inr tasks, \<lparr>ns_meta = demo_created, ns_running = []\<rparr>) \<and>
    fold (run_task (node_host (\<lambda>_. Inr (1, 1, True)))) (rev tasks)
      (demo_coord, NewDataCoordinator \<lparr>dcc_NodeID = 1, NodeAddressCacheTTLMs = 0\<rparr>, \<lparr>ns_meta = demo_created, ns_running = []\<rparr>) =
      (cc', dc', h') \<and>
    set (mkeys (runningShards cc')) = wanted demo_ccfg demo_created"
proof -
  let ?h = "\<lparr>ns_meta = demo_created, ns_running = []\<rparr>" and ?nh = "node_host (\<lambda>_. Inr (1, 1, True))"
  let ?dc = "NewDataCoordinator \<lparr>dcc_NodeID = 1, NodeAddressCacheTTLMs = 0\<rparr>"
  have inv: "topics_inv (Suc 1) (ns_meta ?h)" "in_step demo_coord ?h"
    using demo_created_inv by (simp_all add: in_step_def demo_coord_def NewClusterCoordinator_def mkeys_def)
  obtain tasks where t: "reconcileOnce ?nh demo_coord ?h = (Inr tasks, ?h)"
    "\<forall>ts. mset ts = mset tasks \<longrightarrow> (\<exists>cc' dc' h'. fold (run_task ?nh) ts (demo_coord, ?dc, ?h) = (cc', dc', h') \<and>
        set (mkeys (runningShards cc')) = wanted (cl_config demo_coord) (ns_meta ?h))"
    using reconcile_converges [OF inv, of "\<lambda>_. Inr (1, 1, True)" ?dc] by blast
  then show ?thesis using t(2) [rule_format, of "rev tasks"] by (auto simp: demo_coord_def NewClusterCoordinator_def)
qed

text \<open>
  A topic that is deleted and created again can lose its route.  The new shard of a partition
  is registered under the topic and partition number the old shard had.  When the goroutine that
  starts the new shard runs before the one that stops the old shard, the partition is not
  routable, although the new shard counts as running, so that reconciliation does not repair it;
  in the other order the route is there.
\<close>

theorem recreated_topic_unroutable:
  assumes "si_Topic new = si_Topic old" "si_PartitionID new = si_PartitionID old" "s2 \<noteq> s1" "s2 \<notin> set (ns_running h)"
  shows "(case fold (run_task (node_host leader)) [StartShard s2 new, StopShard s1 old] (cc, dc, h) of (cc', dc', h') \<Rightarrow>
      map_of (runningShards cc') s2 = Some new \<and> map_of (shardRegistry dc') (si_Topic new, si_PartitionID new) = None) \<and>
    (case fold (run_task (node_host leader)) [StopShard s1 old, StartShard s2 new] (cc, dc, h) of (cc', dc', h') \<Rightarrow>
      map_of (runningShards cc') s2 = Some new \<and>
      map_option se_ShardID (map_of (shardRegistry dc') (si_Topic new, si_PartitionID new)) = Some s2)"
  using assms by (simp add: startShard_def stopShard_def Let_def StartPartitionReplica_def StopPartitionReplica_def)

text \<open>A node with one partition whose topic was deleted and created again between two rounds.\<close>

definition demo_old :: shardInfo where
  "demo_old = \<lparr>si_Topic = ''a'', si_PartitionID = 0, si_ShardID = 1, si_Peers = [(1, ''r'')]\<rparr>"

definition demo_new :: shardInfo where
  "demo_new = \<lparr>si_Topic = ''a'', si_PartitionID = 0, si_ShardID = 2, si_Peers = [(1, ''r'')]\<rparr>"

definition demo_recreated :: nsim where
  "demo_recreated = \<lparr>ns_meta = apply_all [CmdCreateTopic (Some (create_cmd 7 ''a'' 1 1 demo_over demo_state)),
      CmdDeleteTopic (Some \<lparr>dt_Name = ''a''\<rparr>),
      CmdCreateTopic (Some (create_cmd 8 ''a'' 1 1 demo_over demo_state))] demo_state, ns_running = [1]\<rparr>"

theorem recreated_topic_unroutable_witness:
  "fst (reconcileOnce (node_host (\<lambda>_. Inr (1, 1, True))) (demo_coord\<lparr>runningShards := [(1, demo_old)]\<rparr>) demo_recreated) =
     Inr [StartShard 2 demo_new, StopShard 1 demo_old] \<and>
   (case fold (run_task (node_host (\<lambda>_. Inr (1, 1, True)))) [StartShard 2 demo_new, StopShard 1 demo_old]
       (demo_coord\<lparr>runningShards := [(1, demo_old)]\<rparr>,
        StartPartitionReplica ''a'' 0 1 (NewDataCoordinator \<lparr>dcc_NodeID = 1, NodeAddressCacheTTLMs = 0\<rparr>), demo_recreated) of
      (cc', dc', h') \<Rightarrow> map_of (runningShards cc') 2 = Some demo_new \<and> map_of (shardRegistry dc') (''a'', 0) = None)"
proof -
  have "fst (reconcileOnce (node_host (\<lambda>_. Inr (1, 1, True))) (demo_coord\<lparr>runningShards := [(1, demo_old)]\<rparr>) demo_recreated) =
     Inr [StartShard 2 demo_new, StopShard 1 demo_old]"
    by code_simp
  moreover have "si_Topic demo_new = si_Topic demo_old" "si_PartitionID demo_new = si_PartitionID demo_old"
    "2 \<notin> set (ns_running demo_recreated)"
    by (simp_all add: demo_new_def demo_old_def demo_recreated_def)
  ultimately show ?thesis
    using recreated_topic_unroutable [of demo_new demo_old 2 1 demo_recreated "\<lambda>_. Inr (1, 1, True)"
        "demo_coord\<lparr>runningShards := [(1, demo_old)]\<rparr>"
        "StartPartitionReplica ''a'' 0 1 (NewDataCoordinator \<lparr>dcc_NodeID = 1, NodeAddressCacheTTLMs = 0\<rparr>)"]
    by (simp add: demo_new_def)
qed

end
