(* ===== verification/Rpc.thy ===== *)
theory Rpc
  imports ClusterCoord GroupCoord
begin

text \<open>
  The remote interface (\<open>api/*.proto\<close>): the messages of the two services and the status values
  of gRPC with the details of \<open>errors.proto\<close>.  A message text is either a literal or the text
  of a Go error; nothing depends on its characters, so the error itself is kept.
\<close>

section \<open>Status values\<close>

datatype grpc_code =
    CodeOK | CodeCanceled | CodeUnknown | CodeInvalidArgument | CodeDeadlineExceeded | CodeNotFound
  | CodeAlreadyExists | CodePermissionDenied | CodeResourceExhausted | CodeFailedPrecondition
  | CodeAborted | CodeOutOfRange | CodeUnimplemented | CodeInternal | CodeUnavailable | CodeDataLoss
  | CodeUnauthenticated

datatype BunnyErrorCode =
    OK
  | UNKNOWN
  | INVALID_ARGUMENT
  | TOPIC_NOT_FOUND
  | TOPIC_ALREADY_EXISTS
  | PARTITION_NOT_FOUND
  | NOT_LEADER
  | OFFSET_OUT_OF_RANGE
  | MESSAGE_TOO_LARGE
  | BATCH_TOO_LARGE
  | UNAUTHENTICATED
  | UNAVAILABLE
  | TIMEOUT
  | INVALID_MESSAGE_FORMAT
  | OFFSET_NOT_FOUND
  | STALE_GENERATION
  | NOT_GROUP_MEMBER

datatype message = Literal string | TextOf go_error

datatype detail =
    BunnyErrorDetail BunnyErrorCode message
  | NotLeaderDetail int string

record rpc_status =
  st_Code :: grpc_code
  st_Message :: message
  st_Details :: "detail list"

text \<open>\<open>status.Error\<close>, and \<open>status.New(...).WithDetails(...)\<close>.\<close>

abbreviation status_Error :: "grpc_code \<Rightarrow> message \<Rightarrow> rpc_status" where
  "status_Error c m \<equiv> \<lparr>st_Code = c, st_Message = m, st_Details = []\<rparr>"

abbreviation status_with :: "grpc_code \<Rightarrow> message \<Rightarrow> detail list \<Rightarrow> rpc_status" where
  "status_with c m ds \<equiv> \<lparr>st_Code = c, st_Message = m, st_Details = ds\<rparr>"

text \<open>
  What a handler ends with when it does not answer: a status, or a panic, which nothing in the
  server recovers and which therefore ends the process.
\<close>

datatype rpc_error = Status rpc_status | Crash string

definition handler_error :: "(go_error \<Rightarrow> rpc_status) \<Rightarrow> go_error \<Rightarrow> rpc_error" where
  "handler_error f e = (case e of GoPanic m \<Rightarrow> Crash m | _ \<Rightarrow> Status (f e))"

section \<open>Messages of the data service\<close>

text \<open>Messages with no field or one field are that field.\<close>

record ProduceRequest =
  prq_Topic :: string
  prq_PartitionId :: int
  prq_Acks :: int
  prq_BatchData :: bytes

record ProduceResponse =
  prp_PartitionId :: int
  prp_Offset :: int

record FetchRequest =
  frq_Topic :: string
  frq_PartitionId :: int
  frq_Offset :: int
  frq_MaxBytes :: int
  frq_MaxWaitMs :: int

record FetchResponse =
  frp_Records :: bytes
  frp_NextOffset :: int

text \<open>The enumerations travel as numbers, so that a server can meet a value it does not know.\<close>

definition ACKS_ALL :: int where "ACKS_ALL = 0"

definition ACKS_ZERO :: int where "ACKS_ZERO = 1"

definition EARLIEST :: int where "EARLIEST = 0"

definition LATEST :: int where "LATEST = 1"

definition BY_TIMESTAMP :: int where "BY_TIMESTAMP = 2"

record GetOffsetsRequest =
  grq_Topic :: string
  grq_PartitionId :: int
  grq_QueryType :: int
  grq_TimestampMs :: int

record PbJoinGroupRequest =
  jrq_GroupId :: string
  jrq_MemberId :: string
  jrq_SubscribedTopics :: "string list"
  jrq_ClientHost :: string
  jrq_SessionTimeoutMs :: int
  jrq_HeartbeatIntervalMs :: int

record PbJoinGroupResponse =
  jrp_MemberId :: string
  jrp_GenerationId :: int
  jrp_Assignments :: "TopicPartition list"

datatype HeartbeatStatus = HEARTBEAT_OK | HEARTBEAT_REBALANCE_REQUIRED

record HeartbeatRequest =
  hrq_GroupId :: string
  hrq_MemberId :: string
  hrq_GenerationId :: int

record PbLeaveGroupRequest =
  lrq_GroupId :: string
  lrq_MemberId :: string

record PartitionOffset =
  po_Topic :: string
  po_PartitionId :: int
  po_Offset :: int

record CommitOffsetRequest =
  crq_GroupId :: string
  crq_MemberId :: string
  crq_GenerationId :: int
  crq_Offsets :: "PartitionOffset list"

record FetchCommittedOffsetsRequest =
  fcq_GroupId :: string
  fcq_Partitions :: "TopicPartition list"

section \<open>Messages of the management service\<close>

text \<open>
  The messages \<open>TopicInfo\<close>, \<open>PartitionInfo\<close> and \<open>NodeInfo\<close> of \<open>common.proto\<close> have the fields
  of the coordinator's types of the same meaning, but are types of their own.
\<close>

record PbTopicInfo =
  pti_Name :: string
  pti_PartitionCount :: int
  pti_ReplicationFactor :: int
  pti_RetentionMs :: int
  pti_RetentionBytes :: int
  pti_CreatedAtMs :: int

record PbPartitionInfo =
  ppi_PartitionId :: int
  ppi_ShardId :: int
  ppi_LeaderNodeId :: int
  ppi_LeaderEpoch :: int
  ppi_ReplicaNodeIds :: "int list"

record PbPartitionInfoWithOffsets =
  pio_Info :: "PbPartitionInfo option"
  pio_EarliestOffset :: int
  pio_LatestOffset :: int

record PbNodeInfo =
  pni_NodeId :: int
  pni_Address :: string

record PbCreateTopicRequest =
  ctq_Name :: string
  ctq_PartitionCount :: int
  ctq_ReplicationFactor :: int
  ctq_RetentionMs :: int
  ctq_RetentionBytes :: int

record DescribeTopicResponse =
  dtr_Topic :: "PbTopicInfo option"
  dtr_Partitions :: "PbPartitionInfo list"

record AlterTopicPartitionsRequest =
  apq_Name :: string
  apq_NewPartitionCount :: int

record AlterTopicRetentionRequest =
  arq_Name :: string
  arq_RetentionMs :: int
  arq_RetentionBytes :: int

end
