(* ===== verification/ApiData.thy ===== *)
theory ApiData
  imports Rpc
begin

text \<open>
  The data service of a broker (\<open>internal/api/data\<close>) and the authentication in front of both
  services (\<open>internal/api/auth\<close>).  A handler runs on the coordinators and the raft host and
  returns their new state with its answer.  The status of a cancelled or expired request context
  is an observation.
\<close>

section \<open>Validation of batches\<close>

definition maxBatchBytes :: int where
  "maxBatchBytes = 4 * 1024 * 1024"

definition invalidFormat :: "string \<Rightarrow> rpc_status" where
  "invalidFormat msg = status_with CodeInvalidArgument (Literal msg)
     [BunnyErrorDetail INVALID_MESSAGE_FORMAT (Literal msg)]"

definition validateBatch :: "bytes \<Rightarrow> rpc_status option" where
  "validateBatch data =
     (if length data < 38 then Some (invalidFormat ''batch too short'')
      else let batchLength = be_int (slc data 8 12)
           in if batchLength < 38 \<or> batchLength > int (length data)
              then Some (invalidFormat ''batch_length field inconsistency'')
              else if int (length data) > maxBatchBytes
              then Some (status_with CodeInvalidArgument (Literal ''batch exceeds 4 MiB'')
                     [BunnyErrorDetail BATCH_TOO_LARGE (Literal ''batch exceeds 4 MiB'')])
              else let crc = crc32c (slc data 38 (nat batchLength))
                   in if uint crc \<noteq> be_int (slc data 16 20)
                      then Some (invalidFormat ''CRC-32C mismatch'')
                      else None)"

section \<open>Errors\<close>

definition notLeaderStatus :: "string \<Rightarrow> rpc_status" where
  "notLeaderStatus leaderAddr = status_with CodeFailedPrecondition (Literal ''not the group coordinator'')
     [BunnyErrorDetail NOT_LEADER (Literal ''not the group coordinator''), NotLeaderDetail 0 leaderAddr]"

definition mapGroupError :: "go_error \<Rightarrow> rpc_status" where
  "mapGroupError err =
     (if errors_Is err (GroupE ErrNotGroupMember)
      then status_with CodeNotFound (TextOf err) [BunnyErrorDetail NOT_GROUP_MEMBER (TextOf err)]
      else if errors_Is err (GroupE ErrStaleGeneration)
      then status_with CodeFailedPrecondition (TextOf err) [BunnyErrorDetail STALE_GENERATION (TextOf err)]
      else if errors_Is err (GroupE GErrInvalidArgument) then status_Error CodeInvalidArgument (TextOf err)
      else status_Error CodeInternal (Literal ''internal server error''))"

text \<open>\<open>errors.As\<close> with a \<open>*NotLeaderError\<close>.\<close>

fun as_NotLeader :: "go_error \<Rightarrow> (int \<times> string) option" where
  "as_NotLeader (NotLeaderError node addr) = Some (node, addr)"
| "as_NotLeader (Wrapped m e) = as_NotLeader e"
| "as_NotLeader _ = None"

definition mapDataError :: "go_error \<Rightarrow> rpc_status" where
  "mapDataError err =
     (case as_NotLeader err of
        Some (node, addr) \<Rightarrow> status_with CodeFailedPrecondition (TextOf err)
          [BunnyErrorDetail NOT_LEADER (TextOf err), NotLeaderDetail node addr]
      | None \<Rightarrow>
          if errors_Is err (DataE DErrOffsetOutOfRange)
          then status_with CodeOutOfRange (TextOf err) [BunnyErrorDetail OFFSET_OUT_OF_RANGE (TextOf err)]
          else if errors_Is err (DataE ErrOffsetNotFound)
          then status_with CodeNotFound (TextOf err) [BunnyErrorDetail OFFSET_NOT_FOUND (TextOf err)]
          else status_Error CodeInternal (Literal ''internal server error''))"

section \<open>Produce, fetch and offsets\<close>

definition defaultFetchMaxBytes :: int where
  "defaultFetchMaxBytes = 1 * 1024 * 1024"

definition Server_Produce :: "'h data_host \<Rightarrow> int \<times> int \<Rightarrow> ProduceRequest \<Rightarrow> DataCoordinator \<Rightarrow> 'h \<Rightarrow>
    (rpc_error + ProduceResponse) \<times> DataCoordinator \<times> 'h" where
  "Server_Produce nh t req dc h =
     (case validateBatch (prq_BatchData req) of
        Some err \<Rightarrow> (Inl (Status err), dc, h)
      | None \<Rightarrow>
          let acks = (if prq_Acks req = ACKS_ZERO then AcksZero else AcksAll)
          in (case Produce nh t (prq_Topic req) (prq_PartitionId req) (prq_BatchData req) acks dc h of
                (Inl err, dc, h) \<Rightarrow> (Inl (handler_error mapDataError err), dc, h)
              | (Inr offset, dc, h) \<Rightarrow>
                  (Inr \<lparr>prp_PartitionId = prq_PartitionId req, prp_Offset = offset\<rparr>, dc, h)))"

text \<open>
  \<open>ctxErr\<close> is what \<open>ctx.Err()\<close> gives after the coordinator has returned, as a status code.  The
  coordinator and the storage return the nil slice whenever there is nothing to return, so the
  comparison with nil asks whether the records are empty.
\<close>

definition Server_Fetch :: "'h data_host \<Rightarrow> int \<times> int \<Rightarrow> int \<Rightarrow> poll list \<Rightarrow> grpc_code option \<Rightarrow> FetchRequest \<Rightarrow>
    DataCoordinator \<Rightarrow> 'h \<Rightarrow> ((rpc_error + FetchResponse) \<times> DataCoordinator \<times> 'h) option" where
  "Server_Fetch nh t now ps ctxErr req dc h =
     (if frq_Offset req < 0
      then Some (Inl (Status (status_Error CodeInvalidArgument (Literal ''offset must be >= 0''))), dc, h)
      else let maxBytes = (if frq_MaxBytes req \<le> 0 then defaultFetchMaxBytes else frq_MaxBytes req)
           in (case Fetch nh t now (frq_Topic req) (frq_PartitionId req) (frq_Offset req) maxBytes (frq_MaxWaitMs req) ps dc h of
                 None \<Rightarrow> None
               | Some (Inl err, dc, h) \<Rightarrow>
                   Some (Inl (case ctxErr of
                                Some c \<Rightarrow> if is_panic err then handler_error mapDataError err
                                          else Status (status_Error c (TextOf ContextErr))
                              | None \<Rightarrow> handler_error mapDataError err), dc, h)
               | Some (Inr (records, nxt), dc, h) \<Rightarrow>
                   if records = [] then Some (Inr \<lparr>frp_Records = [], frp_NextOffset = frq_Offset req\<rparr>, dc, h)
                   else Some (Inr \<lparr>frp_Records = records, frp_NextOffset = nxt\<rparr>, dc, h)))"

definition Server_GetOffsets :: "'h data_host \<Rightarrow> int \<times> int \<Rightarrow> GetOffsetsRequest \<Rightarrow> DataCoordinator \<Rightarrow> 'h \<Rightarrow>
    (rpc_error + int) \<times> DataCoordinator \<times> 'h" where
  "Server_GetOffsets nh t req dc h =
     (let call = (if grq_QueryType req = EARLIEST
                  then Some (GetEarliestOffset nh t (grq_Topic req) (grq_PartitionId req) dc h)
                  else if grq_QueryType req = LATEST
                  then Some (GetLatestOffset nh t (grq_Topic req) (grq_PartitionId req) dc h)
                  else if grq_QueryType req = BY_TIMESTAMP
                  then Some (GetOffsetByTimestamp nh t (grq_Topic req) (grq_PartitionId req) (grq_TimestampMs req) dc h)
                  else None)
      in (case call of
            None \<Rightarrow> (Inl (Status (status_Error CodeInvalidArgument (Literal ''unknown query type''))), dc, h)
          | Some (Inl err, dc, h) \<Rightarrow> (Inl (handler_error mapDataError err), dc, h)
          | Some (Inr offset, dc, h) \<Rightarrow> (Inr offset, dc, h)))"

section \<open>Consumer groups\<close>

text \<open>
  \<open>isMetadataLeader\<close> of \<open>cmd/bunnymq/main.go\<close>: whether this node leads the metadata shard, and
  the address of the leader otherwise.
\<close>

definition isMetadataLeader :: "'h host \<Rightarrow> int \<Rightarrow> 'h \<Rightarrow> (go_error + (bool \<times> string)) \<times> 'h" where
  "isMetadataLeader nh nodeID h =
     (case GetLeaderID nh 0 h of
        Inl err \<Rightarrow> (Inr (False, []), h)
      | Inr (leaderID, term, valid) \<Rightarrow>
          if \<not> valid then (Inr (False, []), h)
          else if leaderID = nodeID then (Inr (True, []), h)
          else (case LookupMetadata nh ((query0 QueryGetNode)\<lparr>mq_NodeID := leaderID\<rparr>) h of
                  (Inl err, h) \<Rightarrow> (Inr (False, []), h)
                | (Inr AnsNil, h) \<Rightarrow> (Inr (False, []), h)
                | (Inr (AnsNode n), h) \<Rightarrow> (Inr (False, ni_Address n), h)
                | (Inr _, h) \<Rightarrow> (Inl bad_type, h)))"

text \<open>The check with which every handler of a group request begins.\<close>

definition when_leader :: "('h \<Rightarrow> (go_error + (bool \<times> string)) \<times> 'h) \<Rightarrow> ('h \<Rightarrow> (rpc_error + 'a) \<times> 'g \<times> 'h) \<Rightarrow>
    'g \<Rightarrow> 'h \<Rightarrow> (rpc_error + 'a) \<times> 'g \<times> 'h" where
  "when_leader lead k gc h =
     (case lead h of
        (Inl err, h) \<Rightarrow> (Inl (handler_error mapGroupError err), gc, h)
      | (Inr (isLeader, leaderAddr), h) \<Rightarrow>
          if \<not> isLeader then (Inl (Status (notLeaderStatus leaderAddr)), gc, h) else k h)"

definition defaultSessionTimeoutMs :: int where
  "defaultSessionTimeoutMs = 30000"

definition defaultHeartbeatIntervalMs :: int where
  "defaultHeartbeatIntervalMs = 3000"

definition Server_JoinGroup :: "('h \<Rightarrow> (go_error + (bool \<times> string)) \<times> 'h) \<Rightarrow> 'h host \<Rightarrow> int \<Rightarrow> string \<Rightarrow>
    PbJoinGroupRequest \<Rightarrow> GroupCoordinator \<Rightarrow> 'h \<Rightarrow> (rpc_error + PbJoinGroupResponse) \<times> GroupCoordinator \<times> 'h" where
  "Server_JoinGroup lead nh now uuid req gc h =
     when_leader lead (\<lambda>h.
       let sessionTimeoutMs = (if jrq_SessionTimeoutMs req = 0 then defaultSessionTimeoutMs else jrq_SessionTimeoutMs req);
           heartbeatIntervalMs = (if jrq_HeartbeatIntervalMs req = 0 then defaultHeartbeatIntervalMs
                                  else jrq_HeartbeatIntervalMs req)
       in (case JoinGroup nh now uuid \<lparr>jq_GroupID = jrq_GroupId req, jq_MemberID = jrq_MemberId req,
                  jq_Topics = jrq_SubscribedTopics req, jq_SessionTimeoutMs = sessionTimeoutMs,
                  jq_HeartbeatIntervalMs = heartbeatIntervalMs\<rparr> gc h of
             (Inl err, gc, h) \<Rightarrow> (Inl (handler_error mapGroupError err), gc, h)
           | (Inr resp, gc, h) \<Rightarrow>
               (Inr \<lparr>jrp_MemberId = jp_MemberID resp, jrp_GenerationId = jp_GenerationID resp,
                     jrp_Assignments = jp_Assignments resp\<rparr>, gc, h))) gc h"

definition Server_Heartbeat :: "('h \<Rightarrow> (go_error + (bool \<times> string)) \<times> 'h) \<Rightarrow> 'h host \<Rightarrow> int \<Rightarrow>
    HeartbeatRequest \<Rightarrow> GroupCoordinator \<Rightarrow> 'h \<Rightarrow> (rpc_error + HeartbeatStatus) \<times> GroupCoordinator \<times> 'h" where
  "Server_Heartbeat lead nh now req gc h =
     when_leader lead (\<lambda>h.
       case Heartbeat nh now (hrq_GroupId req) (hrq_MemberId req) (hrq_GenerationId req) gc h of
         (Inl err, gc, h) \<Rightarrow> (Inl (handler_error mapGroupError err), gc, h)
       | (Inr rebalanceRequired, gc, h) \<Rightarrow>
           (Inr (if rebalanceRequired then HEARTBEAT_REBALANCE_REQUIRED else HEARTBEAT_OK), gc, h)) gc h"

definition Server_LeaveGroup :: "('h \<Rightarrow> (go_error + (bool \<times> string)) \<times> 'h) \<Rightarrow> 'h host \<Rightarrow>
    PbLeaveGroupRequest \<Rightarrow> GroupCoordinator \<Rightarrow> 'h \<Rightarrow> (rpc_error + unit) \<times> GroupCoordinator \<times> 'h" where
  "Server_LeaveGroup lead nh req gc h =
     when_leader lead (\<lambda>h.
       case LeaveGroup nh \<lparr>lq_GroupID = lrq_GroupId req, lq_MemberID = lrq_MemberId req\<rparr> gc h of
         (Some err, gc, h) \<Rightarrow> (Inl (handler_error mapGroupError err), gc, h)
       | (None, gc, h) \<Rightarrow> (Inr (), gc, h)) gc h"

text \<open>Of two entries for the same partition the later one stays.\<close>

definition offsets_map :: "PartitionOffset list \<Rightarrow> (TopicPartition, int) gomap" where
  "offsets_map pos = fold (\<lambda>po. mput (TopicPartition (po_Topic po) (po_PartitionId po)) (po_Offset po)) pos []"

definition Server_CommitOffset :: "('h \<Rightarrow> (go_error + (bool \<times> string)) \<times> 'h) \<Rightarrow> 'h host \<Rightarrow>
    CommitOffsetRequest \<Rightarrow> GroupCoordinator \<Rightarrow> 'h \<Rightarrow> (rpc_error + unit) \<times> GroupCoordinator \<times> 'h" where
  "Server_CommitOffset lead nh req gc h =
     when_leader lead (\<lambda>h.
       case CommitOffset nh (crq_GroupId req) (crq_MemberId req) (crq_GenerationId req) (offsets_map (crq_Offsets req)) h of
         (Some err, h) \<Rightarrow> (Inl (handler_error mapGroupError err), gc, h)
       | (None, h) \<Rightarrow> (Inr (), gc, h)) gc h"

definition pb_offset :: "TopicPartition \<times> int \<Rightarrow> PartitionOffset" where
  "pb_offset e = (case e of (TopicPartition topic pid, off) \<Rightarrow>
     \<lparr>po_Topic = topic, po_PartitionId = pid, po_Offset = off\<rparr>)"

definition Server_FetchCommittedOffsets :: "('h \<Rightarrow> (go_error + (bool \<times> string)) \<times> 'h) \<Rightarrow> 'h host \<Rightarrow>
    FetchCommittedOffsetsRequest \<Rightarrow> GroupCoordinator \<Rightarrow> 'h \<Rightarrow> (rpc_error + PartitionOffset list) \<times> GroupCoordinator \<times> 'h" where
  "Server_FetchCommittedOffsets lead nh req gc h =
     when_leader lead (\<lambda>h.
       case FetchCommittedOffsets nh (fcq_GroupId req) (fcq_Partitions req) h of
         (Inl err, h) \<Rightarrow> (Inl (handler_error mapGroupError err), gc, h)
       | (Inr result, h) \<Rightarrow> (Inr (map pb_offset result), gc, h)) gc h"

section \<open>Authentication\<close>

text \<open>
  The values of \<open>bunnymq-auth-token\<close> in the metadata of the request; \<open>None\<close> when the request has
  no metadata.
\<close>

definition validateToken :: "string list option \<Rightarrow> string list \<Rightarrow> rpc_status option" where
  "validateToken md validTokens =
     (if length validTokens = 0 then None
      else (case md of
              None \<Rightarrow> Some (status_Error CodeUnauthenticated (Literal ''missing metadata''))
            | Some tokens \<Rightarrow>
                if length tokens = 0
                then Some (status_Error CodeUnauthenticated (Literal ''missing bunnymq-auth-token''))
                else if hd tokens \<in> set validTokens then None
                else Some (status_Error CodeUnauthenticated (Literal ''invalid token''))))"

definition UnaryInterceptor :: "string list \<Rightarrow> string list option \<Rightarrow> ('s \<Rightarrow> (rpc_error + 'a) \<times> 's) \<Rightarrow> 's \<Rightarrow>
    (rpc_error + 'a) \<times> 's" where
  "UnaryInterceptor validTokens md handler s =
     (case validateToken md validTokens of
        Some err \<Rightarrow> (Inl (Status err), s)
      | None \<Rightarrow> handler s)"

end
