(* ===== verification/ApiMgmt.thy ===== *)
theory ApiMgmt
  imports Rpc
begin

text \<open>
  The management service of a broker (\<open>internal/api/management\<close>): requests about topics and the
  cluster, handed to the cluster coordinator.  The tasks and proposals that the coordinator starts
  in the background are part of its results and are handed on.
\<close>

section \<open>Conversions\<close>

definition protoTopicInfo :: "TopicInfo \<Rightarrow> PbTopicInfo" where
  "protoTopicInfo t =
     \<lparr>pti_Name = ti_Name t, pti_PartitionCount = ti_PartitionCount t, pti_ReplicationFactor = ti_ReplicationFactor t,
      pti_RetentionMs = ti_RetentionMs t, pti_RetentionBytes = ti_RetentionBytes t, pti_CreatedAtMs = ti_CreatedAtMs t\<rparr>"

definition protoPartitionInfo :: "PartitionInfo \<Rightarrow> PbPartitionInfo" where
  "protoPartitionInfo p =
     \<lparr>ppi_PartitionId = pi_PartitionID p, ppi_ShardId = pi_ShardID p, ppi_LeaderNodeId = pi_LeaderNodeID p,
      ppi_LeaderEpoch = pi_LeaderEpoch p, ppi_ReplicaNodeIds = pi_ReplicaNodeIDs p\<rparr>"

text \<open>The sentinels are those of the package \<open>management\<close> itself (\<open>errors.go\<close>).\<close>

definition mapCoordError :: "go_error \<Rightarrow> rpc_status" where
  "mapCoordError err =
     (let (code, bunnyCode, msg) =
        (if errors_Is err (MgmtE MErrTopicAlreadyExists) then (CodeAlreadyExists, TOPIC_ALREADY_EXISTS, TextOf err)
         else if errors_Is err (MgmtE MErrTopicNotFound) then (CodeNotFound, TOPIC_NOT_FOUND, TextOf err)
         else if errors_Is err (MgmtE MErrInvalidArgument) then (CodeInvalidArgument, INVALID_ARGUMENT, TextOf err)
         else if errors_Is err (MgmtE MErrUnavailable) then (CodeUnavailable, UNAVAILABLE, TextOf err)
         else (CodeInternal, UNKNOWN, Literal ''internal server error''))
      in status_with code msg [BunnyErrorDetail bunnyCode msg])"

section \<open>Handlers\<close>

definition Mgmt_CreateTopic :: "'h cluster_host \<Rightarrow> int \<Rightarrow> PbCreateTopicRequest \<Rightarrow> ClusterCoordinator \<Rightarrow> 'h \<Rightarrow>
    (rpc_error + (PbTopicInfo \<times> task list)) \<times> 'h" where
  "Mgmt_CreateTopic nh nowMs req cc h =
     (let overrides = \<lparr>tc_RetentionMs = (if ctq_RetentionMs req \<noteq> 0 then Some (ctq_RetentionMs req) else None),
                       tc_RetentionBytes = (if ctq_RetentionBytes req \<noteq> 0 then Some (ctq_RetentionBytes req) else None)\<rparr>
      in (case CreateTopic nh nowMs (ctq_Name req) (ctq_PartitionCount req) (ctq_ReplicationFactor req) overrides cc h of
            (Inl err, h) \<Rightarrow> (Inl (handler_error mapCoordError err), h)
          | (Inr (info, tasks), h) \<Rightarrow> (Inr (protoTopicInfo info, tasks), h)))"

definition Mgmt_DeleteTopic :: "'h cluster_host \<Rightarrow> string \<Rightarrow> 'h \<Rightarrow> (rpc_error + unit) \<times> 'h" where
  "Mgmt_DeleteTopic nh name h =
     (case DeleteTopic nh name h of
        (Some err, h) \<Rightarrow> (Inl (handler_error mapCoordError err), h)
      | (None, h) \<Rightarrow> (Inr (), h))"

definition Mgmt_ListTopics :: "'h cluster_host \<Rightarrow> 'h \<Rightarrow> (rpc_error + PbTopicInfo list) \<times> 'h" where
  "Mgmt_ListTopics nh h =
     (case ListTopics nh h of
        (Inl err, h) \<Rightarrow> (Inl (handler_error mapCoordError err), h)
      | (Inr topics, h) \<Rightarrow> (Inr (map protoTopicInfo topics), h))"

definition Mgmt_DescribeTopic :: "'h cluster_host \<Rightarrow> string \<Rightarrow> 'h \<Rightarrow> (rpc_error + DescribeTopicResponse) \<times> 'h" where
  "Mgmt_DescribeTopic nh name h =
     (case DescribeTopic nh name h of
        (Inl err, h) \<Rightarrow> (Inl (handler_error mapCoordError err), h)
      | (Inr desc, h) \<Rightarrow>
          (Inr \<lparr>dtr_Topic = Some (protoTopicInfo (td_TopicInfo desc)),
                dtr_Partitions = map protoPartitionInfo (td_Partitions desc)\<rparr>, h))"

definition Mgmt_AlterTopicPartitions :: "'h cluster_host \<Rightarrow> AlterTopicPartitionsRequest \<Rightarrow> 'h \<Rightarrow> (rpc_error + unit) \<times> 'h" where
  "Mgmt_AlterTopicPartitions nh req h =
     (case AlterTopicPartitionCount nh (apq_Name req) (apq_NewPartitionCount req) h of
        (Some err, h) \<Rightarrow> (Inl (handler_error mapCoordError err), h)
      | (None, h) \<Rightarrow> (Inr (), h))"

definition Mgmt_AlterTopicRetention :: "'h cluster_host \<Rightarrow> (int \<Rightarrow> int \<Rightarrow> bytes) \<Rightarrow> AlterTopicRetentionRequest \<Rightarrow> 'h \<Rightarrow>
    (rpc_error + (int \<times> PartitionCommand) list) \<times> 'h" where
  "Mgmt_AlterTopicRetention nh marshal req h =
     (case AlterTopicRetention nh marshal (arq_Name req) (arq_RetentionMs req) (arq_RetentionBytes req) h of
        (Inl err, h) \<Rightarrow> (Inl (handler_error mapCoordError err), h)
      | (Inr proposals, h) \<Rightarrow> (Inr proposals, h))"

definition Mgmt_DescribeCluster :: "'h cluster_host \<Rightarrow> 'h \<Rightarrow> (rpc_error + PbNodeInfo list) \<times> 'h" where
  "Mgmt_DescribeCluster nh h =
     (case DescribeCluster nh h of
        (Inl err, h) \<Rightarrow> (Inl (handler_error mapCoordError err), h)
      | (Inr nodes, h) \<Rightarrow> (Inr (map (\<lambda>n. \<lparr>pni_NodeId = nd_NodeID n, pni_Address = nd_Address n\<rparr>) nodes), h))"

text \<open>The loop over the partitions; \<open>dq\<close> may be nil, and a failed query leaves the offsets at -1.\<close>

fun partitions_with_offsets :: "'h data_host option \<Rightarrow> PartitionInfo list \<Rightarrow> 'h \<Rightarrow>
    (rpc_error + PbPartitionInfoWithOffsets list) \<times> 'h" where
  "partitions_with_offsets dq [] h = (Inr [], h)"
| "partitions_with_offsets dq (p # ps) h =
     (case (case dq of None \<Rightarrow> (Inr (- 1, - 1), h)
            | Some q \<Rightarrow> (case PartitionOffsets q (pi_ShardID p) h of
                          (Inr (e, l), h) \<Rightarrow> (Inr (e, l), h)
                        | (Inl err, h) \<Rightarrow> if is_panic err then (Inl (handler_error mapCoordError err), h)
                                          else (Inr (- 1, - 1), h))) of
        (Inl crash, h) \<Rightarrow> (Inl crash, h)
      | (Inr (earliest, latest), h) \<Rightarrow>
          (case partitions_with_offsets dq ps h of
             (Inl crash, h) \<Rightarrow> (Inl crash, h)
           | (Inr rest, h) \<Rightarrow>
               (Inr (\<lparr>pio_Info = Some (protoPartitionInfo p), pio_EarliestOffset = earliest, pio_LatestOffset = latest\<rparr> # rest), h)))"

definition Mgmt_ListPartitions :: "'h cluster_host \<Rightarrow> 'h data_host option \<Rightarrow> string \<Rightarrow> 'h \<Rightarrow>
    (rpc_error + PbPartitionInfoWithOffsets list) \<times> 'h" where
  "Mgmt_ListPartitions nh dq topic h =
     (case DescribeTopic nh topic h of
        (Inl err, h) \<Rightarrow> (Inl (handler_error mapCoordError err), h)
      | (Inr desc, h) \<Rightarrow> partitions_with_offsets dq (td_Partitions desc) h)"

end
