(* ===== verification/ClientLib.thy ===== *)
theory ClientLib
  imports Rpc
begin

text \<open>
  What the clients share (\<open>internal/client\<close> and the types of \<open>pkg/client\<close>): the batch encoder
  and decoder, the connection pool, the metadata cache and the classification of errors.  A broker
  is reached through \<open>net\<close>, the stubs that the protocol compiler generates, on an arbitrary state
  of the world; a call at an address returns a response or a status.  The clock is an operation
  of the world too.  The backoff between two attempts only takes time and is left out.
\<close>

section \<open>Errors\<close>

datatype client_error =
    StatusErr rpc_status
  | ErrNoReachableServer
  | ErrPoolClosed
  | DialErr string
  | NoLeaderKnown string int
  | CodecErr go_error
  | CtxErr
  | ConfigErr string
  | CliErrTopicAlreadyExists
  | CliErrTopicNotFound
  | CliErrStaleGeneration
  | ClientPanic string

text \<open>\<open>extractErr\<close>: of several details of one kind the last one stays.\<close>

fun extract_loop :: "detail list \<Rightarrow> BunnyErrorCode option \<Rightarrow> (int \<times> string) option \<Rightarrow>
    BunnyErrorCode option \<times> (int \<times> string) option" where
  "extract_loop [] bunnyErr notLeader = (bunnyErr, notLeader)"
| "extract_loop (BunnyErrorDetail c m # ds) bunnyErr notLeader = extract_loop ds (Some c) notLeader"
| "extract_loop (NotLeaderDetail node addr # ds) bunnyErr notLeader = extract_loop ds bunnyErr (Some (node, addr))"

fun extractErr :: "client_error \<Rightarrow> BunnyErrorCode option \<times> (int \<times> string) option" where
  "extractErr (StatusErr st) = extract_loop (st_Details st) None None"
| "extractErr _ = (None, None)"

definition isRetryable :: "BunnyErrorCode \<Rightarrow> bool" where
  "isRetryable code \<longleftrightarrow> code = NOT_LEADER \<or> code = UNAVAILABLE \<or> code = TIMEOUT"

text \<open>\<open>status.FromError\<close> and the code \<open>Unavailable\<close>.\<close>

definition is_unavailable :: "client_error \<Rightarrow> bool" where
  "is_unavailable e = (case e of StatusErr st \<Rightarrow> st_Code st = CodeUnavailable | _ \<Rightarrow> False)"

section \<open>Encoding and decoding\<close>

text \<open>A Go string and the byte slice made from it have the same bytes.\<close>

definition string_bytes :: "string \<Rightarrow> bytes" where
  "string_bytes s = map of_char s"

definition bytes_string :: "bytes \<Rightarrow> string" where
  "bytes_string bs = map (\<lambda>b. char_of (unat b)) bs"

record BatchRecord =
  br_Key :: "bytes option"
  br_Value :: bytes
  br_Headers :: "(string, bytes) gomap"
  br_TimestampMs :: "64 word"

text \<open>The headers are written in the order in which \<open>range\<close> visits the map.\<close>

definition BatchEncoder_record :: "BatchRecord \<Rightarrow> Record" where
  "BatchEncoder_record r =
     \<lparr>TimestampMs = br_TimestampMs r, Key = br_Key r, Value = br_Value r,
      Headers = map (\<lambda>(k, v). \<lparr>rh_Key = string_bytes k, rh_Value = v\<rparr>) (br_Headers r)\<rparr>"

definition BatchEncoder_Encode :: "BatchRecord list \<Rightarrow> go_error + bytes" where
  "BatchEncoder_Encode records = EncodeBatch (map BatchEncoder_record records)"

record DecodedRecord =
  dr_Offset :: int
  dr_Key :: "bytes option"
  dr_Value :: bytes
  dr_Headers :: "(string, bytes) gomap"
  dr_TimestampMs :: "64 word"

definition decoded_headers :: "RecordHeader list \<Rightarrow> (string, bytes) gomap" where
  "decoded_headers hs = fold (\<lambda>h. mput (bytes_string (rh_Key h)) (rh_Value h)) hs []"

definition decoded_record :: "64 word \<Rightarrow> nat \<Rightarrow> Record \<Rightarrow> DecodedRecord" where
  "decoded_record base i rec =
     \<lparr>dr_Offset = int64 (sint base + int i), dr_Key = Key rec, dr_Value = Value rec,
      dr_Headers = decoded_headers (Headers rec), dr_TimestampMs = TimestampMs rec\<rparr>"

definition decoded_batch :: "Batch \<Rightarrow> DecodedRecord list" where
  "decoded_batch batch = map (\<lambda>(i, rec). decoded_record (BaseOffset batch) i rec) (enumerate 0 (Records batch))"

lemma DecodeNextBatch_progress:
  assumes "DecodeNextBatch data pos = Inr (batch, nextPos)"
  shows "pos < nextPos"
proof -
  from assms obtain b where b: "DecodeBatch (drop pos data) = Inr b" "nextPos = pos + nat (sint (BatchLength b))"
    by (auto simp: DecodeNextBatch_def split: if_splits sum.splits)
  then have "38 \<le> sint (BatchLength (decodeHeader (drop pos data)))" "BatchLength b = BatchLength (decodeHeader (drop pos data))"
    by (auto simp: DecodeBatch_def Let_def BatchHeader.defs Batch.defs split: if_splits sum.splits)
  with b(2) show ?thesis by simp
qed

text \<open>
  The records decoded before a damaged batch are returned together with the error.
\<close>

function Decode_loop :: "bytes \<Rightarrow> nat \<Rightarrow> DecodedRecord list \<Rightarrow> DecodedRecord list \<times> go_error option" where
  "Decode_loop data pos out =
     (if pos < length data
      then (case DecodeNextBatch data pos of
              Inl err \<Rightarrow> (out, Some (if is_panic err then err else Wrapped ''decode batch'' err))
            | Inr (batch, nextPos) \<Rightarrow> Decode_loop data nextPos (out @ decoded_batch batch))
      else (out, None))"
  by pat_completeness auto
termination
  by (relation "measure (\<lambda>(data, pos, out). length data - pos)") (auto dest: DecodeNextBatch_progress)

declare Decode_loop.simps [simp del]

definition BatchDecoder_Decode :: "bytes \<Rightarrow> DecodedRecord list \<times> go_error option" where
  "BatchDecoder_Decode data = Decode_loop data 0 []"

section \<open>The connection pool\<close>

text \<open>
  A connection is the address it goes to.  The map is nil after \<open>Close\<close>; \<open>dial\<close> is the gRPC
  library, which may refuse an address.
\<close>

record ConnPool =
  cp_conns :: "(string, string) gomap option"

definition NewConnPool :: ConnPool where
  "NewConnPool = \<lparr>cp_conns = Some []\<rparr>"

definition ConnPool_Get :: "(string \<Rightarrow> bool) \<Rightarrow> string \<Rightarrow> ConnPool \<Rightarrow> (client_error + string) \<times> ConnPool" where
  "ConnPool_Get dial addr p =
     (case cp_conns p of
        None \<Rightarrow> (Inl ErrPoolClosed, p)
      | Some conns \<Rightarrow>
          (case map_of conns addr of
             Some conn \<Rightarrow> (Inr conn, p)
           | None \<Rightarrow> if dial addr then (Inr addr, p\<lparr>cp_conns := Some (mput addr addr conns)\<rparr>)
                     else (Inl (DialErr addr), p)))"

text \<open>\<open>closeErr\<close> tells which connections report an error when they are closed.\<close>

definition ConnPool_Close :: "(string \<Rightarrow> bool) \<Rightarrow> ConnPool \<Rightarrow> string list \<times> ConnPool" where
  "ConnPool_Close closeErr p =
     (filter closeErr (mvals (case cp_conns p of None \<Rightarrow> [] | Some conns \<Rightarrow> conns)), p\<lparr>cp_conns := None\<rparr>)"

section \<open>The metadata cache\<close>

record CachedTopic =
  mt_PartitionCount :: int
  mt_Leaders :: "(int, string) gomap"
  mt_FetchedAt :: int

record MetaCache =
  mc_cache :: "(string, CachedTopic) gomap"
  mc_ttl :: int

definition NewMetaCache :: "int \<Rightarrow> MetaCache" where
  "NewMetaCache ttl = \<lparr>mc_cache = [], mc_ttl = ttl\<rparr>"

definition MetaCache_Get :: "int \<Rightarrow> string \<Rightarrow> MetaCache \<Rightarrow> CachedTopic option" where
  "MetaCache_Get now topic mc =
     (case map_of (mc_cache mc) topic of
        None \<Rightarrow> None
      | Some meta \<Rightarrow> if now - mt_FetchedAt meta > mc_ttl mc then None else Some meta)"

definition MetaCache_Put :: "string \<Rightarrow> CachedTopic \<Rightarrow> MetaCache \<Rightarrow> MetaCache" where
  "MetaCache_Put topic meta mc = mc\<lparr>mc_cache := mput topic meta (mc_cache mc)\<rparr>"

definition MetaCache_SetLeader :: "string \<Rightarrow> int \<Rightarrow> string \<Rightarrow> MetaCache \<Rightarrow> MetaCache" where
  "MetaCache_SetLeader topic partitionID addr mc =
     (case map_of (mc_cache mc) topic of
        None \<Rightarrow> mc
      | Some meta \<Rightarrow>
          mc\<lparr>mc_cache := mput topic (meta\<lparr>mt_Leaders := mput partitionID addr (mt_Leaders meta)\<rparr>) (mc_cache mc)\<rparr>)"

definition MetaCache_Invalidate :: "string \<Rightarrow> MetaCache \<Rightarrow> MetaCache" where
  "MetaCache_Invalidate topic mc = mc\<lparr>mc_cache := mdel topic (mc_cache mc)\<rparr>"

section \<open>The world of a client\<close>

record 'n net =
  net_now :: "'n \<Rightarrow> int \<times> 'n"
  net_dial :: "string \<Rightarrow> bool"
  net_Produce :: "string \<Rightarrow> ProduceRequest \<Rightarrow> 'n \<Rightarrow> (rpc_status + ProduceResponse) \<times> 'n"
  net_Fetch :: "string \<Rightarrow> FetchRequest \<Rightarrow> 'n \<Rightarrow> (rpc_status + FetchResponse) \<times> 'n"
  net_GetOffsets :: "string \<Rightarrow> GetOffsetsRequest \<Rightarrow> 'n \<Rightarrow> (rpc_status + int) \<times> 'n"
  net_JoinGroup :: "string \<Rightarrow> PbJoinGroupRequest \<Rightarrow> 'n \<Rightarrow> (rpc_status + PbJoinGroupResponse) \<times> 'n"
  net_Heartbeat :: "string \<Rightarrow> HeartbeatRequest \<Rightarrow> 'n \<Rightarrow> (rpc_status + HeartbeatStatus) \<times> 'n"
  net_LeaveGroup :: "string \<Rightarrow> PbLeaveGroupRequest \<Rightarrow> 'n \<Rightarrow> (rpc_status + unit) \<times> 'n"
  net_CommitOffset :: "string \<Rightarrow> CommitOffsetRequest \<Rightarrow> 'n \<Rightarrow> (rpc_status + unit) \<times> 'n"
  net_FetchCommittedOffsets :: "string \<Rightarrow> FetchCommittedOffsetsRequest \<Rightarrow> 'n \<Rightarrow> (rpc_status + PartitionOffset list) \<times> 'n"
  net_DescribeTopic :: "string \<Rightarrow> string \<Rightarrow> 'n \<Rightarrow> (rpc_status + DescribeTopicResponse) \<times> 'n"
  net_DescribeCluster :: "string \<Rightarrow> 'n \<Rightarrow> (rpc_status + PbNodeInfo list) \<times> 'n"

section \<open>Finding the leader of a partition\<close>

text \<open>
  \<open>refreshMeta\<close>, \<open>metaFor\<close> and \<open>leaderFor\<close> are written out for the producer and again for the
  consumer; both copies work on a pool, a cache and the known addresses.
\<close>

definition topic_meta :: "DescribeTopicResponse \<Rightarrow> PbNodeInfo list \<Rightarrow> int \<Rightarrow> CachedTopic" where
  "topic_meta descResp nodes now =
     (let nodeAddrs = fold (\<lambda>n. mput (pni_NodeId n) (pni_Address n)) nodes [];
          leaders = fold (\<lambda>part ls. case map_of nodeAddrs (ppi_LeaderNodeId part) of
                       None \<Rightarrow> ls
                     | Some nodeAddr \<Rightarrow> mput (ppi_PartitionId part) nodeAddr ls) (dtr_Partitions descResp) [];
          partitionCount = (case dtr_Topic descResp of
                       Some t \<Rightarrow> if pti_PartitionCount t > 0 then pti_PartitionCount t
                                 else int32 (int (length (dtr_Partitions descResp)))
                     | None \<Rightarrow> int32 (int (length (dtr_Partitions descResp))))
      in \<lparr>mt_PartitionCount = partitionCount, mt_Leaders = leaders, mt_FetchedAt = now\<rparr>)"

fun refreshMeta :: "'n net \<Rightarrow> string \<Rightarrow> string list \<Rightarrow> ConnPool \<Rightarrow> MetaCache \<Rightarrow> 'n \<Rightarrow>
    (client_error + CachedTopic) \<times> ConnPool \<times> MetaCache \<times> 'n" where
  "refreshMeta net topic [] pool mc n = (Inl ErrNoReachableServer, pool, mc, n)"
| "refreshMeta net topic (addr # addrs) pool mc n =
     (case ConnPool_Get (net_dial net) addr pool of
        (Inl err, pool) \<Rightarrow> refreshMeta net topic addrs pool mc n
      | (Inr conn, pool) \<Rightarrow>
          (case net_DescribeTopic net conn topic n of
             (Inl err, n) \<Rightarrow> refreshMeta net topic addrs pool mc n
           | (Inr descResp, n) \<Rightarrow>
               (case net_DescribeCluster net conn n of
                  (Inl err, n) \<Rightarrow> refreshMeta net topic addrs pool mc n
                | (Inr nodes, n) \<Rightarrow>
                    (case net_now net n of
                       (now, n) \<Rightarrow>
                         let meta = topic_meta descResp nodes now
                         in (Inr meta, pool, MetaCache_Put topic meta mc, n)))))"

definition metaFor :: "'n net \<Rightarrow> string \<Rightarrow> string list \<Rightarrow> ConnPool \<Rightarrow> MetaCache \<Rightarrow> 'n \<Rightarrow>
    (client_error + CachedTopic) \<times> ConnPool \<times> MetaCache \<times> 'n" where
  "metaFor net topic addrs pool mc n =
     (case net_now net n of
        (now, n) \<Rightarrow>
          (case MetaCache_Get now topic mc of
             Some meta \<Rightarrow> (Inr meta, pool, mc, n)
           | None \<Rightarrow> refreshMeta net topic addrs pool mc n))"

definition leaderFor :: "'n net \<Rightarrow> string \<Rightarrow> int \<Rightarrow> string list \<Rightarrow> ConnPool \<Rightarrow> MetaCache \<Rightarrow> 'n \<Rightarrow>
    (client_error + string) \<times> ConnPool \<times> MetaCache \<times> 'n" where
  "leaderFor net topic partID addrs pool mc n =
     (case metaFor net topic addrs pool mc n of
        (Inl err, pool, mc, n) \<Rightarrow> (Inl err, pool, mc, n)
      | (Inr meta, pool, mc, n) \<Rightarrow>
          let addr = mget0 [] (mt_Leaders meta) partID
          in if addr \<noteq> [] then (Inr addr, pool, mc, n)
             else (case refreshMeta net topic addrs pool mc n of
                     (Inl err, pool, mc, n) \<Rightarrow> (Inl err, pool, mc, n)
                   | (Inr meta, pool, mc, n) \<Rightarrow>
                       let addr = mget0 [] (mt_Leaders meta) partID
                       in if addr \<noteq> [] then (Inr addr, pool, mc, n)
                          else (Inl (NoLeaderKnown topic partID), pool, mc, n)))"

section \<open>Shared configuration\<close>

record RetryPolicy =
  MaxRetries :: int
  InitialBackoff :: int
  MaxBackoff :: int

record ClientConfig =
  BootstrapServers :: "string list"
  AuthToken :: string
  RequestTimeout :: int
  cf_RetryPolicy :: RetryPolicy

text \<open>
  The defaults with which the three constructors complete a configuration.  The backoff factor,
  a floating-point number, and the TLS settings are left out.
\<close>

definition default_policy :: "RetryPolicy \<Rightarrow> RetryPolicy" where
  "default_policy p =
     \<lparr>MaxRetries = (if MaxRetries p = 0 then 3 else MaxRetries p),
      InitialBackoff = (if InitialBackoff p \<le> 0 then 50 * 1000000 else InitialBackoff p),
      MaxBackoff = (if MaxBackoff p \<le> 0 then 2 * 1000000000 else MaxBackoff p)\<rparr>"

definition default_config :: "ClientConfig \<Rightarrow> ClientConfig" where
  "default_config c =
     c\<lparr>RequestTimeout := (if RequestTimeout c \<le> 0 then 5 * 1000000000 else RequestTimeout c),
       cf_RetryPolicy := default_policy (cf_RetryPolicy c)\<rparr>"

end
