(* ===== verification/Producer.thy ===== *)
theory Producer
  imports ClientLib
begin

text \<open>
  The producer (\<open>pkg/client/producer.go\<close>): choice of the partition, and the loop that sends a
  batch to the leader of the partition and follows it when it moves.
\<close>

record ProducerConfig =
  pc_Config :: ClientConfig
  pc_DefaultAcks :: int
  pc_MetadataCacheTTL :: int

record Producer =
  p_config :: ProducerConfig
  p_pool :: ConnPool
  p_meta :: MetaCache
  p_roundRobinCounter :: int
  p_knownAddrs :: "string list"

definition NewProducer :: "ProducerConfig \<Rightarrow> client_error + Producer" where
  "NewProducer config =
     (if length (BootstrapServers (pc_Config config)) = 0
      then Inl (ConfigErr ''client: BootstrapServers must not be empty'')
      else let ttl = (if pc_MetadataCacheTTL config \<le> 0 then 60 * 1000000000 else pc_MetadataCacheTTL config);
               config = config\<lparr>pc_Config := default_config (pc_Config config)\<rparr>
           in Inr \<lparr>p_config = config, p_pool = NewConnPool, p_meta = NewMetaCache ttl,
                   p_roundRobinCounter = 0, p_knownAddrs = BootstrapServers (pc_Config config)\<rparr>)"

definition Producer_MaxRetries :: "Producer \<Rightarrow> int" where
  "Producer_MaxRetries p = MaxRetries (cf_RetryPolicy (pc_Config (p_config p)))"

section \<open>Choosing a partition\<close>

text \<open>The FNV-1a hash of a byte slice.\<close>

definition fnv32a_bytes :: "bytes \<Rightarrow> 32 word" where
  "fnv32a_bytes bs = foldl (\<lambda>h b. (h XOR ucast b) * 16777619) 2166136261 bs"

definition selectPartition :: "bytes option \<Rightarrow> int \<Rightarrow> int \<Rightarrow> (client_error + int) \<times> int" where
  "selectPartition key partitionCount counter =
     (case key of
        Some (b # bs) \<Rightarrow>
          ((if uint32 partitionCount = 0 then Inl (ClientPanic ''integer divide by zero'')
            else Inr (int32 (uint (fnv32a_bytes (b # bs)) mod uint32 partitionCount))), counter)
      | _ \<Rightarrow>
          let counter = int64 (counter + 1); n = int64 (counter - 1)
          in ((if partitionCount = 0 then Inl (ClientPanic ''integer divide by zero'')
               else Inr (int32 (go_mod n partitionCount))), counter))"

section \<open>Metadata\<close>

definition Producer_metaFor :: "'n net \<Rightarrow> string \<Rightarrow> Producer \<Rightarrow> 'n \<Rightarrow> (client_error + CachedTopic) \<times> Producer \<times> 'n" where
  "Producer_metaFor net topic p n =
     (case metaFor net topic (p_knownAddrs p) (p_pool p) (p_meta p) n of
        (r, pool, mc, n) \<Rightarrow> (r, p\<lparr>p_pool := pool, p_meta := mc\<rparr>, n))"

definition Producer_leaderFor :: "'n net \<Rightarrow> string \<Rightarrow> int \<Rightarrow> Producer \<Rightarrow> 'n \<Rightarrow> (client_error + string) \<times> Producer \<times> 'n" where
  "Producer_leaderFor net topic partID p n =
     (case leaderFor net topic partID (p_knownAddrs p) (p_pool p) (p_meta p) n of
        (r, pool, mc, n) \<Rightarrow> (r, p\<lparr>p_pool := pool, p_meta := mc\<rparr>, n))"

section \<open>Sending\<close>

text \<open>One pass of the loop ends the call or asks for another pass.\<close>

datatype 'a pass = Return 'a | Again

definition send_attempt :: "'n net \<Rightarrow> string \<Rightarrow> int \<Rightarrow> bytes \<Rightarrow> int \<Rightarrow> int \<Rightarrow> Producer \<Rightarrow> 'n \<Rightarrow>
    (client_error + int) pass \<times> Producer \<times> 'n" where
  "send_attempt net topic partID batchData acks attempt p n =
     (let last = (attempt \<ge> Producer_MaxRetries p)
      in case Producer_leaderFor net topic partID p n of
        (Inl err, p, n) \<Rightarrow>
          ((if err = ErrNoReachableServer \<and> \<not> last then Again else Return (Inl err)), p, n)
      | (Inr addr, p, n) \<Rightarrow>
      (case ConnPool_Get (net_dial net) addr (p_pool p) of
        (Inl err, pool) \<Rightarrow> ((if last then Return (Inl err) else Again), p\<lparr>p_pool := pool\<rparr>, n)
      | (Inr conn, pool) \<Rightarrow>
      (case net_Produce net conn \<lparr>prq_Topic = topic, prq_PartitionId = partID, prq_Acks = acks, prq_BatchData = batchData\<rparr> n of
        (Inr resp, n) \<Rightarrow> (Return (Inr (prp_Offset resp)), p\<lparr>p_pool := pool\<rparr>, n)
      | (Inl st, n) \<Rightarrow>
          let p = p\<lparr>p_pool := pool\<rparr>; fail = Return (Inl (StatusErr st)); again = (if last then fail else Again)
          in (case extractErr (StatusErr st) of
                (None, notLeader) \<Rightarrow>
                  if is_unavailable (StatusErr st)
                  then (again, p\<lparr>p_meta := MetaCache_Invalidate topic (p_meta p)\<rparr>, n)
                  else (fail, p, n)
              | (Some NOT_LEADER, notLeader) \<Rightarrow>
                  (again, (case notLeader of
                             Some (node, leader) \<Rightarrow>
                               if leader \<noteq> [] then p\<lparr>p_meta := MetaCache_SetLeader topic partID leader (p_meta p)\<rparr> else p
                           | None \<Rightarrow> p), n)
              | (Some code, notLeader) \<Rightarrow>
                  ((if code = UNAVAILABLE \<or> code = TIMEOUT then again else fail), p, n)))))"

lemma Producer_leaderFor_config: "Producer_leaderFor net topic pid p n = (r, p', n') \<Longrightarrow> p_config p' = p_config p"
  by (auto simp: Producer_leaderFor_def split: prod.splits)

lemma send_attempt_again:
  assumes "send_attempt net topic pid b acks attempt p n = (Again, p', n')"
  shows "attempt < Producer_MaxRetries p \<and> p_config p' = p_config p"
proof -
  obtain r pa na where l: "Producer_leaderFor net topic pid p n = (r, pa, na)" by (metis prod_cases3)
  have "p_config pa = p_config p" by (rule Producer_leaderFor_config [OF l])
  with assms l show ?thesis
    by (auto simp: send_attempt_def Let_def split: sum.splits prod.splits if_splits option.splits BunnyErrorCode.splits)
qed

function send_loop :: "'n net \<Rightarrow> string \<Rightarrow> int \<Rightarrow> bytes \<Rightarrow> int \<Rightarrow> int \<Rightarrow> Producer \<Rightarrow> 'n \<Rightarrow>
    (client_error + int) \<times> Producer \<times> 'n" where
  "send_loop net topic partID batchData acks attempt p n =
     (case send_attempt net topic partID batchData acks attempt p n of
        (Return r, p, n) \<Rightarrow> (r, p, n)
      | (Again, p, n) \<Rightarrow> send_loop net topic partID batchData acks (attempt + 1) p n)"
  by pat_completeness auto
termination
  by (relation "measure (\<lambda>(net, topic, pid, b, acks, attempt, p, n). nat (Producer_MaxRetries p - attempt))")
    (auto dest!: send_attempt_again [OF sym] simp: Producer_MaxRetries_def)

declare send_loop.simps [simp del]

definition sendToPartition :: "'n net \<Rightarrow> string \<Rightarrow> int \<Rightarrow> bytes \<Rightarrow> int \<Rightarrow> Producer \<Rightarrow> 'n \<Rightarrow>
    (client_error + int) \<times> Producer \<times> 'n" where
  "sendToPartition net topic partID batchData acks p n = send_loop net topic partID batchData acks 0 p n"

text \<open>The clock counts nanoseconds; the timestamp of a record is in milliseconds.\<close>

definition Send :: "'n net \<Rightarrow> string \<Rightarrow> bytes option \<Rightarrow> bytes \<Rightarrow> (string, bytes) gomap \<Rightarrow> int \<Rightarrow> Producer \<Rightarrow> 'n \<Rightarrow>
    (client_error + int) \<times> Producer \<times> 'n" where
  "Send net topic key val headers acks p n =
     (case Producer_metaFor net topic p n of
        (Inl err, p, n) \<Rightarrow> (Inl err, p, n)
      | (Inr meta, p, n) \<Rightarrow>
          (case selectPartition key (mt_PartitionCount meta) (p_roundRobinCounter p) of
             (Inl err, counter) \<Rightarrow> (Inl err, p\<lparr>p_roundRobinCounter := counter\<rparr>, n)
           | (Inr partID, counter) \<Rightarrow>
               let p = p\<lparr>p_roundRobinCounter := counter\<rparr>
               in (case net_now net n of
                     (now, n) \<Rightarrow>
                       (case BatchEncoder_Encode [\<lparr>br_Key = key, br_Value = val, br_Headers = headers,
                               br_TimestampMs = word_of_int (now div 1000000)\<rparr>] of
                          Inl err \<Rightarrow> (Inl (CodecErr err), p, n)
                        | Inr batchData \<Rightarrow> sendToPartition net topic partID batchData acks p n))))"

definition SendBatch :: "'n net \<Rightarrow> string \<Rightarrow> int \<Rightarrow> bytes \<Rightarrow> int \<Rightarrow> Producer \<Rightarrow> 'n \<Rightarrow>
    (client_error + int) \<times> Producer \<times> 'n" where
  "SendBatch net topic partitionID batchData acks p n = sendToPartition net topic partitionID batchData acks p n"

definition Producer_Flush :: "Producer \<Rightarrow> client_error option" where
  "Producer_Flush p = None"

definition Producer_Close :: "(string \<Rightarrow> bool) \<Rightarrow> Producer \<Rightarrow> string list \<times> Producer" where
  "Producer_Close closeErr p =
     (case ConnPool_Close closeErr (p_pool p) of (errs, pool) \<Rightarrow> (errs, p\<lparr>p_pool := pool\<rparr>))"

end
