(* ===== verification/Consumer.thy ===== *)
theory Consumer
  imports ClientLib
begin

text \<open>
  The consumer (\<open>pkg/client/consumer.go\<close>): positions, polling, commits, membership in a group and
  the rebalancing that the heartbeat goroutine runs.  \<open>Poll\<close> and \<open>rebalance\<close> release the mutex
  between their steps; the steps are definitions of their own, so that the steps of the two
  goroutines can be interleaved.
\<close>

section \<open>State\<close>

type_synonym TP = TopicPartition

datatype OffsetResetPolicy = OffsetResetLatest | OffsetResetEarliest

record ConsumerConfig =
  cn_Config :: ClientConfig
  GroupID :: string
  MaxFetchBytes :: int
  MaxFetchWaitMs :: int
  AutoOffsetReset :: OffsetResetPolicy
  HeartbeatIntervalMs :: int
  cn_SessionTimeoutMs :: int

record Consumer =
  c_config :: ConsumerConfig
  c_pool :: ConnPool
  c_meta :: MetaCache
  c_knownAddrs :: "string list"
  stopHeartbeat :: bool
  fetchOffsets :: "(TP, int) gomap"
  soughtPartitions :: "TP list"
  subscribedTopics :: "string list"
  memberID :: string
  generationID :: int
  coordAddr :: string
  assignedPartitions :: "TP list"
  rebalancing :: bool

text \<open>A record as \<open>Poll\<close> returns it.\<close>

record ClientRecord =
  r_Topic :: string
  r_PartitionID :: int
  r_Offset :: int
  r_Key :: "bytes option"
  r_Val :: bytes
  r_Headers :: "(string, bytes) gomap"
  r_TimestampMs :: "64 word"

definition NewConsumer :: "ConsumerConfig \<Rightarrow> client_error + Consumer" where
  "NewConsumer config =
     (if length (BootstrapServers (cn_Config config)) = 0
      then Inl (ConfigErr ''client: BootstrapServers must not be empty'')
      else let config = config\<lparr>cn_Config := default_config (cn_Config config),
                 MaxFetchBytes := (if MaxFetchBytes config \<le> 0 then 2 ^ 20 else MaxFetchBytes config),
                 MaxFetchWaitMs := (if MaxFetchWaitMs config \<le> 0 then 500 else MaxFetchWaitMs config),
                 HeartbeatIntervalMs := (if HeartbeatIntervalMs config \<le> 0 then 3000 else HeartbeatIntervalMs config)\<rparr>
           in Inr \<lparr>c_config = config, c_pool = NewConnPool, c_meta = NewMetaCache (60 * 1000000000),
                   c_knownAddrs = BootstrapServers (cn_Config config), stopHeartbeat = False,
                   fetchOffsets = [], soughtPartitions = [], subscribedTopics = [], memberID = [],
                   generationID = 0, coordAddr = [], assignedPartitions = [], rebalancing = False\<rparr>)"

section \<open>Positions\<close>

definition Seek :: "TP \<Rightarrow> int \<Rightarrow> Consumer \<Rightarrow> Consumer" where
  "Seek tp offset c =
     (let c = (if map_of (fetchOffsets c) tp = None then c\<lparr>soughtPartitions := soughtPartitions c @ [tp]\<rparr> else c)
      in c\<lparr>fetchOffsets := mput tp offset (fetchOffsets c)\<rparr>)"

section \<open>Calls\<close>

text \<open>A connection to \<open>addr\<close> and one call on it.\<close>

definition c_call :: "'n net \<Rightarrow> string \<Rightarrow> (string \<Rightarrow> 'n \<Rightarrow> (rpc_status + 'r) \<times> 'n) \<Rightarrow> Consumer \<Rightarrow> 'n \<Rightarrow>
    (client_error + 'r) \<times> Consumer \<times> 'n" where
  "c_call net addr rpc c n =
     (case ConnPool_Get (net_dial net) addr (c_pool c) of
        (Inl err, pool) \<Rightarrow> (Inl err, c\<lparr>c_pool := pool\<rparr>, n)
      | (Inr conn, pool) \<Rightarrow>
          (case rpc conn n of
             (Inl st, n) \<Rightarrow> (Inl (StatusErr st), c\<lparr>c_pool := pool\<rparr>, n)
           | (Inr resp, n) \<Rightarrow> (Inr resp, c\<lparr>c_pool := pool\<rparr>, n)))"

definition Consumer_refreshMeta :: "'n net \<Rightarrow> string \<Rightarrow> Consumer \<Rightarrow> 'n \<Rightarrow> (client_error + CachedTopic) \<times> Consumer \<times> 'n" where
  "Consumer_refreshMeta net topic c n =
     (case refreshMeta net topic (c_knownAddrs c) (c_pool c) (c_meta c) n of
        (r, pool, mc, n) \<Rightarrow> (r, c\<lparr>c_pool := pool, c_meta := mc\<rparr>, n))"

definition Consumer_metaFor :: "'n net \<Rightarrow> string \<Rightarrow> Consumer \<Rightarrow> 'n \<Rightarrow> (client_error + CachedTopic) \<times> Consumer \<times> 'n" where
  "Consumer_metaFor net topic c n =
     (case net_now net n of
        (now, n) \<Rightarrow>
          (case MetaCache_Get now topic (c_meta c) of
             Some meta \<Rightarrow> (Inr meta, c, n)
           | None \<Rightarrow> Consumer_refreshMeta net topic c n))"

definition Consumer_leaderFor :: "'n net \<Rightarrow> TP \<Rightarrow> Consumer \<Rightarrow> 'n \<Rightarrow> (client_error + string) \<times> Consumer \<times> 'n" where
  "Consumer_leaderFor net tp c n =
     (case Consumer_metaFor net (tp_Topic tp) c n of
        (Inl err, c, n) \<Rightarrow> (Inl err, c, n)
      | (Inr meta, c, n) \<Rightarrow>
          let addr = mget0 [] (mt_Leaders meta) (tp_PartitionID tp)
          in if addr \<noteq> [] then (Inr addr, c, n)
             else (case Consumer_refreshMeta net (tp_Topic tp) c n of
                     (Inl err, c, n) \<Rightarrow> (Inl err, c, n)
                   | (Inr meta, c, n) \<Rightarrow>
                       let addr = mget0 [] (mt_Leaders meta) (tp_PartitionID tp)
                       in if addr \<noteq> [] then (Inr addr, c, n)
                          else (Inl (NoLeaderKnown (tp_Topic tp) (tp_PartitionID tp)), c, n)))"

text \<open>It is the routine of the producer on the fields of the consumer.\<close>

lemma Consumer_leaderFor_eq:
  "Consumer_leaderFor net tp c n =
     (case leaderFor net (tp_Topic tp) (tp_PartitionID tp) (c_knownAddrs c) (c_pool c) (c_meta c) n of
        (r, pool, mc, n) \<Rightarrow> (r, c\<lparr>c_pool := pool, c_meta := mc\<rparr>, n))"
  by (simp add: Consumer_leaderFor_def Consumer_metaFor_def Consumer_refreshMeta_def leaderFor_def metaFor_def Let_def
      split: prod.split option.split sum.split)

section \<open>Joining a group\<close>

fun findCoordinator_loop :: "'n net \<Rightarrow> string list \<Rightarrow> Consumer \<Rightarrow> 'n \<Rightarrow> client_error option \<times> Consumer \<times> 'n" where
  "findCoordinator_loop net [] c n = (Some ErrNoReachableServer, c, n)"
| "findCoordinator_loop net (addr # addrs) c n =
     (case c_call net addr (net_DescribeCluster net) c n of
        (Inl err, c, n) \<Rightarrow> findCoordinator_loop net addrs c n
      | (Inr nodes, c, n) \<Rightarrow>
          (None, c\<lparr>coordAddr := (case nodes of [] \<Rightarrow> addr | node # rest \<Rightarrow> pni_Address node)\<rparr>, n))"

definition findCoordinator :: "'n net \<Rightarrow> Consumer \<Rightarrow> 'n \<Rightarrow> client_error option \<times> Consumer \<times> 'n" where
  "findCoordinator net c n = findCoordinator_loop net (c_knownAddrs c) c n"

definition doJoinGroup :: "'n net \<Rightarrow> string list \<Rightarrow> Consumer \<Rightarrow> 'n \<Rightarrow> (client_error + PbJoinGroupResponse) \<times> Consumer \<times> 'n" where
  "doJoinGroup net topics c n =
     c_call net (coordAddr c) (\<lambda>conn. net_JoinGroup net conn
       \<lparr>jrq_GroupId = GroupID (c_config c), jrq_MemberId = memberID c, jrq_SubscribedTopics = topics, jrq_ClientHost = [],
        jrq_SessionTimeoutMs = cn_SessionTimeoutMs (c_config c),
        jrq_HeartbeatIntervalMs = int32 (HeartbeatIntervalMs (c_config c))\<rparr>) c n"

definition getPartitionOffset :: "'n net \<Rightarrow> TP \<Rightarrow> int \<Rightarrow> Consumer \<Rightarrow> 'n \<Rightarrow> (client_error + int) \<times> Consumer \<times> 'n" where
  "getPartitionOffset net tp queryType c n =
     (case Consumer_leaderFor net tp c n of
        (Inl err, c, n) \<Rightarrow> (Inl err, c, n)
      | (Inr addr, c, n) \<Rightarrow> c_call net addr (\<lambda>conn. net_GetOffsets net conn
          \<lparr>grq_Topic = tp_Topic tp, grq_PartitionId = tp_PartitionID tp, grq_QueryType = queryType, grq_TimestampMs = 0\<rparr>) c n)"

definition committed_map :: "PartitionOffset list \<Rightarrow> (TP, int) gomap" where
  "committed_map pos = fold (\<lambda>po. mput (TopicPartition (po_Topic po) (po_PartitionId po)) (po_Offset po)) pos []"

text \<open>Where an assigned partition starts: at the committed offset, or where the reset policy says.\<close>

definition start_offset :: "'n net \<Rightarrow> (TP, int) gomap \<Rightarrow> TP \<Rightarrow> Consumer \<Rightarrow> 'n \<Rightarrow> (client_error + int) \<times> Consumer \<times> 'n" where
  "start_offset net committed tp c n =
     (let reset = (case AutoOffsetReset (c_config c) of
                     OffsetResetEarliest \<Rightarrow> (Inr 0, c, n)
                   | OffsetResetLatest \<Rightarrow> getPartitionOffset net tp LATEST c n)
      in (case map_of committed tp of
            Some off \<Rightarrow> if off > - 1 then (Inr off, c, n) else reset
          | None \<Rightarrow> reset))"

fun seek_assigned :: "'n net \<Rightarrow> (TP, int) gomap \<Rightarrow> TP list \<Rightarrow> Consumer \<Rightarrow> 'n \<Rightarrow> client_error option \<times> Consumer \<times> 'n" where
  "seek_assigned net committed [] c n = (None, c, n)"
| "seek_assigned net committed (tp # tps) c n =
     (case start_offset net committed tp c n of
        (Inl err, c, n) \<Rightarrow> (Some err, c, n)
      | (Inr off, c, n) \<Rightarrow> seek_assigned net committed tps (Seek tp off c) n)"

definition initFetchOffsets :: "'n net \<Rightarrow> Consumer \<Rightarrow> 'n \<Rightarrow> client_error option \<times> Consumer \<times> 'n" where
  "initFetchOffsets net c n =
     (let assigned = assignedPartitions c
      in if length assigned = 0 then (None, c, n)
         else (case c_call net (coordAddr c) (\<lambda>conn. net_FetchCommittedOffsets net conn
                      \<lparr>fcq_GroupId = GroupID (c_config c), fcq_Partitions = assigned\<rparr>) c n of
                 (Inl err, c, n) \<Rightarrow> (Some err, c, n)
               | (Inr offsets, c, n) \<Rightarrow> seek_assigned net (committed_map offsets) assigned c n))"

definition joined :: "'n net \<Rightarrow> PbJoinGroupResponse \<Rightarrow> Consumer \<Rightarrow> 'n \<Rightarrow> client_error option \<times> Consumer \<times> 'n" where
  "joined net resp c n =
     initFetchOffsets net (c\<lparr>memberID := jrp_MemberId resp, generationID := jrp_GenerationId resp,
       assignedPartitions := jrp_Assignments resp\<rparr>) n"

definition joinGroup :: "'n net \<Rightarrow> string list \<Rightarrow> Consumer \<Rightarrow> 'n \<Rightarrow> client_error option \<times> Consumer \<times> 'n" where
  "joinGroup net topics c n =
     (case findCoordinator net c n of
        (Some err, c, n) \<Rightarrow> (Some err, c, n)
      | (None, c, n) \<Rightarrow>
      (case doJoinGroup net topics c n of
        (Inr resp, c, n) \<Rightarrow> joined net resp c n
      | (Inl err, c, n) \<Rightarrow>
      (case extractErr err of
        (Some NOT_LEADER, notLeader) \<Rightarrow>
          (case (case notLeader of
                   Some (node, leader) \<Rightarrow> if leader \<noteq> [] then (None, c\<lparr>coordAddr := leader\<rparr>, n) else findCoordinator net c n
                 | None \<Rightarrow> findCoordinator net c n) of
             (Some refreshErr, c, n) \<Rightarrow> (Some err, c, n)
           | (None, c, n) \<Rightarrow>
               (case doJoinGroup net topics c n of
                  (Inl err, c, n) \<Rightarrow> (Some err, c, n)
                | (Inr resp, c, n) \<Rightarrow> joined net resp c n))
      | _ \<Rightarrow> (Some err, c, n))))"

definition Subscribe :: "'n net \<Rightarrow> string list \<Rightarrow> Consumer \<Rightarrow> 'n \<Rightarrow> client_error option \<times> Consumer \<times> 'n" where
  "Subscribe net topics c n =
     (let c = c\<lparr>subscribedTopics := topics\<rparr>
      in if GroupID (c_config c) = [] then (None, c, n)
         else (case joinGroup net topics c n of
                 (Some err, c, n) \<Rightarrow> (Some err, c, n)
               | (None, c, n) \<Rightarrow> (None, c\<lparr>stopHeartbeat := True\<rparr>, n)))"

section \<open>Polling\<close>

definition client_record :: "TP \<Rightarrow> DecodedRecord \<Rightarrow> ClientRecord" where
  "client_record tp dr =
     \<lparr>r_Topic = tp_Topic tp, r_PartitionID = tp_PartitionID tp, r_Offset = dr_Offset dr, r_Key = dr_Key dr,
      r_Val = dr_Value dr, r_Headers = dr_Headers dr, r_TimestampMs = dr_TimestampMs dr\<rparr>"

definition fetchPartition :: "'n net \<Rightarrow> TP \<Rightarrow> int \<Rightarrow> int \<Rightarrow> Consumer \<Rightarrow> 'n \<Rightarrow>
    (client_error + (ClientRecord list \<times> int)) \<times> Consumer \<times> 'n" where
  "fetchPartition net tp offset waitMs c n =
     (case Consumer_leaderFor net tp c n of
        (Inl err, c, n) \<Rightarrow> (Inl err, c, n)
      | (Inr addr, c, n) \<Rightarrow>
          (case c_call net addr (\<lambda>conn. net_Fetch net conn
                  \<lparr>frq_Topic = tp_Topic tp, frq_PartitionId = tp_PartitionID tp, frq_Offset = offset,
                   frq_MaxBytes = int32 (MaxFetchBytes (c_config c)), frq_MaxWaitMs = waitMs\<rparr>) c n of
             (Inl err, c, n) \<Rightarrow> (Inl err, c, n)
           | (Inr resp, c, n) \<Rightarrow>
               if length (frp_Records resp) = 0 then (Inr ([], frp_NextOffset resp), c, n)
               else (case BatchDecoder_Decode (frp_Records resp) of
                       (decoded, Some err) \<Rightarrow> (Inl (CodecErr err), c, n)
                     | (decoded, None) \<Rightarrow> (Inr (map (client_record tp) decoded, frp_NextOffset resp), c, n))))"

text \<open>
  The first part of \<open>Poll\<close>: it waits while a rebalance runs.  \<open>loads\<close> are the successive readings
  of the flag and, where the flag is set, of the context; \<open>None\<close> is a poll that still waits.
\<close>

datatype load = Settled | Busy | BusyDone

fun poll_gate :: "load list \<Rightarrow> (client_error option) option" where
  "poll_gate [] = None"
| "poll_gate (Settled # ls) = Some None"
| "poll_gate (BusyDone # ls) = Some (Some CtxErr)"
| "poll_gate (Busy # ls) = poll_gate ls"

definition poll_begin :: "Consumer \<Rightarrow> (TP \<times> int) list" where
  "poll_begin c = map (\<lambda>tp. (tp, mget0 0 (fetchOffsets c) tp)) (soughtPartitions c)"

text \<open>What one partition contributes, and whether the poll goes on.\<close>

datatype fetched = Got "ClientRecord list" | Skipped | Failed client_error

definition poll_store :: "TP \<Rightarrow> int \<Rightarrow> Consumer \<Rightarrow> Consumer" where
  "poll_store tp nextOff c = c\<lparr>fetchOffsets := mput tp nextOff (fetchOffsets c)\<rparr>"

definition poll_partition :: "'n net \<Rightarrow> TP \<Rightarrow> int \<Rightarrow> int \<Rightarrow> Consumer \<Rightarrow> 'n \<Rightarrow> fetched \<times> Consumer \<times> 'n" where
  "poll_partition net tp off waitMs c n =
     (case fetchPartition net tp off waitMs c n of
        (Inr (recs, nextOff), c, n) \<Rightarrow> (Got recs, poll_store tp nextOff c, n)
      | (Inl err, c, n) \<Rightarrow>
          let invalidated = c\<lparr>c_meta := MetaCache_Invalidate (tp_Topic tp) (c_meta c)\<rparr>
          in (case extractErr err of
                (Some NOT_LEADER, notLeader) \<Rightarrow>
                  (Skipped, (case notLeader of
                     Some (node, leader) \<Rightarrow>
                       if leader \<noteq> [] then c\<lparr>c_meta := MetaCache_SetLeader (tp_Topic tp) (tp_PartitionID tp) leader (c_meta c)\<rparr>
                       else invalidated
                   | None \<Rightarrow> invalidated), n)
              | _ \<Rightarrow>
                  if err = ErrNoReachableServer \<or> is_unavailable err then (Skipped, invalidated, n)
                  else (Failed err, c, n)))"

fun poll_loop :: "'n net \<Rightarrow> int \<Rightarrow> (TP \<times> int) list \<Rightarrow> ClientRecord list \<Rightarrow> Consumer \<Rightarrow> 'n \<Rightarrow>
    (client_error + ClientRecord list) \<times> Consumer \<times> 'n" where
  "poll_loop net deadline [] out c n = (Inr out, c, n)"
| "poll_loop net deadline ((tp, off) # work) out c n =
     (case net_now net n of
        (now, n) \<Rightarrow>
          let remaining = deadline - now
          in if remaining \<le> 0 then (Inr out, c, n)
             else let share = go_div (go_div remaining 1000000) (int (length work) + 1);
                      perPartitionWaitMs = (if share > MaxFetchWaitMs (c_config c) then MaxFetchWaitMs (c_config c) else share)
                  in (case poll_partition net tp off perPartitionWaitMs c n of
                        (Got recs, c, n) \<Rightarrow> poll_loop net deadline work (out @ recs) c n
                      | (Skipped, c, n) \<Rightarrow> poll_loop net deadline work out c n
                      | (Failed err, c, n) \<Rightarrow> (Inl err, c, n)))"

definition Poll :: "'n net \<Rightarrow> load list \<Rightarrow> int \<Rightarrow> Consumer \<Rightarrow> 'n \<Rightarrow>
    ((client_error + ClientRecord list) \<times> Consumer \<times> 'n) option" where
  "Poll net loads maxWaitMs c n =
     (case (if GroupID (c_config c) \<noteq> [] then poll_gate loads else Some None) of
        None \<Rightarrow> None
      | Some (Some err) \<Rightarrow> Some (Inl err, c, n)
      | Some None \<Rightarrow>
          if length (soughtPartitions c) = 0 then Some (Inr [], c, n)
          else let work = poll_begin c
               in (case net_now net n of
                     (now, n) \<Rightarrow> Some (poll_loop net (now + int64 (maxWaitMs * 1000000)) work [] c n)))"

section \<open>Commits\<close>

definition CommitOffsets :: "'n net \<Rightarrow> (TP, int) gomap \<Rightarrow> Consumer \<Rightarrow> 'n \<Rightarrow> client_error option \<times> Consumer \<times> 'n" where
  "CommitOffsets net offsets c n =
     (if GroupID (c_config c) = [] then (None, c, n)
      else (case c_call net (coordAddr c) (\<lambda>conn. net_CommitOffset net conn
                   \<lparr>crq_GroupId = GroupID (c_config c), crq_MemberId = memberID c, crq_GenerationId = generationID c,
                    crq_Offsets = map (\<lambda>(tp, off). \<lparr>po_Topic = tp_Topic tp, po_PartitionId = tp_PartitionID tp, po_Offset = off\<rparr>) offsets\<rparr>) c n of
              (Inr _, c, n) \<Rightarrow> (None, c, n)
            | (Inl err, c, n) \<Rightarrow>
                (if fst (extractErr err) = Some STALE_GENERATION then Some CliErrStaleGeneration else Some err, c, n)))"

definition Commit :: "'n net \<Rightarrow> Consumer \<Rightarrow> 'n \<Rightarrow> client_error option \<times> Consumer \<times> 'n" where
  "Commit net c n =
     (if GroupID (c_config c) = [] then (None, c, n)
      else CommitOffsets net (fold (\<lambda>tp. mput tp (mget0 0 (fetchOffsets c) tp)) (soughtPartitions c) []) c n)"

section \<open>Rebalancing\<close>

text \<open>The first step: the positions are saved and cleared under the mutex.\<close>

definition rebalance_begin :: "Consumer \<Rightarrow> (TP, int) gomap \<times> Consumer" where
  "rebalance_begin c = (fetchOffsets c, c\<lparr>soughtPartitions := [], fetchOffsets := []\<rparr>)"

definition rebalance_finish :: "'n net \<Rightarrow> (TP, int) gomap \<Rightarrow> Consumer \<Rightarrow> 'n \<Rightarrow> Consumer \<times> 'n" where
  "rebalance_finish net saved c n =
     (case joinGroup net (subscribedTopics c) c n of
        (Some err, c, n) \<Rightarrow> (c\<lparr>rebalancing := False\<rparr>, n)
      | (None, c, n) \<Rightarrow>
          let toCommit = filter (\<lambda>(tp, off). tp \<in> set (assignedPartitions c)) saved
          in if 0 < length toCommit
             then (case CommitOffsets net toCommit c n of
                     (None, c, n) \<Rightarrow> ((fold (\<lambda>(tp, off). Seek tp off) toCommit c)\<lparr>rebalancing := False\<rparr>, n)
                   | (Some err, c, n) \<Rightarrow> (c\<lparr>rebalancing := False\<rparr>, n))
             else (c\<lparr>rebalancing := False\<rparr>, n))"

definition Consumer_rebalance :: "'n net \<Rightarrow> Consumer \<Rightarrow> 'n \<Rightarrow> Consumer \<times> 'n" where
  "Consumer_rebalance net c n = (case rebalance_begin c of (saved, c) \<Rightarrow> rebalance_finish net saved c n)"

text \<open>One tick of the heartbeat goroutine, and the goroutine: the context ends it.\<close>

definition heartbeat_tick :: "'n net \<Rightarrow> Consumer \<Rightarrow> 'n \<Rightarrow> Consumer \<times> 'n" where
  "heartbeat_tick net c n =
     (case c_call net (coordAddr c) (\<lambda>conn. net_Heartbeat net conn
             \<lparr>hrq_GroupId = GroupID (c_config c), hrq_MemberId = memberID c, hrq_GenerationId = generationID c\<rparr>) c n of
        (Inr status, c, n) \<Rightarrow>
          if status = HEARTBEAT_REBALANCE_REQUIRED then Consumer_rebalance net (c\<lparr>rebalancing := True\<rparr>) n else (c, n)
      | (Inl err, c, n) \<Rightarrow>
          (case extractErr err of
             (Some NOT_LEADER, notLeader) \<Rightarrow>
               (case notLeader of
                  Some (node, leader) \<Rightarrow>
                    if leader \<noteq> [] then (c\<lparr>coordAddr := leader\<rparr>, n)
                    else (case findCoordinator net c n of (_, c, n) \<Rightarrow> (c, n))
                | None \<Rightarrow> (case findCoordinator net c n of (_, c, n) \<Rightarrow> (c, n)))
           | (Some NOT_GROUP_MEMBER, _) \<Rightarrow> Consumer_rebalance net (c\<lparr>rebalancing := True\<rparr>) n
           | _ \<Rightarrow> (c, n)))"

datatype heartbeat_event = HeartbeatTick | HeartbeatStop

fun heartbeatLoop :: "'n net \<Rightarrow> heartbeat_event list \<Rightarrow> Consumer \<Rightarrow> 'n \<Rightarrow> Consumer \<times> 'n" where
  "heartbeatLoop net [] c n = (c, n)"
| "heartbeatLoop net (HeartbeatStop # evs) c n = (c, n)"
| "heartbeatLoop net (HeartbeatTick # evs) c n =
     (case heartbeat_tick net c n of (c, n) \<Rightarrow> heartbeatLoop net evs c n)"

section \<open>Closing\<close>

definition SimulateCrash :: "(string \<Rightarrow> bool) \<Rightarrow> Consumer \<Rightarrow> Consumer" where
  "SimulateCrash closeErr c = c\<lparr>c_pool := snd (ConnPool_Close closeErr (c_pool c))\<rparr>"

definition Consumer_Close :: "'n net \<Rightarrow> (string \<Rightarrow> bool) \<Rightarrow> Consumer \<Rightarrow> 'n \<Rightarrow> string list \<times> Consumer \<times> 'n" where
  "Consumer_Close net closeErr c n =
     (let (c, n) =
        (if GroupID (c_config c) \<noteq> [] \<and> stopHeartbeat c \<and> coordAddr c \<noteq> [] \<and> memberID c \<noteq> []
         then (case c_call net (coordAddr c) (\<lambda>conn. net_LeaveGroup net conn
                       \<lparr>lrq_GroupId = GroupID (c_config c), lrq_MemberId = memberID c\<rparr>) c n of (_, c, n) \<Rightarrow> (c, n))
         else (c, n))
      in (case ConnPool_Close closeErr (c_pool c) of (errs, pool) \<Rightarrow> (errs, c\<lparr>c_pool := pool\<rparr>, n)))"

end
