(* ===== verification/Admin.thy ===== *)
theory Admin
  imports ClientLib
begin

text \<open>
  The administration client (\<open>pkg/client/admin.go\<close>): calls of the management service with a
  bounded number of retries.
\<close>

record 'n mgmt_net = "'n net" +
  net_CreateTopic :: "string \<Rightarrow> PbCreateTopicRequest \<Rightarrow> 'n \<Rightarrow> (rpc_status + PbTopicInfo option) \<times> 'n"
  net_DeleteTopic :: "string \<Rightarrow> string \<Rightarrow> 'n \<Rightarrow> (rpc_status + unit) \<times> 'n"
  net_ListTopics :: "string \<Rightarrow> 'n \<Rightarrow> (rpc_status + PbTopicInfo option list) \<times> 'n"
  net_AlterTopicPartitions :: "string \<Rightarrow> AlterTopicPartitionsRequest \<Rightarrow> 'n \<Rightarrow> (rpc_status + unit) \<times> 'n"
  net_AlterTopicRetention :: "string \<Rightarrow> AlterTopicRetentionRequest \<Rightarrow> 'n \<Rightarrow> (rpc_status + unit) \<times> 'n"
  net_ListPartitions :: "string \<Rightarrow> string \<Rightarrow> 'n \<Rightarrow> (rpc_status + PbPartitionInfoWithOffsets list) \<times> 'n"

record AdminClient =
  a_config :: ClientConfig
  a_pool :: ConnPool
  a_addr :: string

definition NewAdminClient :: "ClientConfig \<Rightarrow> client_error + AdminClient" where
  "NewAdminClient config =
     (if length (BootstrapServers config) = 0
      then Inl (ConfigErr ''client: BootstrapServers must not be empty'')
      else let config = default_config config
           in Inr \<lparr>a_config = config, a_pool = NewConnPool, a_addr = hd (BootstrapServers config)\<rparr>)"

definition AdminClient_Close :: "(string \<Rightarrow> bool) \<Rightarrow> AdminClient \<Rightarrow> string list \<times> AdminClient" where
  "AdminClient_Close closeErr a =
     (case ConnPool_Close closeErr (a_pool a) of (errs, pool) \<Rightarrow> (errs, a\<lparr>a_pool := pool\<rparr>))"

section \<open>Retries\<close>

text \<open>What to do with a failed call: try again, or return an error.\<close>

definition admin_verdict :: "int \<Rightarrow> int \<Rightarrow> rpc_status \<Rightarrow> client_error option" where
  "admin_verdict maxRetries attempt st =
     (case fst (extractErr (StatusErr st)) of
        Some UNAVAILABLE \<Rightarrow> if attempt \<ge> maxRetries then Some (StatusErr st) else None
      | Some TIMEOUT \<Rightarrow> if attempt \<ge> maxRetries then Some (StatusErr st) else None
      | Some TOPIC_ALREADY_EXISTS \<Rightarrow> Some CliErrTopicAlreadyExists
      | Some TOPIC_NOT_FOUND \<Rightarrow> Some CliErrTopicNotFound
      | _ \<Rightarrow> Some (StatusErr st))"

lemma admin_verdict_retry: "admin_verdict maxRetries attempt st = None \<Longrightarrow> attempt < maxRetries"
  by (auto simp: admin_verdict_def split: option.splits BunnyErrorCode.splits if_splits)

function retry_loop :: "int \<Rightarrow> ('n \<Rightarrow> (rpc_status + 'r) \<times> 'n) \<Rightarrow> int \<Rightarrow> 'n \<Rightarrow> (client_error + 'r) \<times> 'n" where
  "retry_loop maxRetries fn attempt n =
     (case fn n of
        (Inr r, n) \<Rightarrow> (Inr r, n)
      | (Inl st, n) \<Rightarrow>
          (case admin_verdict maxRetries attempt st of
             Some err \<Rightarrow> (Inl err, n)
           | None \<Rightarrow> retry_loop maxRetries fn (attempt + 1) n))"
  by pat_completeness auto
termination
  by (relation "measure (\<lambda>(maxRetries, fn, attempt, n). nat (maxRetries - attempt))")
    (auto dest: admin_verdict_retry)

declare retry_loop.simps [simp del]

definition withRetry :: "'n mgmt_net \<Rightarrow> (string \<Rightarrow> 'n \<Rightarrow> (rpc_status + 'r) \<times> 'n) \<Rightarrow> AdminClient \<Rightarrow> 'n \<Rightarrow>
    (client_error + 'r) \<times> AdminClient \<times> 'n" where
  "withRetry net fn a n =
     (case ConnPool_Get (net_dial net) (a_addr a) (a_pool a) of
        (Inl err, pool) \<Rightarrow> (Inl err, a\<lparr>a_pool := pool\<rparr>, n)
      | (Inr conn, pool) \<Rightarrow>
          (case retry_loop (MaxRetries (cf_RetryPolicy (a_config a))) (fn conn) 0 n of
             (r, n) \<Rightarrow> (r, a\<lparr>a_pool := pool\<rparr>, n)))"

section \<open>Conversions\<close>

record CliTopicInfo =
  cti_Name :: string
  cti_PartitionCount :: int
  cti_ReplicationFactor :: int
  cti_RetentionMs :: int
  cti_RetentionBytes :: int
  cti_CreatedAtMs :: int

record CliPartitionInfo =
  cpi_PartitionID :: int
  cpi_ShardID :: int
  cpi_LeaderNodeID :: int
  cpi_LeaderEpoch :: int
  cpi_ReplicaNodeIDs :: "int list"

record CliTopicDescription =
  ctd_Topic :: CliTopicInfo
  ctd_Partitions :: "CliPartitionInfo list"

record CliPartitionInfoWithOffsets =
  cpo_Info :: CliPartitionInfo
  cpo_EarliestOffset :: int
  cpo_LatestOffset :: int

record CliCreateTopicRequest =
  ccr_Name :: string
  ccr_PartitionCount :: int
  ccr_ReplicationFactor :: int
  ccr_RetentionMs :: int
  ccr_RetentionBytes :: int

definition fromProtoTopicInfo :: "PbTopicInfo option \<Rightarrow> CliTopicInfo" where
  "fromProtoTopicInfo t =
     (case t of
        None \<Rightarrow> \<lparr>cti_Name = [], cti_PartitionCount = 0, cti_ReplicationFactor = 0, cti_RetentionMs = 0,
                 cti_RetentionBytes = 0, cti_CreatedAtMs = 0\<rparr>
      | Some t \<Rightarrow> \<lparr>cti_Name = pti_Name t, cti_PartitionCount = pti_PartitionCount t,
                   cti_ReplicationFactor = pti_ReplicationFactor t, cti_RetentionMs = pti_RetentionMs t,
                   cti_RetentionBytes = pti_RetentionBytes t, cti_CreatedAtMs = pti_CreatedAtMs t\<rparr>)"

definition fromProtoPartitionInfo :: "PbPartitionInfo option \<Rightarrow> CliPartitionInfo" where
  "fromProtoPartitionInfo p =
     (case p of
        None \<Rightarrow> \<lparr>cpi_PartitionID = 0, cpi_ShardID = 0, cpi_LeaderNodeID = 0, cpi_LeaderEpoch = 0, cpi_ReplicaNodeIDs = []\<rparr>
      | Some p \<Rightarrow> \<lparr>cpi_PartitionID = ppi_PartitionId p, cpi_ShardID = ppi_ShardId p, cpi_LeaderNodeID = ppi_LeaderNodeId p,
                   cpi_LeaderEpoch = ppi_LeaderEpoch p, cpi_ReplicaNodeIDs = ppi_ReplicaNodeIds p\<rparr>)"

text \<open>The elements of a repeated field are never nil.\<close>

definition fromProtoPartitions :: "PbPartitionInfo list \<Rightarrow> CliPartitionInfo list" where
  "fromProtoPartitions parts = map (\<lambda>p. fromProtoPartitionInfo (Some p)) parts"

section \<open>Operations\<close>

text \<open>The result of a call, converted.\<close>

definition on_result :: "('r \<Rightarrow> 's) \<Rightarrow> (client_error + 'r) \<times> AdminClient \<times> 'n \<Rightarrow> (client_error + 's) \<times> AdminClient \<times> 'n" where
  "on_result f x = (case x of (Inl err, a, n) \<Rightarrow> (Inl err, a, n) | (Inr r, a, n) \<Rightarrow> (Inr (f r), a, n))"

definition Admin_CreateTopic :: "'n mgmt_net \<Rightarrow> CliCreateTopicRequest \<Rightarrow> AdminClient \<Rightarrow> 'n \<Rightarrow>
    (client_error + CliTopicInfo) \<times> AdminClient \<times> 'n" where
  "Admin_CreateTopic net req a n =
     on_result fromProtoTopicInfo (withRetry net (\<lambda>conn. net_CreateTopic net conn
       \<lparr>ctq_Name = ccr_Name req, ctq_PartitionCount = ccr_PartitionCount req,
        ctq_ReplicationFactor = ccr_ReplicationFactor req, ctq_RetentionMs = ccr_RetentionMs req,
        ctq_RetentionBytes = ccr_RetentionBytes req\<rparr>) a n)"

definition Admin_DeleteTopic :: "'n mgmt_net \<Rightarrow> string \<Rightarrow> AdminClient \<Rightarrow> 'n \<Rightarrow> (client_error + unit) \<times> AdminClient \<times> 'n" where
  "Admin_DeleteTopic net name a n = withRetry net (\<lambda>conn. net_DeleteTopic net conn name) a n"

definition Admin_ListTopics :: "'n mgmt_net \<Rightarrow> AdminClient \<Rightarrow> 'n \<Rightarrow> (client_error + CliTopicInfo list) \<times> AdminClient \<times> 'n" where
  "Admin_ListTopics net a n = on_result (map fromProtoTopicInfo) (withRetry net (net_ListTopics net) a n)"

definition Admin_DescribeTopic :: "'n mgmt_net \<Rightarrow> string \<Rightarrow> AdminClient \<Rightarrow> 'n \<Rightarrow>
    (client_error + CliTopicDescription) \<times> AdminClient \<times> 'n" where
  "Admin_DescribeTopic net name a n =
     on_result (\<lambda>resp. \<lparr>ctd_Topic = fromProtoTopicInfo (dtr_Topic resp), ctd_Partitions = fromProtoPartitions (dtr_Partitions resp)\<rparr>)
       (withRetry net (\<lambda>conn. net_DescribeTopic net conn name) a n)"

definition Admin_AlterTopicPartitions :: "'n mgmt_net \<Rightarrow> string \<Rightarrow> int \<Rightarrow> AdminClient \<Rightarrow> 'n \<Rightarrow>
    (client_error + unit) \<times> AdminClient \<times> 'n" where
  "Admin_AlterTopicPartitions net name newCount a n =
     withRetry net (\<lambda>conn. net_AlterTopicPartitions net conn \<lparr>apq_Name = name, apq_NewPartitionCount = newCount\<rparr>) a n"

definition Admin_AlterTopicRetention :: "'n mgmt_net \<Rightarrow> string \<Rightarrow> int \<Rightarrow> int \<Rightarrow> AdminClient \<Rightarrow> 'n \<Rightarrow>
    (client_error + unit) \<times> AdminClient \<times> 'n" where
  "Admin_AlterTopicRetention net name retMs retBytes a n =
     withRetry net (\<lambda>conn. net_AlterTopicRetention net conn
       \<lparr>arq_Name = name, arq_RetentionMs = retMs, arq_RetentionBytes = retBytes\<rparr>) a n"

definition Admin_DescribeCluster :: "'n mgmt_net \<Rightarrow> AdminClient \<Rightarrow> 'n \<Rightarrow> (client_error + NodeDescriptor list) \<times> AdminClient \<times> 'n" where
  "Admin_DescribeCluster net a n =
     on_result (map (\<lambda>node. \<lparr>nd_NodeID = pni_NodeId node, nd_Address = pni_Address node\<rparr>))
       (withRetry net (net_DescribeCluster net) a n)"

definition Admin_ListPartitions :: "'n mgmt_net \<Rightarrow> string \<Rightarrow> AdminClient \<Rightarrow> 'n \<Rightarrow>
    (client_error + CliPartitionInfoWithOffsets list) \<times> AdminClient \<times> 'n" where
  "Admin_ListPartitions net topic a n =
     on_result (map (\<lambda>p. \<lparr>cpo_Info = fromProtoPartitionInfo (pio_Info p), cpo_EarliestOffset = pio_EarliestOffset p,
         cpo_LatestOffset = pio_LatestOffset p\<rparr>))
       (withRetry net (\<lambda>conn. net_ListPartitions net conn topic) a n)"

end
