(* ===== verification/Broker.thy ===== *)
theory Broker
  imports ApiData ApiMgmt Producer Consumer Admin DataLemmas
begin

text \<open>
  The clients and a broker together.  The world is one node with its coordinators; the stubs of a
  client run the handlers of \<open>ApiData\<close> and \<open>ApiMgmt\<close> on it, whatever address is called.  The
  clock is a sequence of readings, from which the calls of both sides draw in turn; \<open>wakes\<close> says
  how the waits of a long poll end, and a request that still waits after them runs into the
  timeout of the client.
\<close>

record world =
  w_node :: psim
  w_dc :: DataCoordinator
  w_gc :: GroupCoordinator
  w_cc :: ClusterCoordinator
  w_reads :: nat

record broker_env =
  be_os :: os_env
  be_cfg :: StorageConfig
  be_dec :: "bytes \<Rightarrow> go_error + (int \<times> int)"
  be_marshal :: "int \<Rightarrow> int \<Rightarrow> bytes"
  be_leader :: "int \<Rightarrow> go_error + (int \<times> int \<times> bool)"
  be_clock :: "nat \<Rightarrow> int"
  be_uuid :: "nat \<Rightarrow> string"
  be_wakes :: "wake list"
  be_dial :: "string \<Rightarrow> bool"
  be_tokens :: "string list"
  be_sent :: "string list option"

text \<open>
  The node as the cluster coordinator sees it.  The shards of the node are the ones it has; a
  request to start or stop one is accepted and carried out by nobody.
\<close>

definition psim_cluster :: "broker_env \<Rightarrow> psim cluster_host" where
  "psim_cluster e =
     \<lparr>ch_meta = psim_meta_host (be_os e) (be_cfg e) (be_dec e) (be_leader e),
      StartMetadataShard = (\<lambda>members join h. (None, h)),
      StartPartitionShard = (\<lambda>shard members join topic pid h. (None, h)),
      StopPartitionShard = (\<lambda>shard h. (None, h)),
      ch_ProposePartition = ProposePartition (psim_host (be_os e) (be_cfg e) (be_dec e) (be_leader e))\<rparr>"

abbreviation env_host :: "broker_env \<Rightarrow> psim data_host" where
  "env_host e \<equiv> psim_host (be_os e) (be_cfg e) (be_dec e) (be_leader e)"

definition read_clock :: "broker_env \<Rightarrow> world \<Rightarrow> int \<times> world" where
  "read_clock e w = (be_clock e (w_reads w), w\<lparr>w_reads := Suc (w_reads w)\<rparr>)"

text \<open>A crashed broker closes its connections, which gRPC reports as unavailable.\<close>

fun wire_status :: "rpc_error \<Rightarrow> rpc_status" where
  "wire_status (Status st) = st"
| "wire_status (Crash m) = status_Error CodeUnavailable (Literal ''transport is closing'')"

fun wire_result :: "(rpc_error + 'a) \<times> 's \<Rightarrow> (rpc_status + 'a) \<times> 's" where
  "wire_result (Inl err, s) = (Inl (wire_status err), s)"
| "wire_result (Inr r, s) = (Inr r, s)"

text \<open>Every call passes the authentication first.\<close>

definition serve :: "broker_env \<Rightarrow> (world \<Rightarrow> (rpc_error + 'a) \<times> world) \<Rightarrow> world \<Rightarrow> (rpc_status + 'a) \<times> world" where
  "serve e handler w = wire_result (UnaryInterceptor (be_tokens e) (be_sent e) handler w)"

definition on_data :: "(DataCoordinator \<Rightarrow> psim \<Rightarrow> 'r \<times> DataCoordinator \<times> psim) \<Rightarrow> world \<Rightarrow> 'r \<times> world" where
  "on_data f w = (case f (w_dc w) (w_node w) of (r, dc, h) \<Rightarrow> (r, w\<lparr>w_dc := dc, w_node := h\<rparr>))"

definition on_group :: "(GroupCoordinator \<Rightarrow> psim \<Rightarrow> 'r \<times> GroupCoordinator \<times> psim) \<Rightarrow> world \<Rightarrow> 'r \<times> world" where
  "on_group f w = (case f (w_gc w) (w_node w) of (r, gc, h) \<Rightarrow> (r, w\<lparr>w_gc := gc, w_node := h\<rparr>))"

definition on_node :: "(psim \<Rightarrow> 'r \<times> psim) \<Rightarrow> world \<Rightarrow> 'r \<times> world" where
  "on_node f w = (case f (w_node w) of (r, h) \<Rightarrow> (r, w\<lparr>w_node := h\<rparr>))"

definition fetch_handler :: "broker_env \<Rightarrow> FetchRequest \<Rightarrow> world \<Rightarrow> (rpc_error + FetchResponse) \<times> world" where
  "fetch_handler e req w =
     (let i = w_reads w; t = (be_clock e i, be_clock e i);
          polls = map (\<lambda>(k, wk). \<lparr>po_now = be_clock e (i + 2 + k), po_addr = t, po_wake = wk\<rparr>) (enumerate 0 (be_wakes e));
          w = w\<lparr>w_reads := i + 2 + length (be_wakes e)\<rparr>
      in (case Server_Fetch (env_host e) t (be_clock e (i + 1)) polls None req (w_dc w) (w_node w) of
            None \<Rightarrow> (Inl (Status (status_Error CodeDeadlineExceeded (TextOf ContextErr))), w)
          | Some (r, dc, h) \<Rightarrow> (r, w\<lparr>w_dc := dc, w_node := h\<rparr>)))"

definition env_lead :: "broker_env \<Rightarrow> world \<Rightarrow> psim \<Rightarrow> (go_error + (bool \<times> string)) \<times> psim" where
  "env_lead e w h = isMetadataLeader (dh_meta (env_host e)) (dcc_NodeID (dc_config (w_dc w))) h"

definition broker_net :: "broker_env \<Rightarrow> world net" where
  "broker_net e =
     \<lparr>net_now = read_clock e,
      net_dial = be_dial e,
      net_Produce = (\<lambda>addr req. serve e (\<lambda>w.
        let t = be_clock e (w_reads w) in on_data (Server_Produce (env_host e) (t, t) req) (w\<lparr>w_reads := Suc (w_reads w)\<rparr>))),
      net_Fetch = (\<lambda>addr req. serve e (fetch_handler e req)),
      net_GetOffsets = (\<lambda>addr req. serve e (\<lambda>w.
        let t = be_clock e (w_reads w) in on_data (Server_GetOffsets (env_host e) (t, t) req) (w\<lparr>w_reads := Suc (w_reads w)\<rparr>))),
      net_JoinGroup = (\<lambda>addr req. serve e (\<lambda>w.
        on_group (Server_JoinGroup (env_lead e w) (dh_meta (env_host e)) (be_clock e (w_reads w)) (be_uuid e (w_reads w)) req)
          (w\<lparr>w_reads := Suc (w_reads w)\<rparr>))),
      net_Heartbeat = (\<lambda>addr req. serve e (\<lambda>w.
        on_group (Server_Heartbeat (env_lead e w) (dh_meta (env_host e)) (be_clock e (w_reads w)) req)
          (w\<lparr>w_reads := Suc (w_reads w)\<rparr>))),
      net_LeaveGroup = (\<lambda>addr req. serve e (\<lambda>w. on_group (Server_LeaveGroup (env_lead e w) (dh_meta (env_host e)) req) w)),
      net_CommitOffset = (\<lambda>addr req. serve e (\<lambda>w. on_group (Server_CommitOffset (env_lead e w) (dh_meta (env_host e)) req) w)),
      net_FetchCommittedOffsets = (\<lambda>addr req. serve e (\<lambda>w.
        on_group (Server_FetchCommittedOffsets (env_lead e w) (dh_meta (env_host e)) req) w)),
      net_DescribeTopic = (\<lambda>addr name. serve e (on_node (Mgmt_DescribeTopic (psim_cluster e) name))),
      net_DescribeCluster = (\<lambda>addr. serve e (on_node (Mgmt_DescribeCluster (psim_cluster e))))\<rparr>"

definition broker_mgmt :: "broker_env \<Rightarrow> world mgmt_net" where
  "broker_mgmt e = net.extend (broker_net e) (mgmt_net.fields
     (\<lambda>addr req. serve e (\<lambda>w. on_node (\<lambda>h.
        case Mgmt_CreateTopic (psim_cluster e) (be_clock e (w_reads w) div 1000000) req (w_cc w) h of
          (Inl err, h) \<Rightarrow> (Inl err, h)
        | (Inr (info, tasks), h) \<Rightarrow> (Inr (Some info), h)) (w\<lparr>w_reads := Suc (w_reads w)\<rparr>)))
     (\<lambda>addr name. serve e (on_node (Mgmt_DeleteTopic (psim_cluster e) name)))
     (\<lambda>addr. serve e (on_node (\<lambda>h.
        case Mgmt_ListTopics (psim_cluster e) h of
          (Inl err, h) \<Rightarrow> (Inl err, h)
        | (Inr infos, h) \<Rightarrow> (Inr (map Some infos), h))))
     (\<lambda>addr req. serve e (on_node (Mgmt_AlterTopicPartitions (psim_cluster e) req)))
     (\<lambda>addr req. serve e (on_node (\<lambda>h.
        case Mgmt_AlterTopicRetention (psim_cluster e) (be_marshal e) req h of
          (Inl err, h) \<Rightarrow> (Inl err, h)
        | (Inr proposals, h) \<Rightarrow> (Inr (), h))))
     (\<lambda>addr topic. serve e (on_node (Mgmt_ListPartitions (psim_cluster e) (Some (env_host e)) topic))))"

end
