(* ===== verification/ClientLemmas.thy ===== *)
theory ClientLemmas
  imports Broker
begin

text \<open>
  Lemmas about the clients on a broker: what the decoder makes of a log of encoded batches, how a
  client finds the leader, and one produce or fetch call on a node that leads the partition.
\<close>

section \<open>Decoding a log\<close>

text \<open>A batch of the encoder, with any base offset written into it.\<close>

definition encoded :: "bytes \<Rightarrow> bool" where
  "encoded b \<longleftrightarrow> (\<exists>rs b0 off. EncodeBatch rs = Inr b0 \<and> length b0 \<le> 4194304 \<and> b = stamp b0 off)"

definition batch_records :: "bytes \<Rightarrow> DecodedRecord list" where
  "batch_records b = decoded_batch (projr (DecodeBatch b))"

definition log_records :: "bytes list \<Rightarrow> DecodedRecord list" where
  "log_records bs = concat (map batch_records bs)"

lemma log_records_simps [simp]:
  "log_records [] = []" "log_records (b # bs) = batch_records b @ log_records bs"
  "log_records (as @ bs) = log_records as @ log_records bs"
  by (simp_all add: log_records_def)

lemma DecodeBatch_stamp:
  assumes "EncodeBatch rs = Inr b" "length b \<le> 4194304"
  shows "DecodeBatch (stamp b off @ rest) =
    Inr \<lparr>BaseOffset = word_of_int off, BatchLength = word_of_nat (length b),
         RecordCount = word_of_nat (length rs), CRC32 = crc32c (drop 38 b), Attributes = 0,
         BaseTimestamp = TimestampMs (hd rs), MaxTimestamp = TimestampMs (last rs), Records = rs\<rparr>"
proof -
  have "stamp b off @ rest = be_bytes 8 off @ drop 8 b @ rest"
    using EncodeBatch_wf [OF assms] by (simp add: stamp_def overwrite_def wf_batch_def framed_def)
  then show ?thesis using DecodeBatch_EncodeBatch [OF assms(1)] assms(2) by simp
qed

lemma sint_length: "length b \<le> 4194304 \<Longrightarrow> nat (sint (word_of_nat (length b) :: 32 word)) = length b"
  by (simp add: signed_of_nat signed_take_bit_int_eq_self)

lemma encoded_decode:
  assumes "encoded b"
  shows "\<exists>batch. DecodeBatch (b @ rest) = Inr batch \<and> nat (sint (BatchLength batch)) = length b \<and>
    batch_records b = decoded_batch batch"
proof -
  obtain rs b0 off where b: "EncodeBatch rs = Inr b0" "length b0 \<le> 4194304" "b = stamp b0 off"
    using assms by (auto simp: encoded_def)
  then have "length b = length b0"
    using EncodeBatch_wf [OF b(1,2)] bcount_overwrite(4) [of b0 off] by (simp add: stamp_def wf_batch_def framed_def)
  then show ?thesis
    using DecodeBatch_stamp [OF b(1,2), of off rest] DecodeBatch_stamp [OF b(1,2), of off "[]"] b sint_length [OF b(2)]
    by (simp add: batch_records_def)
qed

lemma encoded_ne: "encoded b \<Longrightarrow> b \<noteq> []"
  using encoded_decode [of b "[]"] by (auto simp: DecodeBatch_def)

lemma Decode_loop_log:
  "list_all encoded bs \<Longrightarrow> Decode_loop (pre @ concat bs) (length pre) out = (out @ log_records bs, None)"
proof (induction bs arbitrary: pre out)
  case Nil
  then show ?case by (simp add: Decode_loop.simps)
next
  case (Cons b bs)
  obtain batch where d: "DecodeBatch (b @ concat bs) = Inr batch" "nat (sint (BatchLength batch)) = length b"
    "batch_records b = decoded_batch batch"
    using encoded_decode [of b "concat bs"] Cons.prems by auto
  have "b \<noteq> []" using encoded_ne Cons.prems by simp
  then have "Decode_loop (pre @ concat (b # bs)) (length pre) out =
      Decode_loop ((pre @ b) @ concat bs) (length (pre @ b)) (out @ decoded_batch batch)"
    using d(1,2) by (simp add: Decode_loop.simps [of "pre @ b @ concat bs"] DecodeNextBatch_def)
  then show ?case using Cons.IH [of "pre @ b"] Cons.prems d(3) by simp
qed

lemma Decode_log: "list_all encoded bs \<Longrightarrow> BatchDecoder_Decode (concat bs) = (log_records bs, None)"
  using Decode_loop_log [of bs "[]" "[]"] by (simp add: BatchDecoder_Decode_def)

lemma batch_records_offsets:
  assumes "encoded b" "0 \<le> boff b" "bend b < 2 ^ 63"
  shows "map dr_Offset (batch_records b) = [boff b..bend b - 1] \<and> int (length (batch_records b)) = bcount b"
proof -
  obtain rs b0 off where b: "EncodeBatch rs = Inr b0" "length b0 \<le> 4194304" "b = stamp b0 off"
    using assms(1) by (auto simp: encoded_def)
  note wf = EncodeBatch_wf [OF b(1,2)]
  then have st: "boff b = int64 off" "bcount b = int (length rs)"
    using bcount_overwrite [of b0 off] b(3) by (simp_all add: stamp_def wf_batch_def framed_def)
  have "sint (word_of_int off :: 64 word) = int64 off"
    by (simp add: int64_def signed_take_bit_eq_iff_take_bit_eq sint_sbintrunc')
  then have "batch_records b = map (\<lambda>(i, rec). decoded_record (word_of_int off) i rec) (enumerate 0 rs)"
    and s: "sint (word_of_int off :: 64 word) = boff b"
    using DecodeBatch_stamp [OF b(1,2), of off "[]"] b(3) st(1) by (simp_all add: batch_records_def decoded_batch_def)
  moreover have "int64 (boff b + int i) = boff b + int i" if "i < length rs" for i
    using that assms(2,3) st(2) by (simp add: int64_id in_int64_def bend_def)
  ultimately show ?thesis using st
    by (auto intro!: nth_equalityI simp: nth_enumerate_eq decoded_record_def bend_def nth_upto)
qed

section \<open>A broker that leads a partition\<close>

text \<open>
  The node of the world is quiet, accepts the token that is sent, leads the partition and routes
  it to a shard with a healthy replica; its own address is registered.
\<close>

definition serving :: "broker_env \<Rightarrow> string \<Rightarrow> int \<Rightarrow> int \<Rightarrow> world \<Rightarrow> storageImpl \<Rightarrow> bool" where
  "serving e topic pid shard w s \<longleftrightarrow>
     os_ok (be_os e) \<and> cfg_ok (be_cfg e) \<and> validateToken (be_sent e) (be_tokens e) = None \<and> (\<forall>a. be_dial e a) \<and>
     ps_sched (w_node w) = [] \<and> routes topic pid shard (w_dc w) (ps_meta (w_node w)) \<and>
     (\<exists>k. topics_inv k (ps_meta (w_node w))) \<and>
     (\<exists>ni. map_of (Nodes (ps_meta (w_node w))) (dcc_NodeID (dc_config (w_dc w))) = Some ni \<and> ni_Address ni \<noteq> []) \<and>
     (\<exists>f. map_of (ps_shards (w_node w)) shard = Some f \<and> part_fine (be_cfg e) f \<and> fsm_storage f = Some s) \<and>
     gapless s"

lemma servingD:
  assumes "serving e topic pid shard w s"
  shows "os_ok (be_os e)" "cfg_ok (be_cfg e)" "validateToken (be_sent e) (be_tokens e) = None" "be_dial e a"
    "ps_sched (w_node w) = []" "routes topic pid shard (w_dc w) (ps_meta (w_node w))"
    "storage_inv (be_cfg e) s" "gapless s"
  using assms by (auto simp: serving_def elim: part_fineE)

lemma serving_reads [simp]: "serving e topic pid shard (w\<lparr>w_reads := k\<rparr>) s = serving e topic pid shard w s"
  by (simp add: serving_def)

lemma serve_ok: "validateToken (be_sent e) (be_tokens e) = None \<Longrightarrow> serve e handler w = wire_result (handler w)"
  by (simp add: serve_def UnaryInterceptor_def)

lemma env_lookup:
  "ps_sched h = [] \<Longrightarrow> ch_lookup (psim_cluster e) q h = (MetadataFSM_Lookup q (ps_meta h), h)"
  by (simp add: psim_cluster_def psim_meta_host_def)

text \<open>What the management service tells a client about the topic.\<close>

definition topic_answer :: "MetadataState \<Rightarrow> string \<Rightarrow> TopicMeta \<Rightarrow> DescribeTopicResponse" where
  "topic_answer st topic tm =
     \<lparr>dtr_Topic = Some (protoTopicInfo (topicInfoFromMeta tm)),
      dtr_Partitions = map (protoPartitionInfo \<circ> partition_info) (sort_key pm_PartitionID
        (mvals (filter (\<lambda>(key, p). pk_Topic key = topic) (Partitions st))))\<rparr>"

definition cluster_answer :: "MetadataState \<Rightarrow> PbNodeInfo list" where
  "cluster_answer st =
     map (\<lambda>n. \<lparr>pni_NodeId = ni_NodeID n, pni_Address = ni_Address n\<rparr>) (sort_key ni_NodeID (mvals (Nodes st)))"

lemma describe_calls:
  assumes "validateToken (be_sent e) (be_tokens e) = None" "ps_sched (w_node w) = []"
    "map_of (Topics (ps_meta (w_node w))) topic = Some tm"
  shows "net_DescribeTopic (broker_net e) addr topic w = (Inr (topic_answer (ps_meta (w_node w)) topic tm), w)"
    "net_DescribeCluster (broker_net e) addr w = (Inr (cluster_answer (ps_meta (w_node w))), w)"
  using assms(3)
  by (simp_all add: broker_net_def serve_ok [OF assms(1)] on_node_def Mgmt_DescribeTopic_def DescribeTopic_def lookup_topic_def
      env_lookup [OF assms(2)] topic_query_def query0_def MetadataFSM_Lookup_def topic_answer_def Mgmt_DescribeCluster_def
      DescribeCluster_def cluster_answer_def)

lemma fold_leaders:
  assumes "\<And>p. p \<in> set ps \<Longrightarrow> g p = pid \<Longrightarrow> map_of m (l p) = Some a" "\<exists>p \<in> set ps. g p = pid"
  shows "map_of (fold (\<lambda>p ls. case map_of m (l p) of None \<Rightarrow> ls | Some x \<Rightarrow> mput (g p) x ls) ps init) pid = Some a"
proof -
  have keep: "map_of (fold (\<lambda>p ls. case map_of m (l p) of None \<Rightarrow> ls | Some x \<Rightarrow> mput (g p) x ls) ps init) pid = Some a"
    if "map_of init pid = Some a" "\<And>p. p \<in> set ps \<Longrightarrow> g p = pid \<Longrightarrow> map_of m (l p) = Some a" for ps init
    using that by (induction ps arbitrary: init) (auto split: option.split)
  show ?thesis using assms
  proof (induction ps arbitrary: init)
    case (Cons p ps)
    show ?case
    proof (cases "g p = pid")
      case True
      then have "map_of m (l p) = Some a" using Cons.prems(1) by simp
      then show ?thesis using True keep [of "mput (g p) a init" ps] Cons.prems(1) by simp
    next
      case False
      then show ?thesis using Cons by simp
    qed
  qed simp
qed

lemma topic_meta_leader:
  assumes inv: "topics_inv k st" and t: "map_of (Topics st) topic = Some tm"
    and p: "map_of (Partitions st) (PartitionKey topic pid) = Some pm" and nd: "map_of (Nodes st) (pm_LeaderNodeID pm) = Some ni"
  shows "map_of (mt_Leaders (topic_meta (topic_answer st topic tm) (cluster_answer st) now)) pid = Some (ni_Address ni)"
    and "mt_PartitionCount (topic_meta (topic_answer st topic tm) (cluster_answer st) now) = tm_PartitionCount tm"
proof -
  note d = topics_invD [OF inv]
  let ?addrs = "fold (\<lambda>n. mput (pni_NodeId n) (pni_Address n)) (cluster_answer st) []"
  have nodes: "set (mvals (Nodes st)) = ran (map_of (Nodes st))"
    using d(3) by (simp add: mvals_def map_ok_def ran_distinct)
  have addr: "map_of ?addrs (ni_NodeID n) = Some (ni_Address n)" if n: "n \<in> set (mvals (Nodes st))" for n
  proof -
    have uniq: "inj_on ni_NodeID (set (mvals (Nodes st)))"
      using d(10) nodes by (auto simp: inj_on_def ran_def)
    have "map_of ?addrs = map_of (fold (\<lambda>n. mput (ni_NodeID n) (ni_Address n)) (sort_key ni_NodeID (mvals (Nodes st))) [])"
      by (simp add: cluster_answer_def fold_map comp_def)
    then show ?thesis using fold_mput_in [of n "sort_key ni_NodeID (mvals (Nodes st))" ni_NodeID ni_Address "[]"] n uniq by simp
  qed
  have ni: "ni \<in> set (mvals (Nodes st))" "ni_NodeID ni = pm_LeaderNodeID pm"
    using nd nodes d(10) by (auto simp: ran_def)
  let ?ps = "sort_key pm_PartitionID (mvals (filter (\<lambda>(key, p). pk_Topic key = topic) (Partitions st)))"
  have mem: "q \<in> set ?ps \<longleftrightarrow> (\<exists>key. map_of (Partitions st) key = Some q \<and> pk_Topic key = topic)" for q
  proof -
    have "map_of (Partitions st) key = Some q \<longleftrightarrow> (key, q) \<in> set (Partitions st)" for key
      using d(2) by (simp add: map_ok_def)
    then show ?thesis by (force simp: mvals_def)
  qed
  have pmem: "pm \<in> set ?ps" unfolding mem using p by (intro exI [of _ "PartitionKey topic pid"]) simp
  have uniq: "q = pm" if "q \<in> set ?ps" "pm_PartitionID q = pid" for q
  proof -
    from that(1) obtain key where key: "map_of (Partitions st) key = Some q" "pk_Topic key = topic"
      unfolding mem by (elim exE conjE)
    have "key = PartitionKey topic pid" using d(8) [OF key(1)] key(2) that(2) by (cases key) simp
    then show ?thesis using p key(1) by simp
  qed
  have pid: "pm_PartitionID pm = pid" using d(8) [OF p] by simp
  let ?g = "protoPartitionInfo \<circ> partition_info"
  have lead: "map_of ?addrs (ppi_LeaderNodeId x) = Some (ni_Address ni)"
    if x: "x \<in> set (map ?g ?ps)" "ppi_PartitionId x = pid" for x
  proof -
    obtain q where q: "q \<in> set ?ps" "x = ?g q" using x(1) by auto
    then have "pm_PartitionID q = pid" using x(2) by (simp add: protoPartitionInfo_def partition_info_def)
    then have "q = pm" by (rule uniq [OF q(1)])
    then show ?thesis using q(2) addr [OF ni(1)] ni(2) by (simp add: protoPartitionInfo_def partition_info_def)
  qed
  have "?g pm \<in> set (map ?g ?ps)" using pmem by simp
  then have "\<exists>x \<in> set (map ?g ?ps). ppi_PartitionId x = pid"
    using pid by (intro bexI [of _ "?g pm"]) (simp_all add: protoPartitionInfo_def partition_info_def)
  then show "map_of (mt_Leaders (topic_meta (topic_answer st topic tm) (cluster_answer st) now)) pid = Some (ni_Address ni)"
    unfolding topic_meta_def Let_def CachedTopic.simps topic_answer_def DescribeTopicResponse.simps
    by (intro fold_leaders lead)
  show "mt_PartitionCount (topic_meta (topic_answer st topic tm) (cluster_answer st) now) = tm_PartitionCount tm"
    using d(6) [OF t] by (simp add: topic_meta_def Let_def topic_answer_def protoTopicInfo_def topicInfoFromMeta_def)
qed

section \<open>Finding the leader\<close>

definition pool_open :: "ConnPool \<Rightarrow> bool" where
  "pool_open pool \<longleftrightarrow> cp_conns pool \<noteq> None"

lemma NewConnPool_open [simp]: "pool_open NewConnPool"
  by (simp add: pool_open_def NewConnPool_def)

lemma ConnPool_Get_ok:
  assumes "dial addr" "pool_open pool"
  shows "\<exists>conn pool'. ConnPool_Get dial addr pool = (Inr conn, pool') \<and> pool_open pool'"
  using assms by (auto simp: ConnPool_Get_def pool_open_def split: option.split)

lemma broker_clock [simp]: "net_now (broker_net e) w = (be_clock e (w_reads w), w\<lparr>w_reads := Suc (w_reads w)\<rparr>)"
  "net_dial (broker_net e) = be_dial e"
  by (simp_all add: broker_net_def read_clock_def)

lemma serving_topic:
  assumes "serving e topic pid shard w s"
  obtains k tm pm ni where "topics_inv k (ps_meta (w_node w))" "map_of (Topics (ps_meta (w_node w))) topic = Some tm"
    "map_of (Partitions (ps_meta (w_node w))) (PartitionKey topic pid) = Some pm"
    "map_of (Nodes (ps_meta (w_node w))) (pm_LeaderNodeID pm) = Some ni" "ni_Address ni \<noteq> []"
proof -
  let ?st = "ps_meta (w_node w)"
  obtain k ni where a: "topics_inv k ?st" "map_of (Nodes ?st) (dcc_NodeID (dc_config (w_dc w))) = Some ni" "ni_Address ni \<noteq> []"
    and r: "routes topic pid shard (w_dc w) ?st"
    using assms unfolding serving_def by blast
  then obtain pm where pm: "map_of (Partitions ?st) (PartitionKey topic pid) = Some pm"
    "pm_LeaderNodeID pm = dcc_NodeID (dc_config (w_dc w))"
    by (auto simp: routes_def split: option.splits)
  then obtain tm where "map_of (Topics ?st) topic = Some tm" using topics_invD(7) [OF a(1), of topic pid] by auto
  with a pm that show thesis by simp
qed

text \<open>The metadata a client gets from the broker.\<close>

definition fresh_meta :: "string \<Rightarrow> int \<Rightarrow> MetadataState \<Rightarrow> CachedTopic \<Rightarrow> bool" where
  "fresh_meta topic pid st m \<longleftrightarrow> (\<exists>tm addr. map_of (Topics st) topic = Some tm \<and> mt_PartitionCount m = tm_PartitionCount tm \<and>
     map_of (mt_Leaders m) pid = Some addr \<and> addr \<noteq> [])"

lemma refreshMeta_ok:
  assumes sv: "serving e topic pid shard w s" and ne: "addrs \<noteq> []" and po: "pool_open pool"
  shows "\<exists>m pool'. refreshMeta (broker_net e) topic addrs pool mc w =
      (Inr m, pool', MetaCache_Put topic m mc, w\<lparr>w_reads := Suc (w_reads w)\<rparr>) \<and>
    fresh_meta topic pid (ps_meta (w_node w)) m \<and> pool_open pool'"
proof -
  obtain k tm pm ni where t: "topics_inv k (ps_meta (w_node w))" "map_of (Topics (ps_meta (w_node w))) topic = Some tm"
    "map_of (Partitions (ps_meta (w_node w))) (PartitionKey topic pid) = Some pm"
    "map_of (Nodes (ps_meta (w_node w))) (pm_LeaderNodeID pm) = Some ni" "ni_Address ni \<noteq> []"
    using sv by (rule serving_topic)
  obtain addr rest where addrs: "addrs = addr # rest" using ne by (cases addrs) auto
  obtain conn pool' where g: "ConnPool_Get (be_dial e) addr pool = (Inr conn, pool')" "pool_open pool'"
    using ConnPool_Get_ok [of "be_dial e" addr pool] servingD(4) [OF sv, of addr] po by blast
  note c = describe_calls [OF servingD(3,5) [OF sv] t(2)]
  show ?thesis
    using g topic_meta_leader [OF t(1-4)] t(2,5) by (simp add: addrs c Let_def fresh_meta_def)
qed

lemma metaFor_ok:
  assumes "serving e topic pid shard w s" "addrs \<noteq> []" "pool_open pool" "map_of (mc_cache mc) topic = None"
  shows "\<exists>m pool' k. metaFor (broker_net e) topic addrs pool mc w = (Inr m, pool', MetaCache_Put topic m mc, w\<lparr>w_reads := k\<rparr>) \<and>
    fresh_meta topic pid (ps_meta (w_node w)) m \<and> pool_open pool'"
  using refreshMeta_ok [of e topic pid shard "w\<lparr>w_reads := Suc (w_reads w)\<rparr>" s addrs pool mc] assms
  by (auto simp: metaFor_def MetaCache_Get_def)

lemma leaderFor_ok:
  assumes sv: "serving e topic pid shard w s" and ne: "addrs \<noteq> []" and po: "pool_open pool"
  shows "\<exists>addr pool' mc' k. leaderFor (broker_net e) topic pid addrs pool mc w = (Inr addr, pool', mc', w\<lparr>w_reads := k\<rparr>) \<and>
    pool_open pool'"
proof -
  have refresh: "\<exists>m pool'. refreshMeta (broker_net e) topic addrs p mc (w\<lparr>w_reads := i\<rparr>) =
      (Inr m, pool', MetaCache_Put topic m mc, w\<lparr>w_reads := Suc i\<rparr>) \<and> mget0 [] (mt_Leaders m) pid \<noteq> [] \<and> pool_open pool'"
    if "pool_open p" for p mc i
    using refreshMeta_ok [of e topic pid shard "w\<lparr>w_reads := i\<rparr>" s addrs p mc] sv ne that
    by (auto simp: fresh_meta_def mget0_def)
  show ?thesis
  proof (cases "MetaCache_Get (be_clock e (w_reads w)) topic mc")
    case None
    then show ?thesis using refresh [OF po, of mc "Suc (w_reads w)"]
      by (auto simp: leaderFor_def metaFor_def)
  next
    case (Some m)
    then show ?thesis using refresh [OF po, of mc "Suc (w_reads w)"] po
      by (cases "mget0 [] (mt_Leaders m) pid = []") (auto simp: leaderFor_def metaFor_def)
  qed
qed

section \<open>One produce call\<close>

lemma validateBatch_ok: "wf_batch b \<Longrightarrow> crc_ok b \<Longrightarrow> validateBatch b = None"
  by (simp add: validateBatch_def Let_def wf_batch_def framed_def crc_ok_def maxBatchBytes_def slc_def)

lemma serving_shards:
  assumes "serving e topic pid shard w s" "part_fine (be_cfg e) f" "fsm_storage f = Some s'" "gapless s'"
  shows "serving e topic pid shard (w\<lparr>w_node := (w_node w)\<lparr>ps_shards := mput shard f (ps_shards (w_node w))\<rparr>, w_reads := k\<rparr>) s'"
  using assms by (simp add: serving_def)

lemma produce_ok:
  assumes sv: "serving e topic pid shard w s" and b: "wf_batch b" "crc_ok b" "nextOffset s + bcount b < 2 ^ 63"
  shows "\<exists>w' s'. net_Produce (broker_net e) conn \<lparr>prq_Topic = topic, prq_PartitionId = pid, prq_Acks = ACKS_ALL, prq_BatchData = b\<rparr> w =
      (Inr \<lparr>prp_PartitionId = pid, prp_Offset = nextOffset s\<rparr>, w') \<and>
    serving e topic pid shard w' s' \<and> grown (be_cfg e) [b] s s'"
proof -
  note d = servingD [OF sv]
  obtain f where f: "map_of (ps_shards (w_node w)) shard = Some f" "part_fine (be_cfg e) f" "fsm_storage f = Some s"
    using sv unfolding serving_def by blast
  obtain f' s' where p: "Produce (env_host e) (be_clock e (w_reads w), be_clock e (w_reads w)) topic pid b AcksAll (w_dc w) (w_node w) =
      (Inr (nextOffset s), w_dc w, (w_node w)\<lparr>ps_shards := mput shard f' (ps_shards (w_node w))\<rparr>)"
    "fsm_storage f' = Some s'" "fsm_closed f' = fsm_closed f" "grown (be_cfg e) [b] s s'"
    using Produce_all_ok [OF d(1,2,5,6) f(1,3) d(7) b(1,3)] by blast
  have fine: "part_fine (be_cfg e) f'" "gapless s'"
    using p(2-4) f(2) d(8) by (simp_all add: part_fine_def grown_def)
  let ?w = "w\<lparr>w_node := (w_node w)\<lparr>ps_shards := mput shard f' (ps_shards (w_node w))\<rparr>, w_reads := Suc (w_reads w)\<rparr>"
  have "ACKS_ALL \<noteq> ACKS_ZERO" by (simp add: ACKS_ALL_def ACKS_ZERO_def)
  then have "net_Produce (broker_net e) conn \<lparr>prq_Topic = topic, prq_PartitionId = pid, prq_Acks = ACKS_ALL, prq_BatchData = b\<rparr> w =
      (Inr \<lparr>prp_PartitionId = pid, prp_Offset = nextOffset s\<rparr>, ?w)"
    using p(1) validateBatch_ok [OF b(1,2)]
    by (simp add: broker_net_def serve_ok [OF d(3)] on_data_def Server_Produce_def Let_def)
  then show ?thesis using serving_shards [OF sv fine(1) p(2) fine(2)] p(4) by blast
qed

section \<open>One fetch call\<close>

lemma chain_split_unique:
  assumes "pre @ b # rest = old @ todo" "list_all wf_batch (old @ todo)" "log_end base pre \<le> log_end base old"
    "log_end base old < log_end base (pre @ [b])"
  shows "pre = old"
proof -
  consider us where "pre = old @ us" "us @ b # rest = todo" | us where "old = pre @ us" "b # rest = us @ todo"
    using assms(1) by (auto simp: append_eq_append_conv2)
  then show ?thesis
  proof cases
    case 1
    have "us = []"
    proof (rule ccontr)
      assume "us \<noteq> []"
      moreover have "list_all wf_batch us" using assms(2) unfolding 1(2) [symmetric] by simp
      ultimately show False using wf_log_end(3) [of us "log_end base old"] assms(3) 1(1) by simp
    qed
    then show ?thesis using 1 by simp
  next
    case 2
    have "us = []"
    proof (rule ccontr)
      assume "us \<noteq> []"
      then obtain vs where "us = b # vs" using 2(2) by (cases us) auto
      then show False using wf_log_end(1) [of vs "log_end base (pre @ [b])"] assms(2,4) 2(1) by simp
    qed
    then show ?thesis using 2 by simp
  qed
qed

text \<open>A read at the end of a prefix of the log returns the batches that follow.\<close>

lemma read_on:
  assumes cfg: "cfg_ok cfg" and inv: "storage_inv cfg s" "gapless s"
    and log: "storage_log s = old @ todo" "todo \<noteq> []" and off: "off = log_end (Storage_EarliestOffset s) old"
  shows "\<exists>bs rest. Storage_Read s off mx = Inr (concat bs, log_end off bs) \<and> todo = bs @ rest \<and> bs \<noteq> [] \<and>
    Storage_EarliestOffset s \<le> off"
proof -
  let ?base = "Storage_EarliestOffset s"
  note ch = storage_log_chain [OF inv]
  have wf: "list_all wf_batch old" "list_all wf_batch todo" using ch(2) log(1) by simp_all
  have lo: "?base \<le> off" using wf_log_end(1) [OF wf(1)] off by simp
  have "off < Storage_LatestOffset s"
    using wf_log_end(3) [OF wf(2) log(2), of off] ch(3) log(1) off by (simp add: Storage_LatestOffset_def)
  from Storage_Read_progress [OF cfg inv lo this, of mx] obtain b rs pre post where
    r: "Storage_Read s off mx = Inr (concat (b # rs), bend (last (b # rs)))"
      "storage_log s = pre @ (b # rs) @ post" "covers b off" by blast
  have cb: "boff b = log_end ?base pre" using ch(1) r(2) by simp
  have eq: "pre @ b # (rs @ post) = old @ todo" using r(2) log(1) by simp
  have "pre = old"
  proof (rule chain_split_unique [OF eq])
    show "list_all wf_batch (old @ todo)" using wf by simp
    show "log_end ?base pre \<le> log_end ?base old" "log_end ?base old < log_end ?base (pre @ [b])"
      using r(3) cb off by (simp_all add: covers_def bend_def)
  qed
  then have todo: "todo = (b # rs) @ post" using eq by simp
  have c: "chain off (b # rs)" using ch(1) r(2) off \<open>pre = old\<close> by simp
  have "bend (last (b # rs)) = log_end off (b # rs)"
  proof -
    obtain xs y where xy: "b # rs = xs @ [y]" by (metis append_butlast_last_id list.discI)
    then have "chain off (xs @ [y])" using c by simp
    then show ?thesis unfolding xy by (simp add: bend_def)
  qed
  then show ?thesis using r(1) todo lo by (intro exI [of _ "b # rs"] exI [of _ post]) simp
qed

text \<open>Two successive readings of the clock are less than a millisecond apart.\<close>

definition steady :: "broker_env \<Rightarrow> bool" where
  "steady e \<longleftrightarrow> (\<forall>i. be_clock e i \<le> be_clock e (Suc i) \<and> be_clock e (Suc i) < be_clock e i + 1000000)"

lemma Fetch_any_ok:
  assumes sv: "serving e topic pid shard w s" and rd: "Storage_Read s off mx = Inr (data, nxt)" "data \<noteq> []"
    and p: "po_now p < now + 1000000" and wait: "0 \<le> waitMs" "waitMs < 2 ^ 40"
  shows "Fetch (env_host e) t now topic pid off mx waitMs (p # ps) (w_dc w) (w_node w) = Some (Inr (data, nxt), w_dc w, w_node w)"
proof -
  note d = servingD [OF sv]
  obtain f where f: "map_of (ps_shards (w_node w)) shard = Some f" "fsm_storage f = Some s" "\<not> fsm_closed f"
    using sv by (auto simp: serving_def part_fine_def)
  show ?thesis
  proof (cases "waitMs = 0")
    case True
    then show ?thesis using Fetch_now_ok [OF d(5,6) f rd(1)] by simp
  next
    case False
    then have w: "1 \<le> waitMs" "int64 (waitMs * 1000000) = waitMs * 1000000"
      using wait by (simp_all add: int64_id in_int64_def)
    note q = psim_quiet [OF d(5), of "be_os e" "be_cfg e" "be_dec e"]
    have "po_now p < now + waitMs * 1000000" using p w(1) by simp
    then show ?thesis
      using longPoll_round [OF q q q d(6) f f rd(1), of p "now + waitMs * 1000000" "be_leader e" ps]
        leaderCheck_routes [OF q d(6), of "be_leader e" t] rd(2) False w(2)
      by (simp add: Fetch_def fetchWithLongPoll_def)
  qed
qed

lemma fetch_ok:
  assumes sv: "serving e topic pid shard w s" and clock: "steady e" and wakes: "be_wakes e \<noteq> []"
    and log: "storage_log s = old @ todo" "todo \<noteq> []" and off: "off = log_end (Storage_EarliestOffset s) old" "0 \<le> off"
    and wait: "0 \<le> waitMs" "waitMs < 2 ^ 40"
  shows "\<exists>bs rest k. net_Fetch (broker_net e) conn \<lparr>frq_Topic = topic, frq_PartitionId = pid, frq_Offset = off, frq_MaxBytes = mx, frq_MaxWaitMs = waitMs\<rparr> w =
      (Inr \<lparr>frp_Records = concat bs, frp_NextOffset = log_end off bs\<rparr>, w\<lparr>w_reads := k\<rparr>) \<and> todo = bs @ rest \<and> bs \<noteq> []"
proof -
  note d = servingD [OF sv]
  let ?mx = "if mx \<le> 0 then defaultFetchMaxBytes else mx"
  obtain bs rest where r: "Storage_Read s off ?mx = Inr (concat bs, log_end off bs)" "todo = bs @ rest" "bs \<noteq> []"
    using read_on [OF d(2,7,8) log off(1)] by blast
  have "list_all wf_batch bs" using storage_log_chain(2) [OF d(7,8)] log(1) r(2) by simp
  then have ne: "concat bs \<noteq> []" using r(3) by (cases bs) (auto simp: wf_batch_def framed_def)
  let ?i = "w_reads w"
  obtain p ps where polls: "map (\<lambda>(k, wk). \<lparr>po_now = be_clock e (?i + 2 + k), po_addr = (be_clock e ?i, be_clock e ?i), po_wake = wk\<rparr>)
      (enumerate 0 (be_wakes e)) = p # ps" and p: "po_now p = be_clock e (Suc (Suc ?i))"
    using wakes by (cases "be_wakes e") auto
  have "po_now p < be_clock e (?i + 1) + 1000000" using clock p by (simp add: steady_def)
  from Fetch_any_ok [OF sv r(1) ne this wait, of "(be_clock e ?i, be_clock e ?i)" ps]
  have "net_Fetch (broker_net e) conn \<lparr>frq_Topic = topic, frq_PartitionId = pid, frq_Offset = off, frq_MaxBytes = mx, frq_MaxWaitMs = waitMs\<rparr> w =
      (Inr \<lparr>frp_Records = concat bs, frp_NextOffset = log_end off bs\<rparr>, w\<lparr>w_reads := ?i + 2 + length (be_wakes e)\<rparr>)"
    using off(2) ne polls
    by (simp add: broker_net_def serve_ok [OF d(3)] fetch_handler_def Let_def Server_Fetch_def split del: if_split del: concat_eq_Nil_conv cong: if_cong)
  then show ?thesis using r(2,3) by blast
qed

section \<open>One poll\<close>

text \<open>A consumer that reads one partition and whose polls do not wait for a rebalance.\<close>

definition reading :: "load list \<Rightarrow> TP \<Rightarrow> int \<Rightarrow> Consumer \<Rightarrow> bool" where
  "reading loads tp off c \<longleftrightarrow> soughtPartitions c = [tp] \<and> map_of (fetchOffsets c) tp = Some off \<and>
     c_knownAddrs c \<noteq> [] \<and> pool_open (c_pool c) \<and> (GroupID (c_config c) = [] \<or> poll_gate loads = Some None) \<and>
     0 \<le> MaxFetchWaitMs (c_config c) \<and> MaxFetchWaitMs (c_config c) < 2 ^ 40"

lemma fetchPartition_ok:
  assumes sv: "serving e topic pid shard w s" and clock: "steady e" and wakes: "be_wakes e \<noteq> []"
    and log: "storage_log s = old @ todo" "todo \<noteq> []" "list_all encoded todo"
    and off: "off = log_end (Storage_EarliestOffset s) old" "0 \<le> off"
    and c: "c_knownAddrs c \<noteq> []" "pool_open (c_pool c)" and wait: "0 \<le> waitMs" "waitMs < 2 ^ 40"
  shows "\<exists>bs rest c' k. fetchPartition (broker_net e) (TopicPartition topic pid) off waitMs c w =
      (Inr (map (client_record (TopicPartition topic pid)) (log_records bs), log_end off bs), c', w\<lparr>w_reads := k\<rparr>) \<and>
    todo = bs @ rest \<and> bs \<noteq> [] \<and> pool_open (c_pool c') \<and>
    (\<exists>pool mc. c' = c\<lparr>c_pool := pool, c_meta := mc\<rparr>)"
proof -
  obtain addr pool mc k where l: "leaderFor (broker_net e) topic pid (c_knownAddrs c) (c_pool c) (c_meta c) w =
      (Inr addr, pool, mc, w\<lparr>w_reads := k\<rparr>)" "pool_open pool"
    using leaderFor_ok [OF sv c] by blast
  obtain conn pool' where g: "ConnPool_Get (be_dial e) addr pool = (Inr conn, pool')" "pool_open pool'"
    using ConnPool_Get_ok [of "be_dial e" addr pool] servingD(4) [OF sv, of addr] l(2) by blast
  have sv': "serving e topic pid shard (w\<lparr>w_reads := k\<rparr>) s" using sv by simp
  obtain bs rest k' where f: "net_Fetch (broker_net e) conn \<lparr>frq_Topic = topic, frq_PartitionId = pid, frq_Offset = off,
        frq_MaxBytes = int32 (MaxFetchBytes (c_config c)), frq_MaxWaitMs = waitMs\<rparr> (w\<lparr>w_reads := k\<rparr>) =
      (Inr \<lparr>frp_Records = concat bs, frp_NextOffset = log_end off bs\<rparr>, w\<lparr>w_reads := k'\<rparr>)" "todo = bs @ rest" "bs \<noteq> []"
    using fetch_ok [OF sv' clock wakes log(1,2) off wait, of conn "int32 (MaxFetchBytes (c_config c))"] by auto
  have en: "list_all encoded bs" using log(3) f(2) by simp
  then have "concat bs \<noteq> []" using f(3) encoded_ne by (cases bs) auto
  then have "fetchPartition (broker_net e) (TopicPartition topic pid) off waitMs c w =
      (Inr (map (client_record (TopicPartition topic pid)) (log_records bs), log_end off bs), c\<lparr>c_pool := pool', c_meta := mc\<rparr>, w\<lparr>w_reads := k'\<rparr>)"
    using l(1) g(1) f(1) Decode_log [OF en]
    by (simp add: fetchPartition_def Consumer_leaderFor_eq c_call_def del: concat_eq_Nil_conv)
  then show ?thesis using f(2,3) g(2) by (intro exI conjI) auto
qed

lemma poll_share:
  assumes "steady e" "1 \<le> maxWaitMs" "maxWaitMs < 2 ^ 40" "now = be_clock e i" "remaining = now + maxWaitMs * 1000000 - be_clock e (Suc i)"
  shows "0 < remaining" "0 \<le> go_div (go_div remaining 1000000) 1" "go_div (go_div remaining 1000000) 1 < 2 ^ 40"
proof -
  have "be_clock e i \<le> be_clock e (Suc i)" "be_clock e (Suc i) < be_clock e i + 1000000" using assms(1) by (auto simp: steady_def)
  then have r: "0 < remaining" "remaining \<le> maxWaitMs * 1000000" using assms(2,4,5) by linarith+
  then have "remaining div 1000000 \<le> maxWaitMs" using zdiv_mono1 [OF r(2), of 1000000] by simp
  then show "0 < remaining" "0 \<le> go_div (go_div remaining 1000000) 1" "go_div (go_div remaining 1000000) 1 < 2 ^ 40"
    using r(1) assms(3) by (simp_all add: go_div_nonneg pos_imp_zdiv_nonneg_iff)
qed

lemma Poll_ok:
  assumes sv: "serving e topic pid shard w s" and clock: "steady e" and wakes: "be_wakes e \<noteq> []"
    and log: "storage_log s = old @ todo" "todo \<noteq> []" "list_all encoded todo"
    and off: "off = log_end (Storage_EarliestOffset s) old" "0 \<le> off"
    and c: "reading loads (TopicPartition topic pid) off c" and wait: "1 \<le> maxWaitMs" "maxWaitMs < 2 ^ 40"
  shows "\<exists>bs rest c' k. Poll (broker_net e) loads maxWaitMs c w =
      Some (Inr (map (client_record (TopicPartition topic pid)) (log_records bs)), c', w\<lparr>w_reads := k\<rparr>) \<and>
    todo = bs @ rest \<and> bs \<noteq> [] \<and> reading loads (TopicPartition topic pid) (log_end off bs) c' \<and>
    (\<exists>pool mc. c' = poll_store (TopicPartition topic pid) (log_end off bs) (c\<lparr>c_pool := pool, c_meta := mc\<rparr>))"
proof -
  let ?tp = "TopicPartition topic pid" and ?i = "w_reads w"
  let ?remaining = "be_clock e ?i + maxWaitMs * 1000000 - be_clock e (Suc ?i)"
  let ?share = "go_div (go_div ?remaining 1000000) 1"
  let ?wait = "if ?share > MaxFetchWaitMs (c_config c) then MaxFetchWaitMs (c_config c) else ?share"
  note sh = poll_share [OF clock wait refl refl, of ?i]
  have rc: "soughtPartitions c = [?tp]" "map_of (fetchOffsets c) ?tp = Some off" "c_knownAddrs c \<noteq> []" "pool_open (c_pool c)"
    "GroupID (c_config c) = [] \<or> poll_gate loads = Some None" "0 \<le> MaxFetchWaitMs (c_config c)" "MaxFetchWaitMs (c_config c) < 2 ^ 40"
    using c by (simp_all add: reading_def)
  have wt: "0 \<le> ?wait" "?wait < 2 ^ 40" using sh rc(6,7) by auto
  have sv': "serving e topic pid shard (w\<lparr>w_reads := Suc (Suc ?i)\<rparr>) s" using sv by simp
  obtain bs rest c' k pool mc where f: "fetchPartition (broker_net e) ?tp off ?wait c (w\<lparr>w_reads := Suc (Suc ?i)\<rparr>) =
      (Inr (map (client_record ?tp) (log_records bs), log_end off bs), c', w\<lparr>w_reads := k\<rparr>)"
      "todo = bs @ rest" "bs \<noteq> []" "pool_open (c_pool c')" "c' = c\<lparr>c_pool := pool, c_meta := mc\<rparr>"
    using fetchPartition_ok [OF sv' clock wakes log off rc(3,4) wt] by auto
  have "int64 (maxWaitMs * 1000000) = maxWaitMs * 1000000" using wait by (simp add: int64_id in_int64_def)
  then have "Poll (broker_net e) loads maxWaitMs c w =
      Some (Inr (map (client_record ?tp) (log_records bs)), poll_store ?tp (log_end off bs) c', w\<lparr>w_reads := k\<rparr>)"
    using rc(1,2,5) sh(1) f(1) by (auto simp: Poll_def poll_begin_def mget0_def poll_partition_def Let_def)
  moreover have "reading loads ?tp (log_end off bs) (poll_store ?tp (log_end off bs) c')"
    using rc f(4,5) by (simp add: reading_def poll_store_def)
  ultimately show ?thesis using f(2,3,5) by blast
qed

text \<open>Several polls in a row; \<open>None\<close> when one of them waits or fails.\<close>

fun poll_times :: "'n net \<Rightarrow> load list \<Rightarrow> int \<Rightarrow> nat \<Rightarrow> Consumer \<Rightarrow> 'n \<Rightarrow> (ClientRecord list \<times> Consumer \<times> 'n) option" where
  "poll_times net loads maxWaitMs 0 c n = Some ([], c, n)"
| "poll_times net loads maxWaitMs (Suc m) c n =
     (case Poll net loads maxWaitMs c n of
        Some (Inr recs, c, n) \<Rightarrow>
          (case poll_times net loads maxWaitMs m c n of
             Some (rest, c, n) \<Rightarrow> Some (recs @ rest, c, n)
           | None \<Rightarrow> None)
      | _ \<Rightarrow> None)"

lemma poll_times_ok:
  assumes "serving e topic pid shard w s" "steady e" "be_wakes e \<noteq> []"
    "storage_log s = old @ todo" "list_all encoded todo" "off = log_end (Storage_EarliestOffset s) old" "0 \<le> off"
    "reading loads (TopicPartition topic pid) off c" "1 \<le> maxWaitMs" "maxWaitMs < 2 ^ 40"
  shows "\<exists>m c' k. m \<le> length todo \<and> poll_times (broker_net e) loads maxWaitMs m c w =
      Some (map (client_record (TopicPartition topic pid)) (log_records todo), c', w\<lparr>w_reads := k\<rparr>) \<and>
    reading loads (TopicPartition topic pid) (nextOffset s) c'"
  using assms
proof (induction "length todo" arbitrary: old todo off c w rule: less_induct)
  case less
  note sv = less.prems(1) and d = servingD [OF less.prems(1)]
  have nxt: "log_end off todo = nextOffset s"
    using storage_log_chain(3) [OF d(7,8)] less.prems(4,6) by simp
  show ?case
  proof (cases "todo = []")
    case True
    then show ?thesis using less.prems(8) nxt
      by (intro exI [of _ 0] exI [of _ c] exI [of _ "w_reads w"]) simp
  next
    case False
    obtain bs rest c1 k where p: "Poll (broker_net e) loads maxWaitMs c w =
        Some (Inr (map (client_record (TopicPartition topic pid)) (log_records bs)), c1, w\<lparr>w_reads := k\<rparr>)"
      "todo = bs @ rest" "bs \<noteq> []" "reading loads (TopicPartition topic pid) (log_end off bs) c1"
      using Poll_ok [OF sv less.prems(2,3,4) False less.prems(5-10)] by blast
    have wf: "list_all wf_batch bs" using storage_log_chain(2) [OF d(7,8)] less.prems(4) p(2) by simp
    have "\<exists>m c' k'. m \<le> length rest \<and> poll_times (broker_net e) loads maxWaitMs m c1 (w\<lparr>w_reads := k\<rparr>) =
        Some (map (client_record (TopicPartition topic pid)) (log_records rest), c', w\<lparr>w_reads := k\<rparr>\<lparr>w_reads := k'\<rparr>) \<and>
      reading loads (TopicPartition topic pid) (nextOffset s) c'"
    proof (rule less.hyps [where old = "old @ bs" and off = "log_end off bs"])
      show "0 \<le> log_end off bs" using wf_log_end(1) [OF wf, of off] less.prems(7) by simp
    qed (use less.prems p(2-4) sv in simp_all)
    then obtain m c' k' where "m \<le> length rest" "poll_times (broker_net e) loads maxWaitMs m c1 (w\<lparr>w_reads := k\<rparr>) =
        Some (map (client_record (TopicPartition topic pid)) (log_records rest), c', w\<lparr>w_reads := k'\<rparr>)"
      "reading loads (TopicPartition topic pid) (nextOffset s) c'" by auto
    then show ?thesis using p(1-3)
      by (intro exI [of _ "Suc m"] exI [of _ c'] exI [of _ k']) (cases bs; simp)
  qed
qed

lemma log_records_offsets:
  assumes "list_all encoded bs" "chain off bs" "list_all wf_batch bs" "0 \<le> off" "log_end off bs < 2 ^ 63"
  shows "map dr_Offset (log_records bs) = [off..log_end off bs - 1]"
  using assms
proof (induction bs arbitrary: off)
  case (Cons b bs)
  have e: "log_end (bend b) bs = log_end off (b # bs)" "boff b = off" using Cons.prems(2) by (simp_all add: bend_def)
  have "wf_batch b" "list_all wf_batch bs" using Cons.prems(3) by simp_all
  then have le: "bend b \<le> log_end (bend b) bs" "off < bend b"
    using wf_log_end(1) [of bs "bend b"] e(2) by (simp_all add: bend_def wf_batch_def [of b])
  have "map dr_Offset (batch_records b) = [off..bend b - 1]"
    using batch_records_offsets [of b] Cons.prems(1,4,5) e le(1) by simp
  moreover have "map dr_Offset (log_records bs) = [bend b..log_end (bend b) bs - 1]"
    using Cons.prems e le by (intro Cons.IH) (simp_all add: bend_def)
  ultimately show ?case using e(1) upto_split2 [of off "bend b" "log_end (bend b) bs - 1"] le
    by (cases "bend b \<le> log_end (bend b) bs - 1") (auto simp: upto_split1 [of off "bend b - 1 + 1"])
qed (simp add: log_end_def)

end
