(* ===== verification/SendLemmas.thy ===== *)
theory SendLemmas
  imports ClientLemmas
begin

text \<open>
  Lemmas about sending: the batch of a single record, its way through the producer to the log, and
  the record a consumer makes of it.
\<close>

section \<open>A batch of one record\<close>

lemma char_byte_roundtrip [simp]: "char_of (unat (of_char c :: byte)) = (c :: char)"
proof -
  have "unat (word_of_nat (of_char c) :: byte) = of_char c mod 256"
    by (simp add: unsigned_of_nat take_bit_eq_mod)
  then have "unat (of_char c :: byte) = of_char c" by (simp add: of_nat_of_char)
  then show ?thesis by simp
qed

lemma bytes_string_bytes [simp]: "bytes_string (string_bytes s) = s"
  by (induction s) (simp_all add: bytes_string_def string_bytes_def)

lemma fold_mput_list: "map_ok (acc @ hs) \<Longrightarrow> fold (\<lambda>(k, v). mput k v) hs acc = acc @ hs"
proof (induction hs arbitrary: acc)
  case (Cons h hs)
  obtain k v where h: "h = (k, v)" by fastforce
  have "k \<notin> fst ` set acc" using Cons.prems h by (auto simp: map_ok_def)
  then have "mput k v acc = acc @ [(k, v)]" by (induction acc) auto
  then show ?case using Cons.IH [of "acc @ [(k, v)]"] Cons.prems h by simp
qed simp

lemma decoded_headers_encoded:
  assumes "map_ok headers"
  shows "decoded_headers (map (\<lambda>(k, v). \<lparr>rh_Key = string_bytes k, rh_Value = v\<rparr>) headers) = headers"
proof -
  have "decoded_headers (map (\<lambda>(k, v). \<lparr>rh_Key = string_bytes k, rh_Value = v\<rparr>) headers) = fold (\<lambda>(k, v). mput k v) headers []"
    by (simp add: decoded_headers_def fold_map comp_def case_prod_unfold)
  then show ?thesis using fold_mput_list [of "[]" headers] assms by simp
qed

abbreviation one_record :: "bytes option \<Rightarrow> bytes \<Rightarrow> (string, bytes) gomap \<Rightarrow> 64 word \<Rightarrow> BatchRecord" where
  "one_record key val headers ts \<equiv> \<lparr>br_Key = key, br_Value = val, br_Headers = headers, br_TimestampMs = ts\<rparr>"

text \<open>The bytes of the record do not depend on its time, so neither does the size of the batch.\<close>

definition record_size :: "bytes option \<Rightarrow> bytes \<Rightarrow> (string, bytes) gomap \<Rightarrow> nat" where
  "record_size key val headers = length (projr (BatchEncoder_Encode [one_record key val headers 0]))"

lemma Encode_one:
  "\<exists>b. BatchEncoder_Encode [one_record key val headers ts] = Inr b \<and> length b = record_size key val headers"
  by (simp add: BatchEncoder_Encode_def EncodeBatch_def BatchEncoder_record_def record_size_def Let_def appendRecord_def
      split: option.split)

lemma batch_records_one:
  assumes e: "BatchEncoder_Encode [one_record key val headers ts] = Inr b" "length b \<le> 4194304"
    and h: "map_ok headers" and off: "0 \<le> off" "off < 2 ^ 63"
  shows "batch_records (stamp b off) =
    [\<lparr>dr_Offset = off, dr_Key = key, dr_Value = val, dr_Headers = headers, dr_TimestampMs = ts\<rparr>]"
proof -
  have "sint (word_of_int off :: 64 word) = off"
    using off by (simp add: sint_sbintrunc' signed_take_bit_int_eq_self)
  then show ?thesis
    using DecodeBatch_stamp [of "[BatchEncoder_record (one_record key val headers ts)]" b off "[]"] e off decoded_headers_encoded [OF h]
    by (simp add: BatchEncoder_Encode_def batch_records_def decoded_batch_def decoded_record_def BatchEncoder_record_def
        int64_id in_int64_def)
qed

section \<open>The way of a record to the log\<close>

lemma send_attempt_ok:
  assumes sv: "serving e topic pid shard w s" and p: "p_knownAddrs p \<noteq> []" "pool_open (p_pool p)"
    and b: "wf_batch b" "crc_ok b" "nextOffset s + bcount b < 2 ^ 63"
  shows "\<exists>p' w' s'. send_attempt (broker_net e) topic pid b ACKS_ALL attempt p w = (Return (Inr (nextOffset s)), p', w') \<and>
    serving e topic pid shard w' s' \<and> grown (be_cfg e) [b] s s'"
proof -
  obtain addr pool mc k where l: "leaderFor (broker_net e) topic pid (p_knownAddrs p) (p_pool p) (p_meta p) w =
      (Inr addr, pool, mc, w\<lparr>w_reads := k\<rparr>)" "pool_open pool"
    using leaderFor_ok [OF sv p] by blast
  obtain conn pool' where g: "ConnPool_Get (be_dial e) addr pool = (Inr conn, pool')"
    using ConnPool_Get_ok [of "be_dial e" addr pool] servingD(4) [OF sv, of addr] l(2) by blast
  have sv': "serving e topic pid shard (w\<lparr>w_reads := k\<rparr>) s" using sv by simp
  obtain w' s' where "net_Produce (broker_net e) conn \<lparr>prq_Topic = topic, prq_PartitionId = pid, prq_Acks = ACKS_ALL, prq_BatchData = b\<rparr>
      (w\<lparr>w_reads := k\<rparr>) = (Inr \<lparr>prp_PartitionId = pid, prp_Offset = nextOffset s\<rparr>, w')"
    "serving e topic pid shard w' s'" "grown (be_cfg e) [b] s s'"
    using produce_ok [OF sv' b] by blast
  then show ?thesis using l(1) g by (auto simp: send_attempt_def Producer_leaderFor_def Let_def)
qed

lemma sendToPartition_ok:
  assumes "serving e topic pid shard w s" "p_knownAddrs p \<noteq> []" "pool_open (p_pool p)"
    "wf_batch b" "crc_ok b" "nextOffset s + bcount b < 2 ^ 63"
  shows "\<exists>p' w' s'. sendToPartition (broker_net e) topic pid b ACKS_ALL p w = (Inr (nextOffset s), p', w') \<and>
    serving e topic pid shard w' s' \<and> grown (be_cfg e) [b] s s'"
  using send_attempt_ok [OF assms, of 0] by (auto simp: sendToPartition_def send_loop.simps [of _ _ _ _ _ 0])

lemma Send_ok:
  assumes sv: "serving e topic pid shard w s" and p: "p_knownAddrs p \<noteq> []" "pool_open (p_pool p)" "map_of (mc_cache (p_meta p)) topic = None"
    and sel: "map_of (Topics (ps_meta (w_node w))) topic = Some tm"
      "fst (selectPartition key (tm_PartitionCount tm) (p_roundRobinCounter p)) = Inr pid"
    and size: "record_size key val headers \<le> 4194304" and room: "nextOffset s + 1 < 2 ^ 63"
  shows "\<exists>ts b p' w' s'. Send (broker_net e) topic key val headers ACKS_ALL p w = (Inr (nextOffset s), p', w') \<and>
    serving e topic pid shard w' s' \<and> grown (be_cfg e) [b] s s' \<and>
    BatchEncoder_Encode [one_record key val headers ts] = Inr b \<and> length b \<le> 4194304"
proof -
  obtain m pool k where m: "metaFor (broker_net e) topic (p_knownAddrs p) (p_pool p) (p_meta p) w =
      (Inr m, pool, MetaCache_Put topic m (p_meta p), w\<lparr>w_reads := k\<rparr>)" "mt_PartitionCount m = tm_PartitionCount tm" "pool_open pool"
    using metaFor_ok [OF sv p] sel(1) by (auto simp: fresh_meta_def)
  obtain counter where c: "selectPartition key (tm_PartitionCount tm) (p_roundRobinCounter p) = (Inr pid, counter)"
    using sel(2) by (metis prod.collapse)
  let ?ts = "word_of_int (be_clock e k div 1000000)"
  obtain b where b: "BatchEncoder_Encode [one_record key val headers ?ts] = Inr b" "length b \<le> 4194304"
    using Encode_one [of key val headers ?ts] size by auto
  note wf = EncodeBatch_wf [OF b(1) [unfolded BatchEncoder_Encode_def] b(2)]
  let ?p = "p\<lparr>p_pool := pool, p_meta := MetaCache_Put topic m (p_meta p), p_roundRobinCounter := counter\<rparr>"
  have sv': "serving e topic pid shard (w\<lparr>w_reads := Suc k\<rparr>) s" using sv by simp
  obtain p' w' s' where "sendToPartition (broker_net e) topic pid b ACKS_ALL ?p (w\<lparr>w_reads := Suc k\<rparr>) = (Inr (nextOffset s), p', w')"
    "serving e topic pid shard w' s'" "grown (be_cfg e) [b] s s'"
    using sendToPartition_ok [OF sv' _ _ wf(1,2), of ?p] wf(3) room p(1) m(3) by auto
  then show ?thesis using m(1,2) c b
    by (intro exI [of _ ?ts] exI [of _ b]) (auto simp: Send_def Producer_metaFor_def Let_def)
qed

end
