(* ===== verification/ConsumerLemmas.thy ===== *)
theory ConsumerLemmas
  imports SendLemmas
begin

text \<open>
  Lemmas about the positions of a consumer, on an arbitrary network: the partitions that are
  polled are exactly those with a position, as long as no poll runs into a rebalance.
\<close>

section \<open>What an operation leaves alone\<close>

text \<open>The fields that a call, a lookup of the leader or of the coordinator does not touch.\<close>

definition positions :: "Consumer \<Rightarrow> TP list \<times> (TP, int) gomap" where
  "positions c = (soughtPartitions c, fetchOffsets c)"

lemma positions_eq [simp]:
  "positions (c\<lparr>c_pool := a\<rparr>) = positions c" "positions (c\<lparr>c_meta := b\<rparr>) = positions c"
  "positions (c\<lparr>coordAddr := d\<rparr>) = positions c" "positions (c\<lparr>rebalancing := e\<rparr>) = positions c"
  "positions (c\<lparr>memberID := f\<rparr>) = positions c" "positions (c\<lparr>generationID := g\<rparr>) = positions c"
  "positions (c\<lparr>assignedPartitions := h\<rparr>) = positions c" "positions (c\<lparr>subscribedTopics := i\<rparr>) = positions c"
  "positions (c\<lparr>stopHeartbeat := j\<rparr>) = positions c"
  by (simp_all add: positions_def)

lemma c_call_frame: "c_call net addr rpc c n = (r, c', n') \<Longrightarrow> positions c' = positions c \<and> c_config c' = c_config c"
  by (auto simp: c_call_def split: prod.splits sum.splits)

lemma leaderFor_frame: "Consumer_leaderFor net tp c n = (r, c', n') \<Longrightarrow> positions c' = positions c \<and> c_config c' = c_config c"
  by (auto simp: Consumer_leaderFor_eq split: prod.splits)

lemma findCoordinator_loop_frame:
  "findCoordinator_loop net addrs c n = (r, c', n') \<Longrightarrow> positions c' = positions c \<and> c_config c' = c_config c"
proof (induction addrs arbitrary: c n)
  case (Cons a addrs)
  obtain x c1 n1 where x: "c_call net a (net_DescribeCluster net) c n = (x, c1, n1)" by (metis prod_cases3)
  then show ?case using Cons c_call_frame [OF x] by (cases x) auto
qed simp

lemma findCoordinator_frame: "findCoordinator net c n = (r, c', n') \<Longrightarrow> positions c' = positions c \<and> c_config c' = c_config c"
  unfolding findCoordinator_def by (rule findCoordinator_loop_frame)

lemma getPartitionOffset_frame:
  assumes "getPartitionOffset net tp q c n = (r, c', n')"
  shows "positions c' = positions c \<and> c_config c' = c_config c"
proof -
  obtain x c1 n1 where x: "Consumer_leaderFor net tp c n = (x, c1, n1)" by (metis prod_cases3)
  show ?thesis using assms leaderFor_frame [OF x] by (cases x) (auto simp: getPartitionOffset_def x dest!: c_call_frame)
qed

lemma fetchPartition_frame:
  assumes "fetchPartition net tp off wait c n = (r, c', n')"
  shows "positions c' = positions c \<and> c_config c' = c_config c"
proof -
  obtain x c1 n1 where x: "Consumer_leaderFor net tp c n = (x, c1, n1)" by (metis prod_cases3)
  show ?thesis
  proof (cases x)
    case (Inl err)
    then show ?thesis using assms leaderFor_frame [OF x] by (simp add: fetchPartition_def x)
  next
    case (Inr addr)
    let ?rpc = "\<lambda>conn. net_Fetch net conn \<lparr>frq_Topic = tp_Topic tp, frq_PartitionId = tp_PartitionID tp, frq_Offset = off,
      frq_MaxBytes = int32 (MaxFetchBytes (c_config c1)), frq_MaxWaitMs = wait\<rparr>"
    obtain y c2 n2 where y: "c_call net addr ?rpc c1 n1 = (y, c2, n2)" by (metis prod_cases3)
    have "c' = c2" using assms Inr x y by (auto simp: fetchPartition_def split: sum.splits if_splits prod.splits option.splits)
    then show ?thesis using leaderFor_frame [OF x] c_call_frame [OF y] by simp
  qed
qed

lemma start_offset_frame:
  "start_offset net committed tp c n = (r, c', n') \<Longrightarrow> positions c' = positions c \<and> c_config c' = c_config c"
  by (auto simp: start_offset_def Let_def dest: getPartitionOffset_frame split: option.splits if_splits OffsetResetPolicy.splits)

lemma CommitOffsets_frame:
  assumes "CommitOffsets net offs c n = (r, c', n')"
  shows "positions c' = positions c \<and> c_config c' = c_config c"
  using assms by (auto simp: CommitOffsets_def split: if_splits prod.splits sum.splits dest!: c_call_frame)

section \<open>Properties that every step of a consumer keeps\<close>

text \<open>
  A property of the positions that setting the position of a partition keeps is kept by everything
  that moves positions with \<open>Seek\<close> only.
\<close>

locale seek_closed =
  fixes P :: "TP list \<times> (TP, int) gomap \<Rightarrow> bool"
  assumes seek_keeps: "P (positions c) \<Longrightarrow> P (positions (Seek tp off c))"
begin

lemma seek_assigned_keeps:
  "seek_assigned net committed tps c n = (r, c', n') \<Longrightarrow> P (positions c) \<Longrightarrow> P (positions c')"
proof (induction tps arbitrary: c n)
  case (Cons tp tps)
  obtain x c1 n1 where x: "start_offset net committed tp c n = (x, c1, n1)" by (metis prod_cases3)
  have p: "P (positions c1)" using start_offset_frame [OF x] Cons.prems(2) by simp
  show ?case
  proof (cases x)
    case (Inl err)
    then show ?thesis using Cons.prems(1) x p by simp
  next
    case (Inr off)
    then show ?thesis using Cons.IH [of "Seek tp off c1" n1] Cons.prems(1) x seek_keeps [OF p] by simp
  qed
qed simp

lemma joined_keeps:
  assumes "joined net resp c n = (r, c', n')" "P (positions c)"
  shows "P (positions c')"
proof (cases "jrp_Assignments resp = []")
  case True
  then show ?thesis using assms by (auto simp: joined_def initFetchOffsets_def Let_def)
next
  case False
  let ?c = "c\<lparr>memberID := jrp_MemberId resp, generationID := jrp_GenerationId resp, assignedPartitions := jrp_Assignments resp\<rparr>"
  let ?rpc = "\<lambda>conn. net_FetchCommittedOffsets net conn \<lparr>fcq_GroupId = GroupID (c_config c), fcq_Partitions = jrp_Assignments resp\<rparr>"
  obtain y c1 n1 where y: "c_call net (coordAddr c) ?rpc ?c n = (y, c1, n1)" by (metis prod_cases3)
  have "P (positions c1)" using c_call_frame [OF y] assms(2) by simp
  then show ?thesis
    using assms(1) False y by (cases y) (auto simp: joined_def initFetchOffsets_def Let_def intro: seek_assigned_keeps)
qed

lemma joinGroup_keeps:
  assumes "joinGroup net topics c n = (r, c', n')" "P (positions c)"
  shows "P (positions c')"
proof -
  obtain x c1 n1 where x: "findCoordinator net c n = (x, c1, n1)" by (metis prod_cases3)
  have p1: "P (positions c1)" using findCoordinator_frame [OF x] assms(2) by simp
  obtain y c2 n2 where y: "doJoinGroup net topics c1 n1 = (y, c2, n2)" by (metis prod_cases3)
  have p2: "P (positions c2)" using c_call_frame [OF y [unfolded doJoinGroup_def]] p1 by simp
  have again: "P (positions c')"
    if "(case doJoinGroup net topics c3 n3 of (Inl err, c, n) \<Rightarrow> (Some err, c, n) | (Inr resp, c, n) \<Rightarrow> joined net resp c n) = (r, c', n')"
      "P (positions c3)" for c3 n3
  proof -
    obtain z c4 n4 where z: "doJoinGroup net topics c3 n3 = (z, c4, n4)" by (metis prod_cases3)
    have "P (positions c4)" using c_call_frame [OF z [unfolded doJoinGroup_def]] that(2) by simp
    then show ?thesis using that(1) z joined_keeps by (cases z) auto
  qed
  have refind: "P (positions c')"
    if "(case findCoordinator net c2 n2 of (Some refreshErr, c, n) \<Rightarrow> (Some err, c, n)
         | (None, c, n) \<Rightarrow> (case doJoinGroup net topics c n of (Inl err, c, n) \<Rightarrow> (Some err, c, n)
             | (Inr resp, c, n) \<Rightarrow> joined net resp c n)) = (r, c', n')" for err
  proof -
    obtain z c3 n3 where z: "findCoordinator net c2 n2 = (z, c3, n3)" by (metis prod_cases3)
    have "P (positions c3)" using findCoordinator_frame [OF z] p2 by simp
    then show ?thesis using that z again by (cases z) auto
  qed
  show ?thesis
  proof (cases x)
    case (Some err)
    then show ?thesis using assms(1) x p1 by (simp add: joinGroup_def)
  next
    case None
    note x = x [unfolded None]
    show ?thesis
    proof (cases y)
      case (Inr resp)
      then show ?thesis using assms(1) x y p2 joined_keeps by (simp add: joinGroup_def)
    next
      case (Inl err)
      note y = y [unfolded Inl]
      obtain be nl where e: "extractErr err = (be, nl)" by fastforce
      show ?thesis
      proof (cases "be = Some NOT_LEADER")
        case False
        then show ?thesis using assms(1) x y e p2 by (auto simp: joinGroup_def split: option.splits BunnyErrorCode.splits)
      next
        case True
        note e = e [unfolded True]
        show ?thesis
        proof (cases "\<exists>node leader. nl = Some (node, leader) \<and> leader \<noteq> []")
          case True
          then obtain node leader where "nl = Some (node, leader)" "leader \<noteq> []" by blast
          then show ?thesis using assms(1) x y e p2 again [of "c2\<lparr>coordAddr := leader\<rparr>" n2] by (simp add: joinGroup_def)
        next
          case False
          then show ?thesis using assms(1) x y e refind [of err] by (auto simp: joinGroup_def split: option.splits)
        qed
      qed
    qed
  qed
qed

lemma fold_Seek_keeps: "P (positions c) \<Longrightarrow> P (positions (fold (\<lambda>(tp, off). Seek tp off) tps c))"
  by (induction tps arbitrary: c) (auto intro: seek_keeps)

lemma rebalance_finish_keeps:
  assumes "rebalance_finish net saved c n = (c', n')" "P (positions c)"
  shows "P (positions c')"
proof -
  obtain x c1 n1 where x: "joinGroup net (subscribedTopics c) c n = (x, c1, n1)" by (metis prod_cases3)
  have p: "P (positions c1)" by (rule joinGroup_keeps [OF x assms(2)])
  let ?tc = "filter (\<lambda>(tp, off). tp \<in> set (assignedPartitions c1)) saved"
  obtain y c2 n2 where y: "CommitOffsets net ?tc c1 n1 = (y, c2, n2)" by (metis prod_cases3)
  have "P (positions c2)" using CommitOffsets_frame [OF y] p by simp
  then have "P (positions (fold (\<lambda>(tp, off). Seek tp off) ?tc c2))" by (rule fold_Seek_keeps)
  then show ?thesis
    using assms(1) x y p \<open>P (positions c2)\<close> by (auto simp: rebalance_finish_def Let_def split: option.splits if_splits)
qed

lemma Subscribe_keeps:
  assumes "Subscribe net topics c n = (r, c', n')" "P (positions c)"
  shows "P (positions c')"
proof (cases "GroupID (c_config c) = []")
  case True
  then show ?thesis using assms by (auto simp: Subscribe_def)
next
  case False
  obtain x c1 n1 where x: "joinGroup net topics (c\<lparr>subscribedTopics := topics\<rparr>) n = (x, c1, n1)" by (metis prod_cases3)
  have "P (positions c1)" using joinGroup_keeps [OF x] assms(2) by simp
  then show ?thesis using assms(1) False x by (auto simp: Subscribe_def split: option.splits)
qed

end

locale positions_inv = seek_closed +
  assumes empty: "P ([], [])"
    and store_keeps: "P (positions c) \<Longrightarrow> tp \<in> set (soughtPartitions c) \<Longrightarrow> P (positions (poll_store tp off c))"
begin

lemma rebalance_keeps: "Consumer_rebalance net c n = (c', n') \<Longrightarrow> P (positions c')"
  using rebalance_finish_keeps [of net "fetchOffsets c" "c\<lparr>soughtPartitions := [], fetchOffsets := []\<rparr>" n c' n'] empty
  by (simp add: Consumer_rebalance_def rebalance_begin_def positions_def)

lemma heartbeat_keeps:
  assumes "heartbeat_tick net c n = (c', n')" "P (positions c)"
  shows "P (positions c')"
proof -
  let ?rpc = "\<lambda>conn. net_Heartbeat net conn
    \<lparr>hrq_GroupId = GroupID (c_config c), hrq_MemberId = memberID c, hrq_GenerationId = generationID c\<rparr>"
  obtain x c1 n1 where x: "c_call net (coordAddr c) ?rpc c n = (x, c1, n1)" by (metis prod_cases3)
  have p: "P (positions c1)" using c_call_frame [OF x] assms(2) by simp
  obtain z c2 n2 where z: "findCoordinator net c1 n1 = (z, c2, n2)" by (metis prod_cases3)
  have f: "P (positions c2)" using p findCoordinator_frame [OF z] by simp
  show ?thesis
  proof (cases x)
    case (Inr st)
    then show ?thesis using assms(1) x p rebalance_keeps by (auto simp: heartbeat_tick_def split: if_splits)
  next
    case (Inl err)
    obtain be nl where e: "extractErr err = (be, nl)" by fastforce
    consider "be = Some NOT_LEADER" | "be = Some NOT_GROUP_MEMBER" | "be \<noteq> Some NOT_LEADER" "be \<noteq> Some NOT_GROUP_MEMBER" by blast
    then show ?thesis
    proof cases
      case 1
      then show ?thesis using assms(1) x Inl e p f z by (auto simp: heartbeat_tick_def split: option.splits if_splits)
    next
      case 2
      then show ?thesis using assms(1) x Inl e rebalance_keeps by (simp add: heartbeat_tick_def)
    next
      case 3
      then show ?thesis using assms(1) x Inl e p by (auto simp: heartbeat_tick_def split: option.splits BunnyErrorCode.splits)
    qed
  qed
qed

lemma poll_partition_keeps:
  assumes "poll_partition net tp off wait c n = (r, c', n')" "P (positions c)" "tp \<in> set (soughtPartitions c)"
  shows "P (positions c') \<and> soughtPartitions c' = soughtPartitions c"
proof -
  obtain x c1 n1 where x: "fetchPartition net tp off wait c n = (x, c1, n1)" by (metis prod_cases3)
  have p: "P (positions c1)" "soughtPartitions c1 = soughtPartitions c"
    using fetchPartition_frame [OF x] assms(2) by (auto simp: positions_def)
  show ?thesis
  proof (cases x)
    case (Inr a)
    then show ?thesis using assms(1,3) x p store_keeps [of c1 tp "snd a"]
      by (cases a) (auto simp: poll_partition_def poll_store_def)
  next
    case (Inl err)
    obtain be nl where e: "extractErr err = (be, nl)" by fastforce
    show ?thesis
    proof (cases "be = Some NOT_LEADER")
      case True
      then show ?thesis using assms(1) x Inl e p
        by (auto simp: poll_partition_def Let_def split: option.splits if_splits)
    next
      case False
      then show ?thesis using assms(1) x Inl e p
        by (auto simp: poll_partition_def Let_def split: option.splits if_splits BunnyErrorCode.splits)
    qed
  qed
qed

lemma poll_loop_keeps:
  assumes "poll_loop net deadline work out c n = (r, c', n')" "P (positions c)" "fst ` set work \<subseteq> set (soughtPartitions c)"
  shows "P (positions c')"
  using assms
proof (induction work arbitrary: out c n)
  case (Cons tw work)
  obtain tp off where tw: "tw = (tp, off)" by fastforce
  obtain now n1 where t: "net_now net n = (now, n1)" by fastforce
  let ?share = "go_div (go_div (deadline - now) 1000000) (int (length work) + 1)"
  let ?wait = "if ?share > MaxFetchWaitMs (c_config c) then MaxFetchWaitMs (c_config c) else ?share"
  obtain x c1 n2 where x: "poll_partition net tp off ?wait c n1 = (x, c1, n2)" by (metis prod_cases3)
  have p: "P (positions c1) \<and> soughtPartitions c1 = soughtPartitions c"
    using poll_partition_keeps [OF x Cons.prems(2)] Cons.prems(3) tw by simp
  show ?case
  proof (cases "deadline - now \<le> 0")
    case True
    then show ?thesis using Cons.prems(1,2) tw t by simp
  next
    case False
    then show ?thesis using Cons.prems(1,3) Cons.IH [of _ c1 n2] tw t x p by (cases x) (auto simp: Let_def)
  qed
qed simp

lemma Poll_keeps:
  assumes "Poll net loads maxWaitMs c n = Some (r, c', n')" "P (positions c)"
  shows "P (positions c')"
proof -
  obtain now n1 where t: "net_now net n = (now, n1)" by fastforce
  have "P (positions c')" if "poll_loop net deadline (poll_begin c) [] c n1 = (r, c', n')" for deadline
    by (rule poll_loop_keeps [OF that assms(2)]) (auto simp: poll_begin_def)
  then show ?thesis using assms t by (auto simp: Poll_def Let_def split: option.splits if_splits)
qed

end

section \<open>Runs of a consumer\<close>

text \<open>One call of the user, one tick of the heartbeat goroutine, or anything else in the world.\<close>

inductive client_step :: "'n net \<Rightarrow> Consumer \<times> 'n \<Rightarrow> Consumer \<times> 'n \<Rightarrow> bool" for net where
  step_subscribe: "Subscribe net topics c n = (r, c', n') \<Longrightarrow> client_step net (c, n) (c', n')"
| step_seek: "client_step net (c, n) (Seek tp off c, n)"
| step_poll: "Poll net loads maxWaitMs c n = Some (r, c', n') \<Longrightarrow> client_step net (c, n) (c', n')"
| step_commit: "CommitOffsets net offs c n = (r, c', n') \<Longrightarrow> client_step net (c, n) (c', n')"
| step_heartbeat: "heartbeat_tick net c n = (c', n') \<Longrightarrow> client_step net (c, n) (c', n')"
| step_world: "client_step net (c, n) (c, n')"

inductive_cases client_stepE: "client_step net x y"

context positions_inv
begin

lemma client_step_keeps:
  "client_step net x y \<Longrightarrow> P (positions (fst x)) \<Longrightarrow> P (positions (fst y))"
  by (induction rule: client_step.induct) (auto intro: Subscribe_keeps seek_keeps Poll_keeps heartbeat_keeps dest: CommitOffsets_frame)

lemma client_run_keeps:
  "(client_step net)\<^sup>*\<^sup>* x y \<Longrightarrow> P (positions (fst x)) \<Longrightarrow> P (positions (fst y))"
  by (induction rule: rtranclp_induct) (auto intro: client_step_keeps)

end

section \<open>The two properties\<close>

text \<open>The partitions that are polled are those with a position, each once.\<close>

definition tracked :: "TP list \<times> (TP, int) gomap \<Rightarrow> bool" where
  "tracked x \<longleftrightarrow> distinct (fst x) \<and> map_ok (snd x) \<and> set (fst x) = set (mkeys (snd x))"

lemma Seek_positions:
  "positions (Seek tp off c) =
     (if map_of (fetchOffsets c) tp = None then soughtPartitions c @ [tp] else soughtPartitions c, mput tp off (fetchOffsets c))"
  by (simp add: Seek_def positions_def Let_def)

interpretation pos: positions_inv tracked
proof
  show "tracked (positions (Seek tp off c))" if "tracked (positions c)" for c tp off
    using that mkeys_iff [of tp "fetchOffsets c"] unfolding Seek_positions by (auto simp: tracked_def positions_def)
  show "tracked ([], [])" by (simp add: tracked_def mkeys_def)
  show "tracked (positions (poll_store tp off c))" if "tracked (positions c)" "tp \<in> set (soughtPartitions c)" for c tp off
    using that by (auto simp: tracked_def positions_def poll_store_def)
qed

text \<open>A partition with a position that no poll visits.\<close>

definition stalled :: "TP \<Rightarrow> TP list \<times> (TP, int) gomap \<Rightarrow> bool" where
  "stalled tp x \<longleftrightarrow> map_of (snd x) tp \<noteq> None \<and> tp \<notin> set (fst x)"

interpretation stl: seek_closed "stalled tp" for tp
  by unfold_locales (auto simp: stalled_def positions_def Seek_def Let_def)

end
