(* ===== verification/GroupClient.thy ===== *)
theory GroupClient
  imports ConsumerLemmas MetaGroups
begin

text \<open>
  Lemmas about the offsets of a consumer group, from the consumer that commits them to the one
  that takes the partitions over.
\<close>

section \<open>Starting at committed offsets\<close>

lemma seek_assigned_committed:
  assumes "\<forall>tp \<in> set tps. \<exists>off. map_of committed tp = Some off \<and> 0 \<le> off"
  shows "seek_assigned net committed tps c n = (None, fold (\<lambda>tp. Seek tp (the (map_of committed tp))) tps c, n)"
  using assms by (induction tps arbitrary: c) (auto simp: start_offset_def)

lemma fold_Seek_offsets:
  "map_of (fetchOffsets (fold (\<lambda>tp. Seek tp (f tp)) tps c)) tp =
     (if tp \<in> set tps then Some (f tp) else map_of (fetchOffsets c) tp)"
  by (induction tps arbitrary: c) (auto simp: Seek_def Let_def)

section \<open>Offsets on the wire\<close>

lemma offsets_map_wire:
  assumes "map_ok m"
  shows "offsets_map (map (\<lambda>(tp, off). \<lparr>po_Topic = tp_Topic tp, po_PartitionId = tp_PartitionID tp, po_Offset = off\<rparr>) m) = m"
proof -
  have "offsets_map (map (\<lambda>(tp, off). \<lparr>po_Topic = tp_Topic tp, po_PartitionId = tp_PartitionID tp, po_Offset = off\<rparr>) m) =
      fold (\<lambda>(tp, off). mput tp off) m []"
    by (simp add: offsets_map_def fold_map comp_def case_prod_unfold)
  then show ?thesis using fold_mput_list [of "[]" m] assms by simp
qed

lemma committed_map_wire:
  assumes "map_ok m"
  shows "committed_map (map pb_offset m) = m"
proof -
  have "committed_map (map pb_offset m) = fold (\<lambda>(tp, off). mput tp off) m []"
    unfolding committed_map_def by (simp add: fold_map comp_def case_prod_unfold pb_offset_def TopicPartition.case_eq_if)
  then show ?thesis using fold_mput_list [of "[]" m] assms by simp
qed

lemma lookupGroupOffsets_ok: "map_ok (lookupGroupOffsets st grp ps)"
proof -
  have "map_ok (fold (\<lambda>tp r. case map_of m tp of None \<Rightarrow> r | Some offset \<Rightarrow> mput tp offset r) ps r)" if "map_ok r" for m and r :: "(TopicPartition, int) gomap"
    using that by (induction ps arbitrary: r) (auto split: option.split)
  then show ?thesis by (simp add: lookupGroupOffsets_def Let_def split: option.split)
qed

section \<open>Commit and resume\<close>

text \<open>This node leads the metadata shard and answers.\<close>

definition coordinating :: "broker_env \<Rightarrow> world \<Rightarrow> bool" where
  "coordinating e w \<longleftrightarrow> validateToken (be_sent e) (be_tokens e) = None \<and> (\<forall>a. be_dial e a) \<and> ps_sched (w_node w) = [] \<and>
     (\<exists>term. be_leader e 0 = Inr (dcc_NodeID (dc_config (w_dc w)), term, True))"

lemma env_lead_self:
  assumes "coordinating e w"
  shows "env_lead e w h = (Inr (True, []), h)"
  using assms by (auto simp: coordinating_def env_lead_def isMetadataLeader_def psim_host_def psim_meta_host_def)

lemma commit_call:
  assumes co: "coordinating e w" and g: "map_of (GroupStates (ps_meta (w_node w))) grp = Some g" "map_of (gs_Members g) mid \<noteq> None"
    and offs: "map_ok offs" "offs \<noteq> []" "set (mkeys offs) \<subseteq> set (mget0 [] (gs_Assignments g) mid)"
  shows "\<exists>w' st'. net_CommitOffset (broker_net e) conn \<lparr>crq_GroupId = grp, crq_MemberId = mid, crq_GenerationId = gs_GenerationID g,
        crq_Offsets = map (\<lambda>(tp, off). \<lparr>po_Topic = tp_Topic tp, po_PartitionId = tp_PartitionID tp, po_Offset = off\<rparr>) offs\<rparr> w = (Inr (), w') \<and>
    coordinating e w' \<and> ps_meta (w_node w') = st' \<and>
    map_of (GroupStates st') grp = Some (g\<lparr>gs_Offsets := fold (\<lambda>(tp, offset). mput tp offset) offs (gs_Offsets g)\<rparr>)"
proof -
  have q: "ps_sched (w_node w) = []" and tk: "validateToken (be_sent e) (be_tokens e) = None"
    using co by (simp_all add: coordinating_def)
  have mem: "list_all (\<lambda>tp. tp \<in> set (mget0 [] (gs_Assignments g) mid)) (mkeys offs)"
    using offs(3) by (auto simp: list_all_iff)
  let ?st = "(ps_meta (w_node w))\<lparr>GroupStates := mput grp (g\<lparr>gs_Offsets := fold (\<lambda>(tp, offset). mput tp offset) offs (gs_Offsets g)\<rparr>)
    (GroupStates (ps_meta (w_node w)))\<rparr>"
  have "CommitOffset (dh_meta (env_host e)) grp mid (gs_GenerationID g) offs (w_node w) = (None, (w_node w)\<lparr>ps_meta := ?st\<rparr>)"
    using g offs(2) mem q
    by (simp add: CommitOffset_def group_query_def query0_def psim_host_def psim_meta_host_def MetadataFSM_Lookup_def lookupGroupState_def
        members_of_def local_propose_def omitempty_def deref_def applyCommitConsumerOffset_def applyGroupStateCommitOffset_def)
  then have "net_CommitOffset (broker_net e) conn \<lparr>crq_GroupId = grp, crq_MemberId = mid, crq_GenerationId = gs_GenerationID g,
      crq_Offsets = map (\<lambda>(tp, off). \<lparr>po_Topic = tp_Topic tp, po_PartitionId = tp_PartitionID tp, po_Offset = off\<rparr>) offs\<rparr> w =
      (Inr (), w\<lparr>w_gc := w_gc w, w_node := (w_node w)\<lparr>ps_meta := ?st\<rparr>\<rparr>)"
    by (simp add: broker_net_def serve_ok [OF tk] on_group_def Server_CommitOffset_def when_leader_def env_lead_self [OF co]
        offsets_map_wire [OF offs(1)])
  moreover have "coordinating e (w\<lparr>w_gc := w_gc w, w_node := (w_node w)\<lparr>ps_meta := ?st\<rparr>\<rparr>)" using co by (simp add: coordinating_def)
  ultimately show ?thesis by (intro exI conjI) auto
qed

lemma fetch_committed_call:
  assumes co: "coordinating e w"
  shows "\<exists>w'. net_FetchCommittedOffsets (broker_net e) conn \<lparr>fcq_GroupId = grp, fcq_Partitions = tps\<rparr> w =
    (Inr (map pb_offset (lookupGroupOffsets (ps_meta (w_node w)) grp tps)), w')"
proof -
  have q: "ps_sched (w_node w) = []" and tk: "validateToken (be_sent e) (be_tokens e) = None"
    using co by (simp_all add: coordinating_def)
  have "FetchCommittedOffsets (dh_meta (env_host e)) grp tps (w_node w) = (Inr (lookupGroupOffsets (ps_meta (w_node w)) grp tps), w_node w)"
    using q by (simp add: FetchCommittedOffsets_def query0_def psim_host_def psim_meta_host_def MetadataFSM_Lookup_def lookupGroupState_def)
  then show ?thesis
    by (simp add: broker_net_def serve_ok [OF tk] on_group_def Server_FetchCommittedOffsets_def when_leader_def env_lead_self [OF co])
qed

text \<open>A consumer that commits all its positions, and one that starts with them.\<close>

lemma Commit_ok:
  assumes co: "coordinating e w" and g: "map_of (GroupStates (ps_meta (w_node w))) (GroupID (c_config c)) = Some g"
      "map_of (gs_Members g) (memberID c) \<noteq> None" "generationID c = gs_GenerationID g"
    and c: "GroupID (c_config c) \<noteq> []" "pool_open (c_pool c)" "tracked (positions c)" "soughtPartitions c \<noteq> []"
      "set (soughtPartitions c) \<subseteq> set (mget0 [] (gs_Assignments g) (memberID c))"
  shows "\<exists>c' w' offs. Commit (broker_net e) c w = (None, c', w') \<and> coordinating e w' \<and>
    map_of (GroupStates (ps_meta (w_node w'))) (GroupID (c_config c)) =
      Some (g\<lparr>gs_Offsets := fold (\<lambda>(tp, offset). mput tp offset) offs (gs_Offsets g)\<rparr>) \<and>
    map_ok offs \<and> map_of offs = map_of (fetchOffsets c)"
proof -
  let ?offs = "fold (\<lambda>tp. mput tp (mget0 0 (fetchOffsets c) tp)) (soughtPartitions c) []"
  have ok: "map_ok ?offs" by simp
  have get: "map_of ?offs tp = (if tp \<in> set (soughtPartitions c) then Some (mget0 0 (fetchOffsets c) tp) else None)" for tp
    using fold_mput_in [of tp "soughtPartitions c" "\<lambda>tp. tp" "\<lambda>tp. mget0 0 (fetchOffsets c) tp" "[]"]
      fold_mput_out [of tp "\<lambda>tp. tp" "soughtPartitions c" "\<lambda>tp. mget0 0 (fetchOffsets c) tp" "[]"] by auto
  have same: "map_of ?offs = map_of (fetchOffsets c)"
  proof
    fix tp
    have "tp \<in> set (soughtPartitions c) \<longleftrightarrow> map_of (fetchOffsets c) tp \<noteq> None"
      using c(3) mkeys_iff [of tp "fetchOffsets c"] by (simp add: tracked_def positions_def)
    then show "map_of ?offs tp = map_of (fetchOffsets c) tp" unfolding get by (auto simp: mget0_def)
  qed
  have keys: "set (mkeys ?offs) = set (soughtPartitions c)" by (auto simp: mkeys_iff get split: if_splits)
  then have ne: "?offs \<noteq> []" using c(4) by (auto simp: mkeys_def)
  obtain conn pool where p: "ConnPool_Get (be_dial e) (coordAddr c) (c_pool c) = (Inr conn, pool)"
    using ConnPool_Get_ok [of "be_dial e" "coordAddr c" "c_pool c"] co c(2) by (auto simp: coordinating_def)
  obtain w' where w': "net_CommitOffset (broker_net e) conn \<lparr>crq_GroupId = GroupID (c_config c), crq_MemberId = memberID c,
        crq_GenerationId = gs_GenerationID g,
        crq_Offsets = map (\<lambda>(tp, off). \<lparr>po_Topic = tp_Topic tp, po_PartitionId = tp_PartitionID tp, po_Offset = off\<rparr>) ?offs\<rparr> w = (Inr (), w')"
      "coordinating e w'" "map_of (GroupStates (ps_meta (w_node w'))) (GroupID (c_config c)) =
        Some (g\<lparr>gs_Offsets := fold (\<lambda>(tp, offset). mput tp offset) ?offs (gs_Offsets g)\<rparr>)"
    using commit_call [OF co g(1,2) ok ne, of conn] c(5) keys by fastforce
  then show ?thesis using c(1) g(3) p ok same by (auto simp: Commit_def CommitOffsets_def c_call_def)
qed

lemma initFetchOffsets_ok:
  assumes co: "coordinating e w" and g: "map_of (GroupStates (ps_meta (w_node w))) (GroupID (c_config c)) = Some g"
    and c: "pool_open (c_pool c)" "\<forall>tp \<in> set (assignedPartitions c). \<exists>off. map_of (gs_Offsets g) tp = Some off \<and> 0 \<le> off"
  shows "\<exists>c' w'. initFetchOffsets (broker_net e) c w = (None, c', w') \<and>
    (\<forall>tp \<in> set (assignedPartitions c). map_of (fetchOffsets c') tp = map_of (gs_Offsets g) tp)"
proof (cases "assignedPartitions c = []")
  case True
  then show ?thesis by (simp add: initFetchOffsets_def)
next
  case False
  let ?tps = "assignedPartitions c"
  let ?r = "lookupGroupOffsets (ps_meta (w_node w)) (GroupID (c_config c)) ?tps"
  have r: "map_of ?r tp = map_of (gs_Offsets g) tp" if "tp \<in> set ?tps" for tp
    using that c(2) g by (auto simp: lookupGroupOffsets_get split: option.split)
  obtain conn pool where p: "ConnPool_Get (be_dial e) (coordAddr c) (c_pool c) = (Inr conn, pool)"
    using ConnPool_Get_ok [of "be_dial e" "coordAddr c" "c_pool c"] co c(1) by (auto simp: coordinating_def)
  obtain w' where w': "net_FetchCommittedOffsets (broker_net e) conn \<lparr>fcq_GroupId = GroupID (c_config c), fcq_Partitions = ?tps\<rparr> w =
      (Inr (map pb_offset ?r), w')"
    using fetch_committed_call [OF co] by blast
  let ?c = "fold (\<lambda>tp. Seek tp (the (map_of ?r tp))) ?tps (c\<lparr>c_pool := pool\<rparr>)"
  have "initFetchOffsets (broker_net e) c w = (None, ?c, w')"
    using False p w' committed_map_wire [OF lookupGroupOffsets_ok] seek_assigned_committed [of ?tps ?r] r c(2)
    by (simp add: initFetchOffsets_def Let_def c_call_def)
  moreover have "map_of (fetchOffsets ?c) tp = map_of (gs_Offsets g) tp" if "tp \<in> set ?tps" for tp
    using that r [OF that] c(2) by (auto simp: fold_Seek_offsets)
  ultimately show ?thesis by blast
qed

end
