(* ===== verification/ClientFaults.thy ===== *)
theory ClientFaults
  imports GroupClient ClusterLemmas
begin

text \<open>
  Lemmas about the clients when something goes wrong: reads below the start of the log, the number
  of attempts of a producer, and errors of the management service.
\<close>

section \<open>Reads below the start of the log\<close>

abbreviation internal_error :: rpc_status where
  "internal_error \<equiv> status_Error CodeInternal (Literal ''internal server error'')"

lemma Fetch_below:
  assumes sv: "serving e topic pid shard w s" and off: "off < Storage_EarliestOffset s"
    and p: "po_now p < now + 1000000" and wait: "0 \<le> waitMs" "waitMs < 2 ^ 40"
  shows "Fetch (env_host e) t now topic pid off mx waitMs (p # ps) (w_dc w) (w_node w) =
    Some (Inl (StorageE ErrOffsetOutOfRange), w_dc w, w_node w)"
proof -
  note d = servingD [OF sv]
  obtain f where f: "map_of (ps_shards (w_node w)) shard = Some f" "fsm_storage f = Some s" "\<not> fsm_closed f"
    using sv by (auto simp: serving_def part_fine_def)
  have "segments s \<noteq> []" using d(7) by (simp add: storage_inv_def)
  then have rd: "Storage_Read s off mx = Inl (StorageE ErrOffsetOutOfRange)"
    using off by (simp add: Storage_Read_def Storage_EarliestOffset_def)
  note q = psim_quiet [OF d(5), of "be_os e" "be_cfg e" "be_dec e"]
  note lk = psim_lookups(1) [OF q f(1), of "be_leader e"] psim_lookups(2) [OF q, of "be_leader e"] leaderCheck_routes [OF q d(6), of "be_leader e" t]
  have "po_now p < now + waitMs * 1000000 \<and> int64 (waitMs * 1000000) = waitMs * 1000000" if "waitMs \<noteq> 0"
    using p wait that by (simp add: int64_id in_int64_def)
  then show ?thesis
    using lk f rd d(6)
    by (auto simp: Fetch_def fetchWithLongPoll_def PartitionFSM_Lookup_def read_query_def part_query_def partition_query_def
        query0_def MetadataFSM_Lookup_def routes_def split: option.splits)
qed

lemma fetch_below_call:
  assumes sv: "serving e topic pid shard w s" and clock: "steady e" and wakes: "be_wakes e \<noteq> []"
    and off: "0 \<le> off" "off < Storage_EarliestOffset s" and wait: "0 \<le> waitMs" "waitMs < 2 ^ 40"
  shows "\<exists>k. net_Fetch (broker_net e) conn \<lparr>frq_Topic = topic, frq_PartitionId = pid, frq_Offset = off, frq_MaxBytes = mx, frq_MaxWaitMs = waitMs\<rparr> w =
      (Inl internal_error, w\<lparr>w_reads := k\<rparr>)"
proof -
  let ?i = "w_reads w"
  obtain p ps where polls: "map (\<lambda>(k, wk). \<lparr>po_now = be_clock e (?i + 2 + k), po_addr = (be_clock e ?i, be_clock e ?i), po_wake = wk\<rparr>)
      (enumerate 0 (be_wakes e)) = p # ps" and p: "po_now p = be_clock e (Suc (Suc ?i))"
    using wakes by (cases "be_wakes e") auto
  have "po_now p < be_clock e (?i + 1) + 1000000" using clock p by (simp add: steady_def)
  from Fetch_below [OF sv off(2) this wait, of "(be_clock e ?i, be_clock e ?i)" "if mx \<le> 0 then defaultFetchMaxBytes else mx" ps]
  have "net_Fetch (broker_net e) conn \<lparr>frq_Topic = topic, frq_PartitionId = pid, frq_Offset = off, frq_MaxBytes = mx, frq_MaxWaitMs = waitMs\<rparr> w =
      (Inl internal_error, w\<lparr>w_reads := ?i + 2 + length (be_wakes e)\<rparr>)"
    using off(1) polls
    by (simp add: broker_net_def serve_ok [OF servingD(3) [OF sv]] fetch_handler_def Let_def Server_Fetch_def handler_error_def mapDataError_def
        split del: if_split cong: if_cong)
  then show ?thesis by blast
qed

lemma poll_partition_below:
  assumes sv: "serving e topic pid shard w s" and clock: "steady e" and wakes: "be_wakes e \<noteq> []"
    and off: "0 \<le> off" "off < Storage_EarliestOffset s" and wait: "0 \<le> waitMs" "waitMs < 2 ^ 40"
    and c: "c_knownAddrs c \<noteq> []" "pool_open (c_pool c)"
  shows "\<exists>c' k. poll_partition (broker_net e) (TopicPartition topic pid) off waitMs c w =
      (Failed (StatusErr internal_error), c', w\<lparr>w_reads := k\<rparr>) \<and>
    pool_open (c_pool c') \<and> (\<exists>pool mc. c' = c\<lparr>c_pool := pool, c_meta := mc\<rparr>)"
proof -
  obtain addr pool mc k where l: "leaderFor (broker_net e) topic pid (c_knownAddrs c) (c_pool c) (c_meta c) w =
      (Inr addr, pool, mc, w\<lparr>w_reads := k\<rparr>)" "pool_open pool"
    using leaderFor_ok [OF sv c] by blast
  obtain conn pool' where g: "ConnPool_Get (be_dial e) addr pool = (Inr conn, pool')" "pool_open pool'"
    using ConnPool_Get_ok [of "be_dial e" addr pool] servingD(4) [OF sv, of addr] l(2) by blast
  have sv': "serving e topic pid shard (w\<lparr>w_reads := k\<rparr>) s" using sv by simp
  obtain k' where "net_Fetch (broker_net e) conn \<lparr>frq_Topic = topic, frq_PartitionId = pid, frq_Offset = off,
        frq_MaxBytes = int32 (MaxFetchBytes (c_config c)), frq_MaxWaitMs = waitMs\<rparr> (w\<lparr>w_reads := k\<rparr>) = (Inl internal_error, w\<lparr>w_reads := k'\<rparr>)"
    using fetch_below_call [OF sv' clock wakes off wait, of conn "int32 (MaxFetchBytes (c_config c))"] by auto
  then have "poll_partition (broker_net e) (TopicPartition topic pid) off waitMs c w =
      (Failed (StatusErr internal_error), c\<lparr>c_pool := pool', c_meta := mc\<rparr>, w\<lparr>w_reads := k'\<rparr>)"
    using l(1) g(1) by (simp add: poll_partition_def fetchPartition_def Consumer_leaderFor_eq c_call_def is_unavailable_def)
  then show ?thesis using g(2) by (intro exI conjI) auto
qed

lemma share_bounds:
  assumes "0 < rem" "rem < 2 ^ 40 * 1000000" "0 < m"
  shows "0 \<le> go_div (go_div rem 1000000) m" "go_div (go_div rem 1000000) m < 2 ^ 40"
proof -
  have "0 \<le> rem div 1000000" "rem div 1000000 < 2 ^ 40" using assms(1,2) by (simp_all add: pos_imp_zdiv_nonneg_iff)
  moreover have "rem div 1000000 div m \<le> rem div 1000000" using zdiv_mono2 [OF calculation(1), of 1 m] assms(3) by simp
  ultimately show "0 \<le> go_div (go_div rem 1000000) m" "go_div (go_div rem 1000000) m < 2 ^ 40"
    using assms(1,3) by (simp_all add: go_div_nonneg pos_imp_zdiv_nonneg_iff)
qed

text \<open>How long a poll waits for one partition when \<open>m\<close> others follow, and a step of its loop.\<close>

definition poll_wait :: "Consumer \<Rightarrow> int \<Rightarrow> nat \<Rightarrow> int" where
  "poll_wait c remaining m =
     (if go_div (go_div remaining 1000000) (int m + 1) > MaxFetchWaitMs (c_config c) then MaxFetchWaitMs (c_config c)
      else go_div (go_div remaining 1000000) (int m + 1))"

lemma poll_wait_bounds:
  assumes "0 < remaining" "remaining < 2 ^ 40 * 1000000" "0 \<le> MaxFetchWaitMs (c_config c)" "MaxFetchWaitMs (c_config c) < 2 ^ 40"
  shows "0 \<le> poll_wait c remaining m" "poll_wait c remaining m < 2 ^ 40"
  using share_bounds [OF assms(1,2), of "int m + 1"] assms(3,4) by (auto simp: poll_wait_def)

lemma poll_loop_got:
  assumes "net_now net n = (now, n1)" "now < deadline"
    "poll_partition net tp off (poll_wait c (deadline - now) (length work)) c n1 = (Got recs, c', n')"
  shows "poll_loop net deadline ((tp, off) # work) out c n = poll_loop net deadline work (out @ recs) c' n'"
  using assms by (simp add: Let_def poll_wait_def)

lemma poll_loop_failed:
  assumes "net_now net n = (now, n1)" "now < deadline"
    "poll_partition net tp off (poll_wait c (deadline - now) (length work)) c n1 = (Failed err, c', n')"
  shows "poll_loop net deadline ((tp, off) # work) out c n = (Inl err, c', n')"
  using assms by (simp add: Let_def poll_wait_def)

section \<open>The number of attempts\<close>

text \<open>
  A network with a counter that only produce calls advance, each by one.
\<close>

locale produce_meter =
  fixes net :: "'n net" and cnt :: "'n \<Rightarrow> nat"
  assumes now_cnt: "net_now net n = (t, n') \<Longrightarrow> cnt n' = cnt n"
    and topic_cnt: "net_DescribeTopic net addr name n = (d, n') \<Longrightarrow> cnt n' = cnt n"
    and cluster_cnt: "net_DescribeCluster net addr n = (r, n') \<Longrightarrow> cnt n' = cnt n"
    and produce_cnt: "net_Produce net addr req n = (q, n') \<Longrightarrow> cnt n' = Suc (cnt n)"
begin

lemma refreshMeta_cnt: "refreshMeta net topic addrs pool mc n = (r, pool', mc', n') \<Longrightarrow> cnt n' = cnt n"
proof (induction addrs arbitrary: pool n)
  case (Cons addr addrs)
  obtain x pool1 where x: "ConnPool_Get (net_dial net) addr pool = (x, pool1)" by fastforce
  show ?case
  proof (cases x)
    case (Inl err)
    then show ?thesis using Cons x by simp
  next
    case (Inr conn)
    obtain d na where d: "net_DescribeTopic net conn topic n = (d, na)" by fastforce
    obtain r2 nb where r2: "net_DescribeCluster net conn na = (r2, nb)" by fastforce
    obtain t nc where t: "net_now net nb = (t, nc)" by fastforce
    note c = topic_cnt [OF d] cluster_cnt [OF r2] now_cnt [OF t]
    show ?thesis using Cons.prems Cons.IH [of pool1 na] Cons.IH [of pool1 nb] x Inr d r2 t c
      by (cases d; cases r2) (auto simp: Let_def)
  qed
qed simp

lemma leaderFor_cnt:
  assumes "Producer_leaderFor net topic pid p n = (r, p', n')"
  shows "cnt n' = cnt n"
proof -
  obtain t na where t: "net_now net n = (t, na)" by fastforce
  obtain x pool mc nb where x: "refreshMeta net topic (p_knownAddrs p) (p_pool p) (p_meta p) na = (x, pool, mc, nb)" by (metis prod_cases4)
  obtain y pool' mc' nc where y: "refreshMeta net topic (p_knownAddrs p) pool mc nb = (y, pool', mc', nc)" by (metis prod_cases4)
  note c = now_cnt [OF t] refreshMeta_cnt [OF x] refreshMeta_cnt [OF y]
  show ?thesis
    using assms t x y c
    by (auto simp: Producer_leaderFor_def leaderFor_def metaFor_def Let_def split: option.splits sum.splits if_splits)
qed

lemma send_attempt_cnt:
  assumes "send_attempt net topic pid b acks attempt p n = (r, p', n')"
  shows "cnt n' \<le> Suc (cnt n)"
proof -
  obtain x pa na where x: "Producer_leaderFor net topic pid p n = (x, pa, na)" by (metis prod_cases3)
  note c = leaderFor_cnt [OF x]
  show ?thesis
  proof (cases x)
    case (Inl err)
    then show ?thesis using assms x c by (simp add: send_attempt_def Let_def)
  next
    case (Inr addr)
    obtain y pool where y: "ConnPool_Get (net_dial net) addr (p_pool pa) = (y, pool)" by fastforce
    show ?thesis
    proof (cases y)
      case (Inl err)
      then show ?thesis using assms x c Inr y by (simp add: send_attempt_def Let_def)
    next
      case (Inr conn)
      obtain z nb where z: "net_Produce net conn \<lparr>prq_Topic = topic, prq_PartitionId = pid, prq_Acks = acks, prq_BatchData = b\<rparr> na = (z, nb)"
        by fastforce
      have "n' = nb" using assms x \<open>x = Inr addr\<close> y Inr z
        by (cases z) (auto simp: send_attempt_def Let_def split: option.splits BunnyErrorCode.splits prod.splits if_splits)
      then show ?thesis using produce_cnt [OF z] c by simp
    qed
  qed
qed

lemma send_loop_cnt:
  "send_loop net topic pid b acks attempt p n = (r, p', n') \<Longrightarrow>
   cnt n' \<le> cnt n + Suc (nat (Producer_MaxRetries p - attempt))"
proof (induction "nat (Producer_MaxRetries p - attempt)" arbitrary: attempt p n rule: less_induct)
  case less
  obtain x pa na where x: "send_attempt net topic pid b acks attempt p n = (x, pa, na)" by (metis prod_cases3)
  note c = send_attempt_cnt [OF x]
  show ?case
  proof (cases x)
    case (Return q)
    then show ?thesis using less.prems x c by (simp add: send_loop.simps [of net])
  next
    case Again
    then have a: "attempt < Producer_MaxRetries p" "Producer_MaxRetries pa = Producer_MaxRetries p"
      using send_attempt_again [of net topic pid b acks attempt p n pa na] x by (simp_all add: Producer_MaxRetries_def)
    have "send_loop net topic pid b acks (attempt + 1) pa na = (r, p', n')"
      using less.prems x Again by (simp add: send_loop.simps [of net topic pid b acks attempt])
    then have "cnt n' \<le> cnt na + Suc (nat (Producer_MaxRetries pa - (attempt + 1)))"
      using a by (intro less.hyps) simp_all
    then show ?thesis using c a by simp
  qed
qed

lemma metaFor_cnt:
  assumes "Producer_metaFor net topic p n = (r, p', n')"
  shows "cnt n' = cnt n" "p_config p' = p_config p"
proof -
  obtain t na where t: "net_now net n = (t, na)" by fastforce
  obtain x pool mc nb where x: "refreshMeta net topic (p_knownAddrs p) (p_pool p) (p_meta p) na = (x, pool, mc, nb)" by (metis prod_cases4)
  show "cnt n' = cnt n" "p_config p' = p_config p"
    using assms t x now_cnt [OF t] refreshMeta_cnt [OF x]
    by (auto simp: Producer_metaFor_def metaFor_def split: option.splits)
qed

lemma Send_cnt:
  assumes "Send net topic key val headers acks p n = (r, p', n')"
  shows "cnt n' \<le> cnt n + Suc (nat (Producer_MaxRetries p))"
proof -
  obtain x pa na where x: "Producer_metaFor net topic p n = (x, pa, na)" by (metis prod_cases3)
  note m = metaFor_cnt [OF x]
  obtain t nb where t: "net_now net na = (t, nb)" by fastforce
  note c = now_cnt [OF t]
  have loop: "cnt n' \<le> cnt n + Suc (nat (Producer_MaxRetries p))"
    if "send_loop net topic pid b acks 0 (pa\<lparr>p_roundRobinCounter := k\<rparr>) nb = (r, p', n')" for pid b k
    using send_loop_cnt [OF that] m c by (simp add: Producer_MaxRetries_def)
  show ?thesis
    using assms x t m c loop
    by (auto simp: Send_def sendToPartition_def Let_def split: sum.splits prod.splits)
qed

end

text \<open>Any network with a counter of the produce calls beside it.\<close>

definition beside :: "('n \<Rightarrow> 'r \<times> 'n) \<Rightarrow> 'n \<times> nat \<Rightarrow> 'r \<times> ('n \<times> nat)" where
  "beside f x = (case f (fst x) of (r, n) \<Rightarrow> (r, (n, snd x)))"

definition counted :: "'n net \<Rightarrow> ('n \<times> nat) net" where
  "counted net =
     \<lparr>net_now = beside (net_now net), net_dial = net_dial net,
      net_Produce = (\<lambda>addr req x. case net_Produce net addr req (fst x) of (r, n) \<Rightarrow> (r, (n, Suc (snd x)))),
      net_Fetch = (\<lambda>addr req. beside (net_Fetch net addr req)), net_GetOffsets = (\<lambda>addr req. beside (net_GetOffsets net addr req)),
      net_JoinGroup = (\<lambda>addr req. beside (net_JoinGroup net addr req)), net_Heartbeat = (\<lambda>addr req. beside (net_Heartbeat net addr req)),
      net_LeaveGroup = (\<lambda>addr req. beside (net_LeaveGroup net addr req)),
      net_CommitOffset = (\<lambda>addr req. beside (net_CommitOffset net addr req)),
      net_FetchCommittedOffsets = (\<lambda>addr req. beside (net_FetchCommittedOffsets net addr req)),
      net_DescribeTopic = (\<lambda>addr name. beside (net_DescribeTopic net addr name)),
      net_DescribeCluster = (\<lambda>addr. beside (net_DescribeCluster net addr))\<rparr>"

interpretation pm: produce_meter "counted net" snd for net :: "'n net"
  by unfold_locales (auto simp: counted_def beside_def split: prod.splits)

section \<open>Errors of the management service\<close>

abbreviation unknown_error :: rpc_status where
  "unknown_error \<equiv> status_with CodeInternal (Literal ''internal server error'')
     [BunnyErrorDetail UNKNOWN (Literal ''internal server error'')]"

lemma cluster_error_unmapped [simp]: "handler_error mapCoordError (ClusterE x) = Status unknown_error"
  by (simp add: handler_error_def mapCoordError_def)

lemma retry_loop_unknown: "fn n = (Inl unknown_error, n') \<Longrightarrow> retry_loop m fn a n = (Inl (StatusErr unknown_error), n')"
  by (simp add: retry_loop.simps [of m fn] admin_verdict_def)

lemma broker_mgmt_ops:
  "net_dial (broker_mgmt e) = be_dial e"
  "net_DeleteTopic (broker_mgmt e) addr name = serve e (on_node (Mgmt_DeleteTopic (psim_cluster e) name))"
  "net_CreateTopic (broker_mgmt e) addr req = serve e (\<lambda>w. on_node (\<lambda>h.
        case Mgmt_CreateTopic (psim_cluster e) (be_clock e (w_reads w) div 1000000) req (w_cc w) h of
          (Inl err, h) \<Rightarrow> (Inl err, h)
        | (Inr (info, tasks), h) \<Rightarrow> (Inr (Some info), h)) (w\<lparr>w_reads := Suc (w_reads w)\<rparr>))"
  by (simp_all add: broker_mgmt_def broker_net_def net.defs mgmt_net.defs)

lemma withRetry_unknown:
  assumes "pool_open (a_pool a)" "be_dial e (a_addr a)" "\<And>conn. fn conn w = (Inl unknown_error, w')"
  shows "\<exists>a'. withRetry (broker_mgmt e) fn a w = (Inl (StatusErr unknown_error), a', w')"
proof -
  obtain conn pool where "ConnPool_Get (be_dial e) (a_addr a) (a_pool a) = (Inr conn, pool)"
    using ConnPool_Get_ok [of "be_dial e"] assms(1,2) by blast
  then show ?thesis using retry_loop_unknown [of "fn conn" w w'] assms(3) by (simp add: withRetry_def broker_mgmt_ops)
qed

lemma CreateTopic_exists:
  assumes q: "ps_sched h = []" and t: "map_of (Topics (ps_meta h)) name \<noteq> None" "topicNameRe name"
    and n: "1 \<le> pc" "1 \<le> rf" "rf \<le> int (length (Nodes (ps_meta h)))"
  shows "CreateTopic (psim_cluster e) now name pc rf ov cc h = (Inl (ClusterE CErrTopicAlreadyExists), h)"
proof -
  let ?nodes = "sort_key ni_NodeID (mvals (Nodes (ps_meta h)))"
  have len: "int (length ?nodes) = int (length (Nodes (ps_meta h)))" by (simp add: mvals_def)
  have "?nodes \<noteq> []" using len n(2,3) by (cases ?nodes) auto
  from assign_all_ok [OF this, of "map int [0..<nat pc]" rf name] n(2) obtain rs where
    "assign_all ?nodes name (map int [0..<nat pc]) rf = Inr rs" by (auto simp: list_all_iff)
  then show ?thesis
    using q t n len
    by (simp add: CreateTopic_def env_lookup [OF q] query0_def MetadataFSM_Lookup_def Let_def syncProposeMetadata_def psim_cluster_def
        psim_meta_host_def local_propose_def deref_def applyCreateTopic_def ErrorResult_def ResultOK_def ResultErrAlreadyExists_def)
qed

lemma DeleteTopic_missing:
  "ps_sched h = [] \<Longrightarrow> map_of (Topics (ps_meta h)) name = None \<Longrightarrow>
   DeleteTopic (psim_cluster e) name h = (Some (ClusterE CErrTopicNotFound), h)"
  by (simp add: DeleteTopic_def lookup_topic_def env_lookup topic_query_def query0_def MetadataFSM_Lookup_def)

end
