(* ===== verification/ConfigEnv.thy ===== *)
theory ConfigEnv
  imports Config GoText
begin

text \<open>
  Loading of the broker configuration (\<open>internal/config/config.go\<close>).  The environment is a
  function from names to values; an unset variable reads as the empty string.  The reader of the
  configuration file is the viper library; \<open>Load\<close> takes its outcome as an argument.
\<close>

record BrokerConfig =
  bc_NodeID :: int
  bc_RaftAddress :: string
  bc_ManagementAddr :: string
  bc_DataAddr :: string
  bc_AdvertiseDataAddr :: string
  bc_DataDir :: string
  bc_RaftRTTMs :: int
  bc_Peers :: "(int, string) gomap"
  bc_AuthTokens :: "string list"
  bc_Storage :: StorageConfig
  bc_Coordinator :: CoordinatorConfig
  bc_MetricsAddr :: string
  bc_PprofAddr :: string

record rawConfig =
  rc_NodeID :: int
  rc_RaftAddress :: string
  rc_ManagementAddr :: string
  rc_DataAddr :: string
  rc_DataDir :: string
  rc_RaftRTTMs :: int
  rc_Peers :: "(string, string) gomap"
  rc_AuthTokens :: "string list"
  rc_Storage :: StorageConfig
  rc_Coordinator :: CoordinatorConfig
  rc_MetricsAddr :: string
  rc_PprofAddr :: string

fun parse_peers :: "(string \<times> string) list \<Rightarrow> (int, string) gomap \<Rightarrow> go_error + (int, string) gomap" where
  "parse_peers [] peers = Inr peers"
| "parse_peers ((k, addr) # rest) peers =
     (case ParseUint k of
        Inl err \<Rightarrow> Inl (Wrapped ''invalid peer node id'' err)
      | Inr nid \<Rightarrow> parse_peers rest (mput nid addr peers))"

definition Load :: "go_error + rawConfig \<Rightarrow> go_error + BrokerConfig" where
  "Load file =
     (case file of
        Inl err \<Rightarrow> Inl err
      | Inr raw \<Rightarrow>
          (case parse_peers (rc_Peers raw) [] of
             Inl err \<Rightarrow> Inl err
           | Inr peers \<Rightarrow>
               Inr \<lparr>bc_NodeID = rc_NodeID raw, bc_RaftAddress = rc_RaftAddress raw,
                 bc_ManagementAddr = rc_ManagementAddr raw, bc_DataAddr = rc_DataAddr raw,
                 bc_AdvertiseDataAddr = [], bc_DataDir = rc_DataDir raw, bc_RaftRTTMs = rc_RaftRTTMs raw,
                 bc_Peers = peers, bc_AuthTokens = rc_AuthTokens raw, bc_Storage = rc_Storage raw,
                 bc_Coordinator = rc_Coordinator raw, bc_MetricsAddr = rc_MetricsAddr raw,
                 bc_PprofAddr = rc_PprofAddr raw\<rparr>))"

section \<open>Environment variables\<close>

definition envInt64 :: "(string \<Rightarrow> string) \<Rightarrow> string \<Rightarrow> int \<Rightarrow> go_error + int" where
  "envInt64 env key def =
     (if env key = [] then Inr def
      else (case ParseInt (env key) of Inl err \<Rightarrow> Inl (Wrapped key err) | Inr v \<Rightarrow> Inr v))"

text \<open>\<open>Atoi\<close> reads an \<open>int\<close>, which has 64 bits on the supported platforms.\<close>

definition envInt :: "(string \<Rightarrow> string) \<Rightarrow> string \<Rightarrow> int \<Rightarrow> go_error + int" where
  "envInt env key def =
     (if env key = [] then Inr def
      else (case ParseInt (env key) of Inl err \<Rightarrow> Inl (Wrapped key err) | Inr v \<Rightarrow> Inr v))"

definition envStr :: "(string \<Rightarrow> string) \<Rightarrow> string \<Rightarrow> string \<Rightarrow> string" where
  "envStr env key def = (if env key \<noteq> [] then env key else def)"

fun members_loop :: "string list \<Rightarrow> (int, string) gomap \<Rightarrow> go_error + (int, string) gomap" where
  "members_loop [] peers = Inr peers"
| "members_loop (part # parts) peers =
     (case strings_SplitN2 (strings_TrimSpace part) (CHR ''='') of
        [k, v] \<Rightarrow>
          (case ParseUint (strings_TrimSpace k) of
             Inl err \<Rightarrow> Inl (Wrapped ''invalid node id'' err)
           | Inr nid \<Rightarrow> members_loop parts (mput nid (strings_TrimSpace v) peers))
      | _ \<Rightarrow> Inl (NewError ''invalid entry''))"

definition parseInitialMembers :: "string \<Rightarrow> go_error + (int, string) gomap" where
  "parseInitialMembers s = (if s = [] then Inr [] else members_loop (strings_Split s (CHR '','')) [])"

definition bind_env :: "go_error + 'a \<Rightarrow> ('a \<Rightarrow> go_error + 'b) \<Rightarrow> go_error + 'b" where
  "bind_env r f = (case r of Inl e \<Rightarrow> Inl e | Inr v \<Rightarrow> f v)"

definition wrap_env :: "string \<Rightarrow> go_error + 'a \<Rightarrow> go_error + 'a" where
  "wrap_env key r = (case r of Inl e \<Rightarrow> Inl (Wrapped key e) | Inr v \<Rightarrow> Inr v)"

definition LoadFromEnv :: "(string \<Rightarrow> string) \<Rightarrow> go_error + BrokerConfig" where
  "LoadFromEnv env =
     bind_env (wrap_env ''NODE_ID'' (ParseUint (env ''NODE_ID''))) (\<lambda>nodeID.
     bind_env (wrap_env ''INITIAL_MEMBERS'' (parseInitialMembers (env ''INITIAL_MEMBERS''))) (\<lambda>peers.
     bind_env (if env ''RAFT_RTT_MS'' = [] then Inr 200
               else wrap_env ''RAFT_RTT_MS'' (ParseUint (env ''RAFT_RTT_MS''))) (\<lambda>rttMs.
     let dataAddr = envStr env ''DATA_ADDR'' '':9092'' in
     bind_env (envInt64 env ''GROUP_SWEEP_INTERVAL_MS'' 0) (\<lambda>groupSweepIntervalMs.
     bind_env (envInt64 env ''RETENTION_CHECK_INTERVAL_MS'' 0) (\<lambda>retentionCheckIntervalMs.
     bind_env (envInt64 env ''SEGMENT_MAX_BYTES'' (128 * 1024 * 1024)) (\<lambda>segmentMaxBytes.
     bind_env (envInt env ''INDEX_SAMPLE_BYTES'' 4096) (\<lambda>indexSampleBytes.
     bind_env (envInt64 env ''BOOTSTRAP_TIMEOUT_MS'' 30000) (\<lambda>bootstrapTimeoutMs.
     bind_env (envInt64 env ''RECONCILE_INTERVAL_MS'' 500) (\<lambda>reconcileIntervalMs.
     bind_env (envInt64 env ''LEADER_CHECK_INTERVAL_MS'' 1000) (\<lambda>leaderCheckIntervalMs.
       Inr \<lparr>bc_NodeID = nodeID, bc_RaftAddress = env ''RAFT_ADDR'',
         bc_ManagementAddr = envStr env ''MGMT_ADDR'' '':9091'', bc_DataAddr = dataAddr,
         bc_AdvertiseDataAddr = envStr env ''ADVERTISE_DATA_ADDR'' dataAddr,
         bc_DataDir = env ''DATA_DIR'', bc_RaftRTTMs = rttMs, bc_Peers = peers, bc_AuthTokens = [],
         bc_Storage = \<lparr>SegmentMaxBytes = segmentMaxBytes, IndexSampleBytes = indexSampleBytes,
           RetentionCheckIntervalMs = retentionCheckIntervalMs, DefaultRetentionMs = 0, DefaultRetentionBytes = 0\<rparr>,
         bc_Coordinator = \<lparr>ReconcileIntervalMs = reconcileIntervalMs, LeaderCheckIntervalMs = leaderCheckIntervalMs,
           BootstrapTimeoutMs = bootstrapTimeoutMs, EagerReconcileOnCreate = False,
           GroupSweepIntervalMs = groupSweepIntervalMs\<rparr>,
         bc_MetricsAddr = [], bc_PprofAddr = []\<rparr>))))))))))"

section \<open>The member list round trip\<close>

definition print_members :: "(int \<times> string) list \<Rightarrow> string" where
  "print_members ms = strings_Join (map (\<lambda>(nid, addr). format_int nid @ ''='' @ addr) ms) (CHR '','')"

definition member_ok :: "int \<times> string \<Rightarrow> bool" where
  "member_ok m \<longleftrightarrow> 0 \<le> fst m \<and> fst m < 2 ^ 64 \<and> list_all plain_byte (snd m) \<and> CHR '','' \<notin> set (snd m)"

lemma format_nat_plain: "list_all plain_byte (format_nat n)" "CHR '','' \<notin> set (format_nat n)" "CHR ''='' \<notin> set (format_nat n)"
  using format_nat_digits [of n] by (auto simp: list_all_iff is_digit_def plain_byte_def)

lemma ParseUint_format: "0 \<le> i \<Longrightarrow> i < 2 ^ 64 \<Longrightarrow> ParseUint (format_int i) = Inr i"
  by (simp add: ParseUint_def format_int_def)

lemma member_line:
  assumes "member_ok (i, a)"
  shows "members_loop ((format_int i @ ''='' @ a) # parts) peers = members_loop parts (mput i a peers)"
    "CHR '','' \<notin> set (format_int i @ ''='' @ a)"
proof -
  have f: "format_int i = format_nat (nat i)" "list_all plain_byte (format_int i)"
    using assms format_nat_plain by (simp_all add: format_int_def member_ok_def)
  have p: "list_all plain_byte a" using assms by (simp add: member_ok_def)
  have "plain_byte (CHR ''='')" by (simp add: plain_byte_def)
  then have t: "strings_TrimSpace (format_int i @ ''='' @ a) = format_int i @ ''='' @ a"
    "strings_TrimSpace (format_int i) = format_int i" "strings_TrimSpace a = a"
    using f(2) p by (auto intro!: TrimSpace_plain)
  have "strings_SplitN2 (format_int i @ ''='' @ a) (CHR ''='') = [format_int i, a]"
    using SplitN2_pair [of "CHR ''=''" "format_int i" a] f(1) format_nat_plain(3) by simp
  then show "members_loop ((format_int i @ ''='' @ a) # parts) peers = members_loop parts (mput i a peers)"
    using t assms ParseUint_format [of i] by (simp add: member_ok_def)
  show "CHR '','' \<notin> set (format_int i @ ''='' @ a)"
    using f(1) format_nat_plain(2) assms by (simp add: member_ok_def)
qed

lemma members_loop_print:
  "list_all member_ok ms \<Longrightarrow>
   members_loop (map (\<lambda>(nid, addr). format_int nid @ ''='' @ addr) ms) peers = Inr (fold (\<lambda>(nid, addr). mput nid addr) ms peers)"
  by (induction ms arbitrary: peers) (auto simp: member_line(1) [unfolded append.simps] simp del: members_loop.simps(2))

lemma parseInitialMembers_print:
  assumes "list_all member_ok ms"
  shows "parseInitialMembers (print_members ms) = Inr (fold (\<lambda>(nid, addr). mput nid addr) ms [])"
proof (cases ms)
  case (Cons m ms')
  let ?ws = "map (\<lambda>(nid, addr). format_int nid @ ''='' @ addr) ms"
  have "\<forall>w \<in> set ?ws. CHR '','' \<notin> set w" using assms member_line(2) by (auto simp: list_all_iff)
  then have "strings_Split (strings_Join ?ws (CHR '','')) (CHR '','') = ?ws" using Cons by (intro Split_Join) simp_all
  moreover have "strings_Join ?ws (CHR '','') \<noteq> []"
  proof
    assume "strings_Join ?ws (CHR '','') = []"
    then have "?ws = [[]]" using calculation by simp
    then show False using Cons by (auto simp: split_beta)
  qed
  ultimately show ?thesis using members_loop_print [OF assms, of "[]"]
    by (simp add: parseInitialMembers_def print_members_def)
qed (simp add: parseInitialMembers_def print_members_def)

end
