(* ===== verification/PropsClient.thy ===== *)
theory PropsClient
  imports ClientFaults PropsData PropsCluster ConfigEnv
begin

text \<open>
  The properties of the clients, most of them on a broker: the way of a record from \<open>Send\<close> to
  \<open>Poll\<close>, the delivery of a whole log, committed offsets, the positions of a consumer, and what
  becomes of errors.
\<close>

section \<open>An example\<close>

text \<open>One broker with one topic of one partition, which it leads.\<close>

definition demo_topics :: MetadataState where
  "demo_topics = NewMetadataFSM\<lparr>
     Topics := [(''a'', \<lparr>tm_Name = ''a'', tm_PartitionCount = 1, tm_ReplicationFactor = 1, tm_RetentionMs = 0, tm_RetentionBytes = - 1,
       tm_CreatedAtMs = 0\<rparr>)],
     Partitions := [(PartitionKey ''a'' 0, demo_part)],
     Nodes := [(2, \<lparr>ni_NodeID = 2, ni_Address = ''b:9092''\<rparr>)],
     GroupStates := [(''g'', \<lparr>gs_GroupID = ''g'', gs_Members = [(''m'', \<lparr>ms_MemberID = ''m'', ms_SubscribedTopics = [''a''],
         ms_SessionTimeoutMs = 30000, ms_HeartbeatIntervalMs = 3000, ms_JoinedAt = 0\<rparr>)],
       gs_GenerationID = 1, gs_Assignments = [(''m'', [TopicPartition ''a'' 0])], gs_Offsets = []\<rparr>)],
     NextShardID := 2\<rparr>"

definition demo_broker :: broker_env where
  "demo_broker = \<lparr>be_os = demo_os, be_cfg = demo_cfg, be_dec = (\<lambda>_. Inr (0, 0)), be_marshal = (\<lambda>_ _. []),
     be_leader = (\<lambda>shard. Inr (2, 5, True)), be_clock = (\<lambda>i. int i * 1000), be_uuid = (\<lambda>i. ''m''),
     be_wakes = [Elapsed], be_dial = (\<lambda>a. True), be_tokens = [''secret''], be_sent = Some [''secret'']\<rparr>"

definition demo_world :: "PartitionFSM \<Rightarrow> world" where
  "demo_world f = \<lparr>w_node = \<lparr>ps_meta = demo_topics, ps_shards = [(1, f)], ps_sched = []\<rparr>, w_dc = demo_dc,
     w_gc = NewGroupCoordinator \<lparr>gcc_MetadataShardID = 0, ThisNodeID = 2, SessionTimeoutMinMs = 0, SessionTimeoutMaxMs = 0, SweepIntervalMs = 0\<rparr>, w_cc = demo_coord, w_reads = 0\<rparr>"

definition demo_client :: ClientConfig where
  "demo_client = \<lparr>BootstrapServers = [''b:9092''], AuthToken = ''secret'', RequestTimeout = 0,
     cf_RetryPolicy = \<lparr>MaxRetries = 0, InitialBackoff = 0, MaxBackoff = 0\<rparr>\<rparr>"

definition demo_pcfg :: ProducerConfig where
  "demo_pcfg = \<lparr>pc_Config = demo_client, pc_DefaultAcks = ACKS_ALL, pc_MetadataCacheTTL = 0\<rparr>"

definition demo_ncfg :: "string \<Rightarrow> ConsumerConfig" where
  "demo_ncfg grp = \<lparr>cn_Config = demo_client, GroupID = grp, MaxFetchBytes = 0, MaxFetchWaitMs = 0,
     AutoOffsetReset = OffsetResetLatest, HeartbeatIntervalMs = 0, cn_SessionTimeoutMs = 0\<rparr>"

definition demo_producer :: Producer where
  "demo_producer = projr (NewProducer demo_pcfg)"

definition demo_consumer :: "string \<Rightarrow> Consumer" where
  "demo_consumer grp = projr (NewConsumer (demo_ncfg grp))"

lemma demo_clients:
  "NewProducer demo_pcfg = Inr demo_producer" "NewConsumer (demo_ncfg grp) = Inr (demo_consumer grp)"
  by (simp_all add: demo_producer_def demo_consumer_def demo_pcfg_def demo_ncfg_def demo_client_def NewProducer_def NewConsumer_def Let_def)

lemma demo_consumer_fields:
  "GroupID (c_config (demo_consumer grp)) = grp" "MaxFetchWaitMs (c_config (demo_consumer grp)) = 500"
  "c_knownAddrs (demo_consumer grp) = [''b:9092'']" "pool_open (c_pool (demo_consumer grp))"
  "fetchOffsets (demo_consumer grp) = []" "soughtPartitions (demo_consumer grp) = []"
  by (simp_all add: demo_consumer_def demo_ncfg_def demo_client_def NewConsumer_def default_config_def Let_def)

lemma demo_topics_inv: "topics_inv 1 demo_topics"
  by (auto simp: topics_inv_def demo_topics_def NewMetadataFSM_def demo_part_def map_ok_def split: if_splits)

lemma demo_serving:
  assumes "part_fine demo_cfg f" "fsm_storage f = Some s" "gapless s"
  shows "serving demo_broker ''a'' 0 1 (demo_world f) s"
  using assms demo_ok demo_topics_inv
  by (auto simp: serving_def demo_broker_def demo_world_def routes_def demo_topics_def demo_dc_def demo_part_def
      StartPartitionReplica_def NewDataCoordinator_def validateToken_def)

lemma demo_steady: "steady demo_broker"
  by (simp add: steady_def demo_broker_def)

section \<open>Records from a producer to a consumer\<close>

lemma NewConsumer_fresh:
  assumes "NewConsumer cfg = Inr c"
  shows "fetchOffsets c = []" "soughtPartitions c = []" "c_knownAddrs c \<noteq> []" "pool_open (c_pool c)"
    "GroupID (c_config c) = GroupID cfg" "0 \<le> MaxFetchWaitMs (c_config c)"
  using assms by (auto simp: NewConsumer_def default_config_def Let_def split: if_splits)

text \<open>
  C1. What is sent is polled.  A fresh producer sends a record with full acknowledgement to a
  broker that leads the chosen partition, and gets back the next offset of the log; a consumer that
  seeks this offset and polls gets exactly this record, with topic, partition, offset, key, value
  and headers, and its position is behind it.
\<close>

theorem send_then_poll:
  assumes sv: "serving e topic pid shard w s" and clock: "steady e" and wakes: "be_wakes e \<noteq> []"
    and p: "NewProducer pcfg = Inr p"
    and sel: "map_of (Topics (ps_meta (w_node w))) topic = Some tm"
      "fst (selectPartition key (tm_PartitionCount tm) (p_roundRobinCounter p)) = Inr pid"
    and size: "record_size key val headers \<le> 4194304" "map_ok headers" and room: "0 \<le> nextOffset s" "nextOffset s + 1 < 2 ^ 63"
    and c: "NewConsumer ccfg = Inr c" "GroupID ccfg = []" "MaxFetchWaitMs (c_config c) < 2 ^ 40"
    and wait: "1 \<le> maxWaitMs" "maxWaitMs < 2 ^ 40"
  shows "\<exists>p' w' ts c' w''. Send (broker_net e) topic key val headers ACKS_ALL p w = (Inr (nextOffset s), p', w') \<and>
    Poll (broker_net e) loads maxWaitMs (Seek (TopicPartition topic pid) (nextOffset s) c) w' =
      Some (Inr [\<lparr>r_Topic = topic, r_PartitionID = pid, r_Offset = nextOffset s, r_Key = key, r_Val = val,
                 r_Headers = headers, r_TimestampMs = ts\<rparr>], c', w'') \<and>
    map_of (fetchOffsets c') (TopicPartition topic pid) = Some (nextOffset s + 1)"
proof -
  let ?n = "nextOffset s" and ?tp = "TopicPartition topic pid"
  have pr: "p_knownAddrs p \<noteq> []" "pool_open (p_pool p)" "map_of (mc_cache (p_meta p)) topic = None"
    using p by (auto simp: NewProducer_def NewMetaCache_def default_config_def Let_def split: if_splits)
  obtain ts b p' w' s' where snd: "Send (broker_net e) topic key val headers ACKS_ALL p w = (Inr ?n, p', w')"
      "serving e topic pid shard w' s'" "grown (be_cfg e) [b] s s'"
      "BatchEncoder_Encode [one_record key val headers ts] = Inr b" "length b \<le> 4194304"
    using Send_ok [OF sv pr sel size(1) room(2)] by blast
  note recs = batch_records_one [OF snd(4,5) size(2) room(1)]
  note enc = snd(4) [unfolded BatchEncoder_Encode_def]
  have "wf_batch b" "bcount b = 1" using EncodeBatch_wf [OF enc snd(5)] by simp_all
  then have cnt: "bcount (stamp b ?n) = 1" using bcount_overwrite(1) [of b ?n] by (simp add: stamp_def wf_batch_def framed_def)
  have log: "storage_log s' = storage_log s @ [stamp b ?n]" "Storage_EarliestOffset s' = Storage_EarliestOffset s"
    using snd(3) by (simp_all add: grown_def)
  have off: "?n = log_end (Storage_EarliestOffset s') (storage_log s)"
    using storage_log_chain(3) [OF servingD(7,8) [OF sv]] log(2) by simp
  have en: "list_all encoded [stamp b ?n]" using enc snd(5) by (auto simp: encoded_def)
  have rd: "reading loads ?tp ?n (Seek ?tp ?n c)"
    using c NewConsumer_fresh [OF c(1)] by (simp add: reading_def Seek_def)
  obtain bs rest c' k where poll: "Poll (broker_net e) loads maxWaitMs (Seek ?tp ?n c) w' =
      Some (Inr (map (client_record ?tp) (log_records bs)), c', w'\<lparr>w_reads := k\<rparr>)"
      "[stamp b ?n] = bs @ rest" "bs \<noteq> []" "reading loads ?tp (log_end ?n bs) c'"
    using Poll_ok [OF snd(2) clock wakes log(1) _ en off room(1) rd wait] by blast
  have "bs = [stamp b ?n]" using poll(2,3) by (cases bs) auto
  then show ?thesis using snd(1) poll(1,4) recs room(2) cnt
    by (auto simp: client_record_def reading_def)
qed

theorem send_then_poll_witness:
  "\<exists>p' w' ts c' w''. Send (broker_net demo_broker) ''a'' (Some [7]) [1, 2] [(''k'', [3])] ACKS_ALL demo_producer (demo_world demo_fsm) =
      (Inr 0, p', w') \<and>
    Poll (broker_net demo_broker) [] 100 (Seek (TopicPartition ''a'' 0) 0 (demo_consumer [])) w' =
      Some (Inr [\<lparr>r_Topic = ''a'', r_PartitionID = 0, r_Offset = 0, r_Key = Some [7], r_Val = [1, 2],
                 r_Headers = [(''k'', [3])], r_TimestampMs = ts\<rparr>], c', w'') \<and>
    map_of (fetchOffsets c') (TopicPartition ''a'' 0) = Some 1"
proof -
  have sv: "serving demo_broker ''a'' 0 1 (demo_world demo_fsm) demo_empty"
    by (rule demo_serving [OF demo_fsm_fine(1,2) demo_empty_ok(4)])
  have sel: "map_of (Topics (ps_meta (w_node (demo_world demo_fsm)))) ''a'' = Some (snd (hd (Topics demo_topics)))"
      "fst (selectPartition (Some [7]) (tm_PartitionCount (snd (hd (Topics demo_topics)))) (p_roundRobinCounter demo_producer)) = Inr 0"
    by (simp_all add: demo_world_def demo_topics_def selectPartition_def uint32_def int32_def)
  have size: "record_size (Some [7]) [1, 2] [(''k'', [3])] \<le> 4194304"
    by (simp add: record_size_def BatchEncoder_Encode_def BatchEncoder_record_def EncodeBatch_def Let_def encodeRecords_eq
        appendRecord_layout record_body_def headers_bytes_def key_bytes_def uvarint_def appendUvarint.simps zigzag_def word_le_def
        string_bytes_def)
  show ?thesis
    using send_then_poll [OF sv demo_steady _ demo_clients(1) sel size _ _ _ demo_clients(2) [of "[]"], of 100 "[]"] demo_empty_ok(3)
    by (simp add: demo_consumer_fields demo_ncfg_def demo_broker_def map_ok_def)
qed

text \<open>
  C5. A consumer gets the whole log.  From the start of a batch on, a log of encoded batches reaches
  a consumer within at most as many polls as there are batches: all records, each once, in the order
  of their offsets, without a gap; afterwards the consumer stands at the end of the log.
\<close>

theorem poll_delivers_log:
  assumes "serving e topic pid shard w s" "steady e" "be_wakes e \<noteq> []"
    "storage_log s = old @ todo" "list_all encoded todo" "off = log_end (Storage_EarliestOffset s) old" "0 \<le> off"
    "nextOffset s < 2 ^ 63" "reading loads (TopicPartition topic pid) off c" "1 \<le> maxWaitMs" "maxWaitMs < 2 ^ 40"
  shows "\<exists>m recs c' w'. m \<le> length todo \<and> poll_times (broker_net e) loads maxWaitMs m c w = Some (recs, c', w') \<and>
    recs = map (client_record (TopicPartition topic pid)) (log_records todo) \<and>
    map r_Offset recs = [off..nextOffset s - 1] \<and>
    map_of (fetchOffsets c') (TopicPartition topic pid) = Some (nextOffset s)"
proof -
  note ch = storage_log_chain [OF servingD(7,8) [OF assms(1)]]
  have "chain off todo" "list_all wf_batch todo" "log_end off todo = nextOffset s" using ch assms(4,6) by simp_all
  then have "map dr_Offset (log_records todo) = [off..nextOffset s - 1]"
    using log_records_offsets [OF assms(5) _ _ assms(7)] assms(8) by simp
  then have "map r_Offset (map (client_record (TopicPartition topic pid)) (log_records todo)) = [off..nextOffset s - 1]"
    by (simp add: client_record_def comp_def)
  then show ?thesis using poll_times_ok [OF assms(1-7,9-11)] by (auto simp: reading_def)
qed

definition demo_full :: PartitionFSM where
  "demo_full = demo_fsm\<lparr>fsm_storage := Some demo_store\<rparr>"

lemma demo_full_serving: "serving demo_broker ''a'' 0 1 (demo_world demo_full) demo_store"
  using demo_store_ok demo_fsm_fine(3) by (intro demo_serving) (simp_all add: demo_full_def part_fine_def)

lemma demo_store_encoded: "storage_log demo_store = [stamp sample_batch 0]" "list_all encoded (storage_log demo_store)"
proof -
  show l: "storage_log demo_store = [stamp sample_batch 0]" using demo_store_ok(4) by (simp add: stamp_def)
  have "encoded (stamp sample_batch 0)" using sample_encoded sample_length
    by (auto simp: encoded_def intro!: exI [of _ sample_records] exI [of _ sample_batch])
  then show "list_all encoded (storage_log demo_store)" by (simp add: l)
qed

theorem poll_delivers_log_witness:
  "\<exists>m recs c' w'. m \<le> 1 \<and> poll_times (broker_net demo_broker) [] 100 m (Seek (TopicPartition ''a'' 0) 0 (demo_consumer []))
      (demo_world demo_full) = Some (recs, c', w') \<and>
    map r_Offset recs = [0, 1] \<and> map_of (fetchOffsets c') (TopicPartition ''a'' 0) = Some 2"
proof -
  have rd: "reading [] (TopicPartition ''a'' 0) 0 (Seek (TopicPartition ''a'' 0) 0 (demo_consumer []))"
    by (simp add: reading_def Seek_def demo_consumer_fields)
  have "[0..1] = [0, 1::int]" by (simp add: upto_rec1)
  then show ?thesis
    using poll_delivers_log [OF demo_full_serving demo_steady _ _ demo_store_encoded(2) _ _ _ rd, of "[]" 100]
      demo_store_ok demo_store_encoded(1) by (auto simp: demo_broker_def)
qed

section \<open>Committed offsets\<close>


definition demo_member :: Consumer where
  "demo_member = Seek (TopicPartition ''a'' 0) 17 ((demo_consumer ''g'')\<lparr>memberID := ''m'', generationID := 1\<rparr>)"

lemma demo_coordinating: "coordinating demo_broker (demo_world f)"
  by (simp add: coordinating_def demo_broker_def demo_world_def validateToken_def demo_dc_def StartPartitionReplica_def NewDataCoordinator_def)


section \<open>Positions\<close>



text \<open>
  C38. A poll that runs into a rebalance takes its partition out of service.  When a poll stores the
  new position of a partition after the rebalance has cleared the positions, the partition keeps a
  position but is never polled, whatever the group coordinator answers, and seeking it changes
  nothing.
\<close>

theorem poll_during_rebalance_stalls:
  assumes "rebalance_begin c = (saved, c1)" "rebalance_finish net saved (poll_store tp nextOff c1) n = (c', n')"
  shows "map_of (fetchOffsets c') tp \<noteq> None \<and> tp \<notin> fst ` set (poll_begin c') \<and>
    tp \<notin> fst ` set (poll_begin (Seek tp off c'))"
proof -
  have "stalled tp (positions (poll_store tp nextOff c1))"
    using assms(1) by (auto simp: rebalance_begin_def stalled_def positions_def poll_store_def)
  then have "stalled tp (positions c')" by (rule stl.rebalance_finish_keeps [OF assms(2)])
  with stl.seek_keeps [OF this, of tp off] show ?thesis
    by (auto simp: stalled_def positions_def poll_begin_def)
qed

text \<open>A coordinator that assigns the partition to the consumer and accepts its commits.\<close>

definition demo_joins :: "unit net" where
  "demo_joins =
     \<lparr>net_now = Pair 0, net_dial = (\<lambda>a. True),
      net_Produce = (\<lambda>addr req. Pair (Inl internal_error)), net_Fetch = (\<lambda>addr req. Pair (Inl internal_error)),
      net_GetOffsets = (\<lambda>addr req. Pair (Inl internal_error)),
      net_JoinGroup = (\<lambda>addr req. Pair (Inr \<lparr>jrp_MemberId = ''m'', jrp_GenerationId = 2, jrp_Assignments = [TopicPartition ''a'' 0]\<rparr>)),
      net_Heartbeat = (\<lambda>addr req. Pair (Inr HEARTBEAT_REBALANCE_REQUIRED)), net_LeaveGroup = (\<lambda>addr req. Pair (Inr ())),
      net_CommitOffset = (\<lambda>addr req. Pair (Inr ())),
      net_FetchCommittedOffsets = (\<lambda>addr req. Pair (Inr [\<lparr>po_Topic = ''a'', po_PartitionId = 0, po_Offset = 17\<rparr>])),
      net_DescribeTopic = (\<lambda>addr name. Pair (Inl internal_error)), net_DescribeCluster = (\<lambda>addr. Pair (Inr []))\<rparr>"

lemma demo_joins_call:
  assumes "pool_open (c_pool c)" "\<And>conn. rpc conn () = (Inr r, ())"
  shows "\<exists>pool. c_call demo_joins addr rpc c () = (Inr r, c\<lparr>c_pool := pool\<rparr>, ()) \<and> pool_open pool"
  using ConnPool_Get_ok [of "\<lambda>a. True" addr "c_pool c"] assms by (auto simp: c_call_def demo_joins_def)

lemma demo_joins_calls:
  assumes "pool_open (c_pool c)"
  shows "c_knownAddrs c = [''b:9092''] \<Longrightarrow>
      \<exists>pool. findCoordinator demo_joins c () = (None, c\<lparr>c_pool := pool, coordAddr := ''b:9092''\<rparr>, ()) \<and> pool_open pool"
    "\<exists>pool. doJoinGroup demo_joins topics c () =
      (Inr \<lparr>jrp_MemberId = ''m'', jrp_GenerationId = 2, jrp_Assignments = [TopicPartition ''a'' 0]\<rparr>, c\<lparr>c_pool := pool\<rparr>, ()) \<and> pool_open pool"
    "\<exists>pool. c_call demo_joins addr (\<lambda>conn. net_FetchCommittedOffsets demo_joins conn freq) c () =
      (Inr [\<lparr>po_Topic = ''a'', po_PartitionId = 0, po_Offset = 17\<rparr>], c\<lparr>c_pool := pool\<rparr>, ()) \<and> pool_open pool"
    "\<exists>pool. CommitOffsets demo_joins offs c () = (None, c\<lparr>c_pool := pool\<rparr>, ())"
proof -
  note call = demo_joins_call [OF assms]
  show "\<exists>pool. findCoordinator demo_joins c () = (None, c\<lparr>c_pool := pool, coordAddr := ''b:9092''\<rparr>, ()) \<and> pool_open pool"
    if "c_knownAddrs c = [''b:9092'']"
    using call [of "net_DescribeCluster demo_joins" "[]" "''b:9092''"] that by (auto simp: findCoordinator_def demo_joins_def)
  show "\<exists>pool. doJoinGroup demo_joins topics c () =
      (Inr \<lparr>jrp_MemberId = ''m'', jrp_GenerationId = 2, jrp_Assignments = [TopicPartition ''a'' 0]\<rparr>, c\<lparr>c_pool := pool\<rparr>, ()) \<and> pool_open pool"
    unfolding doJoinGroup_def by (rule call) (simp add: demo_joins_def)
  show "\<exists>pool. c_call demo_joins addr (\<lambda>conn. net_FetchCommittedOffsets demo_joins conn freq) c () =
      (Inr [\<lparr>po_Topic = ''a'', po_PartitionId = 0, po_Offset = 17\<rparr>], c\<lparr>c_pool := pool\<rparr>, ()) \<and> pool_open pool"
    by (rule call) (simp add: demo_joins_def)
  let ?rpc = "\<lambda>conn. net_CommitOffset demo_joins conn \<lparr>crq_GroupId = GroupID (c_config c), crq_MemberId = memberID c,
    crq_GenerationId = generationID c,
    crq_Offsets = map (\<lambda>(tp, off). \<lparr>po_Topic = tp_Topic tp, po_PartitionId = tp_PartitionID tp, po_Offset = off\<rparr>) offs\<rparr>"
  obtain pool where "c_call demo_joins (coordAddr c) ?rpc c () = (Inr (), c\<lparr>c_pool := pool\<rparr>, ())"
    using call [of ?rpc "()" "coordAddr c"] by (auto simp: demo_joins_def)
  moreover have "\<exists>pool. c = c\<lparr>c_pool := pool\<rparr>" by (rule exI [of _ "c_pool c"]) simp
  ultimately show "\<exists>pool. CommitOffsets demo_joins offs c () = (None, c\<lparr>c_pool := pool\<rparr>, ())"
    by (cases "GroupID (c_config c) = []") (auto simp: CommitOffsets_def)
qed

lemma demo_joins_finish:
  assumes c: "c_knownAddrs c = [''b:9092'']" "pool_open (c_pool c)"
  shows "\<exists>c'. rebalance_finish demo_joins [(TopicPartition ''a'' 0, 17)] c () = (c', ()) \<and> assignedPartitions c' = [TopicPartition ''a'' 0]"
proof -
  let ?tp = "TopicPartition ''a'' 0"
  obtain pa where a: "findCoordinator demo_joins c () = (None, c\<lparr>c_pool := pa, coordAddr := ''b:9092''\<rparr>, ())" "pool_open pa"
    using demo_joins_calls(1) [OF c(2,1)] by blast
  let ?a = "c\<lparr>c_pool := pa, coordAddr := ''b:9092''\<rparr>"
  obtain pb where b: "doJoinGroup demo_joins (subscribedTopics c) ?a () =
      (Inr \<lparr>jrp_MemberId = ''m'', jrp_GenerationId = 2, jrp_Assignments = [?tp]\<rparr>, ?a\<lparr>c_pool := pb\<rparr>, ())" "pool_open pb"
    using demo_joins_calls(2) [of ?a "subscribedTopics c"] a(2) by auto
  let ?b = "?a\<lparr>c_pool := pb, memberID := ''m'', generationID := 2, assignedPartitions := [?tp]\<rparr>"
  obtain pc where d: "c_call demo_joins (coordAddr ?b) (\<lambda>conn. net_FetchCommittedOffsets demo_joins conn
        \<lparr>fcq_GroupId = GroupID (c_config ?b), fcq_Partitions = [?tp]\<rparr>) ?b () =
      (Inr [\<lparr>po_Topic = ''a'', po_PartitionId = 0, po_Offset = 17\<rparr>], ?b\<lparr>c_pool := pc\<rparr>, ())" "pool_open pc"
    using demo_joins_calls(3) [of ?b "coordAddr ?b" "\<lparr>fcq_GroupId = GroupID (c_config ?b), fcq_Partitions = [?tp]\<rparr>"] b(2) by auto
  let ?c = "Seek ?tp 17 (?b\<lparr>c_pool := pc\<rparr>)"
  have j: "joinGroup demo_joins (subscribedTopics c) c () = (None, ?c, ())"
    using a(1) b(1) d(1) by (simp add: joinGroup_def joined_def initFetchOffsets_def committed_map_def start_offset_def)
  have as: "assignedPartitions ?c = [?tp]" "pool_open (c_pool ?c)" using d(2) by (simp_all add: Seek_def Let_def)
  obtain pool where "CommitOffsets demo_joins [(?tp, 17)] ?c () = (None, ?c\<lparr>c_pool := pool\<rparr>, ())"
    using demo_joins_calls(4) [OF as(2)] by blast
  then show ?thesis using j as(1) by (simp add: rebalance_finish_def) (simp add: Seek_def Let_def)
qed

theorem poll_during_rebalance_stalls_witness:
  "\<exists>saved c1 c'. rebalance_begin demo_member = (saved, c1) \<and>
    rebalance_finish demo_joins saved (poll_store (TopicPartition ''a'' 0) 20 c1) () = (c', ()) \<and>
    assignedPartitions c' = [TopicPartition ''a'' 0] \<and>
    map_of (fetchOffsets c') (TopicPartition ''a'' 0) \<noteq> None \<and> TopicPartition ''a'' 0 \<notin> fst ` set (poll_begin c')"
proof -
  let ?tp = "TopicPartition ''a'' 0"
  let ?c1 = "demo_member\<lparr>soughtPartitions := [], fetchOffsets := []\<rparr>"
  have b: "rebalance_begin demo_member = ([(?tp, 17)], ?c1)"
    by (simp add: rebalance_begin_def demo_member_def Seek_def Let_def demo_consumer_fields)
  have "\<exists>c'. rebalance_finish demo_joins [(?tp, 17)] (poll_store ?tp 20 ?c1) () = (c', ()) \<and> assignedPartitions c' = [?tp]"
  proof (rule demo_joins_finish)
    show "c_knownAddrs (poll_store ?tp 20 ?c1) = [''b:9092'']" "pool_open (c_pool (poll_store ?tp 20 ?c1))"
      by (simp_all add: poll_store_def demo_member_def Seek_def Let_def demo_consumer_fields)
  qed
  then obtain c' where c': "rebalance_finish demo_joins [(?tp, 17)] (poll_store ?tp 20 ?c1) () = (c', ())" "assignedPartitions c' = [?tp]"
    by blast
  note st = poll_during_rebalance_stalls [OF b c'(1), of 0]
  show ?thesis
    by (intro exI conjI) (rule b, rule c'(1), rule c'(2), rule st [THEN conjunct1], rule st [THEN conjunct2, THEN conjunct1])
qed

end
