(* ===== verification/PropsFaults.thy ===== *)
theory PropsFaults
  imports PropsClient
begin

text \<open>
  The properties of the clients and the broker when something goes wrong: bounded attempts, what
  happens to records when a poll fails, how errors reach the administrator, and the retention that
  a configuration from the environment leads to.
\<close>

section \<open>Sending\<close>

text \<open>
  C36. A send makes a bounded number of attempts.  On any network, whatever it answers, \<open>Send\<close>
  issues at most one produce call more than the policy allows retries.
\<close>

theorem send_attempts_bounded:
  "snd (snd (snd (Send (counted net) topic key val headers acks p (n, 0)))) \<le> Suc (nat (Producer_MaxRetries p))"
proof -
  obtain r p' n' where "Send (counted net) topic key val headers acks p (n, 0) = (r, p', n')" by (metis prod_cases3)
  with pm.Send_cnt [OF this] show ?thesis by simp
qed

section \<open>Administration\<close>

text \<open>
  The management service loses the reason of an error.  Creating a topic that exists and
  deleting one that does not both fail at the administrator with the same internal error and the
  code \<open>UNKNOWN\<close>: neither \<open>TOPIC_ALREADY_EXISTS\<close> nor \<open>TOPIC_NOT_FOUND\<close> ever arrives.
\<close>

theorem management_errors_lost:
  assumes "NewAdminClient cfg = Inr a" "validateToken (be_sent e) (be_tokens e) = None" "be_dial e (a_addr a)" "ps_sched (w_node w) = []"
    "map_of (Topics (ps_meta (w_node w))) (ccr_Name req) \<noteq> None" "topicNameRe (ccr_Name req)" "1 \<le> ccr_PartitionCount req"
    "1 \<le> ccr_ReplicationFactor req" "ccr_ReplicationFactor req \<le> int (length (Nodes (ps_meta (w_node w))))"
    "map_of (Topics (ps_meta (w_node w))) missing = None"
  shows "fst (Admin_CreateTopic (broker_mgmt e) req a w) = Inl (StatusErr unknown_error) \<and>
    fst (Admin_DeleteTopic (broker_mgmt e) missing a w) = Inl (StatusErr unknown_error)"
proof
  have po: "pool_open (a_pool a)" using assms(1) by (auto simp: NewAdminClient_def Let_def split: if_splits)
  let ?req = "\<lparr>ctq_Name = ccr_Name req, ctq_PartitionCount = ccr_PartitionCount req,
        ctq_ReplicationFactor = ccr_ReplicationFactor req, ctq_RetentionMs = ccr_RetentionMs req,
        ctq_RetentionBytes = ccr_RetentionBytes req\<rparr>"
  let ?w = "w\<lparr>w_node := w_node w, w_reads := Suc (w_reads w)\<rparr>"
  have "net_CreateTopic (broker_mgmt e) conn ?req w = (Inl unknown_error, ?w)" for conn
    using CreateTopic_exists [OF assms(4-9)]
    by (simp add: broker_mgmt_ops serve_ok [OF assms(2)] on_node_def Mgmt_CreateTopic_def Let_def)
  from withRetry_unknown [where fn = "\<lambda>conn. net_CreateTopic (broker_mgmt e) conn ?req", OF po assms(3) this]
  show "fst (Admin_CreateTopic (broker_mgmt e) req a w) = Inl (StatusErr unknown_error)"
    by (auto simp: Admin_CreateTopic_def on_result_def)
  have "net_DeleteTopic (broker_mgmt e) conn missing w = (Inl unknown_error, w\<lparr>w_node := w_node w\<rparr>)" for conn
    using DeleteTopic_missing [OF assms(4,10)]
    by (simp add: broker_mgmt_ops serve_ok [OF assms(2)] on_node_def Mgmt_DeleteTopic_def)
  from withRetry_unknown [where fn = "\<lambda>conn. net_DeleteTopic (broker_mgmt e) conn missing", OF po assms(3) this]
  show "fst (Admin_DeleteTopic (broker_mgmt e) missing a w) = Inl (StatusErr unknown_error)"
    by (auto simp: Admin_DeleteTopic_def)
qed

definition demo_create :: CliCreateTopicRequest where
  "demo_create = \<lparr>ccr_Name = ''a'', ccr_PartitionCount = 1, ccr_ReplicationFactor = 1, ccr_RetentionMs = 0, ccr_RetentionBytes = 0\<rparr>"

theorem management_errors_lost_witness:
  "fst (Admin_CreateTopic (broker_mgmt demo_broker) demo_create (projr (NewAdminClient demo_client)) (demo_world demo_fsm)) =
      Inl (StatusErr unknown_error) \<and>
   fst (Admin_DeleteTopic (broker_mgmt demo_broker) ''z'' (projr (NewAdminClient demo_client)) (demo_world demo_fsm)) =
      Inl (StatusErr unknown_error)"
  by (rule management_errors_lost [where cfg = demo_client])
    (simp_all add: NewAdminClient_def demo_client_def default_config_def Let_def demo_broker_def validateToken_def demo_world_def demo_create_def
      demo_topics_def NewMetadataFSM_def topicNameRe_def topic_char_def)

section \<open>Polling\<close>

text \<open>
  A poll that fails loses records.  A consumer reads two partitions, of which the second one is
  read below the start of its log, where retention has deleted the segments: the poll returns an
  error and no records, although it has fetched records of the first partition and moved the
  position beyond them.  (All readings of the clock lie within the wait time of the poll.)
\<close>

theorem poll_failure_drops_records:
  assumes sv: "serving e topic pid shard w s" and sv2: "serving e topic2 pid2 shard2 w s2"
    and clock: "steady e" "\<forall>i j. be_clock e i < be_clock e j + maxWaitMs * 1000000" and wakes: "be_wakes e \<noteq> []"
    and log: "storage_log s = old @ todo" "todo \<noteq> []" "list_all encoded todo"
    and off: "off = log_end (Storage_EarliestOffset s) old" "0 \<le> off" and off2: "0 \<le> off2" "off2 < Storage_EarliestOffset s2"
    and c: "NewConsumer ccfg = Inr c" "GroupID ccfg = []" "MaxFetchWaitMs (c_config c) < 2 ^ 40"
    and ne: "(topic, pid) \<noteq> (topic2, pid2)" and wait: "1 \<le> maxWaitMs" "maxWaitMs < 2 ^ 39"
  shows "\<exists>c' w' off'. Poll (broker_net e) loads maxWaitMs (Seek (TopicPartition topic2 pid2) off2 (Seek (TopicPartition topic pid) off c)) w =
      Some (Inl (StatusErr internal_error), c', w') \<and>
    map_of (fetchOffsets c') (TopicPartition topic pid) = Some off' \<and> off < off'"
proof -
  let ?tp = "TopicPartition topic pid" and ?tp2 = "TopicPartition topic2 pid2" and ?i = "w_reads w"
  let ?c = "Seek ?tp2 off2 (Seek ?tp off c)"
  have cf: "soughtPartitions ?c = [?tp, ?tp2]" "map_of (fetchOffsets ?c) ?tp = Some off" "map_of (fetchOffsets ?c) ?tp2 = Some off2"
    "c_knownAddrs ?c \<noteq> []" "pool_open (c_pool ?c)" "GroupID (c_config ?c) = []" "0 \<le> MaxFetchWaitMs (c_config ?c)"
    "MaxFetchWaitMs (c_config ?c) < 2 ^ 40"
    using NewConsumer_fresh [OF c(1)] c(2,3) ne by (auto simp: Seek_def Let_def)
  let ?deadline = "be_clock e ?i + maxWaitMs * 1000000"
  have rem: "0 < ?deadline - be_clock e i" "?deadline - be_clock e i < 2 ^ 40 * 1000000" for i
    using clock(2) [rule_format, of i ?i] clock(2) [rule_format, of ?i i] wait(2) by simp_all
  note lim = poll_wait_bounds [OF rem cf(7,8)]
  have "int64 (maxWaitMs * 1000000) = maxWaitMs * 1000000" using wait by (simp add: int64_id in_int64_def)
  then have poll: "Poll (broker_net e) loads maxWaitMs ?c w =
      Some (poll_loop (broker_net e) ?deadline [(?tp, off), (?tp2, off2)] [] ?c (w\<lparr>w_reads := Suc ?i\<rparr>))"
    using cf by (simp add: Poll_def poll_begin_def mget0_def)
  have sv': "serving e topic pid shard (w\<lparr>w_reads := Suc (Suc ?i)\<rparr>) s" using sv by simp
  obtain bs rest c1 k pool mc where f: "fetchPartition (broker_net e) ?tp off (poll_wait ?c (?deadline - be_clock e (Suc ?i)) 1) ?c
        (w\<lparr>w_reads := Suc (Suc ?i)\<rparr>) = (Inr (map (client_record ?tp) (log_records bs), log_end off bs), c1, w\<lparr>w_reads := k\<rparr>)"
      "todo = bs @ rest" "bs \<noteq> []" "pool_open (c_pool c1)" "c1 = ?c\<lparr>c_pool := pool, c_meta := mc\<rparr>"
    using fetchPartition_ok [OF sv' clock(1) wakes log off cf(4,5) lim(1,2) [of "Suc ?i" 1]] by auto
  let ?c1 = "poll_store ?tp (log_end off bs) c1"
  have c1: "c_knownAddrs ?c1 \<noteq> []" "pool_open (c_pool ?c1)" "c_config ?c1 = c_config ?c" "map_of (fetchOffsets ?c1) ?tp = Some (log_end off bs)"
    using f(4,5) cf(4) by (simp_all add: poll_store_def)
  have sv2': "serving e topic2 pid2 shard2 (w\<lparr>w_reads := Suc k\<rparr>) s2" using sv2 by simp
  obtain c' k' where g: "poll_partition (broker_net e) ?tp2 off2 (poll_wait ?c1 (?deadline - be_clock e k) 0) ?c1 (w\<lparr>w_reads := Suc k\<rparr>) =
      (Failed (StatusErr internal_error), c', w\<lparr>w_reads := k'\<rparr>)" "fetchOffsets c' = fetchOffsets ?c1"
    using poll_partition_below [OF sv2' clock(1) wakes off2 poll_wait_bounds [OF rem, of ?c1 k 0] c1(1,2)] cf(7,8) c1(3) by auto
  have "poll_loop (broker_net e) ?deadline [(?tp, off), (?tp2, off2)] [] ?c (w\<lparr>w_reads := Suc ?i\<rparr>) =
      poll_loop (broker_net e) ?deadline [(?tp2, off2)] ([] @ map (client_record ?tp) (log_records bs)) ?c1 (w\<lparr>w_reads := k\<rparr>)"
    using f(1) rem(1) [of "Suc ?i"] by (intro poll_loop_got) (auto simp: poll_partition_def)
  also have "\<dots> = (Inl (StatusErr internal_error), c', w\<lparr>w_reads := k'\<rparr>)"
    using g(1) rem(1) [of k] by (intro poll_loop_failed) auto
  finally have loop: "Poll (broker_net e) loads maxWaitMs ?c w = Some (Inl (StatusErr internal_error), c', w\<lparr>w_reads := k'\<rparr>)"
    using poll by simp
  have "list_all wf_batch bs" using storage_log_chain(2) [OF servingD(7,8) [OF sv]] log(1) f(2) by simp
  from wf_log_end(3) [OF this f(3), of off] show ?thesis using loop g(2) c1(4) by auto
qed

text \<open>A topic of two partitions, the second one with a log that starts at offset 5.\<close>

definition demo_late :: storageImpl where
  "demo_late = demo_empty\<lparr>segments := [projr (NewSegmentStorage demo_os (map_of []) 5 demo_cfg)], nextOffset := 5\<rparr>"

definition demo_two :: world where
  "demo_two = (demo_world demo_full)\<lparr>
     w_node := \<lparr>ps_meta = demo_topics\<lparr>
         Topics := [(''a'', (snd (hd (Topics demo_topics)))\<lparr>tm_PartitionCount := 2\<rparr>)],
         Partitions := [(PartitionKey ''a'' 0, demo_part), (PartitionKey ''a'' 1, demo_part\<lparr>pm_PartitionID := 1, pm_ShardID := 2\<rparr>)],
         NextShardID := 3\<rparr>,
       ps_shards = [(1, demo_full), (2, demo_fsm\<lparr>fsm_storage := Some demo_late\<rparr>)], ps_sched = []\<rparr>,
     w_dc := StartPartitionReplica ''a'' 1 2 demo_dc\<rparr>"

definition still_broker :: broker_env where
  "still_broker = demo_broker\<lparr>be_clock := (\<lambda>i. 0)\<rparr>"

lemma demo_late_ok: "storage_inv demo_cfg demo_late" "gapless demo_late" "Storage_EarliestOffset demo_late = 5"
proof -
  obtain g where g: "NewSegmentStorage demo_os (map_of []) 5 demo_cfg = Inr g" "seg_active demo_cfg g []" "seg_baseOffset g = 5"
    using NewSegmentStorage_fresh [OF demo_ok, of 5 "map_of []"] by auto
  have b: "seg_batches g = []" by (rule seg_active_batches [OF g(2)])
  have "active_ok demo_cfg g"
    using g b demo_ok(2) by (simp add: active_ok_def SegmentStorage_LogSize_def seg_active_def seg_ok_def cfg_ok_def)
  then show "storage_inv demo_cfg demo_late" "gapless demo_late" "Storage_EarliestOffset demo_late = 5"
    using g b demo_empty_ok(1)
    by (simp_all add: demo_late_def storage_inv_def gapless_def seg_end_def no_stray_files_def Storage_EarliestOffset_def
        SegmentStorage_BaseOffset_def)
qed

lemma demo_two_inv: "topics_inv 1 (ps_meta (w_node demo_two))"
  by (auto simp: topics_inv_def demo_two_def demo_topics_def NewMetadataFSM_def demo_part_def map_ok_def split: if_splits)

lemma demo_two_serving: "serving still_broker ''a'' 0 1 demo_two demo_store" "serving still_broker ''a'' 1 2 demo_two demo_late"
proof -
  have f: "part_fine demo_cfg demo_full" "part_fine demo_cfg (demo_fsm\<lparr>fsm_storage := Some demo_late\<rparr>)"
    using demo_store_ok(1) demo_late_ok(1) demo_fsm_fine(3) by (simp_all add: demo_full_def part_fine_def)
  have inv: "\<exists>k. topics_inv k (ps_meta (w_node demo_two))" using demo_two_inv by blast
  show "serving still_broker ''a'' 0 1 demo_two demo_store" "serving still_broker ''a'' 1 2 demo_two demo_late"
    unfolding serving_def using f demo_ok inv demo_store_ok(3) demo_late_ok(2)
    by (simp_all add: still_broker_def demo_broker_def demo_two_def demo_world_def routes_def demo_topics_def demo_dc_def demo_part_def
        demo_full_def StartPartitionReplica_def NewDataCoordinator_def validateToken_def)
qed

theorem poll_failure_drops_records_witness:
  "\<exists>c' w' off'. Poll (broker_net still_broker) [] 100
      (Seek (TopicPartition ''a'' 1) 0 (Seek (TopicPartition ''a'' 0) 0 (demo_consumer []))) demo_two =
      Some (Inl (StatusErr internal_error), c', w') \<and>
    map_of (fetchOffsets c') (TopicPartition ''a'' 0) = Some off' \<and> 0 < off'"
proof -
  have "steady still_broker" "be_wakes still_broker \<noteq> []" "\<forall>i j. be_clock still_broker i < be_clock still_broker j + 100 * 1000000"
    by (simp_all add: steady_def still_broker_def demo_broker_def)
  note pre = this
  show ?thesis
    by (rule poll_failure_drops_records [where old = "[]" and todo = "[stamp sample_batch 0]", OF demo_two_serving pre(1,3,2) _ _ _ _ _ _ _ demo_clients(2)])
      (use demo_store_encoded demo_store_ok(5) demo_late_ok(3) in \<open>simp_all add: demo_ncfg_def demo_consumer_fields\<close>)
qed

section \<open>Retention\<close>

lemma sealed_size:
  assumes "sealed_ok cfg g"
  shows "0 < SegmentStorage_LogSize g"
proof -
  obtain b bs where bs: "seg_batches g = b # bs" and s: "seg_sealed cfg g (seg_batches g)"
    using assms by (auto simp: sealed_ok_def neq_Nil_conv)
  then have "wf_batch b" "logSizeVal (seg_log g) = int (length (concat (b # bs)))"
    by (auto simp: seg_sealed_def seg_ok_def log_ok_def)
  then show ?thesis by (auto simp: SegmentStorage_LogSize_def wf_batch_def framed_def)
qed

lemma drop_last_one: "Suc k = length xs \<Longrightarrow> drop k xs = [last xs]"
  by (metis Cons_nth_drop_Suc drop_all last_conv_nth lessI length_0_conv nat.simps(3) diff_Suc_1 order_refl)

text \<open>
  A broker that takes its configuration from the environment keeps only the active segment.
  The loaded configuration has the limits 0 for age and size, and 0 bytes is a limit: as long as
  the limits of a partition are the configured ones, every tick of the retention loop deletes
  all sealed segments.
\<close>

theorem env_config_deletes_sealed:
  assumes "LoadFromEnv env = Inr cfg" "storage_inv (bc_Storage cfg) s"
    "retentionMs s = DefaultRetentionMs (bc_Storage cfg)" "retentionBytes s = DefaultRetentionBytes (bc_Storage cfg)"
  shows "segments (retention_tick now s) = [last (segments s)]"
proof -
  have lim: "retentionMs s = 0" "retentionBytes s = 0"
    using assms(1,3,4) by (auto simp: LoadFromEnv_def bind_env_def Let_def split: sum.splits if_splits)
  let ?size = "\<lambda>gs. sum_list (map SegmentStorage_LogSize gs)"
  obtain n s' where r: "Storage_EnforceRetention now 0 0 s = (n, s')" by fastforce
  then have tick: "retention_tick now s = s'" by (simp add: retention_tick_def lim)
  obtain k where k: "k < length (segments s)" "segments s' = drop k (segments s)" "Suc k = length (segments s) \<or> ?size (segments s') \<le> 0"
    using Storage_EnforceRetention_bytes [OF assms(2) _ _ r] by auto
  have "Suc k = length (segments s)"
  proof (rule ccontr)
    assume "Suc k \<noteq> length (segments s)"
    then have le: "k < length (butlast (segments s))" "?size (drop k (segments s)) \<le> 0" using k by auto
    have sizes: "0 \<le> SegmentStorage_LogSize g" if "g \<in> set (segments s)" for g
      using storage_inv_seg_ok [OF assms(2)] that by (auto simp: SegmentStorage_LogSize_def seg_ok_def)
    have "sealed_ok (bc_Storage cfg) (segments s ! k)"
      using assms(2) le(1) by (auto simp: storage_inv_def list_all_length nth_butlast)
    then have "0 < SegmentStorage_LogSize (segments s ! k)" by (rule sealed_size)
    moreover have "0 \<le> ?size (drop (Suc k) (segments s))"
      by (rule sum_list_nonneg) (auto dest: in_set_dropD intro: sizes)
    ultimately show False using le(2) k(1) by (simp add: Cons_nth_drop_Suc [symmetric])
  qed
  then have "drop k (segments s) = [last (segments s)]" using k(1) by (simp add: drop_last_one)
  then show ?thesis using tick k(2) by simp
qed

definition demo_vars :: "string \<Rightarrow> string" where
  "demo_vars key = (if key = ''NODE_ID'' then ''1'' else if key = ''SEGMENT_MAX_BYTES'' then ''50''
     else if key = ''INDEX_SAMPLE_BYTES'' then ''10'' else [])"

lemma demo_vars_load: "\<exists>cfg. LoadFromEnv demo_vars = Inr cfg \<and>
    bc_Storage cfg = demo_cfg\<lparr>DefaultRetentionBytes := 0\<rparr>"
proof -
  have "ParseUint ''1'' = Inr 1" "ParseInt ''50'' = Inr 50" "ParseInt ''10'' = Inr 10" by code_simp+
  then show ?thesis
    by (simp add: LoadFromEnv_def demo_vars_def demo_cfg_def bind_env_def wrap_env_def envStr_def envInt64_def envInt_def
        parseInitialMembers_def Let_def)
qed

theorem env_config_deletes_sealed_witness:
  "\<exists>cfg s. LoadFromEnv demo_vars = Inr cfg \<and> storage_inv (bc_Storage cfg) s \<and> length (storage_log s) = 1 \<and>
    segments (retention_tick 0 s) = [last (segments s)]"
proof -
  obtain cfg where cfg: "LoadFromEnv demo_vars = Inr cfg" "bc_Storage cfg = demo_cfg\<lparr>DefaultRetentionBytes := 0\<rparr>"
    using demo_vars_load by blast
  have ok: "cfg_ok (bc_Storage cfg)" using demo_ok(2) cfg(2) by (simp add: cfg_ok_def)
  obtain s0 where s0: "storage_inv (bc_Storage cfg) s0" "nextOffset s0 = 0" "storage_log s0 = []"
    using Storage_Open_empty [OF demo_ok(1) ok] by blast
  obtain s1 where s1: "storage_inv (bc_Storage cfg) s1" "length (storage_log s1) = 1"
    using Storage_Append_refines [OF demo_ok(1) ok s0(1) sample_wf(1)] s0(2,3) sample_wf(3) by auto
  let ?s = "Storage_SetRetentionConfig 0 0 s1"
  have inv: "storage_inv (bc_Storage cfg) ?s" "length (storage_log ?s) = 1" using s1 by simp_all
  have lim: "retentionMs ?s = DefaultRetentionMs (bc_Storage cfg)" "retentionBytes ?s = DefaultRetentionBytes (bc_Storage cfg)"
    by (simp_all add: cfg(2) demo_cfg_def Storage_SetRetentionConfig_def)
  show ?thesis using env_config_deletes_sealed [OF cfg(1) inv(1) lim, of 0] cfg(1) inv by blast
qed

end
