(* ===== verification/Cli.thy ===== *)
theory Cli
  imports Producer Consumer GoText
begin

text \<open>
  The produce and consume commands of the command line tool (\<open>cmd/bunnymq-cli\<close>).  The flags are
  arguments, standard input is a list of lines, and what is printed is returned: for \<open>consume\<close> the
  records themselves, of which the tool prints the JSON form.  The heartbeat goroutine of the
  consumer runs beside \<open>consume\<close> and is not interleaved here.
\<close>

section \<open>Flags\<close>

definition buildClientConfig :: "string \<Rightarrow> string \<Rightarrow> int \<Rightarrow> ClientConfig" where
  "buildClientConfig brokers token timeout =
     \<lparr>BootstrapServers = map strings_TrimSpace (strings_Split brokers (CHR '','')), AuthToken = token, RequestTimeout = timeout,
      cf_RetryPolicy = \<lparr>MaxRetries = 0, InitialBackoff = 0, MaxBackoff = 0\<rparr>\<rparr>"

definition parseOffsetReset :: "string \<Rightarrow> OffsetResetPolicy" where
  "parseOffsetReset s = (if s = ''earliest'' then OffsetResetEarliest else OffsetResetLatest)"

definition parseAcks :: "string \<Rightarrow> client_error + int" where
  "parseAcks s =
     (if s = ''all'' then Inr ACKS_ALL else if s = ''zero'' then Inr ACKS_ZERO
      else Inl (ConfigErr ''flag --acks: unknown acks value''))"

section \<open>Produce\<close>

record ProduceFlags =
  flagProduceTopic :: string
  flagProduceKey :: string
  flagProduceValue :: string
  flagProduceAcks :: string

definition sendAndPrint :: "'n net \<Rightarrow> string \<Rightarrow> int \<Rightarrow> bytes option \<Rightarrow> bytes \<Rightarrow> Producer \<Rightarrow> 'n \<Rightarrow>
    (client_error + string) \<times> Producer \<times> 'n" where
  "sendAndPrint net topic acks key val p n =
     (case Send net topic key val [] acks p n of
        (Inl err, p, n) \<Rightarrow> (Inl err, p, n)
      | (Inr offset, p, n) \<Rightarrow>
          (Inr (if offset = - 1 then ''sent (acks=0)'' else ''offset: '' @ format_int offset), p, n))"

text \<open>The lines of the scanner, and the error it ends with.\<close>

fun produce_lines :: "'n net \<Rightarrow> string \<Rightarrow> int \<Rightarrow> bytes option \<Rightarrow> client_error option \<Rightarrow> string list \<Rightarrow> string list \<Rightarrow>
    Producer \<Rightarrow> 'n \<Rightarrow> client_error option \<times> string list \<times> Producer \<times> 'n" where
  "produce_lines net topic acks key scanErr [] out p n = (scanErr, out, p, n)"
| "produce_lines net topic acks key scanErr (line # lines) out p n =
     (if line = [] then produce_lines net topic acks key scanErr lines out p n
      else (case sendAndPrint net topic acks key (string_bytes line) p n of
              (Inl err, p, n) \<Rightarrow> (Some err, out, p, n)
            | (Inr printed_line, p, n) \<Rightarrow> produce_lines net topic acks key scanErr lines (out @ [printed_line]) p n))"

definition runProduce :: "'n net \<Rightarrow> ClientConfig \<Rightarrow> ProduceFlags \<Rightarrow> string list \<Rightarrow> client_error option \<Rightarrow> 'n \<Rightarrow>
    client_error option \<times> string list \<times> 'n" where
  "runProduce net cfg flags stdin scanErr n =
     (case parseAcks (flagProduceAcks flags) of
        Inl err \<Rightarrow> (Some err, [], n)
      | Inr acks \<Rightarrow>
      (case NewProducer \<lparr>pc_Config = cfg, pc_DefaultAcks = 0, pc_MetadataCacheTTL = 0\<rparr> of
        Inl err \<Rightarrow> (Some err, [], n)
      | Inr p \<Rightarrow>
          let key = (if flagProduceKey flags \<noteq> [] then Some (string_bytes (flagProduceKey flags)) else None)
          in if flagProduceValue flags \<noteq> []
             then (case sendAndPrint net (flagProduceTopic flags) acks key (string_bytes (flagProduceValue flags)) p n of
                     (Inl err, p, n) \<Rightarrow> (Some err, [], n)
                   | (Inr printed_line, p, n) \<Rightarrow> (None, [printed_line], n))
             else (case produce_lines net (flagProduceTopic flags) acks key scanErr stdin [] p n of
                     (err, out, p, n) \<Rightarrow> (err, out, n))))"

section \<open>Consume\<close>

record ConsumeFlags =
  flagConsumeTopic :: string
  flagConsumePartition :: int
  flagConsumeOffset :: int
  flagConsumeGroup :: string
  flagOffsetReset :: string
  flagConsumeCount :: int
  flagMaxWaitMs :: int

definition isTransientCommitErr :: "client_error \<Rightarrow> bool" where
  "isTransientCommitErr err \<longleftrightarrow> err = CliErrStaleGeneration \<or> is_unavailable err"

text \<open>The records of one poll: whether the limit is reached, how many are printed so far, and the output.\<close>

fun print_records :: "int \<Rightarrow> ClientRecord list \<Rightarrow> int \<Rightarrow> ClientRecord list \<Rightarrow> bool \<times> int \<times> ClientRecord list" where
  "print_records limit [] printed out = (False, printed, out)"
| "print_records limit (r # records) printed out =
     (let out = out @ [r]; printed = printed + 1
      in if limit > 0 \<and> printed \<ge> limit then (True, printed, out) else print_records limit records printed out)"

definition consume_end :: "'n net \<Rightarrow> string \<Rightarrow> bool \<Rightarrow> ClientRecord list \<Rightarrow> Consumer \<Rightarrow> 'n \<Rightarrow>
    client_error option \<times> ClientRecord list \<times> Consumer \<times> 'n" where
  "consume_end net grp interrupted out c n =
     (if grp \<noteq> []
      then (case Commit net c n of
              (None, c, n) \<Rightarrow> (None, out, c, n)
            | (Some err, c, n) \<Rightarrow> (if interrupted then None else Some err, out, c, n))
      else (None, out, c, n))"

text \<open>
  One pass of the loop sees the readings of the rebalancing flag by its poll and whether a signal
  has arrived, in the loop and at the final commit; \<open>None\<close> is a command that still runs.
\<close>

record turn =
  t_loads :: "load list"
  t_interrupted :: bool
  t_interrupted_at_end :: bool

fun consume_loop :: "'n net \<Rightarrow> ConsumeFlags \<Rightarrow> turn list \<Rightarrow> int \<Rightarrow> ClientRecord list \<Rightarrow> Consumer \<Rightarrow> 'n \<Rightarrow>
    (client_error option \<times> ClientRecord list \<times> Consumer \<times> 'n) option" where
  "consume_loop net flags [] printed out c n = None"
| "consume_loop net flags (t # ts) printed out c n =
     (case Poll net (t_loads t) (flagMaxWaitMs flags) c n of
        None \<Rightarrow> None
      | Some (Inl err, c, n) \<Rightarrow>
          Some (if t_interrupted t then consume_end net (flagConsumeGroup flags) True out c n else (Some err, out, c, n))
      | Some (Inr records, c, n) \<Rightarrow>
      (case print_records (flagConsumeCount flags) records printed out of
        (True, printed, out) \<Rightarrow> Some (consume_end net (flagConsumeGroup flags) (t_interrupted_at_end t) out c n)
      | (False, printed, out) \<Rightarrow>
          if flagConsumeGroup flags \<noteq> [] \<and> length records > 0
          then (case Commit net c n of
                  (None, c, n) \<Rightarrow> consume_loop net flags ts printed out c n
                | (Some err, c, n) \<Rightarrow>
                    if t_interrupted t \<or> isTransientCommitErr err then consume_loop net flags ts printed out c n
                    else Some (Some err, out, c, n))
          else consume_loop net flags ts printed out c n))"

definition runConsume :: "'n net \<Rightarrow> (string \<Rightarrow> bool) \<Rightarrow> ClientConfig \<Rightarrow> ConsumeFlags \<Rightarrow> turn list \<Rightarrow> 'n \<Rightarrow>
    (client_error option \<times> ClientRecord list \<times> 'n) option" where
  "runConsume net closeErr cfg flags ts n =
     (if flagConsumeGroup flags = [] \<and> flagConsumePartition flags = - 1
      then Some (Some (ConfigErr ''--partition is required in manual mode''), [], n)
      else (case NewConsumer \<lparr>cn_Config = cfg, GroupID = flagConsumeGroup flags, MaxFetchBytes = 0,
                   MaxFetchWaitMs = flagMaxWaitMs flags, AutoOffsetReset = parseOffsetReset (flagOffsetReset flags),
                   HeartbeatIntervalMs = 0, cn_SessionTimeoutMs = 0\<rparr> of
        Inl err \<Rightarrow> Some (Some err, [], n)
      | Inr c \<Rightarrow>
      (case (if flagConsumeGroup flags \<noteq> [] then Subscribe net [flagConsumeTopic flags] c n
             else (None, Seek (TopicPartition (flagConsumeTopic flags) (flagConsumePartition flags)) (flagConsumeOffset flags) c, n)) of
        (Some err, c, n) \<Rightarrow> (case Consumer_Close net closeErr c n of (_, c, n) \<Rightarrow> Some (Some err, [], n))
      | (None, c, n) \<Rightarrow>
      (case consume_loop net flags ts 0 [] c n of
        None \<Rightarrow> None
      | Some (err, out, c, n) \<Rightarrow> (case Consumer_Close net closeErr c n of (_, c, n) \<Rightarrow> Some (err, out, n))))))"

section \<open>The limit\<close>

lemma print_records_eq:
  assumes "0 < limit" "printed < limit"
  shows "print_records limit records printed out =
    (if limit - printed \<le> int (length records) then (True, limit, out @ take (nat (limit - printed)) records)
     else (False, printed + int (length records), out @ records))"
  using assms
proof (induction records arbitrary: printed out)
  case (Cons r records)
  show ?case
  proof (cases "printed + 1 \<ge> limit")
    case True
    then have "printed = limit - 1" using Cons.prems by simp
    then show ?thesis using Cons.prems by (simp add: Let_def)
  next
    case False
    then have "nat (limit - printed) = Suc (nat (limit - (printed + 1)))" by simp
    then show ?thesis using False Cons.IH [of "printed + 1" "out @ [r]"] Cons.prems by (auto simp: Let_def)
  qed
qed simp

end
