(* ===== verification/StorageDebug.thy ===== *)
theory StorageDebug
  imports ClientLib Storage
begin

text \<open>
  The storage tool (\<open>cmd/storage-debug\<close>): appending lines to a storage, reading batches back,
  listing the batches of a segment file and the segments of a directory.  The lines of standard
  input, each with the time it is read at, are arguments; the lines that are printed are returned.
\<close>

section \<open>Configuration\<close>

text \<open>What the viper library reads from the file: the two settings, where they are set.\<close>

definition buildStorageConfig :: "(go_error + int option \<times> int option) option \<Rightarrow> go_error + StorageConfig" where
  "buildStorageConfig file =
     (let cfg = \<lparr>SegmentMaxBytes = 128 * 1024 * 1024, IndexSampleBytes = 4096, RetentionCheckIntervalMs = 300000,
                 DefaultRetentionMs = - 1, DefaultRetentionBytes = - 1\<rparr>
      in case file of
           None \<Rightarrow> Inr cfg
         | Some (Inl err) \<Rightarrow> Inl err
         | Some (Inr (maxBytes, sampleBytes)) \<Rightarrow>
             let cfg = (case maxBytes of None \<Rightarrow> cfg | Some v \<Rightarrow> cfg\<lparr>SegmentMaxBytes := v\<rparr>)
             in Inr (case sampleBytes of None \<Rightarrow> cfg | Some v \<Rightarrow> cfg\<lparr>IndexSampleBytes := v\<rparr>))"

definition openStorage :: "os_env \<Rightarrow> go_error option \<Rightarrow> directory \<Rightarrow> (go_error + int option \<times> int option) option \<Rightarrow>
    go_error + StorageConfig \<times> storageImpl" where
  "openStorage os mkdirErr dir file =
     (case buildStorageConfig file of
        Inl err \<Rightarrow> Inl (Wrapped ''load config'' err)
      | Inr cfg \<Rightarrow>
      (case mkdirErr of
        Some err \<Rightarrow> Inl (Wrapped ''create dir'' err)
      | None \<Rightarrow>
      (case Storage_Open os dir cfg of
        Inl err \<Rightarrow> Inl (Wrapped ''open storage'' err)
      | Inr s \<Rightarrow> Inr (cfg, s))))"

section \<open>Append\<close>

definition line_record :: "64 word \<Rightarrow> bytes \<Rightarrow> Record" where
  "line_record ts line = \<lparr>TimestampMs = ts, Key = None, Value = line, Headers = []\<rparr>"

fun append_lines :: "os_env \<Rightarrow> StorageConfig \<Rightarrow> (64 word \<times> bytes) list \<Rightarrow> string list \<Rightarrow> storageImpl \<Rightarrow>
    go_error option \<times> string list \<times> storageImpl" where
  "append_lines os cfg [] out s = (None, out, s)"
| "append_lines os cfg ((ts, line) # lines) out s =
     (case EncodeBatch [line_record ts line] of
        Inl err \<Rightarrow> (Some (Wrapped ''encode batch'' err), out, s)
      | Inr batch \<Rightarrow>
          (case Storage_Append os cfg batch s of
             (Inl err, s) \<Rightarrow> (Some (Wrapped ''append'' err), out, s)
           | (Inr baseOffset, s) \<Rightarrow> append_lines os cfg lines (out @ [''base_offset='' @ format_int baseOffset]) s))"

section \<open>Read\<close>

definition batch_lines :: "Batch \<Rightarrow> string list" where
  "batch_lines batch =
     (''batch offset='' @ format_int (sint (BaseOffset batch)) @ '' records='' @ format_int (sint (RecordCount batch))) #
     map (\<lambda>rec. ''  ts='' @ format_int (sint (TimestampMs rec)) @ '' value='' @ bytes_string (take 80 (Value rec))) (Records batch)"

function read_batches :: "bytes \<Rightarrow> nat \<Rightarrow> string list \<Rightarrow> go_error option \<times> string list" where
  "read_batches data pos out =
     (if pos < length data
      then (case DecodeNextBatch data pos of
              Inl err \<Rightarrow> (Some (if is_panic err then err else Wrapped ''decode batch'' err), out)
            | Inr (batch, nextPos) \<Rightarrow> read_batches data nextPos (out @ batch_lines batch))
      else (None, out))"
  by pat_completeness auto
termination
  by (relation "measure (\<lambda>(data, pos, out). length data - pos)") (auto dest: DecodeNextBatch_progress)

declare read_batches.simps [simp del]

definition readCmd :: "int \<Rightarrow> string \<Rightarrow> storageImpl \<Rightarrow> go_error option \<times> string list" where
  "readCmd maxBytes arg s =
     (case ParseInt arg of
        Inl err \<Rightarrow> (Some (Wrapped ''invalid offset'' err), [])
      | Inr offset \<Rightarrow>
          (case Storage_Read s offset (if maxBytes \<le> 0 then 4 * 1024 * 1024 else maxBytes) of
             Inl err \<Rightarrow> (Some (Wrapped ''read'' err), [])
           | Inr (data, next) \<Rightarrow> if data = [] then (None, [''no data at offset'']) else read_batches data 0 []))"

section \<open>Dump of a segment\<close>

definition dump_line :: "bytes \<Rightarrow> string" where
  "dump_line batchData =
     ''offset='' @ format_int (int64 (be_int (slc batchData 0 8))) @
     '' length='' @ format_int (int (length batchData)) @
     '' records='' @ format_int (int32 (be_int (slc batchData 12 16))) @
     '' ts=['' @ format_int (int64 (be_int (slc batchData 22 30))) @ ''..'' @
       format_int (int64 (be_int (slc batchData 30 38))) @
     ''] crc='' @ (if uint (crc32c (drop 38 batchData)) \<noteq> be_int (slc batchData 16 20) then ''FAIL'' else ''OK'')"

function dump_loop :: "bytes \<Rightarrow> nat \<Rightarrow> string list \<Rightarrow> go_error option \<times> string list" where
  "dump_loop data pos out =
     (if pos < length data
      then if pos + 38 > length data then (Some (NewError ''truncated header''), out)
           else let batchLen = be_int (slc data (pos + 8) (pos + 12))
                in if batchLen < 38 \<or> int pos + batchLen > int (length data) then (Some (NewError ''invalid batch_length''), out)
                   else dump_loop data (pos + nat batchLen) (out @ [dump_line (slc data pos (pos + nat batchLen))])
      else (None, out))"
  by pat_completeness auto
termination
  by (relation "measure (\<lambda>(data, pos, out). length data - pos)") auto

declare dump_loop.simps [simp del]

definition dumpSegmentCmd :: "bytes \<Rightarrow> go_error option \<times> string list" where
  "dumpSegmentCmd file = dump_loop file 0 []"

section \<open>Statistics\<close>

fun stat_lines :: "directory \<Rightarrow> string list \<Rightarrow> string list \<Rightarrow> go_error option \<times> string list" where
  "stat_lines dir [] out = (None, out)"
| "stat_lines dir (name # names) out =
     (case map_of dir name of
        None \<Rightarrow> (Some (Wrapped ''stat'' (SysErr ''no such file'')), out)
      | Some content \<Rightarrow>
      (case parse_segment_name name of
        Inl err \<Rightarrow> (Some err, out)
      | Inr baseOffset \<Rightarrow>
          stat_lines dir names (out @ [name @ '': base_offset='' @ format_int baseOffset @ '' size='' @ format_int (int (length content))])))"

definition statsCmd :: "directory \<Rightarrow> storageImpl \<Rightarrow> go_error option \<times> string list" where
  "statsCmd dir s =
     (let matches = glob_logs dir
      in case stat_lines dir matches [] of
           (Some err, out) \<Rightarrow> (Some err, out)
         | (None, out) \<Rightarrow>
             (None, out @ [''EarliestOffset='' @ format_int (Storage_EarliestOffset s),
                ''LatestOffset='' @ format_int (Storage_LatestOffset s), ''segments='' @ format_int (int (length matches))]))"

section \<open>The dump of a log\<close>

lemma dump_loop_log:
  "list_all framed bs \<Longrightarrow> dump_loop (pre @ concat bs) (length pre) out = (None, out @ map dump_line bs)"
proof (induction bs arbitrary: pre out)
  case Nil
  then show ?case by (simp add: dump_loop.simps)
next
  case (Cons b bs)
  have f: "38 \<le> length b" "be_int (slc b 8 12) = int (length b)" using Cons.prems by (simp_all add: framed_def)
  have s: "slc (pre @ b @ concat bs) (length pre + i) (length pre + j) = slc b i j" if "i \<le> j" "j \<le> length b" for i j
    using that by (simp add: slc_def)
  have "slc b 0 (length b) = b" by (simp add: slc_def)
  then have "dump_loop (pre @ concat (b # bs)) (length pre) out = dump_loop ((pre @ b) @ concat bs) (length (pre @ b)) (out @ [dump_line b])"
    using f s [of 8 12] s [of 0 "length b"] by (subst dump_loop.simps) (auto simp: Let_def)
  then show ?case using Cons.IH [of "pre @ b" "out @ [dump_line b]"] Cons.prems by simp
qed

end
