(* ===== verification/PropsTools.thy ===== *)
theory PropsTools
  imports Cli StorageDebug PropsFaults
begin

text \<open>
  The properties of the command line tools.
\<close>

lemma coordinating_reads [simp]: "coordinating e (w\<lparr>w_reads := k\<rparr>) = coordinating e w"
  by (simp add: coordinating_def)

text \<open>What a poll returns, in terms of offsets: a gapless run that holds at least the next batch.\<close>

lemma Poll_offsets:
  assumes sv: "serving e topic pid shard w s" and clock: "steady e" and wakes: "be_wakes e \<noteq> []"
    and log: "storage_log s = old @ b # todo" "list_all encoded (b # todo)" "nextOffset s < 2 ^ 63"
    and off: "off = log_end (Storage_EarliestOffset s) old" "0 \<le> off"
    and c: "reading loads (TopicPartition topic pid) off c" and wait: "1 \<le> maxWaitMs" "maxWaitMs < 2 ^ 40"
  shows "\<exists>recs pos c' k pool mc. Poll (broker_net e) loads maxWaitMs c w = Some (Inr recs, c', w\<lparr>w_reads := k\<rparr>) \<and>
    map r_Offset recs = [off..pos - 1] \<and> off + bcount b \<le> pos \<and> reading loads (TopicPartition topic pid) pos c' \<and>
    c' = poll_store (TopicPartition topic pid) pos (c\<lparr>c_pool := pool, c_meta := mc\<rparr>)"
proof -
  let ?tp = "TopicPartition topic pid"
  obtain bs rest c1 k pool mc where p: "Poll (broker_net e) loads maxWaitMs c w =
      Some (Inr (map (client_record ?tp) (log_records bs)), c1, w\<lparr>w_reads := k\<rparr>)"
      "b # todo = bs @ rest" "bs \<noteq> []" "reading loads ?tp (log_end off bs) c1"
      "c1 = poll_store ?tp (log_end off bs) (c\<lparr>c_pool := pool, c_meta := mc\<rparr>)"
    using Poll_ok [OF sv clock wakes log(1) _ log(2) off c wait] by blast
  note ch = storage_log_chain [OF servingD(7,8) [OF sv]]
  have log': "storage_log s = old @ bs @ rest" using log(1) p(2) by simp
  have b: "chain off bs" "list_all wf_batch bs" "list_all wf_batch rest" "log_end (log_end off bs) rest = nextOffset s"
    using ch off(1) unfolding log' by simp_all
  have en: "list_all encoded bs" using log(2) unfolding p(2) by simp
  have "log_end off bs \<le> nextOffset s" using wf_log_end(1) [OF b(3), of "log_end off bs"] b(4) by simp
  then have "map dr_Offset (log_records bs) = [off..log_end off bs - 1]"
    using log_records_offsets [OF en b(1,2) off(2)] log(3) by simp
  then have "map r_Offset (map (client_record ?tp) (log_records bs)) = [off..log_end off bs - 1]"
    by (simp add: client_record_def comp_def)
  moreover obtain bs' where bs': "bs = b # bs'" using p(2,3) by (cases bs) auto
  moreover have "off + bcount b \<le> log_end off bs" using wf_log_end(1) [of bs' "off + bcount b"] b(2) bs' by simp
  ultimately show ?thesis using p(1,4,5) by blast
qed

text \<open>
  \<open>consume\<close> with a limit skips records.  A member of a group runs \<open>consume\<close> with a limit that
  lies inside the next batch: the command prints as many records as asked for, but commits the
  position behind the whole batch, so the group never sees the records in between.
\<close>

theorem consume_limit_skips:
  assumes sv: "serving e topic pid shard w s" and co: "coordinating e w" and clock: "steady e" and wakes: "be_wakes e \<noteq> []"
    and log: "storage_log s = old @ b # todo" "list_all encoded (b # todo)" "nextOffset s < 2 ^ 63"
    and off: "off = log_end (Storage_EarliestOffset s) old" "0 \<le> off"
    and c: "reading (t_loads t) (TopicPartition topic pid) off c" "tracked (positions c)"
    and g: "map_of (GroupStates (ps_meta (w_node w))) (GroupID (c_config c)) = Some g" "map_of (gs_Members g) (memberID c) \<noteq> None"
      "generationID c = gs_GenerationID g" "TopicPartition topic pid \<in> set (mget0 [] (gs_Assignments g) (memberID c))"
    and flags: "flagConsumeGroup flags = GroupID (c_config c)" "GroupID (c_config c) \<noteq> []" "0 < flagConsumeCount flags"
      "flagConsumeCount flags < bcount b" "1 \<le> flagMaxWaitMs flags" "flagMaxWaitMs flags < 2 ^ 40"
  shows "\<exists>out c' w' g' pos. consume_loop (broker_net e) flags [t] 0 [] c w = Some (None, out, c', w') \<and>
    map r_Offset out = [off..off + flagConsumeCount flags - 1] \<and>
    map_of (GroupStates (ps_meta (w_node w'))) (GroupID (c_config c)) = Some g' \<and>
    map_of (gs_Offsets g') (TopicPartition topic pid) = Some pos \<and> off + flagConsumeCount flags < pos"
proof -
  let ?tp = "TopicPartition topic pid" and ?limit = "flagConsumeCount flags"
  obtain recs stop c1 k pool mc where p: "Poll (broker_net e) (t_loads t) (flagMaxWaitMs flags) c w = Some (Inr recs, c1, w\<lparr>w_reads := k\<rparr>)"
      "map r_Offset recs = [off..stop - 1]" "off + bcount b \<le> stop" "reading (t_loads t) ?tp stop c1"
      "c1 = poll_store ?tp stop (c\<lparr>c_pool := pool, c_meta := mc\<rparr>)"
    using Poll_offsets [OF sv clock wakes log off c(1) flags(5,6)] by blast
  have lt: "off + ?limit < stop" using p(3) flags(4) by simp
  have len: "?limit \<le> int (length recs)" using arg_cong [OF p(2), of length] lt flags(3) by simp
  have "[off..stop - 1] = [off..off + ?limit - 1] @ [off + ?limit..stop - 1]"
    using lt flags(3) by (simp add: upto_split1)
  then have out: "map r_Offset (take (nat ?limit) recs) = [off..off + ?limit - 1]"
    using p(2) flags(3) by (simp add: take_map [symmetric])
  have tr: "tracked (positions c1)"
    using pos.store_keeps [of "c\<lparr>c_pool := pool, c_meta := mc\<rparr>" ?tp] c p(5) by (simp add: reading_def)
  have same: "c_config c1 = c_config c" "memberID c1 = memberID c" "generationID c1 = generationID c" "soughtPartitions c1 = [?tp]"
    "map_of (fetchOffsets c1) ?tp = Some stop" "pool_open (c_pool c1)"
    using p(4,5) by (simp_all add: reading_def poll_store_def)
  have cm: "coordinating e (w\<lparr>w_reads := k\<rparr>)" using co by simp
  obtain c2 w2 ofs where k: "Commit (broker_net e) c1 (w\<lparr>w_reads := k\<rparr>) = (None, c2, w2)"
      "map_of (GroupStates (ps_meta (w_node w2))) (GroupID (c_config c)) =
        Some (g\<lparr>gs_Offsets := fold (\<lambda>(tp, offset). mput tp offset) ofs (gs_Offsets g)\<rparr>)" "map_ok ofs" "map_of ofs = map_of (fetchOffsets c1)"
    using Commit_ok [OF cm, of c1 g] g flags(2) same tr by auto
  have "consume_loop (broker_net e) flags [t] 0 [] c w = Some (None, take (nat ?limit) recs, c2, w2)"
    using p(1) print_records_eq [OF flags(3), of 0 recs "[]"] flags(1-3) len k(1) by (simp add: consume_end_def)
  moreover have "map_of (fold (\<lambda>(tp, offset). mput tp offset) ofs (gs_Offsets g)) ?tp = Some stop"
    using k(3,4) same(5) by (simp add: fold_put_offsets map_of_rev map_add_def)
  ultimately show ?thesis using out k(2) lt by auto
qed

definition demo_flags :: ConsumeFlags where
  "demo_flags = \<lparr>flagConsumeTopic = ''a'', flagConsumePartition = - 1, flagConsumeOffset = 0, flagConsumeGroup = ''g'',
     flagOffsetReset = ''earliest'', flagConsumeCount = 1, flagMaxWaitMs = 500\<rparr>"

definition demo_reader :: Consumer where
  "demo_reader = Seek (TopicPartition ''a'' 0) 0 ((demo_consumer ''g'')\<lparr>memberID := ''m'', generationID := 1\<rparr>)"

definition demo_turn :: turn where
  "demo_turn = \<lparr>t_loads = [Settled], t_interrupted = False, t_interrupted_at_end = False\<rparr>"

theorem consume_limit_skips_witness:
  "\<exists>out c' w' g' pos. consume_loop (broker_net demo_broker) demo_flags [demo_turn] 0 [] demo_reader (demo_world demo_full) =
      Some (None, out, c', w') \<and> map r_Offset out = [0] \<and>
    map_of (GroupStates (ps_meta (w_node w'))) ''g'' = Some g' \<and>
    map_of (gs_Offsets g') (TopicPartition ''a'' 0) = Some pos \<and> 1 < pos"
proof -
  have rd: "reading (t_loads demo_turn) (TopicPartition ''a'' 0) 0 demo_reader"
    by (simp add: reading_def Seek_def demo_consumer_fields demo_reader_def demo_turn_def)
  have tr: "tracked (positions demo_reader)"
    by (simp add: tracked_def positions_def demo_reader_def Seek_def demo_consumer_fields map_ok_def mkeys_def)
  have grp: "GroupID (c_config demo_reader) = ''g''" "memberID demo_reader = ''m''" "generationID demo_reader = 1"
    by (simp_all add: demo_reader_def Seek_def demo_consumer_fields)
  have g: "map_of (GroupStates (ps_meta (w_node (demo_world demo_full)))) ''g'' = Some (snd (hd (GroupStates demo_topics)))"
      "map_of (gs_Members (snd (hd (GroupStates demo_topics)))) ''m'' \<noteq> None" "gs_GenerationID (snd (hd (GroupStates demo_topics))) = 1"
      "TopicPartition ''a'' 0 \<in> set (mget0 [] (gs_Assignments (snd (hd (GroupStates demo_topics)))) ''m'')"
    by (simp_all add: demo_world_def demo_topics_def mget0_def)
  have log: "storage_log demo_store = [] @ stamp sample_batch 0 # []" "list_all encoded (stamp sample_batch 0 # [])"
    using demo_store_encoded by simp_all
  have cnt: "bcount (stamp sample_batch 0) = 2"
    using bcount_overwrite(1) [of sample_batch 0] sample_wf(3) sample_length by (simp add: stamp_def)
  have fl: "flagConsumeGroup demo_flags = ''g''" "flagConsumeCount demo_flags = 1" "flagMaxWaitMs demo_flags = 500"
    by (simp_all add: demo_flags_def)
  show ?thesis
    using consume_limit_skips [OF demo_full_serving demo_coordinating demo_steady _ log _ _ _ rd tr, of "snd (hd (GroupStates demo_topics))" demo_flags]
      grp g cnt fl demo_store_ok(2,5) by (simp add: demo_broker_def)
qed

section \<open>The storage tool\<close>

text \<open>
  The storage tool stores its input.  Appending lines to a storage succeeds, prints the
  consecutive offsets from the old end of the log on, and adds one batch for each line; decoding
  the new part of the log gives back the lines in order at these offsets.
\<close>

theorem debug_append_stores:
  assumes "os_ok os" "cfg_ok cfg" "storage_inv cfg s" "0 \<le> nextOffset s"
    "list_all (\<lambda>(ts, line). record_size None line [] \<le> 4194304) lines" "nextOffset s + int (length lines) < 2 ^ 63"
  shows "\<exists>s' new. append_lines os cfg lines out s =
      (None, out @ map (\<lambda>i. ''base_offset='' @ format_int i) [nextOffset s..nextOffset s + int (length lines) - 1], s') \<and>
    storage_inv cfg s' \<and> storage_log s' = storage_log s @ new \<and> nextOffset s' = nextOffset s + int (length lines) \<and>
    list_all crc_ok new \<and> map dr_Value (log_records new) = map snd lines \<and>
    map dr_Offset (log_records new) = [nextOffset s..nextOffset s + int (length lines) - 1]"
  using assms
proof (induction lines arbitrary: out s)
  case Nil
  then show ?case by simp
next
  case (Cons x lines)
  obtain ts line where x: "x = (ts, line)" by fastforce
  let ?n = "nextOffset s"
  obtain b where b: "EncodeBatch [line_record ts line] = Inr b" "length b \<le> 4194304"
    using Encode_one [of None line "[]" ts] Cons.prems(5) x by (auto simp: BatchEncoder_Encode_def BatchEncoder_record_def line_record_def)
  note wf = EncodeBatch_wf [OF b]
  then have cnt: "bcount b = 1" by simp
  have room: "?n + bcount b < 2 ^ 63" using Cons.prems(6) cnt by simp
  obtain s1 where s1: "Storage_Append os cfg b s = (Inr ?n, s1)" "storage_inv cfg s1" "storage_log s1 = storage_log s @ [stamp b ?n]"
      "nextOffset s1 = ?n + 1"
    using Storage_Append_refines [OF Cons.prems(1-3) wf(1) room] cnt by (auto simp: stamp_def)
  have rec: "batch_records (stamp b ?n) = [\<lparr>dr_Offset = ?n, dr_Key = None, dr_Value = line, dr_Headers = [], dr_TimestampMs = ts\<rparr>]"
    using batch_records_one [of None line "[]" ts b ?n] b Cons.prems(4,6)
    by (simp add: BatchEncoder_Encode_def BatchEncoder_record_def line_record_def map_ok_def)
  have crc: "crc_ok (stamp b ?n)" using crc_ok_overwrite wf by (simp add: stamp_def wf_batch_def framed_def)
  obtain s' new where r: "append_lines os cfg lines (out @ [''base_offset='' @ format_int ?n]) s1 =
      (None, (out @ [''base_offset='' @ format_int ?n]) @ map (\<lambda>i. ''base_offset='' @ format_int i) [?n + 1..?n + 1 + int (length lines) - 1], s')"
      "storage_inv cfg s'" "storage_log s' = storage_log s1 @ new" "nextOffset s' = ?n + 1 + int (length lines)"
      "list_all crc_ok new" "map dr_Value (log_records new) = map snd lines"
      "map dr_Offset (log_records new) = [?n + 1..?n + 1 + int (length lines) - 1]"
    using Cons.IH [of s1 "out @ [''base_offset='' @ format_int ?n]"] Cons.prems s1(2,4) by auto
  have up: "[?n..?n + int (length (x # lines)) - 1] = ?n # [?n + 1..?n + 1 + int (length lines) - 1]"
    using upto_rec1 [of ?n "?n + int (length (x # lines)) - 1"] by (simp add: algebra_simps)
  have "append_lines os cfg (x # lines) out s = append_lines os cfg lines (out @ [''base_offset='' @ format_int ?n]) s1"
    using b(1) s1(1) x by simp
  then show ?case unfolding up using r s1(3) rec crc x by (intro exI [of _ s'] exI [of _ "stamp b ?n # new"]) simp
qed

theorem debug_append_stores_witness:
  "\<exists>s' new. append_lines demo_os demo_cfg [(5, [104, 105]), (6, [])] [] demo_empty = (None, [''base_offset=0'', ''base_offset=1''], s') \<and>
    storage_log s' = new \<and> map dr_Value (log_records new) = [[104, 105], []] \<and> map dr_Offset (log_records new) = [0, 1]"
proof -
  have size: "list_all (\<lambda>(ts, line). record_size None line [] \<le> 4194304) [(5 :: 64 word, [104, 105]), (6, [])]"
    by (simp add: record_size_def BatchEncoder_Encode_def BatchEncoder_record_def EncodeBatch_def Let_def encodeRecords_eq
        appendRecord_layout record_body_def headers_bytes_def key_bytes_def uvarint_def appendUvarint.simps zigzag_def word_le_def)
  have digits: "format_int 0 = ''0''" "format_int 1 = ''1''" by code_simp+
  have "[0..1] = [0, 1::int]" by (simp add: upto_rec1)
  then show ?thesis
    using debug_append_stores [OF demo_ok demo_empty_ok(1) _ size, of "[]"] demo_empty_ok(2,3) digits by auto
qed

text \<open>
  The dump of a segment file prints one line for each batch of the segment and reports no error.
\<close>

theorem dump_lists_segment:
  assumes "storage_inv cfg s" "g \<in> set (segments s)"
  shows "dumpSegmentCmd (ls_file (seg_log g)) = (None, map dump_line (seg_batches g))"
proof -
  have ok: "seg_ok cfg g (seg_batches g)" using storage_inv_seg_ok [OF assms(1)] assms(2) by blast
  then have "list_all framed (seg_batches g)" using log_ok_framed by (auto simp: seg_ok_def)
  then show ?thesis using dump_loop_log [of "seg_batches g" "[]" "[]"] ok by (simp add: dumpSegmentCmd_def seg_ok_def)
qed

end
