(* ===== verification/RaftHost.thy ===== *)
theory RaftHost
  imports Broker
begin

text \<open>
  The raft host (\<open>internal/raft/host.go\<close>) and the adapter that the broker puts around it
  (\<open>brokerHost\<close> of \<open>cmd/bunnymq/main.go\<close>), on the operations of a dragonboat node host.  The node
  host is a parameter; \<open>raft_library\<close> states what is relied on, and every node host that meets it
  gives the coordinators a host in the sense of \<open>meta_host\<close>.
\<close>

section \<open>The library\<close>

text \<open>
  What is proposed: the JSON text of a metadata command, represented by the command that decoding
  it gives, or the bytes of a partition command.
\<close>

datatype payload = JSON MetadataCommand | Raw bytes

datatype query = MetaQuery MetadataQuery | PartQuery PartitionQuery

datatype answer = MetaAnswer MetadataAnswer | PartAnswer PartitionAnswer

text \<open>What \<open>NewPartitionFSM\<close> is called with.\<close>

record fsm_args =
  fa_dir :: string
  fa_sidecarPath :: string
  fa_config :: StorageConfig
  fa_topic :: string
  fa_partition :: string

text \<open>The operations of a node host; a session without a client is given by its shard.\<close>

record 'd nodehost =
  SyncPropose :: "int \<Rightarrow> int \<Rightarrow> payload \<Rightarrow> 'd \<Rightarrow> (go_error + Result) \<times> 'd"
  nh_Propose :: "int \<Rightarrow> payload \<Rightarrow> int \<Rightarrow> 'd \<Rightarrow> go_error option \<times> 'd"
  StaleRead :: "int \<Rightarrow> query \<Rightarrow> 'd \<Rightarrow> (go_error + answer) \<times> 'd"
  StartReplica :: "(int, string) gomap \<Rightarrow> bool \<Rightarrow> DbConfig \<Rightarrow> 'd \<Rightarrow> go_error option \<times> 'd"
  StartOnDiskReplica :: "(int, string) gomap \<Rightarrow> bool \<Rightarrow> (int \<Rightarrow> go_error + fsm_args) \<Rightarrow> DbConfig \<Rightarrow> 'd \<Rightarrow> go_error option \<times> 'd"
  nh_StopShard :: "int \<Rightarrow> 'd \<Rightarrow> go_error option \<times> 'd"
  nh_GetLeaderID :: "int \<Rightarrow> 'd \<Rightarrow> go_error + (int \<times> int \<times> bool)"
  nh_Close :: "'d \<Rightarrow> 'd"

section \<open>The host\<close>

record RaftConfig =
  rc_DataDir :: string
  rc_RaftAddress :: string
  rc_NodeID :: int
  rc_RaftRTTMs :: int
  rc_Peers :: "(int, string) gomap"

record 'd Host =
  h_nh :: "'d nodehost"
  h_config :: RaftConfig

record NodeHostConfig =
  DeploymentID :: int
  WALDir :: string
  NodeHostDir :: string
  RTTMillisecond :: int
  nhc_RaftAddress :: string
  EnableMetrics :: bool

definition NewHost :: "(NodeHostConfig \<Rightarrow> go_error + 'd nodehost) \<Rightarrow> RaftConfig \<Rightarrow> go_error + 'd Host" where
  "NewHost newNodeHost cfg =
     (case newNodeHost \<lparr>DeploymentID = 1, WALDir = rc_DataDir cfg @ ''/wal'', NodeHostDir = rc_DataDir cfg @ ''/raft'',
             RTTMillisecond = rc_RaftRTTMs cfg, nhc_RaftAddress = rc_RaftAddress cfg, EnableMetrics = True\<rparr> of
        Inl err \<Rightarrow> Inl err
      | Inr nh \<Rightarrow> Inr \<lparr>h_nh = nh, h_config = cfg\<rparr>)"

text \<open>The context of a call: its deadline, if it has one, and the current time.\<close>

record ctx =
  ctx_Deadline :: "int option"
  ctx_now :: int

definition with_deadline :: "ctx \<Rightarrow> int" where
  "with_deadline ctx = (case ctx_Deadline ctx of Some d \<Rightarrow> d | None \<Rightarrow> ctx_now ctx + defaultProposeTimeout)"

definition json_Marshal :: "MetadataCommand \<Rightarrow> go_error + payload" where
  "json_Marshal cmd = Inr (JSON (wire cmd))"

definition Host_StartMetadataShard :: "'d Host \<Rightarrow> (int, string) gomap \<Rightarrow> bool \<Rightarrow> 'd \<Rightarrow> go_error option \<times> 'd" where
  "Host_StartMetadataShard h members join d =
     StartReplica (h_nh h) members join (shardConfig (rc_NodeID (h_config h)) metadataShardID) d"

definition Host_StartPartitionShard :: "'d Host \<Rightarrow> int \<Rightarrow> (int, string) gomap \<Rightarrow> bool \<Rightarrow> (int \<Rightarrow> go_error + fsm_args) \<Rightarrow> 'd \<Rightarrow>
    go_error option \<times> 'd" where
  "Host_StartPartitionShard h shardID members join factory d =
     StartOnDiskReplica (h_nh h) members join factory (shardConfig (rc_NodeID (h_config h)) shardID) d"

definition Host_StopPartitionShard :: "'d Host \<Rightarrow> int \<Rightarrow> 'd \<Rightarrow> go_error option \<times> 'd" where
  "Host_StopPartitionShard h shardID d = nh_StopShard (h_nh h) shardID d"

definition Host_GetLeaderID :: "'d Host \<Rightarrow> int \<Rightarrow> 'd \<Rightarrow> go_error + (int \<times> int \<times> bool)" where
  "Host_GetLeaderID h shardID d = nh_GetLeaderID (h_nh h) shardID d"

definition Host_Close :: "'d Host \<Rightarrow> 'd \<Rightarrow> go_error option \<times> 'd" where
  "Host_Close h d = (None, nh_Close (h_nh h) d)"

definition Host_SyncProposeMetadata :: "'d Host \<Rightarrow> ctx \<Rightarrow> MetadataCommand \<Rightarrow> 'd \<Rightarrow> (go_error + Result) \<times> 'd" where
  "Host_SyncProposeMetadata h ctx cmd d =
     (case json_Marshal cmd of
        Inl err \<Rightarrow> (Inl err, d)
      | Inr data \<Rightarrow> SyncPropose (h_nh h) (with_deadline ctx) metadataShardID data d)"

definition Host_ProposeMetadata :: "'d Host \<Rightarrow> ctx \<Rightarrow> MetadataCommand \<Rightarrow> 'd \<Rightarrow> go_error option \<times> 'd" where
  "Host_ProposeMetadata h ctx cmd d =
     (case json_Marshal cmd of
        Inl err \<Rightarrow> (Some err, d)
      | Inr data \<Rightarrow> nh_Propose (h_nh h) metadataShardID data (proposeTimeout (ctx_Deadline ctx) (ctx_now ctx)) d)"

definition Host_LookupMetadata :: "'d Host \<Rightarrow> MetadataQuery \<Rightarrow> 'd \<Rightarrow> (go_error + answer) \<times> 'd" where
  "Host_LookupMetadata h q d = StaleRead (h_nh h) metadataShardID (MetaQuery q) d"

definition Host_SyncProposePartition :: "'d Host \<Rightarrow> ctx \<Rightarrow> int \<Rightarrow> PartitionCommand \<Rightarrow> 'd \<Rightarrow> (go_error + Result) \<times> 'd" where
  "Host_SyncProposePartition h ctx shardID cmd d =
     SyncPropose (h_nh h) (with_deadline ctx) shardID (Raw (PartitionCommand_Marshal cmd)) d"

definition Host_ProposePartition :: "'d Host \<Rightarrow> ctx \<Rightarrow> int \<Rightarrow> PartitionCommand \<Rightarrow> 'd \<Rightarrow> go_error option \<times> 'd" where
  "Host_ProposePartition h ctx shardID cmd d =
     nh_Propose (h_nh h) shardID (Raw (PartitionCommand_Marshal cmd)) (proposeTimeout (ctx_Deadline ctx) (ctx_now ctx)) d"

definition Host_LookupPartition :: "'d Host \<Rightarrow> int \<Rightarrow> PartitionQuery \<Rightarrow> 'd \<Rightarrow> (go_error + answer) \<times> 'd" where
  "Host_LookupPartition h shardID q d = StaleRead (h_nh h) shardID (PartQuery q) d"

section \<open>The adapter of the broker\<close>

record 'd brokerHost =
  bh_host :: "'d Host"
  bh_dataDir :: string
  bh_storageCfg :: StorageConfig

text \<open>The factory of a partition shard; a directory that cannot be made panics.\<close>

definition shardDir :: "string \<Rightarrow> int \<Rightarrow> string" where
  "shardDir dataDir sid = filepath_Join [dataDir, ''partitions'', ''shard-'' @ format_int sid]"

definition partition_factory :: "(string \<Rightarrow> bool) \<Rightarrow> 'd brokerHost \<Rightarrow> string \<Rightarrow> int \<Rightarrow> int \<Rightarrow> go_error + fsm_args" where
  "partition_factory mkdirOk bh topic partitionID sid =
     (let dir = shardDir (bh_dataDir bh) sid
      in if \<not> mkdirOk dir then Inl (GoPanic ''mkdir partition dir'')
         else Inr \<lparr>fa_dir = dir, fa_sidecarPath = filepath_Join [dir, ''applied.idx''], fa_config = bh_storageCfg bh,
                   fa_topic = topic, fa_partition = format_int partitionID\<rparr>)"

text \<open>A lookup is followed by a type assertion in its callers.\<close>

fun meta_answer :: "(go_error + answer) \<times> 'd \<Rightarrow> (go_error + MetadataAnswer) \<times> 'd" where
  "meta_answer (Inl err, d) = (Inl err, d)"
| "meta_answer (Inr (MetaAnswer a), d) = (Inr a, d)"
| "meta_answer (Inr (PartAnswer a), d) = (Inl bad_type, d)"

fun part_answer :: "(go_error + answer) \<times> 'd \<Rightarrow> (go_error + PartitionAnswer) \<times> 'd" where
  "part_answer (Inl err, d) = (Inl err, d)"
| "part_answer (Inr (PartAnswer a), d) = (Inr a, d)"
| "part_answer (Inr (MetaAnswer a), d) = (Inl bad_type, d)"

fun result_value :: "(go_error + Result) \<times> 'd \<Rightarrow> (go_error + int) \<times> 'd" where
  "result_value (Inl err, d) = (Inl err, d)"
| "result_value (Inr r, d) = (Inr (r_Value r), d)"

definition brokerHost_meta :: "'d brokerHost \<Rightarrow> ctx \<Rightarrow> (string \<Rightarrow> 'd \<Rightarrow> (string, MemberState) gomap) \<Rightarrow> 'd host" where
  "brokerHost_meta bh ctx live =
     \<lparr>SyncProposeMetadata = Host_SyncProposeMetadata (bh_host bh) ctx,
      LookupMetadata = (\<lambda>q d. meta_answer (Host_LookupMetadata (bh_host bh) q d)),
      GetLeaderID = Host_GetLeaderID (bh_host bh),
      LiveMembers = live\<rparr>"

definition brokerHost_data :: "'d brokerHost \<Rightarrow> ctx \<Rightarrow> (string \<Rightarrow> 'd \<Rightarrow> (string, MemberState) gomap) \<Rightarrow> 'd data_host" where
  "brokerHost_data bh ctx live =
     \<lparr>dh_meta = brokerHost_meta bh ctx live,
      LookupPartition = (\<lambda>shard q d. part_answer (Host_LookupPartition (bh_host bh) shard q d)),
      SyncProposePartition = (\<lambda>shard c d. result_value (Host_SyncProposePartition (bh_host bh) ctx shard c d)),
      ProposePartition = Host_ProposePartition (bh_host bh) ctx\<rparr>"

definition brokerHost_cluster :: "(string \<Rightarrow> bool) \<Rightarrow> 'd brokerHost \<Rightarrow> ctx \<Rightarrow> (string \<Rightarrow> 'd \<Rightarrow> (string, MemberState) gomap) \<Rightarrow>
    'd cluster_host" where
  "brokerHost_cluster mkdirOk bh ctx live =
     \<lparr>ch_meta = brokerHost_meta bh ctx live,
      StartMetadataShard = Host_StartMetadataShard (bh_host bh),
      StartPartitionShard = (\<lambda>shard members join topic pid.
        Host_StartPartitionShard (bh_host bh) shard members join (partition_factory mkdirOk bh topic pid)),
      StopPartitionShard = Host_StopPartitionShard (bh_host bh),
      ch_ProposePartition = Host_ProposePartition (bh_host bh) ctx\<rparr>"

section \<open>What is relied on\<close>

text \<open>
  A read of the local metadata replica answers from its state, and a successful proposal to the
  metadata shard is applied after some commands of other nodes; a call that fails leaves the state
  to the other nodes.
\<close>

locale raft_library =
  fixes nh :: "'d nodehost"
    and meta :: "'d \<Rightarrow> MetadataState"
  assumes read_env: "StaleRead nh metadataShardID q d = (x, d') \<Longrightarrow> \<exists>cs. meta d' = apply_all cs (meta d)"
    and read_answer: "StaleRead nh metadataShardID (MetaQuery mq) d = (Inr a, d') \<Longrightarrow>
      \<exists>b. a = MetaAnswer b \<and> MetadataFSM_Lookup mq (meta d') = Inr b"
    and sync_env: "SyncPropose nh deadline metadataShardID p d = (Inl e, d') \<Longrightarrow> \<exists>cs. meta d' = apply_all cs (meta d)"
    and sync_result: "SyncPropose nh deadline metadataShardID (JSON c) d = (Inr r, d') \<Longrightarrow>
      \<exists>cs. applyCommand c (apply_all cs (meta d)) = Inr (r, meta d')"
begin

lemma lookup_read:
  assumes "meta_answer (StaleRead nh metadataShardID (MetaQuery mq) d) = (x, d')"
  shows "(\<exists>cs. meta d' = apply_all cs (meta d)) \<and> (\<forall>a. x = Inr a \<longrightarrow> MetadataFSM_Lookup mq (meta d') = Inr a)"
proof -
  obtain y d1 where y: "StaleRead nh metadataShardID (MetaQuery mq) d = (y, d1)" by fastforce
  note env = read_env [OF y]
  show ?thesis
  proof (cases y)
    case (Inl e)
    then show ?thesis using assms y env by auto
  next
    case (Inr a)
    then obtain b where "a = MetaAnswer b" "MetadataFSM_Lookup mq (meta d1) = Inr b" using read_answer y by blast
    then show ?thesis using assms y Inr env by auto
  qed
qed

lemma host_contract:
  assumes "h_nh (bh_host bh) = nh"
  shows "meta_host (brokerHost_meta bh ctx (\<lambda>grp d. members_of grp (meta d))) meta"
proof (unfold_locales, goal_cases)
  case (1 q h x h')
  then have "meta_answer (StaleRead nh metadataShardID (MetaQuery q) h) = (x, h')"
    using assms by (simp add: brokerHost_meta_def Host_LookupMetadata_def)
  from lookup_read [OF this] show ?case by blast
next
  case (2 q h a h')
  then have "meta_answer (StaleRead nh metadataShardID (MetaQuery q) h) = (Inr a, h')"
    using assms by (simp add: brokerHost_meta_def Host_LookupMetadata_def)
  from lookup_read [OF this] show ?case by blast
next
  case (3 c h e h')
  then have "SyncPropose nh (with_deadline ctx) metadataShardID (JSON (wire c)) h = (Inl e, h')"
    using assms by (simp add: brokerHost_meta_def Host_SyncProposeMetadata_def json_Marshal_def)
  then show ?case by (rule sync_env)
next
  case (4 c h r h')
  then have "SyncPropose nh (with_deadline ctx) metadataShardID (JSON (wire c)) h = (Inr r, h')"
    using assms by (simp add: brokerHost_meta_def Host_SyncProposeMetadata_def json_Marshal_def)
  then show ?case by (rule sync_result)
qed (simp add: brokerHost_meta_def)

end

section \<open>A node host of state machines\<close>

text \<open>
  The node of \<open>PartHost\<close> as a node host: what is proposed to a shard is applied to its state
  machine after what the schedule says.  Requests to start or stop a shard are accepted.
\<close>

definition psim_node :: "os_env \<Rightarrow> StorageConfig \<Rightarrow> (bytes \<Rightarrow> go_error + (int \<times> int)) \<Rightarrow>
    (int \<Rightarrow> go_error + (int \<times> int \<times> bool)) \<Rightarrow> psim nodehost" where
  "psim_node os cfg dec leader =
     \<lparr>SyncPropose = (\<lambda>deadline shard p d.
        (case psim_next os cfg dec d of
           (Some e, d) \<Rightarrow> (Inl e, d)
         | (None, d) \<Rightarrow>
             (case p of
                JSON c \<Rightarrow>
                  (case applyCommand c (ps_meta d) of
                     Inl e \<Rightarrow> (Inl e, d)
                   | Inr (r, st) \<Rightarrow> (Inr r, d\<lparr>ps_meta := st\<rparr>))
              | Raw cmd \<Rightarrow>
                  (case map_of (ps_shards d) shard of
                     None \<Rightarrow> (Inl (SysErr ''shard not found''), d)
                   | Some f \<Rightarrow>
                       (case PartitionFSM_Update os cfg dec (entries_after (lastAppliedIndex f) [cmd]) f of
                          (Inl e, f) \<Rightarrow> (Inl e, d\<lparr>ps_shards := mput shard f (ps_shards d)\<rparr>)
                        | (Inr es, f) \<Rightarrow> (Inr (Result (e_Result (hd es)) NoData), d\<lparr>ps_shards := mput shard f (ps_shards d)\<rparr>)))))),
      nh_Propose = (\<lambda>shard p timeout d.
        (case psim_next os cfg dec d of
           (Some e, d) \<Rightarrow> (Some e, d)
         | (None, d) \<Rightarrow>
             (None, (case p of
                JSON c \<Rightarrow> d\<lparr>ps_sched := ([c], [], None) # ps_sched d\<rparr>
              | Raw cmd \<Rightarrow> d\<lparr>ps_sched := ([], [(shard, Committed [cmd])], None) # ps_sched d\<rparr>)))),
      StaleRead = (\<lambda>shard q d.
        (case psim_next os cfg dec d of
           (Some e, d) \<Rightarrow> (Inl e, d)
         | (None, d) \<Rightarrow>
             (case q of
                MetaQuery mq \<Rightarrow> (map_sum id MetaAnswer (MetadataFSM_Lookup mq (ps_meta d)), d)
              | PartQuery pq \<Rightarrow>
                  (case map_of (ps_shards d) shard of
                     None \<Rightarrow> (Inl (SysErr ''shard not found''), d)
                   | Some f \<Rightarrow> (map_sum id PartAnswer (PartitionFSM_Lookup pq f), d))))),
      StartReplica = (\<lambda>members join c d. (None, d)),
      StartOnDiskReplica = (\<lambda>members join factory c d. (None, d)),
      nh_StopShard = (\<lambda>shard d. (None, d)),
      nh_GetLeaderID = (\<lambda>shard d. leader shard),
      nh_Close = (\<lambda>d. d)\<rparr>"

interpretation pl: raft_library "psim_node os cfg dec leader" ps_meta for os cfg dec leader
proof (unfold_locales, goal_cases)
  case (1 q d x d')
  then show ?case using psim_next_env [of os cfg dec d]
    by (auto simp: psim_node_def split: prod.splits option.splits query.splits)
next
  case (2 mq d a d')
  then show ?case by (cases "MetadataFSM_Lookup mq (ps_meta d')") (auto simp: psim_node_def split: prod.splits option.splits)
next
  case (3 deadline p d e d')
  then obtain x d1 where "psim_next os cfg dec d = (x, d1)" "ps_meta d' = ps_meta d1"
    by (auto simp: psim_node_def split: prod.splits option.splits sum.splits payload.splits)
  then show ?case using psim_next_env [of os cfg dec d] by auto
next
  case (4 deadline c d r d')
  then obtain d1 where d1: "psim_next os cfg dec d = (None, d1)" "applyCommand c (ps_meta d1) = Inr (r, ps_meta d')"
    by (auto simp: psim_node_def split: prod.splits option.splits sum.splits)
  then show ?case using psim_next_env [OF d1(1)] by auto
qed

section \<open>The hosts of the coordinators\<close>

lemma meta_answer_map: "meta_answer (map_sum id MetaAnswer x, d) = (x, d)"
  by (cases x) simp_all

lemma part_answer_map: "part_answer (map_sum id PartAnswer x, d) = (x, d)"
  by (cases x) simp_all

lemma brokerHost_psim_meta:
  assumes "h_nh (bh_host bh) = psim_node os cfg dec leader"
  shows "brokerHost_meta bh ctx (\<lambda>grp d. members_of grp (ps_meta d)) = psim_meta_host os cfg dec leader"
proof -
  have "Host_SyncProposeMetadata (bh_host bh) ctx c d = SyncProposeMetadata (psim_meta_host os cfg dec leader) c d" for c d
    by (auto simp: Host_SyncProposeMetadata_def json_Marshal_def assms psim_node_def psim_meta_host_def local_propose_def
        split: prod.splits option.splits sum.splits)
  moreover have "meta_answer (Host_LookupMetadata (bh_host bh) q d) = LookupMetadata (psim_meta_host os cfg dec leader) q d" for q d
    by (auto simp: Host_LookupMetadata_def assms psim_node_def psim_meta_host_def meta_answer_map split: prod.splits option.splits)
  ultimately show ?thesis
    by (simp add: brokerHost_meta_def fun_eq_iff) (simp add: psim_meta_host_def Host_GetLeaderID_def assms psim_node_def fun_eq_iff)
qed

text \<open>The other operations of the adapter, on the same node host.\<close>

lemma brokerHost_psim_async:
  assumes "h_nh host = psim_node os cfg dec leader"
  shows "Host_ProposePartition host ctx = ProposePartition (psim_host os cfg dec leader)"
  by (intro ext) (auto simp: Host_ProposePartition_def assms psim_node_def psim_host_def split: prod.splits option.splits)

lemma brokerHost_psim_data:
  assumes "h_nh (bh_host bh) = psim_node os cfg dec leader"
  shows "brokerHost_data bh ctx (\<lambda>grp d. members_of grp (ps_meta d)) = psim_host os cfg dec leader"
proof -
  have look: "part_answer (Host_LookupPartition (bh_host bh) shard q d) = LookupPartition (psim_host os cfg dec leader) shard q d"
    for shard q d
    by (auto simp: Host_LookupPartition_def assms psim_node_def psim_host_def part_answer_map split: prod.splits option.splits)
  have sync: "result_value (Host_SyncProposePartition (bh_host bh) ctx shard c d) =
      SyncProposePartition (psim_host os cfg dec leader) shard c d" for shard c d
    by (auto simp: Host_SyncProposePartition_def assms psim_node_def psim_host_def split: prod.splits option.splits sum.splits)
  show ?thesis
    by (simp add: brokerHost_data_def brokerHost_psim_meta [OF assms] look sync brokerHost_psim_async [OF assms])
      (simp add: psim_host_def)
qed

lemma brokerHost_psim_cluster:
  assumes "h_nh (bh_host bh) = psim_node (be_os e) (be_cfg e) (be_dec e) (be_leader e)"
  shows "brokerHost_cluster mkdirOk bh ctx (\<lambda>grp d. members_of grp (ps_meta d)) = psim_cluster e"
proof -
  have "Host_StartMetadataShard (bh_host bh) = (\<lambda>members join h. (None, h))"
    "Host_StartPartitionShard (bh_host bh) = (\<lambda>shard members join factory h. (None, h))"
    "Host_StopPartitionShard (bh_host bh) = (\<lambda>shard h. (None, h))"
    by (intro ext, simp add: assms Host_StartMetadataShard_def Host_StartPartitionShard_def Host_StopPartitionShard_def psim_node_def)+
  then show ?thesis
    by (simp add: brokerHost_cluster_def psim_cluster_def brokerHost_psim_meta [OF assms] brokerHost_psim_async [OF assms])
qed

end
