(* ===== verification/PropsHost.thy ===== *)
theory PropsHost
  imports RaftHost
begin

text \<open>
  The property of the raft host: the interfaces on which the coordinators are verified are the ones
  that the broker builds.
\<close>


end
