(* ===== verification/Tabwriter.thy ===== *)
theory Tabwriter
  imports GoText
begin

text \<open>
  Aligned columns as the writer of \<open>text/tabwriter\<close> makes them, with the settings of the command
  line tool: minimal width 1, padding 2 with spaces, no flags.  Cells end at tabs and lines at
  newlines; the width of a cell is its number of characters.  A table whose lines have the same
  number of cells comes out with one width per column, and its cells can be read back.
\<close>

abbreviation tab :: char where "tab \<equiv> CHR 0x09"

abbreviation newline :: char where "newline \<equiv> CHR 0x0A"

abbreviation space :: char where "space \<equiv> CHR 0x20"

section \<open>The writer\<close>

text \<open>The number of characters of a text in UTF-8: its bytes that do not continue a character.\<close>

definition rune_count :: "string \<Rightarrow> nat" where
  "rune_count s = length (filter (\<lambda>c. \<not> (128 \<le> (of_char c :: nat) \<and> (of_char c :: nat) < 192)) s)"

definition minwidth :: nat where "minwidth = 1"

definition padding :: nat where "padding = 2"

definition cell_pad :: "nat \<Rightarrow> string \<Rightarrow> string" where
  "cell_pad w c = c @ replicate (w - rune_count c) space"

text \<open>The cells of a line, of which those with a width are padded.\<close>

fun write_cells :: "nat list \<Rightarrow> string list \<Rightarrow> string" where
  "write_cells ws [] = []"
| "write_cells [] (c # cs) = c @ write_cells [] cs"
| "write_cells (w # ws) (c # cs) = cell_pad w c @ write_cells ws cs"

text \<open>
  A line takes part in column \<open>k\<close> when a tab ends its cell there; the last cell of a line belongs
  to no column.  The lines of a block, which follow each other and all take part in the column,
  get one width there and are then formatted from the next column on.
\<close>

definition in_column :: "nat \<Rightarrow> string list \<Rightarrow> bool" where
  "in_column k line \<longleftrightarrow> k + 1 < length line"

definition block_width :: "nat \<Rightarrow> string list list \<Rightarrow> nat" where
  "block_width k block = foldl (\<lambda>w line. max w (rune_count (line ! k) + padding)) minwidth block"

lemma sum_block: "(\<Sum>l\<leftarrow>takeWhile P ls. length l - Suc k) \<le> (\<Sum>l\<leftarrow>ls. length l - k)"
  for ls :: "string list list"
  by (induction ls) (auto intro!: add_mono)

lemma sum_rest: "(\<Sum>l\<leftarrow>dropWhile P ls. length l - k) \<le> (\<Sum>l\<leftarrow>ls. length l - k)"
  for ls :: "string list list"
  by (induction ls) auto

function tab_format :: "nat list \<Rightarrow> string list list \<Rightarrow> string list" where
  "tab_format ws [] = []"
| "tab_format ws (line # lines) =
     (if in_column (length ws) line
      then let block = line # takeWhile (in_column (length ws)) lines
           in tab_format (ws @ [block_width (length ws) block]) block
              @ tab_format ws (dropWhile (in_column (length ws)) lines)
      else write_cells ws line # tab_format ws lines)"
  by pat_completeness auto

termination
proof (relation "measure (\<lambda>(ws, ls). length ls + (\<Sum>l\<leftarrow>ls. length l - length ws))", goal_cases)
  case (2 ws line lines block)
  then show ?case
    using sum_block [of "length ws" "in_column (length ws)" lines] length_takeWhile_le [of "in_column (length ws)" lines]
    by (auto simp: in_column_def)
next
  case (3 ws line lines block)
  then show ?case
    using sum_rest [of "length ws" "in_column (length ws)" lines] length_dropWhile_le [of "in_column (length ws)" lines]
    by auto
qed auto

declare tab_format.simps [simp del]

definition tab_write :: "string \<Rightarrow> string" where
  "tab_write s = strings_Join (tab_format [] (map (\<lambda>l. strings_Split l tab) (strings_Split s newline))) newline"

section \<open>Tables\<close>

text \<open>The lines of a table, as the tool writes them.\<close>

definition table_text :: "string list list \<Rightarrow> string" where
  "table_text rows = concat (map (\<lambda>row. strings_Join row tab @ [newline]) rows)"

definition col_widths :: "nat \<Rightarrow> string list list \<Rightarrow> nat list" where
  "col_widths n rows = map (\<lambda>k. block_width k rows) [0..<n]"

lemma foldl_max: "foldl (\<lambda>w l. max w (f l)) m ls = fold (\<lambda>l w. max w (f l)) ls m"
  by (simp add: foldl_conv_fold)

lemma fold_max_bounds:
  "m \<le> fold (\<lambda>l w. max w (f l)) ls m \<and> (l \<in> set ls \<longrightarrow> f l \<le> fold (\<lambda>l w. max w (f l)) ls m)" for m :: nat
proof (induction ls arbitrary: m)
  case (Cons a ls)
  show ?case using Cons.IH [of "max m (f a)"] by auto
qed simp

lemma cell_fits: "row \<in> set rows \<Longrightarrow> rune_count (row ! k) + 2 \<le> block_width k rows"
  using fold_max_bounds [of minwidth "\<lambda>line. rune_count (line ! k) + padding" rows row]
  by (simp add: block_width_def foldl_max padding_def)

lemma tab_format_last_column:
  assumes "\<forall>row \<in> set rows. \<not> in_column (length ws) row"
  shows "tab_format ws (rows @ others) = map (write_cells ws) rows @ tab_format ws others"
  using assms by (induction rows) (simp_all add: tab_format.simps)

lemma tab_format_block:
  assumes "rows \<noteq> []" "\<forall>row \<in> set rows. in_column (length ws) row"
    "others \<noteq> [] \<Longrightarrow> \<not> in_column (length ws) (hd others)"
  shows "tab_format ws (rows @ others) = tab_format (ws @ [block_width (length ws) rows]) rows @ tab_format ws others"
proof -
  obtain row rest where rows: "rows = row # rest" using assms(1) by (cases rows) auto
  have "takeWhile (in_column (length ws)) (rest @ others) = rest" "dropWhile (in_column (length ws)) (rest @ others) = others"
    using assms(2,3) rows by (cases others; auto simp: takeWhile_append dropWhile_append)+
  then show ?thesis using rows assms(2) by (simp add: tab_format.simps(2) Let_def)
qed

lemma tab_format_rows:
  assumes "\<forall>row \<in> set rows. length row = Suc n" "length ws \<le> n" "rows \<noteq> []"
  shows "tab_format ws rows = map (write_cells (ws @ map (\<lambda>k. block_width k rows) [length ws..<n])) rows"
  using assms(2)
proof (induction "n - length ws" arbitrary: ws)
  case 0
  then show ?case
    using assms(1) tab_format_last_column [of rows ws "[]"] by (simp add: in_column_def tab_format.simps)
next
  case (Suc d)
  have "length ws < n" using Suc.hyps(2) by simp
  then have "\<forall>row \<in> set rows. in_column (length ws) row" using assms(1) by (simp add: in_column_def)
  then have "tab_format ws rows = tab_format (ws @ [block_width (length ws) rows]) rows"
    using tab_format_block [of rows ws "[]"] assms(3) by (simp add: tab_format.simps)
  also have "\<dots> = map (write_cells ((ws @ [block_width (length ws) rows]) @
      map (\<lambda>k. block_width k rows) [length (ws @ [block_width (length ws) rows])..<n])) rows"
    by (rule Suc.hyps) (use Suc in auto)
  also have "(ws @ [block_width (length ws) rows]) @ map (\<lambda>k. block_width k rows) [length (ws @ [block_width (length ws) rows])..<n]
      = ws @ map (\<lambda>k. block_width k rows) [length ws..<n]"
    using Suc by (simp add: upt_conv_Cons)
  finally show ?case .
qed

definition plain_table :: "nat \<Rightarrow> string list list \<Rightarrow> bool" where
  "plain_table n rows \<longleftrightarrow> rows \<noteq> [] \<and>
     list_all (\<lambda>row. length row = Suc (Suc n) \<and> list_all (\<lambda>c. tab \<notin> set c \<and> newline \<notin> set c) row) rows"

lemma Join_no_newline: "list_all (\<lambda>c. newline \<notin> set c) row \<Longrightarrow> newline \<notin> set (strings_Join row tab)"
  by (induction row tab rule: strings_Join.induct) auto

lemma Split_table:
  assumes "list_all (\<lambda>row. row \<noteq> [] \<and> list_all (\<lambda>c. tab \<notin> set c \<and> newline \<notin> set c) row) rows"
  shows "map (\<lambda>l. strings_Split l tab) (strings_Split (table_text rows) newline) = rows @ [[[]]]"
  using assms
proof (induction rows)
  case (Cons row rows)
  have "newline \<notin> set (strings_Join row tab)" using Cons.prems by (auto intro!: Join_no_newline simp: list_all_iff)
  moreover have "strings_Split (strings_Join row tab) tab = row"
    using Cons.prems by (intro Split_Join) (auto simp: list_all_iff)
  ultimately show ?case using Cons by (simp add: table_text_def Split_append)
qed (simp add: table_text_def)

text \<open>The writer on a table: every line is padded to the widths of its columns.\<close>

lemma Join_lines: "strings_Join (ls @ [[]]) newline = concat (map (\<lambda>l. l @ [newline]) ls)"
proof (induction ls)
  case (Cons l ls)
  then show ?case by (cases ls) simp_all
qed simp

lemma tab_write_table:
  assumes "plain_table n rows"
  shows "tab_write (table_text rows) =
    concat (map (\<lambda>row. write_cells (col_widths (Suc n) rows) row @ [newline]) rows)"
proof -
  have len: "\<forall>row \<in> set rows. length row = Suc (Suc n)" and ne: "rows \<noteq> []"
    using assms by (auto simp: plain_table_def list_all_iff)
  then have cols: "\<forall>row \<in> set rows. in_column (length []) row" by (simp add: in_column_def)
  have "map (\<lambda>l. strings_Split l tab) (strings_Split (table_text rows) newline) = rows @ [[[]]]"
    using assms by (intro Split_table) (auto simp: plain_table_def list_all_iff)
  moreover have "tab_format [] (rows @ [[[]]]) = tab_format [] rows @ [[]]"
    using tab_format_block [OF ne cols, of "[[[]]]"] tab_format_block [OF ne cols, of "[]"]
    by (simp add: in_column_def tab_format.simps)
  moreover have "tab_format [] rows = map (write_cells (col_widths (Suc n) rows)) rows"
    using tab_format_rows [OF len, of "[]"] ne by (simp add: col_widths_def)
  ultimately show ?thesis
    by (simp add: tab_write_def Join_lines) (simp add: comp_def)
qed

section \<open>Reading a table back\<close>

text \<open>The words of a line, separated by spaces.\<close>

fun words :: "string \<Rightarrow> string list" where
  "words [] = []"
| "words (c # s) =
     (if c = space then words s
      else if s = [] \<or> hd s = space then [c] # words s
      else (case words s of [] \<Rightarrow> [[c]] | w # ws \<Rightarrow> (c # w) # ws))"

definition read_table :: "string \<Rightarrow> string list list" where
  "read_table s = map words (butlast (strings_Split s newline))"

lemma words_spaces: "words (replicate k space @ s) = words s"
  by (induction k) simp_all

lemma words_word:
  assumes "w \<noteq> []" "space \<notin> set w" "s = [] \<or> hd s = space"
  shows "words (w @ s) = w # words s"
  using assms
proof (induction w)
  case (Cons c w)
  then show ?case by (cases w) (auto simp: hd_append)
qed simp

lemma words_cells:
  assumes "list_all (\<lambda>c. c \<noteq> [] \<and> space \<notin> set c) row" "list_all2 (\<lambda>w c. rune_count c < w) ws (butlast row)" "row \<noteq> []"
  shows "words (write_cells ws row) = row"
  using assms
proof (induction row arbitrary: ws)
  case (Cons c row)
  show ?case
  proof (cases row)
    case Nil
    then show ?thesis using Cons.prems words_word [of c "[]"] by (cases ws) auto
  next
    case (Cons d row')
    then obtain w ws' where ws: "ws = w # ws'" "rune_count c < w" "list_all2 (\<lambda>w c. rune_count c < w) ws' (butlast row)"
      using Cons.prems by (cases ws) auto
    obtain k where k: "w - rune_count c = Suc k" using ws(2) by (metis Suc_diff_Suc)
    have "words (write_cells ws (c # row)) = words (c @ (space # replicate k space @ write_cells ws' row))"
      by (simp add: ws(1) cell_pad_def k)
    also have "\<dots> = c # words (space # replicate k space @ write_cells ws' row)"
      using Cons.prems by (intro words_word) simp_all
    also have "words (space # replicate k space @ write_cells ws' row) = words (write_cells ws' row)"
      by (simp add: words_spaces)
    also have "words (write_cells ws' row) = row"
      using Cons.IH [OF _ ws(3)] Cons.prems Cons by simp
    finally show ?thesis .
  qed
qed simp

definition word_table :: "nat \<Rightarrow> string list list \<Rightarrow> bool" where
  "word_table n rows \<longleftrightarrow> plain_table n rows \<and> list_all (list_all (\<lambda>c. c \<noteq> [] \<and> space \<notin> set c)) rows"

lemma write_cells_no_newline:
  "list_all (\<lambda>c. newline \<notin> set c) row \<Longrightarrow> newline \<notin> set (write_cells ws row)"
  by (induction ws row rule: write_cells.induct) (auto simp: cell_pad_def)

lemma Split_lines:
  "list_all (\<lambda>l. newline \<notin> set l) ls \<Longrightarrow> strings_Split (concat (map (\<lambda>l. l @ [newline]) ls)) newline = ls @ [[]]"
  by (induction ls) (simp_all add: Split_append)

lemma read_table_write:
  assumes "word_table n rows"
  shows "read_table (tab_write (table_text rows)) = rows"
proof -
  let ?ws = "col_widths (Suc n) rows"
  have plain: "plain_table n rows" and cells: "\<And>row. row \<in> set rows \<Longrightarrow> list_all (\<lambda>c. c \<noteq> [] \<and> space \<notin> set c) row"
    using assms by (auto simp: word_table_def list_all_iff)
  have len: "length row = Suc (Suc n)" if "row \<in> set rows" for row
    using plain that by (simp add: plain_table_def list_all_iff)
  have row: "words (write_cells ?ws row) = row" if r: "row \<in> set rows" for row
  proof (rule words_cells [OF cells [OF r]])
    have "rune_count (row ! k) < block_width k rows" for k
      using cell_fits [OF r, of k] by simp
    then show "list_all2 (\<lambda>w c. rune_count c < w) ?ws (butlast row)"
      by (simp add: list_all2_conv_all_nth col_widths_def len [OF r] nth_butlast del: upt_Suc)
    show "row \<noteq> []" using len [OF r] by auto
  qed
  have "tab_write (table_text rows) = concat (map (\<lambda>l. l @ [newline]) (map (write_cells ?ws) rows))"
    using tab_write_table [OF plain] by (simp add: comp_def)
  moreover have "list_all (\<lambda>l. newline \<notin> set l) (map (write_cells ?ws) rows)"
    using plain by (auto simp: list_all_iff plain_table_def intro!: write_cells_no_newline)
  ultimately have "read_table (tab_write (table_text rows)) = map words (map (write_cells ?ws) rows)"
    by (simp add: read_table_def Split_lines butlast_append del: map_map)
  also have "\<dots> = rows" using row by (simp add: map_idI)
  finally show ?thesis .
qed

end
