(* ===== verification/CliAdmin.thy ===== *)
theory CliAdmin
  imports Cli Admin Tabwriter
begin

text \<open>
  The topic and cluster commands of the command line tool (\<open>cmd/bunnymq-cli/topic.go\<close> and
  \<open>cluster.go\<close>).  The values of the flags are arguments.  A command returns its error, what it
  writes to standard output, and the errors it writes to standard error.
\<close>

type_synonym 'n outcome = "client_error option \<times> string \<times> client_error list \<times> 'n"

section \<open>Printing\<close>

definition printTopicInfo :: "CliTopicInfo \<Rightarrow> string" where
  "printTopicInfo t = tab_write (table_text
     [[''Name:'', cti_Name t],
      [''Partitions:'', format_int (cti_PartitionCount t)],
      [''ReplicationFactor:'', format_int (cti_ReplicationFactor t)],
      [''RetentionMs:'', format_int (cti_RetentionMs t)],
      [''RetentionBytes:'', format_int (cti_RetentionBytes t)],
      [''CreatedAtMs:'', format_int (cti_CreatedAtMs t)]])"

definition topic_row :: "CliTopicInfo \<Rightarrow> string list" where
  "topic_row t = [cti_Name t, format_int (cti_PartitionCount t), format_int (cti_ReplicationFactor t),
     format_int (cti_RetentionMs t), format_int (cti_RetentionBytes t)]"

definition topic_header :: "string list" where
  "topic_header = [''NAME'', ''PARTITIONS'', ''RF'', ''RETENTION-MS'', ''RETENTION-BYTES'']"

definition printTopicTable :: "CliTopicInfo list \<Rightarrow> string" where
  "printTopicTable topics = tab_write (table_text (topic_header # map topic_row topics))"

definition description_row :: "CliPartitionInfo \<Rightarrow> string list" where
  "description_row p = [format_int (cpi_PartitionID p), format_int (cpi_ShardID p), format_int (cpi_LeaderNodeID p),
     format_int (cpi_LeaderEpoch p)]"

definition printTopicDescription :: "CliTopicDescription \<Rightarrow> string" where
  "printTopicDescription d =
     tab_write (table_text
       [[''Name:'', cti_Name (ctd_Topic d)],
        [''Partitions:'', format_int (cti_PartitionCount (ctd_Topic d))],
        [''ReplicationFactor:'', format_int (cti_ReplicationFactor (ctd_Topic d))],
        [''RetentionMs:'', format_int (cti_RetentionMs (ctd_Topic d))],
        [''RetentionBytes:'', format_int (cti_RetentionBytes (ctd_Topic d))]])
     @ [newline]
     @ tab_write (table_text ([''PARTITION'', ''SHARD'', ''LEADER-NODE'', ''EPOCH''] # map description_row (ctd_Partitions d)))"

definition partition_row :: "CliPartitionInfoWithOffsets \<Rightarrow> string list" where
  "partition_row p = [format_int (cpi_PartitionID (cpo_Info p)), format_int (cpi_LeaderNodeID (cpo_Info p)),
     format_int (cpi_ShardID (cpo_Info p)), format_int (cpo_EarliestOffset p), format_int (cpo_LatestOffset p)]"

definition partition_header :: "string list" where
  "partition_header = [''PARTITION'', ''LEADER-NODE'', ''SHARD'', ''EARLIEST'', ''LATEST'']"

definition printPartitionTable :: "CliPartitionInfoWithOffsets list \<Rightarrow> string" where
  "printPartitionTable parts = tab_write (table_text (partition_header # map partition_row parts))"

definition printClusterTable :: "NodeDescriptor list \<Rightarrow> string" where
  "printClusterTable nodes = tab_write (table_text
     ([''NODE-ID'', ''ADDRESS''] # map (\<lambda>n. [format_int (nd_NodeID n), nd_Address n]) nodes))"

section \<open>Commands\<close>

text \<open>
  The frame of every command: a client is made, an error of the call goes to standard error and is
  returned, and the client is closed at the end, where errors are ignored.
\<close>

definition with_admin :: "ClientConfig \<Rightarrow> (AdminClient \<Rightarrow> 'n \<Rightarrow> (client_error + 'r) \<times> AdminClient \<times> 'n) \<Rightarrow>
    ('r \<Rightarrow> string) \<Rightarrow> 'n \<Rightarrow> 'n outcome" where
  "with_admin cfg call show n =
     (case NewAdminClient cfg of
        Inl err \<Rightarrow> (Some err, [], [], n)
      | Inr ac \<Rightarrow>
          (case call ac n of
             (Inl err, ac, n) \<Rightarrow> (Some err, [], [err], n)
           | (Inr r, ac, n) \<Rightarrow> (None, show r, [], n)))"

definition topicCreateCmd :: "'n mgmt_net \<Rightarrow> ClientConfig \<Rightarrow> string \<Rightarrow> int \<Rightarrow> int \<Rightarrow> int \<Rightarrow> int \<Rightarrow> 'n \<Rightarrow> 'n outcome" where
  "topicCreateCmd net cfg name partitions rf retMs retBytes =
     with_admin cfg (Admin_CreateTopic net
       \<lparr>ccr_Name = name, ccr_PartitionCount = partitions, ccr_ReplicationFactor = rf,
        ccr_RetentionMs = retMs, ccr_RetentionBytes = retBytes\<rparr>) printTopicInfo"

definition topicDeleteCmd :: "'n mgmt_net \<Rightarrow> ClientConfig \<Rightarrow> string \<Rightarrow> 'n \<Rightarrow> 'n outcome" where
  "topicDeleteCmd net cfg name =
     with_admin cfg (Admin_DeleteTopic net name) (\<lambda>_. ''deleted: '' @ name @ [newline])"

definition topicListCmd :: "'n mgmt_net \<Rightarrow> ClientConfig \<Rightarrow> 'n \<Rightarrow> 'n outcome" where
  "topicListCmd net cfg = with_admin cfg (Admin_ListTopics net) printTopicTable"

definition topicDescribeCmd :: "'n mgmt_net \<Rightarrow> ClientConfig \<Rightarrow> string \<Rightarrow> 'n \<Rightarrow> 'n outcome" where
  "topicDescribeCmd net cfg name = with_admin cfg (Admin_DescribeTopic net name) printTopicDescription"

definition topicAlterPartitionsCmd :: "'n mgmt_net \<Rightarrow> ClientConfig \<Rightarrow> string \<Rightarrow> int \<Rightarrow> 'n \<Rightarrow> 'n outcome" where
  "topicAlterPartitionsCmd net cfg name partitions =
     with_admin cfg (Admin_AlterTopicPartitions net name partitions) (\<lambda>_. ''updated: '' @ name @ [newline])"

definition topicAlterRetentionCmd :: "'n mgmt_net \<Rightarrow> ClientConfig \<Rightarrow> string \<Rightarrow> int \<Rightarrow> int \<Rightarrow> 'n \<Rightarrow> 'n outcome" where
  "topicAlterRetentionCmd net cfg name retMs retBytes =
     with_admin cfg (Admin_AlterTopicRetention net name retMs retBytes) (\<lambda>_. ''updated: '' @ name @ [newline])"

definition topicListPartitionsCmd :: "'n mgmt_net \<Rightarrow> ClientConfig \<Rightarrow> string \<Rightarrow> 'n \<Rightarrow> 'n outcome" where
  "topicListPartitionsCmd net cfg name = with_admin cfg (Admin_ListPartitions net name) printPartitionTable"

definition clusterDescribeCmd :: "'n mgmt_net \<Rightarrow> ClientConfig \<Rightarrow> 'n \<Rightarrow> 'n outcome" where
  "clusterDescribeCmd net cfg = with_admin cfg (Admin_DescribeCluster net) printClusterTable"

section \<open>Reading the tables\<close>

definition wordlike :: "string \<Rightarrow> bool" where
  "wordlike c \<longleftrightarrow> c \<noteq> [] \<and> tab \<notin> set c \<and> newline \<notin> set c \<and> space \<notin> set c"

lemma digit_wordlike: "is_digit c \<Longrightarrow> c \<noteq> tab \<and> c \<noteq> newline \<and> c \<noteq> space"
  by (auto simp: is_digit_def)

lemma format_nat_wordlike [simp]: "wordlike (format_nat n)"
  using format_nat_digits [of n] digit_wordlike by (auto simp: wordlike_def list_all_iff)

lemma format_int_wordlike [simp]: "wordlike (format_int i)"
  using format_nat_wordlike by (auto simp: format_int_def wordlike_def)

lemma word_tableI:
  assumes "rows \<noteq> []" "\<And>row. row \<in> set rows \<Longrightarrow> length row = Suc (Suc n) \<and> list_all wordlike row"
  shows "word_table n rows"
  using assms by (auto simp: word_table_def plain_table_def list_all_iff wordlike_def)

lemma topic_name_wordlike:
  assumes "topicNameRe name"
  shows "wordlike name"
proof -
  have "topic_char c \<Longrightarrow> c \<noteq> tab \<and> c \<noteq> newline \<and> c \<noteq> space" for c
    by (auto simp: topic_char_def less_eq_char_def)
  then show ?thesis using assms by (auto simp: topicNameRe_def wordlike_def list_all_iff)
qed

lemma read_topic_table:
  assumes "list_all (\<lambda>t. topicNameRe (cti_Name t)) topics"
  shows "read_table (printTopicTable topics) = topic_header # map topic_row topics"
proof -
  have "list_all wordlike topic_header" by (simp add: topic_header_def wordlike_def)
  then have "word_table 3 (topic_header # map topic_row topics)"
    using assms by (intro word_tableI) (auto simp: topic_header_def topic_row_def list_all_iff topic_name_wordlike)
  then show ?thesis unfolding printTopicTable_def by (rule read_table_write)
qed

lemma read_partition_table:
  "read_table (printPartitionTable parts) = partition_header # map partition_row parts"
proof -
  have "list_all wordlike partition_header" by (simp add: partition_header_def wordlike_def)
  then have "word_table 3 (partition_header # map partition_row parts)"
    by (intro word_tableI) (auto simp: partition_header_def partition_row_def)
  then show ?thesis unfolding printPartitionTable_def by (rule read_table_write)
qed

end
