(* ===== verification/PropsAdmin.thy ===== *)
theory PropsAdmin
  imports CliAdmin PropsFaults
begin

text \<open>
  The property of the topic commands: what one administrator creates, another one can read from
  the table that the list command prints.  It goes through all layers, from the flags of the
  command to the metadata state machine and back to the aligned columns.
\<close>

section \<open>The broker as a quiet host\<close>

interpretation bq: quiet_host "psim_cluster e" ps_meta "\<lambda>st h. h\<lparr>ps_meta := st\<rparr>" "\<lambda>h. ps_sched h = []" for e
  by unfold_locales (auto simp: psim_cluster_def syncProposeMetadata_def psim_meta_host_def psim_next_def split: prod.splits)

lemma broker_mgmt_list:
  "net_ListTopics (broker_mgmt e) addr = serve e (on_node (\<lambda>h.
     case Mgmt_ListTopics (psim_cluster e) h of (Inl err, h) \<Rightarrow> (Inl err, h) | (Inr infos, h) \<Rightarrow> (Inr (map Some infos), h)))"
  by (simp add: broker_mgmt_def broker_net_def net.defs mgmt_net.defs)

definition reachable :: "broker_env \<Rightarrow> ClientConfig \<Rightarrow> bool" where
  "reachable e cfg \<longleftrightarrow> BootstrapServers cfg \<noteq> [] \<and> validateToken (be_sent e) (be_tokens e) = None \<and>
     be_dial e (hd (BootstrapServers cfg))"

lemma with_admin_ok:
  assumes "reachable e cfg" "\<And>conn. fn conn w = (Inr r, w')"
    "\<And>a. call a w = on_result f (withRetry (broker_mgmt e) fn a w)"
  shows "with_admin cfg call show w = (None, show (f r), [], w')"
proof -
  obtain a where a: "NewAdminClient cfg = Inr a" "pool_open (a_pool a)" "be_dial e (a_addr a)"
    using assms(1) by (auto simp: reachable_def NewAdminClient_def default_config_def Let_def)
  obtain conn pool where "ConnPool_Get (be_dial e) (a_addr a) (a_pool a) = (Inr conn, pool)"
    using ConnPool_Get_ok [of "be_dial e"] a(2,3) by blast
  then show ?thesis
    using a(1) assms(2,3) by (simp add: with_admin_def withRetry_def broker_mgmt_ops retry_loop.simps [of _ "fn conn"] on_result_def)
qed

section \<open>Creating and listing\<close>

definition shown_topic :: "TopicMeta \<Rightarrow> string list" where
  "shown_topic t = [tm_Name t, format_int (tm_PartitionCount t), format_int (tm_ReplicationFactor t),
     format_int (tm_RetentionMs t), format_int (tm_RetentionBytes t)]"

lemma shown_topic_row: "topic_row (fromProtoTopicInfo (Some (protoTopicInfo (topicInfoFromMeta t)))) = shown_topic t"
  by (simp add: topic_row_def fromProtoTopicInfo_def protoTopicInfo_def topicInfoFromMeta_def shown_topic_def)

lemma list_command:
  assumes "reachable e cfg" "ps_sched (w_node w) = []" "list_all (\<lambda>t. topicNameRe (tm_Name t)) (mvals (Topics (ps_meta (w_node w))))"
  shows "\<exists>out. topicListCmd (broker_mgmt e) cfg w = (None, out, [], w) \<and>
    read_table out = topic_header # map shown_topic (all_topics (ps_meta (w_node w)))"
proof -
  let ?ts = "all_topics (ps_meta (w_node w))"
  let ?infos = "map (\<lambda>t. Some (protoTopicInfo (topicInfoFromMeta t))) ?ts"
  have tok: "validateToken (be_sent e) (be_tokens e) = None" using assms(1) by (simp add: reachable_def)
  have "net_ListTopics (broker_mgmt e) conn w = (Inr ?infos, w)" for conn
    by (simp add: broker_mgmt_list serve_ok [OF tok] on_node_def Mgmt_ListTopics_def bq.ListTopics_quiet assms(2) comp_def)
  from with_admin_ok [OF assms(1), of "net_ListTopics (broker_mgmt e)", OF this, of "Admin_ListTopics (broker_mgmt e)"]
  have "topicListCmd (broker_mgmt e) cfg w = (None, printTopicTable (map fromProtoTopicInfo ?infos), [], w)"
    by (simp add: topicListCmd_def Admin_ListTopics_def)
  moreover have "list_all (\<lambda>t. topicNameRe (cti_Name t)) (map fromProtoTopicInfo ?infos)"
    using assms(3) by (simp add: list_all_iff fromProtoTopicInfo_def protoTopicInfo_def topicInfoFromMeta_def)
  ultimately show ?thesis
    using read_topic_table [of "map fromProtoTopicInfo ?infos"] by (auto simp: comp_def shown_topic_row)
qed

lemma mput_fresh: "map_of m k = None \<Longrightarrow> mvals (mput k v m) = mvals m @ [v]"
  by (induction m) (auto simp: mvals_def split: if_splits)

text \<open>
  C19. What is created is listed.  On a broker that is reachable and otherwise idle, the create
  command with a valid name, positive counts, no more replicas than nodes and a fresh name succeeds,
  and the table that the list command prints afterwards, cut at spaces and line ends, consists of
  the header, the lines of the topics there were before and one line with the name, the counts and
  the retention limits of the new topic, where a retention in bytes of 0 stands for no limit.
\<close>

theorem created_topic_listed:
  assumes "reachable e cfg" "ps_sched (w_node w) = []" "topics_inv n (ps_meta (w_node w))" "n < 2 ^ 32" "pc < 2 ^ 31"
    "create_args_ok name pc rf (ps_meta (w_node w))" "map_of (Topics (ps_meta (w_node w))) name = None"
    "list_all (\<lambda>t. topicNameRe (tm_Name t)) (mvals (Topics (ps_meta (w_node w))))"
  shows "\<exists>out w' table rows. topicCreateCmd (broker_mgmt e) cfg name pc rf retMs retBytes w = (None, out, [], w') \<and>
    topicListCmd (broker_mgmt e) cfg w' = (None, table, [], w') \<and> read_table table = topic_header # rows \<and>
    mset rows = add_mset [name, format_int pc, format_int rf, format_int retMs, format_int (if retBytes = 0 then - 1 else retBytes)]
      (mset (map shown_topic (mvals (Topics (ps_meta (w_node w))))))"
proof -
  let ?st = "ps_meta (w_node w)" and ?now = "be_clock e (w_reads w) div 1000000"
  let ?ov = "\<lparr>tc_RetentionMs = (if retMs \<noteq> 0 then Some retMs else None),
      tc_RetentionBytes = (if retBytes \<noteq> 0 then Some retBytes else None)\<rparr>"
  let ?req = "\<lparr>ctq_Name = name, ctq_PartitionCount = pc, ctq_ReplicationFactor = rf, ctq_RetentionMs = retMs, ctq_RetentionBytes = retBytes\<rparr>"
  have tok: "validateToken (be_sent e) (be_tokens e) = None" using assms(1) by (simp add: reachable_def)
  obtain info tasks st' where c: "CreateTopic (psim_cluster e) ?now name pc rf ?ov (w_cc w) (w_node w) =
      (Inr (info, tasks), (w_node w)\<lparr>ps_meta := st'\<rparr>)"
    using bq.CreateTopic_total [OF assms(2-5), of name rf e ?now ?ov "w_cc w"] assms(6,7) by auto
  let ?w = "w\<lparr>w_reads := Suc (w_reads w), w_node := (w_node w)\<lparr>ps_meta := st'\<rparr>\<rparr>"
  obtain t where t: "Topics st' = mput name t (Topics ?st)" "shown_topic t =
      [name, format_int pc, format_int rf, format_int retMs, format_int (if retBytes = 0 then - 1 else retBytes)]"
    using bq.CreateTopic_topics [OF assms(2,3,6) c] by (auto simp: shown_topic_def topicInfoFromMeta_def)
  have "net_CreateTopic (broker_mgmt e) conn ?req w = (Inr (Some (protoTopicInfo info)), ?w)" for conn
    using c by (cases "retMs = 0"; cases "retBytes = 0")
      (simp_all add: broker_mgmt_ops serve_ok [OF tok] on_node_def Mgmt_CreateTopic_def)
  from with_admin_ok [OF assms(1), of "\<lambda>conn. net_CreateTopic (broker_mgmt e) conn ?req", OF this,
      of _ fromProtoTopicInfo printTopicInfo]
  have out: "topicCreateCmd (broker_mgmt e) cfg name pc rf retMs retBytes w =
      (None, printTopicInfo (fromProtoTopicInfo (Some (protoTopicInfo info))), [], ?w)"
    by (simp add: topicCreateCmd_def Admin_CreateTopic_def)
  have vals: "mvals (Topics st') = mvals (Topics ?st) @ [t]" by (simp add: t(1) mput_fresh assms(7))
  have name: "topicNameRe (tm_Name t)" using t(2) assms(6) by (simp add: shown_topic_def create_args_ok_def)
  obtain table where tab: "topicListCmd (broker_mgmt e) cfg ?w = (None, table, [], ?w)"
    "read_table table = topic_header # map shown_topic (all_topics st')"
    using list_command [OF assms(1), of ?w] assms(2,8) name vals by auto
  have "mset (map shown_topic (all_topics st')) = add_mset (shown_topic t) (mset (map shown_topic (mvals (Topics ?st))))"
    by (simp add: vals)
  then show ?thesis using out tab t(2) by metis
qed

theorem created_topic_listed_witness:
  "\<exists>out w' table rows. topicCreateCmd (broker_mgmt demo_broker) demo_client ''z'' 2 1 (- 1) 0 (demo_world demo_fsm) = (None, out, [], w') \<and>
    topicListCmd (broker_mgmt demo_broker) demo_client w' = (None, table, [], w') \<and> read_table table = topic_header # rows \<and>
    mset rows = {# [''z'', ''2'', ''1'', ''-1'', ''-1''], [''a'', ''1'', ''1'', ''0'', ''-1''] #}"
proof -
  have f: "format_int 2 = ''2''" "format_int 1 = ''1''" "format_int 0 = ''0''" "format_int (- 1) = ''-1''" by code_simp+
  show ?thesis
    using created_topic_listed [of demo_broker demo_client "demo_world demo_fsm" 1 2 "''z''" 1 "- 1" 0] demo_topics_inv
    by (simp add: reachable_def demo_client_def demo_broker_def demo_world_def validateToken_def create_args_ok_def topicNameRe_def
        topic_char_def less_eq_char_def demo_topics_def NewMetadataFSM_def mvals_def shown_topic_def f)
qed

end
