(* ===== verification/Metrics.thy ===== *)
theory Metrics
  imports ClusterCoord
begin

text \<open>
  What the program records in its metrics.  The Prometheus library keeps the values; here a metric
  is the list of calls made on it, and the last part says what the documentation of the library
  makes of such a list.  A value is the integer that the program converts to a float, and a
  duration is in nanoseconds.
\<close>

datatype metric_op =
    Inc string "string list"
  | Add string "string list" int
  | SetTo string "string list" int
  | Observe string "string list" int

section \<open>Reading the values\<close>

text \<open>A counter is the sum of what was added, a gauge is what was set last, and 0 before.\<close>

fun counted_by :: "string \<Rightarrow> string list \<Rightarrow> metric_op \<Rightarrow> int" where
  "counted_by name labels (Inc n ls) = (if n = name \<and> ls = labels then 1 else 0)"
| "counted_by name labels (Add n ls v) = (if n = name \<and> ls = labels then v else 0)"
| "counted_by name labels _ = 0"

definition counter :: "string \<Rightarrow> string list \<Rightarrow> metric_op list \<Rightarrow> int" where
  "counter name labels ops = sum_list (map (counted_by name labels) ops)"

fun set_by :: "string \<Rightarrow> string list \<Rightarrow> metric_op \<Rightarrow> int \<Rightarrow> int" where
  "set_by name labels (SetTo n ls v) old = (if n = name \<and> ls = labels then v else old)"
| "set_by name labels _ old = old"

definition gauge :: "string \<Rightarrow> string list \<Rightarrow> metric_op list \<Rightarrow> int" where
  "gauge name labels ops = fold (set_by name labels) ops 0"

lemma counter_simps [simp]:
  "counter name labels [] = 0"
  "counter name labels (op # ops) = counted_by name labels op + counter name labels ops"
  "counter name labels (ops @ ops') = counter name labels ops + counter name labels ops'"
  by (simp_all add: counter_def)

lemma gauge_Nil [simp]: "gauge name labels [] = 0"
  by (simp add: gauge_def)

lemma gauge_snoc [simp]: "gauge name labels (ops @ [op]) = set_by name labels op (gauge name labels ops)"
  by (simp add: gauge_def)

lemma gauge_append: "gauge name labels (ops @ ops') = fold (set_by name labels) ops' (gauge name labels ops)"
  by (simp add: gauge_def)

section \<open>Metrics of the API\<close>

text \<open>\<open>ServerMetrics\<close> of \<open>internal/api/server_metrics.go\<close>: the names under which the metrics are registered.\<close>

record ServerMetrics =
  GRPCRequestsTotal :: string
  GRPCRequestDuration :: string
  BuildInfo :: string
  UptimeSeconds :: string

definition NewServerMetrics :: ServerMetrics where
  "NewServerMetrics =
     \<lparr>GRPCRequestsTotal = ''bunnymq_grpc_requests_total'', GRPCRequestDuration = ''bunnymq_grpc_request_duration_seconds'',
      BuildInfo = ''bunnymq_build_info'', UptimeSeconds = ''bunnymq_uptime_seconds''\<rparr>"

definition RecordBuildInfo :: "ServerMetrics \<Rightarrow> string \<Rightarrow> string \<Rightarrow> string \<Rightarrow> string \<Rightarrow> metric_op list" where
  "RecordBuildInfo m version goVersion nodeID commit = [SetTo (BuildInfo m) [version, goVersion, nodeID, commit] 1]"

text \<open>A tick carries the time at which the gauge is set.\<close>

fun StartUptimeTicker :: "ServerMetrics \<Rightarrow> int \<Rightarrow> int loop_event list \<Rightarrow> metric_op list" where
  "StartUptimeTicker m startTime [] = []"
| "StartUptimeTicker m startTime (Done # evs) = []"
| "StartUptimeTicker m startTime (Tick now # evs) =
     SetTo (UptimeSeconds m) [] (now - startTime) # StartUptimeTicker m startTime evs"

end
