(* ===== verification/ApiServer.thy ===== *)
theory ApiServer
  imports Broker Metrics
begin

text \<open>
  The servers around the handlers (\<open>internal/api/server.go\<close>): the interceptors for authentication
  (\<open>auth\<close>), logging (\<open>logging\<close>) and metrics (\<open>server_metrics.go\<close>), and the chain in which they run.
  The state of a call is the state of the handlers together with what has been logged and recorded.
  How the gRPC library chains interceptors is the law of \<open>grpc_chain\<close>.
\<close>

section \<open>Calls\<close>

datatype log_entry =
    AuthFailed string rpc_status
  | Received string string
  | Unrecognized string
  | HandlerFailed string string rpc_status

record 's server =
  sv_state :: 's
  sv_log :: "log_entry list"
  sv_ops :: "metric_op list"

record call_info =
  ci_FullMethod :: string
  ci_metadata :: "(string, string list) gomap option"
  ci_duration :: int

text \<open>\<open>metadata.FromIncomingContext\<close> followed by \<open>Get\<close>; the keys of incoming metadata are lower case.\<close>

definition md_Get :: "string \<Rightarrow> call_info \<Rightarrow> string list option" where
  "md_Get key ci = map_option (\<lambda>md. mget0 [] md key) (ci_metadata ci)"

definition log_to :: "log_entry list \<Rightarrow> 's server \<Rightarrow> 's server" where
  "log_to es s = s\<lparr>sv_log := sv_log s @ es\<rparr>"

definition record_ops :: "metric_op list \<Rightarrow> 's server \<Rightarrow> 's server" where
  "record_ops ops s = s\<lparr>sv_ops := sv_ops s @ ops\<rparr>"

section \<open>Interceptors\<close>

type_synonym ('a, 's) handler = "'s server \<Rightarrow> (rpc_error + 'a) \<times> 's server"

type_synonym ('a, 's) interceptor = "call_info \<Rightarrow> ('a, 's) handler \<Rightarrow> ('a, 's) handler"

type_synonym 's stream_handler = "'s server \<Rightarrow> rpc_error option \<times> 's server"

definition auth_UnaryInterceptor :: "string list \<Rightarrow> call_info \<Rightarrow> ('a, 's) handler \<Rightarrow> ('a, 's) handler" where
  "auth_UnaryInterceptor validTokens ci handler s =
     (case validateToken (md_Get ''bunnymq-auth-token'' ci) validTokens of
        Some err \<Rightarrow> (Inl (Status err), log_to [AuthFailed (ci_FullMethod ci) err] s)
      | None \<Rightarrow> handler s)"

definition auth_StreamInterceptor :: "string list \<Rightarrow> call_info \<Rightarrow> 's stream_handler \<Rightarrow> 's stream_handler" where
  "auth_StreamInterceptor validTokens ci handler s =
     (case validateToken (md_Get ''bunnymq-auth-token'' ci) validTokens of
        Some err \<Rightarrow> (Some (Status err), log_to [AuthFailed (ci_FullMethod ci) err] s)
      | None \<Rightarrow> handler s)"

definition requestIDFromCtx :: "call_info \<Rightarrow> string" where
  "requestIDFromCtx ci =
     (case md_Get ''x-request-id'' ci of
        None \<Rightarrow> []
      | Some vals \<Rightarrow> if length vals = 0 then [] else hd vals)"

text \<open>What is logged about the error of a handler; a panic passes the interceptors.\<close>

fun failure_entries :: "call_info \<Rightarrow> rpc_error \<Rightarrow> log_entry list" where
  "failure_entries ci (Status st) =
     (if st_Code st = CodeUnimplemented then [Unrecognized (ci_FullMethod ci)]
      else [HandlerFailed (ci_FullMethod ci) (requestIDFromCtx ci) st])"
| "failure_entries ci (Crash m) = []"

definition logging_UnaryInterceptor :: "call_info \<Rightarrow> ('a, 's) handler \<Rightarrow> ('a, 's) handler" where
  "logging_UnaryInterceptor ci handler s =
     (case handler (log_to [Received (ci_FullMethod ci) (requestIDFromCtx ci)] s) of
        (Inr resp, s) \<Rightarrow> (Inr resp, s)
      | (Inl err, s) \<Rightarrow> (Inl err, log_to (failure_entries ci err) s))"

definition logging_StreamInterceptor :: "call_info \<Rightarrow> 's stream_handler \<Rightarrow> 's stream_handler" where
  "logging_StreamInterceptor ci handler s =
     (case handler (log_to [Received (ci_FullMethod ci) (requestIDFromCtx ci)] s) of
        (None, s) \<Rightarrow> (None, s)
      | (Some err, s) \<Rightarrow> (Some err, log_to (failure_entries ci err) s))"

text \<open>\<open>codeStr\<close> prints a status code.\<close>

definition ServerMetricsInterceptor :: "(grpc_code \<Rightarrow> string) \<Rightarrow> ServerMetrics \<Rightarrow> call_info \<Rightarrow> ('a, 's) handler \<Rightarrow> ('a, 's) handler" where
  "ServerMetricsInterceptor codeStr m ci handler s =
     (case handler s of
        (Inl (Crash msg), s) \<Rightarrow> (Inl (Crash msg), s)
      | (r, s) \<Rightarrow>
          let code = codeStr (case r of Inl (Status st) \<Rightarrow> st_Code st | _ \<Rightarrow> CodeOK)
          in (r, record_ops [Inc (GRPCRequestsTotal m) [ci_FullMethod ci, code],
                             Observe (GRPCRequestDuration m) [ci_FullMethod ci] (ci_duration ci)] s))"

section \<open>Servers\<close>

record ServerConfig =
  sc_Addr :: string
  sc_AuthTokens :: "string list"
  sc_TLSConfig :: bool
  sc_Metrics :: "ServerMetrics option"

record ('a, 's) ServerOptions =
  so_unary :: "('a, 's) interceptor list"
  so_stream :: "(call_info \<Rightarrow> 's stream_handler \<Rightarrow> 's stream_handler) list"
  so_creds :: bool

definition serverOptions :: "(grpc_code \<Rightarrow> string) \<Rightarrow> ServerConfig \<Rightarrow> ('a, 's) ServerOptions" where
  "serverOptions codeStr config =
     (let unary = [auth_UnaryInterceptor (sc_AuthTokens config), logging_UnaryInterceptor];
          unary = (case sc_Metrics config of None \<Rightarrow> unary | Some m \<Rightarrow> unary @ [ServerMetricsInterceptor codeStr m])
      in \<lparr>so_unary = unary,
          so_stream = [auth_StreamInterceptor (sc_AuthTokens config), logging_StreamInterceptor],
          so_creds = sc_TLSConfig config\<rparr>)"

text \<open>
  A server answers a call of a registered method with its handler behind the chained interceptors;
  \<open>chn\<close> is \<open>grpc.ChainUnaryInterceptor\<close>, \<open>service\<close> the registered handlers.
\<close>

definition NewManagementServer :: "(('a, 's) interceptor list \<Rightarrow> call_info \<Rightarrow> ('a, 's) handler \<Rightarrow> ('a, 's) handler) \<Rightarrow>
    (grpc_code \<Rightarrow> string) \<Rightarrow> ServerConfig \<Rightarrow> ('q \<Rightarrow> ('a, 's) handler) \<Rightarrow> call_info \<Rightarrow> 'q \<Rightarrow> ('a, 's) handler" where
  "NewManagementServer chn codeStr config service ci req = chn (so_unary (serverOptions codeStr config)) ci (service req)"

definition NewDataServer :: "(('a, 's) interceptor list \<Rightarrow> call_info \<Rightarrow> ('a, 's) handler \<Rightarrow> ('a, 's) handler) \<Rightarrow>
    (grpc_code \<Rightarrow> string) \<Rightarrow> ServerConfig \<Rightarrow> ('q \<Rightarrow> ('a, 's) handler) \<Rightarrow> call_info \<Rightarrow> 'q \<Rightarrow> ('a, 's) handler" where
  "NewDataServer chn codeStr config service ci req = chn (so_unary (serverOptions codeStr config)) ci (service req)"

section \<open>What the chain does\<close>

text \<open>A handler of the model as a handler behind interceptors, and the part of an outcome it decides.\<close>

definition plain :: "('s \<Rightarrow> (rpc_error + 'a) \<times> 's) \<Rightarrow> ('a, 's) handler" where
  "plain f s = (case f (sv_state s) of (r, st) \<Rightarrow> (r, s\<lparr>sv_state := st\<rparr>))"

definition outcome :: "(rpc_error + 'a) \<times> 's server \<Rightarrow> (rpc_error + 'a) \<times> 's" where
  "outcome x = (fst x, sv_state (snd x))"

lemma outcome_simps [simp]:
  "outcome (r, log_to es s) = outcome (r, s)" "outcome (r, record_ops ops s) = outcome (r, s)"
  "sv_ops (log_to es s) = sv_ops s" "sv_log (record_ops ops s) = sv_log s"
  "sv_ops (record_ops ops s) = sv_ops s @ ops" "sv_log (log_to es s) = sv_log s @ es"
  "sv_state (log_to es s) = sv_state s" "sv_state (record_ops ops s) = sv_state s"
  by (simp_all add: outcome_def log_to_def record_ops_def)

text \<open>What is recorded about a call with a given result.\<close>

definition ops_of :: "(grpc_code \<Rightarrow> string) \<Rightarrow> ServerConfig \<Rightarrow> call_info \<Rightarrow> rpc_error + 'a \<Rightarrow> metric_op list" where
  "ops_of codeStr config ci r =
     (case (sc_Metrics config, r) of
        (None, _) \<Rightarrow> []
      | (_, Inl (Crash msg)) \<Rightarrow> []
      | (Some m, Inl (Status st)) \<Rightarrow>
          [Inc (GRPCRequestsTotal m) [ci_FullMethod ci, codeStr (st_Code st)], Observe (GRPCRequestDuration m) [ci_FullMethod ci] (ci_duration ci)]
      | (Some m, Inr resp) \<Rightarrow>
          [Inc (GRPCRequestsTotal m) [ci_FullMethod ci, codeStr CodeOK], Observe (GRPCRequestDuration m) [ci_FullMethod ci] (ci_duration ci)])"

text \<open>The interceptors of the list run from the first to the last around the handler.\<close>

locale grpc_chain =
  fixes chn :: "('a, 's) interceptor list \<Rightarrow> call_info \<Rightarrow> ('a, 's) handler \<Rightarrow> ('a, 's) handler"
  assumes chain_Nil: "chn [] ci h = h"
    and chain_Cons: "chn (i # is) ci h = i ci (chn is ci h)"
begin

lemma server_outcome:
  "outcome (chn (so_unary (serverOptions codeStr config)) ci (plain f) s) =
     UnaryInterceptor (sc_AuthTokens config) (md_Get ''bunnymq-auth-token'' ci) f (sv_state s)"
proof -
  obtain r st where f: "f (sv_state s) = (r, st)" by fastforce
  have "outcome (logging_UnaryInterceptor ci (ServerMetricsInterceptor codeStr m ci (plain f)) s) = (r, st)"
    "outcome (logging_UnaryInterceptor ci (plain f) s) = (r, st)" for m
    by (auto simp: logging_UnaryInterceptor_def ServerMetricsInterceptor_def plain_def f outcome_def Let_def
        split: sum.splits rpc_error.splits)
  then show ?thesis
    by (auto simp: serverOptions_def Let_def chain_Nil chain_Cons auth_UnaryInterceptor_def UnaryInterceptor_def f
        split: option.splits) (simp_all add: outcome_def)
qed

lemma server_ops:
  "sv_ops (snd (chn (so_unary (serverOptions codeStr config)) ci (plain f) s)) =
     sv_ops s @ (if validateToken (md_Get ''bunnymq-auth-token'' ci) (sc_AuthTokens config) = None
                 then ops_of codeStr config ci (fst (f (sv_state s))) else [])"
proof -
  obtain r st where f: "f (sv_state s) = (r, st)" by fastforce
  show ?thesis
    by (auto simp: serverOptions_def chain_Nil chain_Cons auth_UnaryInterceptor_def logging_UnaryInterceptor_def
        ServerMetricsInterceptor_def plain_def f ops_of_def Let_def split: option.splits sum.splits rpc_error.splits)
qed

end

definition ChainUnaryInterceptor :: "('a, 's) interceptor list \<Rightarrow> call_info \<Rightarrow> ('a, 's) handler \<Rightarrow> ('a, 's) handler" where
  "ChainUnaryInterceptor is ci h = foldr (\<lambda>i. i ci) is h"

interpretation cu: grpc_chain "ChainUnaryInterceptor :: ('a, 's) interceptor list \<Rightarrow> _"
  by unfold_locales (simp_all add: ChainUnaryInterceptor_def)

section \<open>The token of a client\<close>

text \<open>
  The interceptor that a client with a token installs (\<open>newAuthInterceptor\<close> of
  \<open>pkg/client/producer.go\<close>).  The outgoing metadata of the client is the incoming metadata of the
  server.
\<close>

definition AppendToOutgoingContext :: "string \<Rightarrow> string \<Rightarrow> (string, string list) gomap \<Rightarrow> (string, string list) gomap" where
  "AppendToOutgoingContext key val md = mput key (mget0 [] md key @ [val]) md"

definition newAuthInterceptor :: "string \<Rightarrow> ((string, string list) gomap \<Rightarrow> 'r) \<Rightarrow> (string, string list) gomap \<Rightarrow> 'r" where
  "newAuthInterceptor token invoker md = invoker (AppendToOutgoingContext ''bunnymq-auth-token'' token md)"

lemma newAuthInterceptor_accepted:
  "newAuthInterceptor token (\<lambda>md. validateToken (md_Get ''bunnymq-auth-token'' (ci\<lparr>ci_metadata := Some md\<rparr>)) validTokens) [] = None
     \<longleftrightarrow> validTokens = [] \<or> token \<in> set validTokens"
  by (simp add: newAuthInterceptor_def AppendToOutgoingContext_def md_Get_def validateToken_def mget0_def)

end
