(* ===== verification/PropsServer.thy ===== *)
theory PropsServer
  imports ApiServer
begin

text \<open>
  The property of the servers: what their interceptors add to the handlers on which the clients
  are verified.
\<close>

text \<open>
  C21. The interceptors change nothing but the log and the metrics.  A call of a server, through
  authentication, logging and metrics to its handler, answers and leaves the state of the handlers
  as the authentication alone would, so the network on which the clients are verified is the one
  these servers make.  With metrics, the counter of requests grows by one for the method and the
  status of the answer when the token is accepted and the handler does not panic, and by nothing
  else; a call that is not authenticated is not counted.
\<close>

theorem server_refines:
  "let reply = NewDataServer ChainUnaryInterceptor codeStr config (\<lambda>req. plain (f req)) ci req s;
       sent = md_Get ''bunnymq-auth-token'' ci
   in outcome reply = UnaryInterceptor (sc_AuthTokens config) sent (f req) (sv_state s) \<and>
      NewManagementServer ChainUnaryInterceptor codeStr config (\<lambda>req. plain (f req)) ci req s = reply \<and>
      wire_result (outcome reply) = serve (e\<lparr>be_tokens := sc_AuthTokens config, be_sent := sent\<rparr>) (f req) (sv_state s) \<and>
      (case sc_Metrics config of
         None \<Rightarrow> sv_ops (snd reply) = sv_ops s
       | Some m \<Rightarrow>
           counter (GRPCRequestsTotal m) [meth, code] (sv_ops (snd reply)) =
             counter (GRPCRequestsTotal m) [meth, code] (sv_ops s) +
             (if validateToken sent (sc_AuthTokens config) = None \<and> meth = ci_FullMethod ci \<and>
                (case fst (f req (sv_state s)) of
                   Inr resp \<Rightarrow> code = codeStr CodeOK | Inl (Status st) \<Rightarrow> code = codeStr (st_Code st) | Inl (Crash msg) \<Rightarrow> False)
              then 1 else 0))"
proof -
  let ?reply = "NewDataServer ChainUnaryInterceptor codeStr config (\<lambda>req. plain (f req)) ci req s"
    and ?sent = "md_Get ''bunnymq-auth-token'' ci"
  have out: "outcome ?reply = UnaryInterceptor (sc_AuthTokens config) ?sent (f req) (sv_state s)"
    by (simp add: NewDataServer_def cu.server_outcome)
  moreover have "NewManagementServer ChainUnaryInterceptor codeStr config (\<lambda>req. plain (f req)) ci req s = ?reply"
    by (simp add: NewDataServer_def NewManagementServer_def)
  moreover have "wire_result (outcome ?reply) =
      serve (e\<lparr>be_tokens := sc_AuthTokens config, be_sent := ?sent\<rparr>) (f req) (sv_state s)"
    by (simp add: out serve_def)
  moreover have "sv_ops (snd ?reply) = sv_ops s @ (if validateToken ?sent (sc_AuthTokens config) = None
      then ops_of codeStr config ci (fst (f req (sv_state s))) else [])"
    by (simp add: NewDataServer_def cu.server_ops)
  ultimately show ?thesis
    by (auto simp: ops_of_def Let_def split: option.splits sum.splits rpc_error.splits)
qed

end
