(* ===== verification/StorageMetrics.thy ===== *)
theory StorageMetrics
  imports Metrics StorageMaint
begin

text \<open>
  The metrics of the storage (\<open>internal/storage/metrics.go\<close>) and the calls that \<open>Open\<close>, \<open>Append\<close>,
  \<open>Read\<close> and \<open>EnforceRetention\<close> make on them.  The fields may be nil, as in the value that
  \<open>NoopStorageMetrics\<close> returns, and so may be the whole struct.
\<close>

section \<open>Recording\<close>

record StorageMetrics =
  BytesAppendedTotal :: "string option"
  BatchesAppendedTotal :: "string option"
  SegmentsRolledTotal :: "string option"
  SegmentsDeletedTotal :: "string option"
  ActiveSegmentBytes :: "string option"
  SegmentCount :: "string option"
  EarliestOffset :: "string option"
  LatestOffset :: "string option"
  AppendDuration :: "string option"
  ReadDuration :: "string option"
  RecoveryDuration :: "string option"
  CRCErrorsTotal :: "string option"

definition NewStorageMetrics :: StorageMetrics where
  "NewStorageMetrics =
     \<lparr>BytesAppendedTotal = Some ''bunnymq_storage_bytes_appended_total'',
      BatchesAppendedTotal = Some ''bunnymq_storage_batches_appended_total'',
      SegmentsRolledTotal = Some ''bunnymq_storage_segments_rolled_total'',
      SegmentsDeletedTotal = Some ''bunnymq_storage_segments_deleted_total'',
      ActiveSegmentBytes = Some ''bunnymq_storage_active_segment_bytes'',
      SegmentCount = Some ''bunnymq_storage_segment_count'',
      EarliestOffset = Some ''bunnymq_storage_earliest_offset'',
      LatestOffset = Some ''bunnymq_storage_latest_offset'',
      AppendDuration = Some ''bunnymq_storage_append_duration_seconds'',
      ReadDuration = Some ''bunnymq_storage_read_duration_seconds'',
      RecoveryDuration = Some ''bunnymq_storage_recovery_duration_seconds'',
      CRCErrorsTotal = Some ''bunnymq_storage_crc_errors_total''\<rparr>"

definition NoopStorageMetrics :: StorageMetrics where
  "NoopStorageMetrics =
     \<lparr>BytesAppendedTotal = None, BatchesAppendedTotal = None, SegmentsRolledTotal = None, SegmentsDeletedTotal = None,
      ActiveSegmentBytes = None, SegmentCount = None, EarliestOffset = None, LatestOffset = None, AppendDuration = None,
      ReadDuration = None, RecoveryDuration = None, CRCErrorsTotal = None\<rparr>"

text \<open>A call on a metric that is not nil.\<close>

definition on_vec :: "string option \<Rightarrow> (string \<Rightarrow> metric_op) \<Rightarrow> metric_op list" where
  "on_vec vec f = (case vec of None \<Rightarrow> [] | Some name \<Rightarrow> [f name])"

definition recordAppend :: "string \<Rightarrow> string \<Rightarrow> int \<Rightarrow> int \<Rightarrow> StorageMetrics option \<Rightarrow> metric_op list" where
  "recordAppend topic partID batchLen dur m =
     (case m of None \<Rightarrow> []
      | Some m \<Rightarrow> on_vec (BatchesAppendedTotal m) (\<lambda>v. Inc v [topic, partID])
          @ on_vec (BytesAppendedTotal m) (\<lambda>v. Add v [topic, partID] batchLen)
          @ on_vec (AppendDuration m) (\<lambda>v. Observe v [topic, partID] dur))"

definition recordAppendGauges :: "string \<Rightarrow> string \<Rightarrow> int \<Rightarrow> int \<Rightarrow> StorageMetrics option \<Rightarrow> metric_op list" where
  "recordAppendGauges topic partID latestOff activeBytes m =
     (case m of None \<Rightarrow> []
      | Some m \<Rightarrow> on_vec (LatestOffset m) (\<lambda>v. SetTo v [topic, partID] latestOff)
          @ on_vec (ActiveSegmentBytes m) (\<lambda>v. SetTo v [topic, partID] activeBytes))"

definition recordRoll :: "string \<Rightarrow> string \<Rightarrow> int \<Rightarrow> StorageMetrics option \<Rightarrow> metric_op list" where
  "recordRoll topic partID segCount m =
     (case m of None \<Rightarrow> []
      | Some m \<Rightarrow> on_vec (SegmentsRolledTotal m) (\<lambda>v. Inc v [topic, partID])
          @ on_vec (SegmentCount m) (\<lambda>v. SetTo v [topic, partID] segCount))"

definition recordRead :: "string \<Rightarrow> string \<Rightarrow> int \<Rightarrow> StorageMetrics option \<Rightarrow> metric_op list" where
  "recordRead topic partID dur m =
     (case m of None \<Rightarrow> [] | Some m \<Rightarrow> on_vec (ReadDuration m) (\<lambda>v. Observe v [topic, partID] dur))"

definition recordRetentionDeletion :: "string \<Rightarrow> string \<Rightarrow> string \<Rightarrow> StorageMetrics option \<Rightarrow> metric_op list" where
  "recordRetentionDeletion topic partID why m =
     (case m of None \<Rightarrow> [] | Some m \<Rightarrow> on_vec (SegmentsDeletedTotal m) (\<lambda>v. Inc v [topic, partID, why]))"

definition recordEarliestOffset :: "string \<Rightarrow> string \<Rightarrow> int \<Rightarrow> StorageMetrics option \<Rightarrow> metric_op list" where
  "recordEarliestOffset topic partID offset m =
     (case m of None \<Rightarrow> [] | Some m \<Rightarrow> on_vec (EarliestOffset m) (\<lambda>v. SetTo v [topic, partID] offset))"

definition recordRecovery :: "string \<Rightarrow> string \<Rightarrow> int \<Rightarrow> int \<Rightarrow> int \<Rightarrow> int \<Rightarrow> int \<Rightarrow> StorageMetrics option \<Rightarrow> metric_op list" where
  "recordRecovery topic partID dur segCount earliestOff latestOff crcErrors m =
     (case m of None \<Rightarrow> []
      | Some m \<Rightarrow> on_vec (RecoveryDuration m) (\<lambda>v. Observe v [topic, partID] dur)
          @ on_vec (SegmentCount m) (\<lambda>v. SetTo v [topic, partID] segCount)
          @ on_vec (EarliestOffset m) (\<lambda>v. SetTo v [topic, partID] earliestOff)
          @ on_vec (LatestOffset m) (\<lambda>v. SetTo v [topic, partID] latestOff)
          @ (if crcErrors > 0 then on_vec (CRCErrorsTotal m) (\<lambda>v. Add v [topic, partID] crcErrors) else []))"

section \<open>The storage with its metrics\<close>

text \<open>\<open>WithMetrics\<close> attaches the metrics and their labels to a storage.\<close>

record WithMetrics =
  wm_metrics :: "StorageMetrics option"
  wm_topic :: string
  wm_partitionID :: string

definition open_ops :: "os_env \<Rightarrow> directory \<Rightarrow> StorageConfig \<Rightarrow> WithMetrics \<Rightarrow> int \<Rightarrow> metric_op list" where
  "open_ops os dir cfg wm dur =
     (case recoverStorage os dir cfg of
        Inl e \<Rightarrow> []
      | Inr (segs, nxt, crcErrors) \<Rightarrow>
          recordRecovery (wm_topic wm) (wm_partitionID wm) dur (int (length segs))
            (if length segs > 0 then SegmentStorage_BaseOffset (segs ! 0) else 0) nxt crcErrors (wm_metrics wm))"

text \<open>A roll adds a segment.\<close>

definition append_ops :: "WithMetrics \<Rightarrow> bytes \<Rightarrow> int \<Rightarrow> storageImpl \<Rightarrow> (go_error + int) \<times> storageImpl \<Rightarrow> metric_op list" where
  "append_ops wm batch dur s res =
     (case res of
        (Inl e, s') \<Rightarrow> []
      | (Inr baseOffset, s') \<Rightarrow>
          recordAppend (wm_topic wm) (wm_partitionID wm) (int (length batch)) dur (wm_metrics wm)
          @ recordAppendGauges (wm_topic wm) (wm_partitionID wm) (nextOffset s') (SegmentStorage_LogSize (last (segments s'))) (wm_metrics wm)
          @ (if length (segments s') \<noteq> length (segments s)
             then recordRoll (wm_topic wm) (wm_partitionID wm) (int (length (segments s'))) (wm_metrics wm) else []))"

fun reason_text :: "reason \<Rightarrow> string" where
  "reason_text Keep = []"
| "reason_text ByBytes = ''bytes''"
| "reason_text ByTime = ''time''"

definition deleted_reasons :: "int \<Rightarrow> int \<Rightarrow> int \<Rightarrow> storageImpl \<Rightarrow> reason list" where
  "deleted_reasons nowMs retMs retBytes s =
     (if length (segments s) \<le> 1 then []
      else filter (\<lambda>r. r \<noteq> Keep) (retention_reasons nowMs retMs retBytes (segments s)))"

definition retention_ops :: "WithMetrics \<Rightarrow> int \<Rightarrow> int \<Rightarrow> int \<Rightarrow> storageImpl \<Rightarrow> metric_op list" where
  "retention_ops wm nowMs retMs retBytes s =
     (case Storage_EnforceRetention nowMs retMs retBytes s of
        (n, s') \<Rightarrow>
          concat (map (\<lambda>r. recordRetentionDeletion (wm_topic wm) (wm_partitionID wm) (reason_text r) (wm_metrics wm))
            (deleted_reasons nowMs retMs retBytes s))
          @ (if n > 0 then recordEarliestOffset (wm_topic wm) (wm_partitionID wm) (Storage_EarliestOffset s') (wm_metrics wm) else []))"

datatype storage_call = CallAppend bytes int | CallRead int int int | CallRetention int int int

fun metered :: "os_env \<Rightarrow> StorageConfig \<Rightarrow> WithMetrics \<Rightarrow> storage_call \<Rightarrow> storageImpl \<times> metric_op list \<Rightarrow> storageImpl \<times> metric_op list" where
  "metered os cfg wm (CallAppend batch dur) (s, ops) =
     (let res = Storage_Append os cfg batch s in (snd res, ops @ append_ops wm batch dur s res))"
| "metered os cfg wm (CallRead offset maxBytes dur) (s, ops) =
     (s, ops @ recordRead (wm_topic wm) (wm_partitionID wm) dur (wm_metrics wm))"
| "metered os cfg wm (CallRetention nowMs retMs retBytes) (s, ops) =
     (snd (Storage_EnforceRetention nowMs retMs retBytes s), ops @ retention_ops wm nowMs retMs retBytes s)"

section \<open>What the metrics say\<close>

definition labels :: "WithMetrics \<Rightarrow> string list" where
  "labels wm = [wm_topic wm, wm_partitionID wm]"

abbreviation "deleted_total \<equiv> ''bunnymq_storage_segments_deleted_total''"

definition deleted_count :: "WithMetrics \<Rightarrow> metric_op list \<Rightarrow> int" where
  "deleted_count wm ops = counter deleted_total (labels wm @ [''bytes'']) ops + counter deleted_total (labels wm @ [''time'']) ops"

text \<open>The gauges agree with the storage, and the counters with what has been appended.\<close>

definition in_agreement :: "WithMetrics \<Rightarrow> bytes list \<Rightarrow> storageImpl \<times> metric_op list \<Rightarrow> bool" where
  "in_agreement wm batches x \<longleftrightarrow> (case x of (s, ops) \<Rightarrow>
     gauge ''bunnymq_storage_latest_offset'' (labels wm) ops = Storage_LatestOffset s \<and>
     gauge ''bunnymq_storage_earliest_offset'' (labels wm) ops = Storage_EarliestOffset s \<and>
     counter ''bunnymq_storage_batches_appended_total'' (labels wm) ops = int (length batches) \<and>
     counter ''bunnymq_storage_bytes_appended_total'' (labels wm) ops = int (length (concat batches)) \<and>
     int (length (segments s)) \<le> gauge ''bunnymq_storage_segment_count'' (labels wm) ops \<and>
     gauge ''bunnymq_storage_segment_count'' (labels wm) ops \<le> int (length (segments s)) + deleted_count wm ops)"

fun appended :: "storage_call list \<Rightarrow> bytes list" where
  "appended [] = []"
| "appended (CallAppend batch dur # cs) = batch # appended cs"
| "appended (_ # cs) = appended cs"

lemma appended_snoc: "appended (cs @ [c]) = appended cs @ appended [c]"
  by (induction cs rule: appended.induct) simp_all

lemmas metric_defs = on_vec_def recordAppend_def recordAppendGauges_def recordRoll_def recordRead_def
  recordRetentionDeletion_def recordEarliestOffset_def recordRecovery_def NewStorageMetrics_def labels_def

lemma open_agreement:
  assumes "Storage_Open os dir cfg = Inr s" "wm_metrics wm = Some NewStorageMetrics"
  shows "in_agreement wm [] (s, open_ops os dir cfg wm dur)"
  using assms
  by (auto simp: in_agreement_def Storage_Open_def open_ops_def metric_defs gauge_def deleted_count_def Storage_LatestOffset_def
      Storage_EarliestOffset_def split: sum.splits)

lemma append_agreement:
  assumes "in_agreement wm bs (s, ops)" "wm_metrics wm = Some NewStorageMetrics"
    "Storage_Append os cfg batch s = (Inr off, s')" "Storage_EarliestOffset s' = Storage_EarliestOffset s"
  shows "in_agreement wm (bs @ [batch]) (metered os cfg wm (CallAppend batch dur) (s, ops))"
  using assms
  by (auto simp: in_agreement_def append_ops_def metric_defs gauge_append deleted_count_def Storage_LatestOffset_def Let_def)

lemma read_agreement:
  "in_agreement wm bs (s, ops) \<Longrightarrow> wm_metrics wm = Some NewStorageMetrics \<Longrightarrow>
   in_agreement wm bs (metered os cfg wm (CallRead offset maxBytes dur) (s, ops))"
  by (simp add: in_agreement_def metric_defs gauge_append deleted_count_def)

lemma deletion_ops:
  assumes "wm_metrics wm = Some NewStorageMetrics" "Keep \<notin> set rs"
  defines "dels \<equiv> concat (map (\<lambda>r. recordRetentionDeletion (wm_topic wm) (wm_partitionID wm) (reason_text r) (wm_metrics wm)) rs)"
  shows "fold (set_by name ls) dels g = g" "length ls = 2 \<Longrightarrow> counter name ls dels = 0"
    "deleted_count wm dels = int (length rs)"
proof -
  have "dels = map (\<lambda>r. Inc deleted_total (labels wm @ [reason_text r])) rs"
    by (simp add: dels_def assms(1) metric_defs concat_map_singleton comp_def)
  note d = this
  show "fold (set_by name ls) dels g = g"
    unfolding d by (induction rs) simp_all
  show "length ls = 2 \<Longrightarrow> counter name ls dels = 0"
    unfolding d by (induction rs) (auto simp: labels_def)
  show "deleted_count wm dels = int (length rs)"
    using assms(2) unfolding d
  proof (induction rs)
    case (Cons r rs)
    then show ?case by (cases r) (auto simp: deleted_count_def)
  qed (simp add: deleted_count_def)
qed

lemma retention_idle:
  assumes "Storage_EnforceRetention now ms lim s = (0, s')"
  shows "s' = s"
proof (cases "length (segments s) \<le> 1")
  case False
  let ?rs = "retention_reasons now ms lim (segments s)" and ?gs = "butlast (segments s)"
  have s': "s' = s\<lparr>segments := map fst (filter (\<lambda>(g, r). r = Keep) (zip ?gs ?rs)) @ [last (segments s)]\<rparr>"
    "filter (\<lambda>r. r \<noteq> Keep) ?rs = []"
    using assms False by (auto simp: Storage_EnforceRetention_def Let_def)
  then have "filter (\<lambda>(g, r). r = Keep) (zip ?gs ?rs) = zip ?gs ?rs"
    by (auto simp: filter_id_conv filter_empty_conv dest: set_zip_rightD)
  moreover have "segments s \<noteq> []" using False by auto
  ultimately show ?thesis using s'(1) by simp
qed (use assms in \<open>simp add: Storage_EnforceRetention_def\<close>)

lemma retention_count: "fst (Storage_EnforceRetention now ms lim s) = int (length (deleted_reasons now ms lim s))"
  by (simp add: Storage_EnforceRetention_def deleted_reasons_def Let_def)

lemma retention_agreement:
  assumes "in_agreement wm bs (s, ops)" "wm_metrics wm = Some NewStorageMetrics" "storage_inv cfg s"
  shows "in_agreement wm bs (metered os cfg wm (CallRetention now ms lim) (s, ops))"
proof -
  obtain n s' where r: "Storage_EnforceRetention now ms lim s = (n, s')" by fastforce
  let ?rs = "deleted_reasons now ms lim s"
  let ?dels = "concat (map (\<lambda>r. recordRetentionDeletion (wm_topic wm) (wm_partitionID wm) (reason_text r) (wm_metrics wm)) ?rs)"
  have n: "n = int (length ?rs)" using retention_count [of now ms lim s] r by simp
  have "Keep \<notin> set ?rs" by (auto simp: deleted_reasons_def)
  note d = deletion_ops [OF assms(2) this]
  note inv = Storage_EnforceRetention_inv [OF assms(3) r]
  show ?thesis
  proof (cases "n > 0")
    case False
    then have "n = 0" "?rs = []" using n by auto
    moreover from this have "s' = s" using retention_idle [of now ms lim s s'] r by simp
    ultimately show ?thesis using assms(1) r by (simp add: retention_ops_def)
  next
    case True
    have ops: "retention_ops wm now ms lim s = ?dels @
        [SetTo ''bunnymq_storage_earliest_offset'' (labels wm) (Storage_EarliestOffset s')]"
      using True by (simp add: retention_ops_def r metric_defs assms(2))
    have "length (labels wm) = 2" by (simp add: labels_def)
    then show ?thesis
      using assms(1) inv n d(3)
      by (simp add: in_agreement_def ops r d gauge_append deleted_count_def Storage_LatestOffset_def)
  qed
qed

section \<open>Runs\<close>

text \<open>Appends of well-formed batches, as long as the offsets do not overflow.\<close>

definition run_ok :: "storage_call list \<Rightarrow> storageImpl \<Rightarrow> bool" where
  "run_ok cs s \<longleftrightarrow> list_all wf_batch (appended cs) \<and> nextOffset s + sum_list (map bcount (appended cs)) < 2 ^ 63"

lemma run_agreement:
  assumes "os_ok os" "cfg_ok cfg" "wm_metrics wm = Some NewStorageMetrics"
    and "storage_inv cfg s" "in_agreement wm bs (s, ops)" "run_ok cs s"
  shows "storage_inv cfg (fst (fold (metered os cfg wm) cs (s, ops))) \<and>
    in_agreement wm (bs @ appended cs) (fold (metered os cfg wm) cs (s, ops))"
  using assms(4-6)
proof (induction cs arbitrary: s ops bs)
  case (Cons c cs)
  have pos: "list_all wf_batch bs \<Longrightarrow> 0 \<le> sum_list (map bcount bs)" for bs
    by (induction bs) (auto simp: wf_batch_def)
  show ?case
  proof (cases c)
    case (CallAppend batch dur)
    have b: "wf_batch batch" "nextOffset s + bcount batch < 2 ^ 63" "list_all wf_batch (appended cs)"
      using Cons.prems(3) pos [of "appended cs"] by (auto simp: run_ok_def CallAppend)
    obtain s' where s': "Storage_Append os cfg batch s = (Inr (nextOffset s), s')" "storage_inv cfg s'"
      "nextOffset s' = nextOffset s + bcount batch" "Storage_EarliestOffset s' = Storage_EarliestOffset s"
      using Storage_Append_refines [OF assms(1,2) Cons.prems(1) b(1,2)] by auto
    note ag = append_agreement [OF Cons.prems(2) assms(3) s'(1,4), of dur]
    have "run_ok cs s'" using Cons.prems(3) b(3) s'(3) by (simp add: run_ok_def CallAppend algebra_simps)
    then show ?thesis using Cons.IH [OF s'(2), of "bs @ [batch]"] ag s'(1) by (simp add: CallAppend Let_def)
  next
    case (CallRead offset maxBytes dur)
    then show ?thesis
      using Cons.IH [OF Cons.prems(1) read_agreement [OF Cons.prems(2) assms(3), of os cfg offset maxBytes dur, simplified]]
        Cons.prems(3) by (simp add: run_ok_def)
  next
    case (CallRetention now ms lim)
    obtain n s' where r: "Storage_EnforceRetention now ms lim s = (n, s')" by fastforce
    note inv = Storage_EnforceRetention_inv [OF Cons.prems(1) r]
    have "in_agreement wm bs (s', ops @ retention_ops wm now ms lim s)"
      using retention_agreement [OF Cons.prems(2) assms(3) Cons.prems(1), of os now ms lim] r by simp
    then show ?thesis using Cons.IH [of s' bs] inv Cons.prems(3) r by (simp add: CallRetention run_ok_def)
  qed
qed simp

end
