(* ===== verification/RaftMetrics.thy ===== *)
theory RaftMetrics
  imports Metrics ConfigEnv
begin

text \<open>
  The metrics of the raft shards (\<open>internal/cluster/metrics.go\<close>), the observers that the metadata
  state machine gets from them (\<open>internal/coordinator/cluster/metrics.go\<close>), and the calls that the
  cluster coordinator and the state machines make on them.  The sweep of the leaders is given
  together with its calls.
\<close>

record RaftMetrics =
  rm_CommittedIndex :: "string option"
  rm_AppliedIndex :: "string option"
  rm_IsLeader :: "string option"
  rm_Term :: "string option"
  rm_ProposeDuration :: "string option"
  rm_SnapshotSaveDuration :: "string option"
  rm_SnapshotRecoverDuration :: "string option"
  rm_LeaderChangesTotal :: "string option"
  rm_FSMUpdateDuration :: "string option"

definition NewRaftMetrics :: RaftMetrics where
  "NewRaftMetrics =
     \<lparr>rm_CommittedIndex = Some ''bunnymq_raft_committed_index'', rm_AppliedIndex = Some ''bunnymq_raft_applied_index'',
      rm_IsLeader = Some ''bunnymq_raft_is_leader'', rm_Term = Some ''bunnymq_raft_term'',
      rm_ProposeDuration = Some ''bunnymq_raft_propose_duration_seconds'',
      rm_SnapshotSaveDuration = Some ''bunnymq_raft_snapshot_save_duration_seconds'',
      rm_SnapshotRecoverDuration = Some ''bunnymq_raft_snapshot_recover_duration_seconds'',
      rm_LeaderChangesTotal = Some ''bunnymq_raft_leader_changes_total'',
      rm_FSMUpdateDuration = Some ''bunnymq_raft_fsm_update_duration_seconds''\<rparr>"

definition NoopRaftMetrics :: RaftMetrics where
  "NoopRaftMetrics =
     \<lparr>rm_CommittedIndex = None, rm_AppliedIndex = None, rm_IsLeader = None, rm_Term = None, rm_ProposeDuration = None,
      rm_SnapshotSaveDuration = None, rm_SnapshotRecoverDuration = None, rm_LeaderChangesTotal = None, rm_FSMUpdateDuration = None\<rparr>"

section \<open>The observers of the metadata state machine\<close>

text \<open>A metric with its labels filled in.\<close>

type_synonym observer = "(string \<times> string list) option"

record MetadataFSMMetrics =
  mf_FSMUpdateDuration :: observer
  mf_SnapshotSaveDuration :: observer
  mf_SnapshotRecoverDuration :: observer
  mf_CommittedIndex :: observer
  mf_AppliedIndex :: observer

definition metadataFSMMetrics :: "RaftMetrics option \<Rightarrow> string \<Rightarrow> MetadataFSMMetrics" where
  "metadataFSMMetrics m shardLabel =
     (case m of
        None \<Rightarrow> \<lparr>mf_FSMUpdateDuration = None, mf_SnapshotSaveDuration = None, mf_SnapshotRecoverDuration = None,
                 mf_CommittedIndex = None, mf_AppliedIndex = None\<rparr>
      | Some m \<Rightarrow>
          \<lparr>mf_FSMUpdateDuration = map_option (\<lambda>v. (v, [shardLabel])) (rm_FSMUpdateDuration m),
           mf_SnapshotSaveDuration = map_option (\<lambda>v. (v, [shardLabel])) (rm_SnapshotSaveDuration m),
           mf_SnapshotRecoverDuration = map_option (\<lambda>v. (v, [shardLabel])) (rm_SnapshotRecoverDuration m),
           mf_CommittedIndex = map_option (\<lambda>v. (v, [shardLabel])) (rm_CommittedIndex m),
           mf_AppliedIndex = map_option (\<lambda>v. (v, [shardLabel])) (rm_AppliedIndex m)\<rparr>)"

definition on_observer :: "observer \<Rightarrow> (string \<Rightarrow> string list \<Rightarrow> metric_op) \<Rightarrow> metric_op list" where
  "on_observer ob f = (case ob of None \<Rightarrow> [] | Some (v, ls) \<Rightarrow> [f v ls])"

text \<open>What one \<open>Update\<close> records; the index is set only when the command could be decoded.\<close>

definition Update_ops :: "MetadataFSMMetrics option \<Rightarrow> bool \<Rightarrow> int \<Rightarrow> int \<Rightarrow> metric_op list" where
  "Update_ops m decoded index dur =
     (case m of
        None \<Rightarrow> []
      | Some m \<Rightarrow>
          on_observer (mf_FSMUpdateDuration m) (\<lambda>v ls. Observe v ls dur)
          @ (if \<not> decoded then []
             else on_observer (mf_CommittedIndex m) (\<lambda>v ls. SetTo v ls index)
               @ on_observer (mf_AppliedIndex m) (\<lambda>v ls. SetTo v ls index)))"

definition SaveSnapshot_ops :: "MetadataFSMMetrics option \<Rightarrow> int \<Rightarrow> metric_op list" where
  "SaveSnapshot_ops m dur = (case m of None \<Rightarrow> [] | Some m \<Rightarrow> on_observer (mf_SnapshotSaveDuration m) (\<lambda>v ls. Observe v ls dur))"

definition RecoverFromSnapshot_ops :: "MetadataFSMMetrics option \<Rightarrow> int \<Rightarrow> metric_op list" where
  "RecoverFromSnapshot_ops m dur =
     (case m of None \<Rightarrow> [] | Some m \<Rightarrow> on_observer (mf_SnapshotRecoverDuration m) (\<lambda>v ls. Observe v ls dur))"

lemma Update_ops_index:
  assumes "m = metadataFSMMetrics (Some NewRaftMetrics) ''0''"
  shows "gauge ''bunnymq_raft_applied_index'' [''0''] (ops @ Update_ops (Some m) decoded index dur) =
    (if decoded then index else gauge ''bunnymq_raft_applied_index'' [''0''] ops)"
  by (simp add: assms Update_ops_def metadataFSMMetrics_def NewRaftMetrics_def on_observer_def gauge_append)

section \<open>The cluster coordinator\<close>

definition metadataShardLabel :: string where "metadataShardLabel = ''0''"

definition on_metric :: "string option \<Rightarrow> (string \<Rightarrow> metric_op) \<Rightarrow> metric_op list" where
  "on_metric vec f = (case vec of None \<Rightarrow> [] | Some name \<Rightarrow> [f name])"

definition syncPropose_ops :: "RaftMetrics option \<Rightarrow> int \<Rightarrow> metric_op list" where
  "syncPropose_ops m dur =
     (case m of None \<Rightarrow> [] | Some m \<Rightarrow> on_metric (rm_ProposeDuration m) (\<lambda>v. Observe v [metadataShardLabel, ''all''] dur))"

definition proposePartition_ops :: "RaftMetrics option \<Rightarrow> int \<Rightarrow> int \<Rightarrow> metric_op list" where
  "proposePartition_ops m shardID dur =
     (case m of None \<Rightarrow> [] | Some m \<Rightarrow> on_metric (rm_ProposeDuration m) (\<lambda>v. Observe v [format_int shardID, ''zero''] dur))"

definition leader_ops :: "RaftMetrics option \<Rightarrow> ClusterConfig \<Rightarrow> int \<Rightarrow> int \<Rightarrow> int \<Rightarrow> metric_op list" where
  "leader_ops m cfg shardID leaderID term_no =
     (let shardStr = format_int shardID
      in (case m of
            None \<Rightarrow> []
          | Some m \<Rightarrow>
              on_metric (rm_LeaderChangesTotal m) (\<lambda>v. Inc v [shardStr])
              @ on_metric (rm_Term m) (\<lambda>v. SetTo v [shardStr] term_no)
              @ on_metric (rm_IsLeader m) (\<lambda>v. SetTo v [shardStr] (if leaderID = cl_NodeID cfg then 1 else 0))))"

text \<open>\<open>sweepLeaders\<close> with what it records; \<open>dur\<close> is the time the proposal for a shard takes.\<close>

fun sweep_metered :: "RaftMetrics option \<Rightarrow> (int \<Rightarrow> int) \<Rightarrow> 'h cluster_host \<Rightarrow> (int \<times> shardInfo) list \<Rightarrow> ClusterCoordinator \<Rightarrow> 'h \<Rightarrow>
    metric_op list \<times> ClusterCoordinator \<times> 'h" where
  "sweep_metered m dur nh [] cc h = ([], cc, h)"
| "sweep_metered m dur nh ((shardID, info) # shards) cc h =
     (case GetLeaderID (ch_meta nh) shardID h of
        Inl err \<Rightarrow> sweep_metered m dur nh shards cc h
      | Inr (leaderID, term_no, valid) \<Rightarrow>
          if \<not> valid then sweep_metered m dur nh shards cc h
          else
            let last = mget0 \<lparr>lr_nodeID = 0, lr_term = 0\<rparr> (lastKnownLeader cc) shardID
            in if leaderID = lr_nodeID last \<and> term_no = lr_term last then sweep_metered m dur nh shards cc h
               else (case syncProposeMetadata nh (CmdAssignPartitionLeader (Some
                       \<lparr>al_Topic = si_Topic info, al_PartitionID = si_PartitionID info,
                        al_LeaderNodeID = leaderID, al_LeaderEpoch = int64 term_no\<rparr>)) h of
                       (Inl err, h) \<Rightarrow>
                         (case sweep_metered m dur nh shards cc h of
                            (ops, s) \<Rightarrow> (syncPropose_ops m (dur shardID) @ ops, s))
                     | (Inr r, h) \<Rightarrow>
                         (case sweep_metered m dur nh shards
                                 (cc\<lparr>lastKnownLeader := mput shardID \<lparr>lr_nodeID = leaderID, lr_term = term_no\<rparr>
                                    (lastKnownLeader cc)\<rparr>) h of
                            (ops, s) \<Rightarrow>
                              (syncPropose_ops m (dur shardID) @ leader_ops m (cl_config cc) shardID leaderID term_no @ ops, s))))"

fun sweeps_metered :: "RaftMetrics option \<Rightarrow> 'h cluster_host \<Rightarrow> ((int, shardInfo) gomap \<times> (int \<Rightarrow> int)) loop_event list \<Rightarrow>
    ClusterCoordinator \<Rightarrow> 'h \<Rightarrow> metric_op list \<times> ClusterCoordinator \<times> 'h" where
  "sweeps_metered m nh [] cc h = ([], cc, h)"
| "sweeps_metered m nh (Done # evs) cc h = ([], cc, h)"
| "sweeps_metered m nh (Tick (shards, dur) # evs) cc h =
     (case sweep_metered m dur nh shards (cc\<lparr>runningShards := shards\<rparr>) h of
        (ops, cc, h) \<Rightarrow> (case sweeps_metered m nh evs cc h of (ops', s) \<Rightarrow> (ops @ ops', s)))"

text \<open>Recording changes nothing else.\<close>

lemma sweep_metered_sweep: "sweep_loop nh shards cc h = snd (sweep_metered m dur nh shards cc h)"
  by (induction shards arbitrary: cc h) (auto simp: Let_def split: sum.split prod.split)

lemma sweeps_metered_sweeps:
  "leaderSweepLoop nh (map (map_loop_event fst) evs) cc h = snd (sweeps_metered m nh evs cc h)"
proof (induction evs arbitrary: cc h)
  case (Cons ev evs)
  show ?case
  proof (cases ev)
    case (Tick x)
    obtain shards dur where x: "x = (shards, dur)" by (cases x)
    show ?thesis
      using sweep_metered_sweep [of nh shards "cc\<lparr>runningShards := shards\<rparr>" h m dur] Cons
      by (simp add: Tick x sweepLeaders_def split: prod.split)
  qed simp
qed simp

text \<open>The gauges show the leaders that the sweeps know.\<close>

definition known_term :: "ClusterCoordinator \<Rightarrow> int \<Rightarrow> int" where
  "known_term cc shardID = (case map_of (lastKnownLeader cc) shardID of None \<Rightarrow> 0 | Some l \<Rightarrow> lr_term l)"

definition known_lead :: "ClusterCoordinator \<Rightarrow> int \<Rightarrow> int" where
  "known_lead cc shardID =
     (case map_of (lastKnownLeader cc) shardID of None \<Rightarrow> 0 | Some l \<Rightarrow> if lr_nodeID l = cl_NodeID (cl_config cc) then 1 else 0)"

definition leaders_shown :: "ClusterCoordinator \<Rightarrow> metric_op list \<Rightarrow> bool" where
  "leaders_shown cc ops \<longleftrightarrow> (\<forall>shardID. 0 \<le> shardID \<and> shardID < 2 ^ 64 \<longrightarrow>
     gauge ''bunnymq_raft_term'' [format_int shardID] ops = known_term cc shardID \<and>
     gauge ''bunnymq_raft_is_leader'' [format_int shardID] ops = known_lead cc shardID)"

definition shard_ids :: "(int \<times> 'a) list \<Rightarrow> bool" where
  "shard_ids shards \<longleftrightarrow> list_all (\<lambda>(shardID, info). 0 \<le> shardID \<and> shardID < 2 ^ 64) shards"

lemma format_int_uint64:
  "0 \<le> i \<Longrightarrow> i < 2 ^ 64 \<Longrightarrow> 0 \<le> j \<Longrightarrow> j < 2 ^ 64 \<Longrightarrow> format_int i = format_int j \<longleftrightarrow> i = j"
  by (metis ParseUint_format sum.inject(2))

lemma leaders_shown_propose:
  "leaders_shown cc (ops @ syncPropose_ops (Some NewRaftMetrics) dur) = leaders_shown cc ops"
  by (simp add: leaders_shown_def gauge_append syncPropose_ops_def NewRaftMetrics_def on_metric_def)

lemma leaders_shown_change:
  assumes "leaders_shown cc ops" "0 \<le> shardID" "shardID < 2 ^ 64"
  shows "leaders_shown (cc\<lparr>lastKnownLeader := mput shardID \<lparr>lr_nodeID = leaderID, lr_term = term_no\<rparr> (lastKnownLeader cc)\<rparr>)
    (ops @ leader_ops (Some NewRaftMetrics) (cl_config cc) shardID leaderID term_no)"
proof -
  have "known_term (cc\<lparr>lastKnownLeader := mput shardID \<lparr>lr_nodeID = leaderID, lr_term = term_no\<rparr> (lastKnownLeader cc)\<rparr>) i =
      (if i = shardID then term_no else known_term cc i)"
    "known_lead (cc\<lparr>lastKnownLeader := mput shardID \<lparr>lr_nodeID = leaderID, lr_term = term_no\<rparr> (lastKnownLeader cc)\<rparr>) i =
      (if i = shardID then (if leaderID = cl_NodeID (cl_config cc) then 1 else 0) else known_lead cc i)" for i
    by (simp_all add: known_term_def known_lead_def split: option.split)
  moreover have "gauge ''bunnymq_raft_term'' [l] (ops @ leader_ops (Some NewRaftMetrics) (cl_config cc) shardID leaderID term_no) =
      (if l = format_int shardID then term_no else gauge ''bunnymq_raft_term'' [l] ops)"
    "gauge ''bunnymq_raft_is_leader'' [l] (ops @ leader_ops (Some NewRaftMetrics) (cl_config cc) shardID leaderID term_no) =
      (if l = format_int shardID then (if leaderID = cl_NodeID (cl_config cc) then 1 else 0)
       else gauge ''bunnymq_raft_is_leader'' [l] ops)" for l
    by (simp_all add: leader_ops_def NewRaftMetrics_def on_metric_def gauge_append Let_def)
  ultimately show ?thesis using assms by (simp add: leaders_shown_def format_int_uint64)
qed

lemma sweep_metered_shown:
  assumes "leaders_shown cc ops" "shard_ids shards" "sweep_metered (Some NewRaftMetrics) dur nh shards cc h = (ops', cc', h')"
  shows "leaders_shown cc' (ops @ ops')"
  using assms
proof (induction shards arbitrary: cc h ops ops')
  case (Cons x shards)
  obtain shardID info where x: "x = (shardID, info)" by (cases x)
  have ids: "shard_ids shards" "0 \<le> shardID" "shardID < 2 ^ 64" using Cons.prems(2) by (simp_all add: shard_ids_def x)
  note IH = Cons.IH [OF _ ids(1)]
  let ?pre = "ops @ syncPropose_ops (Some NewRaftMetrics) (dur shardID)"
  have pre: "leaders_shown cc ?pre" using Cons.prems(1) by (simp add: leaders_shown_propose)
  show ?case
  proof (cases "GetLeaderID (ch_meta nh) shardID h")
    case (Inl err)
    then show ?thesis using Cons.prems(3) IH [OF Cons.prems(1)] by (simp add: x)
  next
    case (Inr l)
    obtain leaderID term_no valid where l: "l = (leaderID, term_no, valid)" by (cases l)
    let ?last = "mget0 \<lparr>lr_nodeID = 0, lr_term = 0\<rparr> (lastKnownLeader cc) shardID"
    show ?thesis
    proof (cases "\<not> valid \<or> leaderID = lr_nodeID ?last \<and> term_no = lr_term ?last")
      case True
      then have "sweep_metered (Some NewRaftMetrics) dur nh (x # shards) cc h = sweep_metered (Some NewRaftMetrics) dur nh shards cc h"
        by (auto simp: x Inr l Let_def)
      then show ?thesis using Cons.prems(3) IH [OF Cons.prems(1)] by simp
    next
      case False
      let ?cc = "cc\<lparr>lastKnownLeader := mput shardID \<lparr>lr_nodeID = leaderID, lr_term = term_no\<rparr> (lastKnownLeader cc)\<rparr>"
      obtain r h1 where r: "syncProposeMetadata nh (CmdAssignPartitionLeader (Some \<lparr>al_Topic = si_Topic info,
          al_PartitionID = si_PartitionID info, al_LeaderNodeID = leaderID, al_LeaderEpoch = int64 term_no\<rparr>)) h = (r, h1)"
        by fastforce
      have step: "sweep_metered (Some NewRaftMetrics) dur nh (x # shards) cc h =
          (case r of
             Inl err \<Rightarrow> (case sweep_metered (Some NewRaftMetrics) dur nh shards cc h1 of
               (ops, s) \<Rightarrow> (syncPropose_ops (Some NewRaftMetrics) (dur shardID) @ ops, s))
           | Inr v \<Rightarrow> (case sweep_metered (Some NewRaftMetrics) dur nh shards ?cc h1 of
               (ops, s) \<Rightarrow> (syncPropose_ops (Some NewRaftMetrics) (dur shardID) @
                 leader_ops (Some NewRaftMetrics) (cl_config cc) shardID leaderID term_no @ ops, s)))"
        using False by (auto simp: x Inr l r Let_def split: sum.split)
      show ?thesis
      proof (cases r)
        case (Inl err)
        obtain o1 where "sweep_metered (Some NewRaftMetrics) dur nh shards cc h1 = (o1, cc', h')"
            "ops' = syncPropose_ops (Some NewRaftMetrics) (dur shardID) @ o1"
          using Cons.prems(3) by (auto simp: step Inl split: prod.splits)
        then show ?thesis using IH [OF pre] by simp
      next
        case (Inr v)
        obtain o1 where "sweep_metered (Some NewRaftMetrics) dur nh shards ?cc h1 = (o1, cc', h')"
            "ops' = syncPropose_ops (Some NewRaftMetrics) (dur shardID) @
               leader_ops (Some NewRaftMetrics) (cl_config cc) shardID leaderID term_no @ o1"
          using Cons.prems(3) by (auto simp: step Inr split: prod.splits)
        then show ?thesis using IH [OF leaders_shown_change [OF pre ids(2,3)]] by simp
      qed
    qed
  qed
qed simp

lemma sweeps_metered_shown:
  assumes "leaders_shown cc ops" "\<And>shards dur. Tick (shards, dur) \<in> set evs \<Longrightarrow> shard_ids shards"
    "sweeps_metered (Some NewRaftMetrics) nh evs cc h = (ops', cc', h')"
  shows "leaders_shown cc' (ops @ ops')"
  using assms
proof (induction evs arbitrary: cc h ops ops')
  case (Cons ev evs)
  show ?case
  proof (cases ev)
    case (Tick x)
    obtain shards dur where x: "x = (shards, dur)" by (cases x)
    obtain o1 c1 h1 where one: "sweep_metered (Some NewRaftMetrics) dur nh shards (cc\<lparr>runningShards := shards\<rparr>) h = (o1, c1, h1)"
      by (metis prod_cases3)
    have "leaders_shown (cc\<lparr>runningShards := shards\<rparr>) ops"
      using Cons.prems(1) by (simp add: leaders_shown_def known_term_def known_lead_def cong: option.case_cong)
    moreover have "shard_ids shards" using Cons.prems(2) [of shards dur] by (simp add: Tick x)
    ultimately have "leaders_shown c1 (ops @ o1)" by (rule sweep_metered_shown [OF _ _ one])
    note shown = this
    obtain o2 where "sweeps_metered (Some NewRaftMetrics) nh evs c1 h1 = (o2, cc', h')" "ops' = o1 @ o2"
      using Cons.prems(3) by (auto simp: Tick x one split: prod.splits)
    moreover have "shard_ids shards" if "Tick (shards, dur) \<in> set evs" for shards dur
      using Cons.prems(2) [of shards dur] that by simp
    ultimately show ?thesis using Cons.IH [OF shown, of h1 o2] by simp
  qed (use Cons.prems in simp)
qed simp

end
