(* ===== verification/PropsMetrics.thy ===== *)
theory PropsMetrics
  imports StorageMetrics RaftMetrics PropsStorage PropsCluster
begin

text \<open>
  The properties of the metrics: those of the storage, with an example run on a storage opened on an
  empty directory, and those of the leaders of the shards.
\<close>


definition demo_metrics :: WithMetrics where
  "demo_metrics = \<lparr>wm_metrics = Some NewStorageMetrics, wm_topic = ''a'', wm_partitionID = ''0''\<rparr>"




end
