(* ===== verification/BrokerMain.thy ===== *)
theory BrokerMain
  imports RaftHost ApiServer StorageMetrics ConfigEnv
begin

text \<open>
  The broker process (\<open>cmd/bunnymq/main.go\<close>) with its HTTP servers for metrics and profiling
  (\<open>internal/api/metrics_server.go\<close>, \<open>pprof_server.go\<close>) and the goroutine that sweeps the consumer
  groups.  What the process does to its surroundings is a list of events; how the operating system
  answers a call may depend on all events before it.  Waiting for the signal that ends the process
  is the value \<open>None\<close>.
\<close>

section \<open>The sweep goroutine\<close>

text \<open>\<open>sessionTimeoutSweep\<close>: a tick carries the time at which it comes; a panic ends the process.\<close>

fun sessionTimeoutSweep :: "'h host \<Rightarrow> int loop_event list \<Rightarrow> GroupCoordinator \<Rightarrow> 'h \<Rightarrow> go_error option \<times> GroupCoordinator \<times> 'h" where
  "sessionTimeoutSweep nh [] gc h = (None, gc, h)"
| "sessionTimeoutSweep nh (Done # evs) gc h = (None, gc, h)"
| "sessionTimeoutSweep nh (Tick now # evs) gc h =
     (case sweepOnce nh now gc h of
        (Some err, gc, h) \<Rightarrow> (Some err, gc, h)
      | (None, gc, h) \<Rightarrow> sessionTimeoutSweep nh evs gc h)"

section \<open>HTTP servers\<close>

datatype resource = Listener string | RaftNode

datatype event =
    Opened resource
  | Closed resource
  | ServeHTTP string "string list"
  | ServeManagement string
  | ServeData string
  | Info string
  | Warn string go_error

record os_calls =
  oc_Listen :: "event list \<Rightarrow> string \<Rightarrow> go_error + string"
  oc_Shutdown :: "event list \<Rightarrow> string \<Rightarrow> go_error option"

text \<open>A server holds its address and whether it has been started; the registry is the library's.\<close>

record MetricsServer =
  ms_addr :: string
  ms_srv :: bool

definition NewMetricsServer :: "string \<Rightarrow> MetricsServer" where
  "NewMetricsServer addr = \<lparr>ms_addr = addr, ms_srv = False\<rparr>"

definition MetricsServer_Start :: "os_calls \<Rightarrow> MetricsServer \<Rightarrow> event list \<Rightarrow> (go_error + MetricsServer) \<times> event list" where
  "MetricsServer_Start oc ms tr =
     (case oc_Listen oc tr (ms_addr ms) of
        Inl err \<Rightarrow> (Inl err, tr)
      | Inr bound \<Rightarrow>
          (Inr \<lparr>ms_addr = bound, ms_srv = True\<rparr>, tr @ [Opened (Listener bound), ServeHTTP bound [''/metrics'']]))"

text \<open>\<open>Shutdown\<close> closes the listener before it waits for the connections, so also when it fails.\<close>

definition http_Shutdown :: "os_calls \<Rightarrow> string \<Rightarrow> event list \<Rightarrow> go_error option \<times> event list" where
  "http_Shutdown oc addr tr = (oc_Shutdown oc tr addr, tr @ [Closed (Listener addr)])"

definition MetricsServer_Stop :: "os_calls \<Rightarrow> MetricsServer \<Rightarrow> event list \<Rightarrow> go_error option \<times> event list" where
  "MetricsServer_Stop oc ms tr = (if \<not> ms_srv ms then (None, tr) else http_Shutdown oc (ms_addr ms) tr)"

record PprofServer =
  ps_addr :: string
  ps_srv :: bool

definition strings_HasPrefix :: "string \<Rightarrow> string \<Rightarrow> bool" where
  "strings_HasPrefix s pre \<longleftrightarrow> take (length pre) s = pre"

definition NewPprofServer :: "string \<Rightarrow> go_error + PprofServer" where
  "NewPprofServer addr =
     (if strings_HasPrefix addr ''0.0.0.0'' then Inl (NewError ''pprof server must not bind to public address 0.0.0.0'')
      else Inr \<lparr>ps_addr = addr, ps_srv = False\<rparr>)"

definition PprofServer_Start :: "os_calls \<Rightarrow> PprofServer \<Rightarrow> event list \<Rightarrow> (go_error + PprofServer) \<times> event list" where
  "PprofServer_Start oc ps tr =
     (case oc_Listen oc tr (ps_addr ps) of
        Inl err \<Rightarrow> (Inl err, tr)
      | Inr bound \<Rightarrow>
          (Inr \<lparr>ps_addr = bound, ps_srv = True\<rparr>,
           tr @ [Opened (Listener bound), ServeHTTP bound [''/debug/pprof/'', ''/debug/pprof/cmdline'', ''/debug/pprof/profile'',
             ''/debug/pprof/symbol'', ''/debug/pprof/trace'']]))"

definition PprofServer_Stop :: "os_calls \<Rightarrow> PprofServer \<Rightarrow> event list \<Rightarrow> go_error option \<times> event list" where
  "PprofServer_Stop oc ps tr = (if \<not> ps_srv ps then (None, tr) else http_Shutdown oc (ps_addr ps) tr)"

section \<open>The process\<close>

definition or_default :: "string \<Rightarrow> string \<Rightarrow> string" where
  "or_default def addr = (if addr = [] then def else addr)"

definition healthCheck :: "(string \<Rightarrow> string) \<Rightarrow> (string \<Rightarrow> go_error option) \<Rightarrow> int" where
  "healthCheck env dial = (case dial (or_default '':9091'' (env ''MGMT_ADDR'')) of Some err \<Rightarrow> 1 | None \<Rightarrow> 0)"

definition startObservability :: "os_calls \<Rightarrow> BrokerConfig \<Rightarrow> event list \<Rightarrow>
    (go_error + (ServerMetrics \<times> MetricsServer \<times> PprofServer option \<times> StorageMetrics)) \<times> event list" where
  "startObservability oc cfg tr =
     (let metricsAddr = or_default '':9090'' (bc_MetricsAddr cfg)
      in (case MetricsServer_Start oc (NewMetricsServer metricsAddr) tr of
            (Inl err, tr) \<Rightarrow> (Inl (Wrapped ''start metrics server'' err), tr)
          | (Inr metricsSrv, tr) \<Rightarrow>
              let tr = tr @ [Info ''metrics server started'']
              in if bc_PprofAddr cfg = [] then (Inr (NewServerMetrics, metricsSrv, None, NewStorageMetrics), tr)
                 else (case NewPprofServer (bc_PprofAddr cfg) of
                         Inl pprofErr \<Rightarrow>
                           (Inr (NewServerMetrics, metricsSrv, None, NewStorageMetrics),
                            tr @ [Warn ''pprof server rejected'' pprofErr])
                       | Inr ps \<Rightarrow>
                           (case PprofServer_Start oc ps tr of
                              (Inl pprofErr, tr) \<Rightarrow> (Inl (Wrapped ''start pprof server'' pprofErr), tr)
                            | (Inr ps, tr) \<Rightarrow> (Inr (NewServerMetrics, metricsSrv, Some ps, NewStorageMetrics), tr)))))"

text \<open>
  The rest of the surroundings: the dragonboat library, the state of its node, whether directories
  can be made, the context of the calls on the host, the version set at build time and the clock.
\<close>

record 'd surroundings = os_calls +
  su_newNodeHost :: "NodeHostConfig \<Rightarrow> go_error + 'd nodehost"
  su_mkdirOk :: "string \<Rightarrow> bool"
  su_live :: "string \<Rightarrow> 'd \<Rightarrow> (string, MemberState) gomap"
  su_ctx :: ctx
  su_version :: string
  su_goVersion :: string
  su_bootstrapAt :: int
  su_attempts :: "attempt list"
  su_rebuildAt :: int

definition raft_config :: "BrokerConfig \<Rightarrow> RaftConfig" where
  "raft_config cfg = RaftConfig.make (bc_DataDir cfg) (bc_RaftAddress cfg) (bc_NodeID cfg) (bc_RaftRTTMs cfg) (bc_Peers cfg)"

definition cluster_config :: "BrokerConfig \<Rightarrow> ClusterConfig" where
  "cluster_config cfg =
     \<lparr>cl_NodeID = bc_NodeID cfg, cl_RaftAddress = bc_RaftAddress cfg, cl_DataAddr = bc_DataAddr cfg,
      cl_AdvertiseDataAddr = bc_AdvertiseDataAddr cfg, cl_DataDir = bc_DataDir cfg, cl_Peers = bc_Peers cfg,
      cl_BootstrapTimeoutMs = BootstrapTimeoutMs (bc_Coordinator cfg),
      cl_ReconcileIntervalMs = ReconcileIntervalMs (bc_Coordinator cfg),
      cl_LeaderCheckIntervalMs = LeaderCheckIntervalMs (bc_Coordinator cfg),
      cl_EagerReconcileOnCreate = EagerReconcileOnCreate (bc_Coordinator cfg)\<rparr>"

definition group_config :: "BrokerConfig \<Rightarrow> GroupCoordinatorConfig" where
  "group_config cfg =
     \<lparr>gcc_MetadataShardID = 0, ThisNodeID = bc_NodeID cfg, SessionTimeoutMinMs = 0, SessionTimeoutMaxMs = 0,
      SweepIntervalMs = GroupSweepIntervalMs (bc_Coordinator cfg)\<rparr>"

text \<open>What is running once the broker is ready.\<close>

record 'd running =
  ru_bh :: "'d brokerHost"
  ru_dc :: DataCoordinator
  ru_cc :: ClusterCoordinator
  ru_gc :: GroupCoordinator
  ru_tasks :: "task list"
  ru_config :: ServerConfig
  ru_mgmt :: string
  ru_data :: string
  ru_ops :: "metric_op list"
  ru_storageMetrics :: StorageMetrics

text \<open>
  From the new node host to the log line that the broker is ready.  The addresses that the two gRPC
  listeners got are kept in the result.
\<close>

definition open_listeners :: "os_calls \<Rightarrow> BrokerConfig \<Rightarrow> event list \<Rightarrow> (go_error + (string \<times> string)) \<times> event list" where
  "open_listeners oc cfg tr =
     (case oc_Listen oc tr (or_default '':9091'' (bc_ManagementAddr cfg)) of
        Inl err \<Rightarrow> (Inl (Wrapped ''listen management'' err), tr)
      | Inr mgmtLn \<Rightarrow>
          let tr = tr @ [Opened (Listener mgmtLn)]
          in (case oc_Listen oc tr (or_default '':9092'' (bc_DataAddr cfg)) of
                Inl err \<Rightarrow> (Inl (Wrapped ''listen data'' err), tr @ [Closed (Listener mgmtLn)])
              | Inr dataLn \<Rightarrow> (Inr (mgmtLn, dataLn), tr @ [Opened (Listener dataLn)])))"

definition start_broker :: "'d surroundings \<Rightarrow> BrokerConfig \<Rightarrow> ServerMetrics \<Rightarrow> StorageMetrics \<Rightarrow> 'd Host \<Rightarrow> event list \<Rightarrow> 'd \<Rightarrow>
    ((go_error + 'd running) \<times> event list \<times> 'd) option" where
  "start_broker su cfg serverMetrics storageMetrics raftHost tr d =
     (let bh = \<lparr>bh_host = raftHost, bh_dataDir = bc_DataDir cfg, bh_storageCfg = bc_Storage cfg\<rparr>;
          nh = brokerHost_cluster (su_mkdirOk su) bh (su_ctx su) (su_live su);
          dc = NewDataCoordinator \<lparr>dcc_NodeID = bc_NodeID cfg, NodeAddressCacheTTLMs = 5000\<rparr>;
          cc = NewClusterCoordinator (cluster_config cfg);
          ops = RecordBuildInfo serverMetrics (su_version su) (su_goVersion su) (format_int (bc_NodeID cfg)) []
      in (case Bootstrap nh (su_bootstrapAt su) (su_attempts su) cc d of
            None \<Rightarrow> None
          | Some (Inl err, d) \<Rightarrow> Some (Inl (Wrapped ''bootstrap'' err), tr, d)
          | Some (Inr tasks, d) \<Rightarrow>
              (case RebuildHeartbeatTable (ch_meta nh) (su_rebuildAt su) (NewGroupCoordinator (group_config cfg)) d of
                 (gc, d) \<Rightarrow>
                   (case open_listeners (os_calls.truncate su) cfg tr of
                      (Inl err, tr) \<Rightarrow> Some (Inl err, tr, d)
                    | (Inr (mgmtLn, dataLn), tr) \<Rightarrow>
                        Some (Inr \<lparr>ru_bh = bh, ru_dc = dc, ru_cc = cc, ru_gc = gc, ru_tasks = tasks,
                                ru_config = \<lparr>sc_Addr = [], sc_AuthTokens = bc_AuthTokens cfg, sc_TLSConfig = False,
                                  sc_Metrics = Some serverMetrics\<rparr>,
                                ru_mgmt = mgmtLn, ru_data = dataLn, ru_ops = ops,
                                ru_storageMetrics = storageMetrics\<rparr>,
                              tr @ [ServeManagement mgmtLn, ServeData dataLn, Info ''broker ready''], d)))))"

text \<open>
  Both servers stop gracefully, which closes their listeners, and then the HTTP servers; a failing
  shutdown is only logged.
\<close>

definition warn_if :: "string \<Rightarrow> go_error option \<times> event list \<Rightarrow> event list" where
  "warn_if msg x = (case x of (Some err, tr) \<Rightarrow> tr @ [Warn msg err] | (None, tr) \<Rightarrow> tr)"

definition stop_broker :: "os_calls \<Rightarrow> 'd running \<Rightarrow> MetricsServer \<Rightarrow> PprofServer option \<Rightarrow> event list \<Rightarrow> event list" where
  "stop_broker oc ru metricsSrv pprofSrv tr =
     (let tr = tr @ [Closed (Listener (ru_mgmt ru)), Closed (Listener (ru_data ru))];
          tr = warn_if ''metrics server shutdown error'' (MetricsServer_Stop oc metricsSrv tr)
      in (case pprofSrv of
            None \<Rightarrow> tr
          | Some ps \<Rightarrow> warn_if ''pprof server shutdown error'' (PprofServer_Stop oc ps tr)))"

text \<open>
  \<open>work\<close> is what the servers and goroutines do to the node until the signal comes; it is \<open>None\<close>
  when it never comes.  The deferred call closes the host on every way out.
\<close>

definition run :: "'d surroundings \<Rightarrow> ('d running \<Rightarrow> 'd \<Rightarrow> 'd option) \<Rightarrow> BrokerConfig \<Rightarrow> 'd \<Rightarrow>
    (go_error option \<times> event list \<times> 'd) option" where
  "run su work cfg d =
     (let oc = os_calls.truncate su
      in (case startObservability oc cfg [] of
            (Inl err, tr) \<Rightarrow> Some (Some err, tr, d)
          | (Inr (serverMetrics, metricsSrv, pprofSrv, storageMetrics), tr) \<Rightarrow>
              (case NewHost (su_newNodeHost su) (raft_config cfg) of
                 Inl err \<Rightarrow> Some (Some (Wrapped ''create raft host'' err), tr, d)
               | Inr raftHost \<Rightarrow>
                   (case start_broker su cfg serverMetrics storageMetrics raftHost (tr @ [Opened RaftNode]) d of
                      None \<Rightarrow> None
                    | Some (Inl err, tr, d) \<Rightarrow> Some (Some err, tr @ [Closed RaftNode], snd (Host_Close raftHost d))
                    | Some (Inr ru, tr, d) \<Rightarrow>
                        (case work ru d of
                           None \<Rightarrow> None
                         | Some d \<Rightarrow> Some (None, stop_broker oc ru metricsSrv pprofSrv tr @ [Closed RaftNode], snd (Host_Close raftHost d)))))))"

text \<open>
  \<open>main\<close>: the exit code of the process.  \<open>file\<close> is what the viper library makes of the
  configuration file; the health check always exits.
\<close>

definition main :: "'d surroundings \<Rightarrow> ('d running \<Rightarrow> 'd \<Rightarrow> 'd option) \<Rightarrow> (string \<Rightarrow> string) \<Rightarrow> (string \<Rightarrow> go_error + rawConfig) \<Rightarrow>
    (string \<Rightarrow> go_error option) \<Rightarrow> go_error option \<Rightarrow> string list \<Rightarrow> 'd \<Rightarrow> (int \<times> event list \<times> 'd) option" where
  "main su work env file dial newLogger args d =
     (if length args > 1 \<and> args ! 1 = ''--health-check'' then Some (healthCheck env dial, [], d)
      else (case (if length args \<ge> 2 \<and> args ! 1 \<noteq> ''--health-check'' then Load (file (args ! 1)) else LoadFromEnv env) of
              Inl err \<Rightarrow> Some (1, [], d)
            | Inr cfg \<Rightarrow>
                (case newLogger of
                   Some err \<Rightarrow> Some (1, [], d)
                 | None \<Rightarrow>
                     (case run su work cfg d of
                        None \<Rightarrow> None
                      | Some (Some err, tr, d) \<Rightarrow> Some (1, Info ''bunnymq starting'' # tr @ [Warn ''broker exited with error'' err], d)
                      | Some (None, tr, d) \<Rightarrow> Some (0, Info ''bunnymq starting'' # tr @ [Info ''bunnymq stopped''], d)))))"

end
