(* ===== verification/PropsMain.thy ===== *)
theory PropsMain
  imports BrokerMain GroupLemmas PropsAdmin
begin

text \<open>
  The properties of the broker process: what it holds open when it ends, and that it comes up.
\<close>

section \<open>What a run holds open\<close>

fun opened_by :: "resource \<Rightarrow> event \<Rightarrow> int" where
  "opened_by r (Opened r') = (if r' = r then 1 else 0)"
| "opened_by r (Closed r') = (if r' = r then - 1 else 0)"
| "opened_by r _ = 0"

definition balance :: "resource \<Rightarrow> event list \<Rightarrow> int" where
  "balance r tr = sum_list (map (opened_by r) tr)"

lemma balance_simps [simp]:
  "balance r [] = 0"
  "balance r (ev # tr) = opened_by r ev + balance r tr"
  "balance r (tr @ tr') = balance r tr + balance r tr'"
  by (simp_all add: balance_def)

fun served_http :: "event \<Rightarrow> string list" where
  "served_http (ServeHTTP addr paths) = [addr]"
| "served_http _ = []"

fun serves_rpc :: "event \<Rightarrow> bool" where
  "serves_rpc (ServeManagement addr) \<longleftrightarrow> True"
| "serves_rpc (ServeData addr) \<longleftrightarrow> True"
| "serves_rpc _ \<longleftrightarrow> False"

definition http_addrs :: "MetricsServer \<Rightarrow> PprofServer option \<Rightarrow> string list" where
  "http_addrs metricsSrv pprofSrv = ms_addr metricsSrv # (case pprofSrv of None \<Rightarrow> [] | Some p \<Rightarrow> [ps_addr p])"

text \<open>The addresses of the HTTP servers that were started, one for every listener that is open.\<close>

definition http_only :: "string list \<Rightarrow> event list \<Rightarrow> bool" where
  "http_only addrs tr \<longleftrightarrow> concat (map served_http tr) = addrs \<and> (\<forall>addr. balance (Listener addr) tr = int (count_list addrs addr)) \<and>
     balance RaftNode tr = 0 \<and> Opened RaftNode \<notin> set tr \<and> \<not> list_ex serves_rpc tr"

lemma startObservability_open:
  "case startObservability oc cfg [] of
     (Inl err, tr) \<Rightarrow> \<exists>addrs. http_only addrs tr
   | (Inr (sm, metricsSrv, pprofSrv, st), tr) \<Rightarrow> ms_srv metricsSrv \<and> (\<forall>p. pprofSrv = Some p \<longrightarrow> ps_srv p) \<and>
       http_only (http_addrs metricsSrv pprofSrv) tr"
proof (cases "oc_Listen oc [] (or_default '':9090'' (bc_MetricsAddr cfg))")
  case (Inl err)
  then show ?thesis
    by (simp add: startObservability_def MetricsServer_Start_def NewMetricsServer_def http_only_def)
next
  case (Inr bound)
  then show ?thesis
    by (simp add: startObservability_def MetricsServer_Start_def PprofServer_Start_def NewMetricsServer_def NewPprofServer_def
        http_only_def http_addrs_def Let_def split: sum.split)
qed

lemma open_listeners_open:
  "case open_listeners oc cfg tr of
     (Inl err, tr') \<Rightarrow> \<exists>ext. tr' = tr @ ext \<and> (\<forall>r. balance r ext = 0) \<and> concat (map served_http ext) = [] \<and>
       \<not> list_ex serves_rpc ext \<and> Opened RaftNode \<notin> set ext
   | (Inr (m, d), tr') \<Rightarrow> tr' = tr @ [Opened (Listener m), Opened (Listener d)]"
  by (simp add: open_listeners_def Let_def split: sum.split)

lemma start_broker_open:
  assumes "start_broker su cfg sm st host tr d = Some (r, tr', d')"
  shows "case r of
      Inl err \<Rightarrow> (\<exists>ext. tr' = tr @ ext \<and> (\<forall>r. balance r ext = 0) \<and> concat (map served_http ext) = [] \<and>
        \<not> list_ex serves_rpc ext \<and> Opened RaftNode \<notin> set ext)
    | Inr ru \<Rightarrow> tr' = tr @ [Opened (Listener (ru_mgmt ru)), Opened (Listener (ru_data ru)),
        ServeManagement (ru_mgmt ru), ServeData (ru_data ru), Info ''broker ready'']"
  using assms open_listeners_open [where oc = "os_calls.truncate su" and cfg = cfg and tr = tr]
  by (auto simp: start_broker_def Let_def split: option.splits sum.splits prod.splits)

lemma balance_warn_if [simp]: "balance r (warn_if msg x) = balance r (snd x)"
  by (cases x) (simp add: warn_if_def split: option.split)

lemma stop_broker_closes:
  assumes "ms_srv metricsSrv" "\<And>p. pprofSrv = Some p \<Longrightarrow> ps_srv p"
  shows "balance r (stop_broker oc ru metricsSrv pprofSrv tr) = balance r tr
      + balance r (map (\<lambda>addr. Closed (Listener addr)) ([ru_mgmt ru, ru_data ru] @ http_addrs metricsSrv pprofSrv))"
  using assms
  by (cases pprofSrv) (simp_all add: stop_broker_def MetricsServer_Stop_def PprofServer_Stop_def http_Shutdown_def
      http_addrs_def Let_def del: opened_by.simps)

lemma balance_closed:
  "balance (Listener addr) (map (\<lambda>addr. Closed (Listener addr)) addrs) = - int (count_list addrs addr)"
  "balance RaftNode (map (\<lambda>addr. Closed (Listener addr)) addrs) = 0"
  by (induction addrs) auto

section \<open>Coming up\<close>

text \<open>On a node on which nothing else happens, \<open>Bootstrap\<close> registers the node and reconciles.\<close>

definition registered :: "ClusterConfig \<Rightarrow> psim \<Rightarrow> psim" where
  "registered cfg d = d\<lparr>ps_meta := (ps_meta d)\<lparr>Nodes := mput (cl_NodeID cfg)
     \<lparr>ni_NodeID = cl_NodeID cfg, ni_Address = reg_address cfg\<rparr> (Nodes (ps_meta d))\<rparr>\<rparr>"

lemma Bootstrap_psim:
  assumes "ps_sched d = []"
  shows "\<exists>tasks. Bootstrap (psim_cluster e) now ps cc d = Some (Inr tasks, registered (cl_config cc) d)"
proof -
  have look: "wait_leader (psim_cluster e) t ps d = Some (Inr ps, d)" for t
    by (subst wait_leader.simps) (simp add: bq.quiet_lookup [OF assms] query0_def MetadataFSM_Lookup_def)
  have reg: "register_loop (psim_cluster e) (CmdRegisterNode (Some \<lparr>rn_NodeID = cl_NodeID (cl_config cc),
      rn_Address = reg_address (cl_config cc)\<rparr>)) t ps d = Some (Inr ps, registered (cl_config cc) d)" for t
    by (subst register_loop.simps)
      (simp add: bq.quiet_propose [OF assms] local_propose_def deref_def applyRegisterNode_def registered_def)
  have "ps_sched (registered (cl_config cc) d) = []" using assms by (simp add: registered_def)
  note rec = bq.reconcileOnce_quiet [OF this, of e cc]
  have start: "StartMetadataShard (psim_cluster e) members join h = (None, h)" for members join h
    by (simp add: psim_cluster_def)
  show ?thesis by (simp add: Bootstrap_def Let_def start look reg rec)
qed

text \<open>The rebuilt table has the time of the rebuild for every member.\<close>

lemma fold_set_heartbeat:
  "get_heartbeat grp m (fold (\<lambda>memberID. set_heartbeat g memberID now) ids gc) =
     (if grp = g \<and> m \<in> set ids then Some now else get_heartbeat grp m gc)"
  by (induction ids arbitrary: gc) (auto simp: get_set_heartbeat)

lemma fold_rebuild:
  "get_heartbeat grp m (fold (\<lambda>(groupID, g) gc.
       fold (\<lambda>memberID. set_heartbeat groupID memberID now) (mkeys (live groupID))
         (gc\<lparr>lastHeartbeat := mput groupID (mget0 [] (lastHeartbeat gc) groupID) (lastHeartbeat gc)\<rparr>)) groups gc) =
     (if grp \<in> fst ` set groups \<and> m \<in> set (mkeys (live grp)) then Some now else get_heartbeat grp m gc)"
proof (induction groups arbitrary: gc)
  case (Cons x groups)
  have "get_heartbeat grp m (gc\<lparr>lastHeartbeat := mput (fst x) (mget0 [] (lastHeartbeat gc) (fst x)) (lastHeartbeat gc)\<rparr>) =
      get_heartbeat grp m gc"
    by (simp add: get_heartbeat_def mget0_def)
  then show ?case using Cons by (auto simp: Let_def fold_set_heartbeat split: prod.split)
qed simp

lemma psim_group_states:
  assumes "ps_sched d = []"
  shows "LookupMetadata (psim_meta_host os cfg dec leader) (query0 QueryGetAllGroupStates) d =
    (Inr (AnsGroupStates (GroupStates (ps_meta d))), d)"
  using assms by (simp add: psim_meta_host_def psim_next_def query0_def MetadataFSM_Lookup_def lookupGroupState_def)

lemma psim_live: "LiveMembers (psim_meta_host os cfg dec leader) = (\<lambda>grp d. members_of grp (ps_meta d))"
  by (simp add: psim_meta_host_def)

lemma RebuildHeartbeatTable_psim:
  assumes "ps_sched d = []"
  shows "\<exists>gc'. RebuildHeartbeatTable (psim_meta_host os cfg dec leader) now gc d = (gc', d) \<and>
    (\<forall>grp m ms. map_of (members_of grp (ps_meta d)) m = Some ms \<longrightarrow> get_heartbeat grp m gc' = Some now)"
proof -
  note look = psim_group_states [OF assms]
  have group: "grp \<in> fst ` set (GroupStates (ps_meta d))" if mem: "map_of (members_of grp (ps_meta d)) m = Some ms" for grp m ms
  proof -
    obtain g where "map_of (GroupStates (ps_meta d)) grp = Some g"
      using mem by (auto simp: members_of_def split: option.splits)
    from map_of_SomeD [OF this] show ?thesis by force
  qed
  have "m \<in> set (mkeys (members_of grp (ps_meta d)))" if "map_of (members_of grp (ps_meta d)) m = Some ms" for grp m ms
    using map_of_SomeD [OF that] by (force simp: mkeys_def)
  with group show ?thesis
    by (simp add: RebuildHeartbeatTable_def look psim_live Let_def fold_rebuild) blast
qed

text \<open>A sweep that comes before any session is overdue changes nothing.\<close>

definition in_time :: "MetadataState \<Rightarrow> int \<Rightarrow> int \<Rightarrow> bool" where
  "in_time st since now \<longleftrightarrow> list_all (\<lambda>(grp, g). list_all (\<lambda>(m, ms). now - since \<le> ms_SessionTimeoutMs ms * 1000000) (gs_Members g)) (GroupStates st)"

lemma in_time_member:
  "in_time st since now \<Longrightarrow> map_of (members_of grp st) m = Some ms \<Longrightarrow> now - since \<le> ms_SessionTimeoutMs ms * 1000000"
  by (auto simp: in_time_def members_of_def list_all_iff split: option.splits dest!: map_of_SomeD)

lemma sweep_members_none:
  assumes "\<And>m ms. map_of (LiveMembers nh grp h) m = Some ms \<Longrightarrow> \<not> expired now grp m ms gc"
  shows "sweep_members nh now grp ids gc h = (None, gc, h)"
  using assms by (induction ids) (auto split: option.split)

lemma sweep_groups_none:
  assumes "\<And>grp m ms. map_of (LiveMembers nh grp h) m = Some ms \<Longrightarrow> \<not> expired now grp m ms gc"
  shows "sweep_groups nh now grps gc h = (None, gc, h)"
  by (induction grps) (simp_all add: sweep_members_none assms)

lemma sweep_in_time:
  assumes "ps_sched d = []" "in_time (ps_meta d) since now"
    "\<And>grp m ms. map_of (members_of grp (ps_meta d)) m = Some ms \<Longrightarrow> get_heartbeat grp m gc = Some since"
  shows "sweepOnce (psim_meta_host os cfg dec leader) now gc d = (None, gc, d)"
proof -
  have "sweep_groups (psim_meta_host os cfg dec leader) now grps gc d = (None, gc, d)" for grps
    by (rule sweep_groups_none) (use assms(3) in_time_member [OF assms(2)] in \<open>fastforce simp: psim_live expired_def\<close>)
  then show ?thesis by (simp add: sweepOnce_def psim_group_states [OF assms(1)] split: sum.split prod.split)
qed

lemma sweeps_in_time:
  assumes "ps_sched d = []" "list_all (in_time (ps_meta d) since) ticks"
    "\<And>grp m ms. map_of (members_of grp (ps_meta d)) m = Some ms \<Longrightarrow> get_heartbeat grp m gc = Some since"
  shows "sessionTimeoutSweep (psim_meta_host os cfg dec leader) (map Tick ticks) gc d = (None, gc, d)"
  using assms(2) by (induction ticks) (simp_all add: sweep_in_time [OF assms(1) _ assms(3)])

definition listens :: "'d surroundings \<Rightarrow> bool" where
  "listens su \<longleftrightarrow> (\<forall>tr addr. \<exists>bound. oc_Listen su tr addr = Inr bound)"

definition on_psim :: "broker_env \<Rightarrow> psim surroundings \<Rightarrow> bool" where
  "on_psim e su \<longleftrightarrow> su_newNodeHost su = (\<lambda>c. Inr (psim_node (be_os e) (be_cfg e) (be_dec e) (be_leader e))) \<and>
     su_live su = (\<lambda>grp d. members_of grp (ps_meta d))"

lemma startObservability_listens:
  assumes "listens su"
  obtains sm ms ps st tr where "startObservability (os_calls.truncate su) cfg [] = (Inr (sm, ms, ps, st), tr)"
proof -
  obtain listen where "oc_Listen su = (\<lambda>tr addr. Inr (listen tr addr))" using assms unfolding listens_def by metis
  then show ?thesis
    by (cases "bc_PprofAddr cfg = []"; cases "NewPprofServer (bc_PprofAddr cfg)")
      (auto simp: startObservability_def MetricsServer_Start_def PprofServer_Start_def Let_def os_calls.defs intro: that)
qed

lemma start_broker_psim:
  assumes "listens su" "on_psim e su" "ps_sched d = []" "h_nh host = psim_node (be_os e) (be_cfg e) (be_dec e) (be_leader e)"
  obtains ru tr' where "start_broker su cfg sm st host tr d = Some (Inr ru, tr', registered (cluster_config cfg) d)"
    "h_nh (bh_host (ru_bh ru)) = psim_node (be_os e) (be_cfg e) (be_dec e) (be_leader e)"
    "\<And>grp m ms. map_of (members_of grp (ps_meta d)) m = Some ms \<Longrightarrow> get_heartbeat grp m (ru_gc ru) = Some (su_rebuildAt su)"
proof -
  let ?bh = "\<lparr>bh_host = host, bh_dataDir = bc_DataDir cfg, bh_storageCfg = bc_Storage cfg\<rparr>"
  let ?d = "registered (cluster_config cfg) d"
  obtain listen where listen: "oc_Listen su = (\<lambda>tr addr. Inr (listen tr addr))" using assms(1) unfolding listens_def by metis
  have cluster: "brokerHost_cluster (su_mkdirOk su) ?bh (su_ctx su) (su_live su) = psim_cluster e"
    using assms(2,4) by (simp add: on_psim_def brokerHost_psim_cluster)
  obtain tasks where boot: "Bootstrap (psim_cluster e) (su_bootstrapAt su) (su_attempts su)
      (NewClusterCoordinator (cluster_config cfg)) d = Some (Inr tasks, ?d)"
    using Bootstrap_psim [OF assms(3), of e "su_bootstrapAt su" "su_attempts su" "NewClusterCoordinator (cluster_config cfg)"]
    by (auto simp: NewClusterCoordinator_def)
  have same: "members_of grp (ps_meta ?d) = members_of grp (ps_meta d)" "ps_sched ?d = []" for grp
    using assms(3) by (simp_all add: registered_def members_of_def)
  obtain gc where gc: "RebuildHeartbeatTable (ch_meta (psim_cluster e)) (su_rebuildAt su) (NewGroupCoordinator (group_config cfg)) ?d = (gc, ?d)"
    "\<And>grp m ms. map_of (members_of grp (ps_meta d)) m = Some ms \<Longrightarrow> get_heartbeat grp m gc = Some (su_rebuildAt su)"
    using RebuildHeartbeatTable_psim [OF same(2)] by (simp add: psim_cluster_def same(1)) metis
  show ?thesis
    by (rule that) (auto simp: start_broker_def Let_def cluster boot gc(1) open_listeners_def listen os_calls.defs gc(2) assms(4))
qed

lemma run_psim:
  assumes "listens su" "on_psim e su" "ps_sched d = []"
  obtains ru tr where "\<And>work. run su work cfg d = map_option (\<lambda>d. (None, tr, d)) (work ru (registered (cluster_config cfg) d))"
    "h_nh (bh_host (ru_bh ru)) = psim_node (be_os e) (be_cfg e) (be_dec e) (be_leader e)"
    "\<And>grp m ms. map_of (members_of grp (ps_meta d)) m = Some ms \<Longrightarrow> get_heartbeat grp m (ru_gc ru) = Some (su_rebuildAt su)"
proof -
  let ?host = "\<lparr>h_nh = psim_node (be_os e) (be_cfg e) (be_dec e) (be_leader e), h_config = raft_config cfg\<rparr>"
  obtain sm ms ps st tr where obs: "startObservability (os_calls.truncate su) cfg [] = (Inr (sm, ms, ps, st), tr)"
    by (rule startObservability_listens [OF assms(1)])
  have host: "NewHost (su_newNodeHost su) (raft_config cfg) = Inr ?host" using assms(2) by (simp add: NewHost_def on_psim_def)
  obtain ru tr' where start: "start_broker su cfg sm st ?host (tr @ [Opened RaftNode]) d = Some (Inr ru, tr', registered (cluster_config cfg) d)"
    "h_nh (bh_host (ru_bh ru)) = psim_node (be_os e) (be_cfg e) (be_dec e) (be_leader e)"
    "\<And>grp m ms. map_of (members_of grp (ps_meta d)) m = Some ms \<Longrightarrow> get_heartbeat grp m (ru_gc ru) = Some (su_rebuildAt su)"
    by (rule start_broker_psim [OF assms, of ?host]) auto
  have close: "snd (Host_Close ?host d) = d" for d by (simp add: Host_Close_def psim_node_def)
  have "run su work cfg d = map_option (\<lambda>d. (None, stop_broker (os_calls.truncate su) ru ms ps tr' @ [Closed RaftNode], d))
      (work ru (registered (cluster_config cfg) d))" for work
    using close by (simp add: run_def Let_def obs host start split: option.split)
  then show ?thesis using start(2,3) by (rule that)
qed

section \<open>The properties\<close>

definition demo_config :: BrokerConfig where
  "demo_config = \<lparr>bc_NodeID = 1, bc_RaftAddress = ''r:1'', bc_ManagementAddr = [], bc_DataAddr = [],
     bc_AdvertiseDataAddr = ''b:9092'', bc_DataDir = ''/data'', bc_RaftRTTMs = 200, bc_Peers = [(1, ''r:1'')], bc_AuthTokens = [],
     bc_Storage = demo_cfg, bc_Coordinator = \<lparr>ReconcileIntervalMs = 500, LeaderCheckIntervalMs = 1000, BootstrapTimeoutMs = 30000,
       EagerReconcileOnCreate = False, GroupSweepIntervalMs = 0\<rparr>, bc_MetricsAddr = [], bc_PprofAddr = ''localhost:6060''\<rparr>"

definition demo_host_os :: "psim surroundings" where
  "demo_host_os = \<lparr>oc_Listen = (\<lambda>tr addr. Inr addr), oc_Shutdown = (\<lambda>tr addr. None),
     su_newNodeHost = (\<lambda>c. Inr (psim_node (be_os demo_broker) (be_cfg demo_broker) (be_dec demo_broker) (be_leader demo_broker))),
     su_mkdirOk = (\<lambda>dir. True), su_live = (\<lambda>grp d. members_of grp (ps_meta d)), su_ctx = \<lparr>ctx_Deadline = None, ctx_now = 0\<rparr>,
     su_version = ''v1'', su_goVersion = ''go'', su_bootstrapAt = 0, su_attempts = [], su_rebuildAt = 5000000000\<rparr>"

definition demo_restarted :: psim where
  "demo_restarted = \<lparr>ps_meta = NewMetadataFSM\<lparr>GroupStates := [(''g'', \<lparr>gs_GroupID = ''g'',
     gs_Members = [(''m'', \<lparr>ms_MemberID = ''m'', ms_SubscribedTopics = [], ms_SessionTimeoutMs = 10000,
       ms_HeartbeatIntervalMs = 3000, ms_JoinedAt = 0\<rparr>)],
     gs_GenerationID = 1, gs_Assignments = [], gs_Offsets = []\<rparr>)]\<rparr>, ps_shards = [], ps_sched = []\<rparr>"

lemma demo_up: "listens demo_host_os" "on_psim demo_broker demo_host_os" "ps_sched demo_restarted = []"
  by (simp_all add: listens_def on_psim_def demo_host_os_def demo_restarted_def)

text \<open>
  C23. The process gives back what it took.  However the operating system, the library and the
  metadata shard answer, and whatever happens while it serves: a run that ends has closed the raft
  host, as the last thing it did, if it had opened it.  A run that ends by the signal has closed
  every listener it opened.  A run that fails never served a request of the two services, and the
  listeners it leaves open are exactly those of its HTTP servers.
\<close>

theorem run_releases:
  assumes "run su work cfg d = Some (r, tr, d')"
  shows "balance RaftNode tr = 0 \<and> (Opened RaftNode \<in> set tr \<longrightarrow> last tr = Closed RaftNode) \<and>
    (case r of
       None \<Rightarrow> \<forall>addr. balance (Listener addr) tr = 0
     | Some err \<Rightarrow> \<not> list_ex serves_rpc tr \<and>
         (\<forall>addr. balance (Listener addr) tr = int (count_list (concat (map served_http tr)) addr)))"
proof -
  obtain r0 tr0 where obs: "startObservability (os_calls.truncate su) cfg [] = (r0, tr0)" by fastforce
  show ?thesis
  proof (cases r0)
    case (Inl err)
    then show ?thesis using assms startObservability_open [where oc = "os_calls.truncate su" and cfg = cfg]
      by (auto simp: run_def obs Let_def http_only_def)
  next
    case (Inr x)
    obtain sm metricsSrv pprofSrv st where x: "x = (sm, metricsSrv, pprofSrv, st)" by (cases x) auto
    have http: "ms_srv metricsSrv" "\<And>p. pprofSrv = Some p \<Longrightarrow> ps_srv p"
      "http_only (http_addrs metricsSrv pprofSrv) tr0"
      using startObservability_open [where oc = "os_calls.truncate su" and cfg = cfg] by (simp_all add: obs Inr x)
    show ?thesis
    proof (cases "NewHost (su_newNodeHost su) (raft_config cfg)")
      case (Inl err)
      then show ?thesis using assms http by (auto simp: run_def obs \<open>r0 = Inr x\<close> x Let_def http_only_def)
    next
      case (Inr host)
      let ?tr = "tr0 @ [Opened RaftNode]"
      obtain y tr1 d1 where st: "start_broker su cfg sm st host ?tr d = Some (y, tr1, d1)"
        using assms by (auto simp: run_def obs \<open>r0 = Inr x\<close> x Inr Let_def split: option.splits prod.splits)
      note opened = start_broker_open [OF st]
      show ?thesis
      proof (cases y)
        case (Inl err)
        then show ?thesis using assms http opened
          by (auto simp: run_def obs \<open>r0 = Inr x\<close> x Inr st Let_def http_only_def)
      next
        case (Inr ru)
        have r: "r = None" "tr = stop_broker (os_calls.truncate su) ru metricsSrv pprofSrv tr1 @ [Closed RaftNode]"
          using assms by (auto simp: run_def obs \<open>r0 = Inr x\<close> x \<open>NewHost _ _ = Inr host\<close> st Inr Let_def split: option.splits)
        note closes = stop_broker_closes [OF http(1,2), simplified map_append balance_simps]
        have "balance (Listener addr) tr = 0" for addr
          using opened Inr http(3) by (simp add: r closes balance_closed http_only_def)
        moreover have "balance RaftNode tr = 0"
          using opened Inr http(3) by (simp add: r closes balance_closed http_only_def)
        ultimately show ?thesis by (simp add: r)
      qed
    qed
  qed
qed

theorem run_releases_witness:
  "\<exists>tr d'. run demo_host_os (\<lambda>ru d. Some d) demo_config demo_restarted = Some (None, tr, d') \<and>
    balance RaftNode tr = 0 \<and> balance (Listener '':9091'') tr = 0 \<and> balance (Listener ''localhost:6060'') tr = 0"
proof -
  obtain tr d' where run: "run demo_host_os (\<lambda>ru d. Some d) demo_config demo_restarted = Some (None, tr, d')"
    by (rule run_psim [OF demo_up, of demo_config]) auto
  from run_releases [OF run] run show ?thesis by simp
qed

text \<open>
  C22. The broker comes up.  When every listener can be opened and the node host, on which nothing
  else happens, runs the state machines, the process reaches the point where it serves, whatever
  its configuration, and from there ends without an error when the signal comes.
  At that point its host is the one on which the coordinators are verified, all that has changed is
  that the node is registered with its advertised address, and every group member counts as just
  heard from: the sweeps that come before the session of a member is overdue remove nobody.
\<close>

theorem broker_starts:
  assumes "listens su" "on_psim e su" "ps_sched d = []"
  shows "\<exists>ru tr. (\<forall>work. run su work cfg d =
      map_option (\<lambda>d. (None, tr, d)) (work ru (registered (cluster_config cfg) d))) \<and>
    brokerHost_cluster (su_mkdirOk su) (ru_bh ru) (su_ctx su) (su_live su) = psim_cluster e \<and>
    brokerHost_data (ru_bh ru) (su_ctx su) (su_live su) = env_host e \<and>
    (\<forall>ticks. list_all (in_time (ps_meta d) (su_rebuildAt su)) ticks \<longrightarrow>
       sessionTimeoutSweep (dh_meta (env_host e)) (map Tick ticks) (ru_gc ru) (registered (cluster_config cfg) d) =
         (None, ru_gc ru, registered (cluster_config cfg) d))"
proof -
  let ?d = "registered (cluster_config cfg) d"
  obtain ru tr where ru: "\<And>work. run su work cfg d = map_option (\<lambda>d. (None, tr, d)) (work ru ?d)"
    "h_nh (bh_host (ru_bh ru)) = psim_node (be_os e) (be_cfg e) (be_dec e) (be_leader e)"
    "\<And>grp m ms. map_of (members_of grp (ps_meta d)) m = Some ms \<Longrightarrow> get_heartbeat grp m (ru_gc ru) = Some (su_rebuildAt su)"
    by (rule run_psim [OF assms, of cfg]) (rule that; fast)
  have same: "ps_sched ?d = []" "in_time (ps_meta ?d) = in_time (ps_meta d)" "members_of grp (ps_meta ?d) = members_of grp (ps_meta d)" for grp
    using assms(3) by (auto simp: in_time_def registered_def members_of_def fun_eq_iff)
  have "sessionTimeoutSweep (dh_meta (env_host e)) (map Tick ticks) (ru_gc ru) ?d = (None, ru_gc ru, ?d)"
    if "list_all (in_time (ps_meta d) (su_rebuildAt su)) ticks" for ticks
    using sweeps_in_time [OF same(1), of "su_rebuildAt su" ticks "ru_gc ru"] that ru(3) by (simp add: same psim_host_def)
  moreover have "brokerHost_cluster (su_mkdirOk su) (ru_bh ru) (su_ctx su) (su_live su) = psim_cluster e"
    "brokerHost_data (ru_bh ru) (su_ctx su) (su_live su) = env_host e"
    using assms(2) ru(2) by (simp_all add: on_psim_def brokerHost_psim_cluster brokerHost_psim_data)
  ultimately show ?thesis using ru(1) by blast
qed

theorem broker_starts_witness:
  "\<exists>ru :: psim running. map_option snd (map_option snd (run demo_host_os (\<lambda>ru d. Some d) demo_config demo_restarted)) =
      Some (registered (cluster_config demo_config) demo_restarted) \<and>
    sessionTimeoutSweep (dh_meta (env_host demo_broker)) [Tick 10000000000, Tick 15000000000] (ru_gc ru)
      (registered (cluster_config demo_config) demo_restarted) =
      (None, ru_gc ru, registered (cluster_config demo_config) demo_restarted)"
proof -
  have ticks: "list_all (in_time (ps_meta demo_restarted) (su_rebuildAt demo_host_os)) [10000000000, 15000000000]"
    by (simp add: in_time_def demo_restarted_def demo_host_os_def NewMetadataFSM_def)
  show ?thesis
    using ticks broker_starts [OF demo_up, of demo_config]
    apply (elim exE conjE)
    subgoal premises p for ru tr
      using p(2) [rule_format, of "\<lambda>ru d. Some d"] p(5) [rule_format, OF p(1)]
      by (intro exI [of _ ru]) (simp del: sessionTimeoutSweep.simps)
    done
qed

end
