(* ===== verification/Spec2Isabelle.thy ===== *)
theory Spec2Isabelle
  imports PropsStorage PropsPartition PropsMeta PropsGroup PropsData PropsCluster PropsClient PropsFaults PropsTools PropsHost
    PropsAdmin PropsServer PropsMetrics PropsMain ConfigEnv
begin

text \<open>
  A verification library of BunnyMQ, a message broker in Go (all paths below are under \<open>src\<close>).

  \<^bold>\<open>The program.\<close>  A topic is divided into partitions, and each partition is a log of record batches.
  A broker keeps every log in a storage engine of segment files with sparse indexes
  (\<open>internal/storage\<close>).  Each partition is a replicated state machine (\<open>internal/partition\<close>), and so
  is the cluster's metadata: topics, partitions, nodes and consumer groups (\<open>internal/metadata\<close>).
  Both run on the dragonboat library behind \<open>internal/raft/host.go\<close>.  Three coordinators use this
  host: \<open>internal/coordinator/data\<close> for producing and fetching, \<open>group\<close> for consumer groups, and
  \<open>cluster\<close> for topics and the placement of replicas.  Two gRPC services (\<open>internal/api\<close>) offer the
  coordinators to the client library (\<open>pkg/client\<close>, \<open>internal/client\<close>), on which the command line
  tool \<open>cmd/bunnymq-cli\<close> is built.  \<open>cmd/bunnymq\<close> is the broker process, \<open>cmd/storage-debug\<close> a tool
  for the storage files, \<open>internal/config\<close> the configuration.

  \<^bold>\<open>Representation.\<close>  A Go integer is an \<open>int\<close>; wherever the source converts or can overflow, the
  wrap-around is written out (\<open>int64\<close>, \<open>uint64\<close>, \<open>int32\<close> of \<open>Prelude\<close>), and the codec works on
  words.  Bytes are \<open>8 word list\<close>.  An error is a value of \<open>go_error\<close> in the left summand of a
  result, a panic is the error \<open>GoPanic\<close>.  A Go map is an association list whose order stands for
  the order in which \<open>range\<close> visits it (\<open>GoMaps\<close>).  A method returns its changed receiver.  Failures
  of the file system are decided by \<open>os_env\<close>.  A goroutine is a task or a loop that is given the
  observations it makes: ticks, times and ends of contexts.  A call that still waits when its
  observations end is \<open>None\<close>.

  \<^bold>\<open>Theories.\<close>
  \<^item> \<open>Prelude\<close>, \<open>Errors\<close>, \<open>GoStrings\<close>, \<open>GoMaps\<close>, \<open>GoText\<close>: integers, bytes, errors, maps and texts, with
    the lemmas that all other theories share; \<open>Tabwriter\<close>: the columns of \<open>text/tabwriter\<close>.
  \<^item> \<open>Config\<close>, \<open>ConfigEnv\<close>: \<open>internal/config/config.go\<close>, with \<open>Load\<close> and \<open>LoadFromEnv\<close>.
  \<^item> \<open>Batch\<close>: \<open>storage/batch.go\<close>; \<open>LogSegment\<close>: \<open>log_segment.go\<close>; \<open>IndexSearch\<close>, \<open>OffsetIndex\<close>,
    \<open>TimeIndex\<close>: the two memory-mapped indexes; \<open>LogModel\<close>, \<open>Segment\<close>: \<open>segment_storage.go\<close>;
    \<open>Recovery\<close>: \<open>recovery.go\<close>; \<open>Storage\<close>: \<open>storage.go\<close> and \<open>retention.go\<close>.  \<open>StorageLog\<close>,
    \<open>StorageRead\<close>, \<open>StorageMaint\<close>, \<open>StorageCrash\<close>: the invariant \<open>storage_inv\<close>, the abstract log
    \<open>storage_log\<close>, and what each operation does to it.
  \<^item> \<open>Partition\<close>: \<open>internal/partition\<close>, every method of the state machine and its sidecar file.
  \<^item> \<open>MetaTypes\<close>, \<open>Metadata\<close>: \<open>internal/metadata\<close>, every command and query.  \<open>MetaInv\<close>, \<open>MetaGroups\<close>,
    \<open>MetaDet\<close>: its invariant, its consumer groups, and that replicas agree.
  \<^item> \<open>Host\<close>, \<open>PartHost\<close>, \<open>RaftHost\<close>: \<open>internal/raft/host.go\<close> and the adapter \<open>brokerHost\<close>.
  \<^item> \<open>Assignor\<close>, \<open>GroupCoord\<close>, \<open>GroupLemmas\<close>: \<open>coordinator/group\<close>; \<open>DataCoord\<close>, \<open>DataLemmas\<close>:
    \<open>coordinator/data\<close>; \<open>ClusterCoord\<close>, \<open>ClusterTopics\<close>, \<open>ClusterLemmas\<close>: \<open>coordinator/cluster\<close>.
  \<^item> \<open>Rpc\<close>: the messages of \<open>api/*.proto\<close>; \<open>ApiData\<close>, \<open>ApiMgmt\<close>: the handlers; \<open>ApiServer\<close>: the servers
    and interceptors of \<open>internal/api\<close>.
  \<^item> \<open>ClientLib\<close>, \<open>Producer\<close>, \<open>Consumer\<close>, \<open>Admin\<close>: the client library on an arbitrary network; \<open>Broker\<close>:
    the network made by the handlers on one node.  \<open>ClientLemmas\<close>, \<open>SendLemmas\<close>, \<open>ConsumerLemmas\<close>,
    \<open>GroupClient\<close>, \<open>ClientFaults\<close>: what the clients do there.
  \<^item> \<open>Cli\<close>, \<open>CliAdmin\<close>, \<open>StorageDebug\<close>: the command line tools.
  \<^item> \<open>Metrics\<close>, \<open>StorageMetrics\<close>, \<open>RaftMetrics\<close>: what is recorded in \<open>server_metrics.go\<close>,
    \<open>storage/metrics.go\<close>, \<open>internal/cluster/metrics.go\<close> and \<open>coordinator/cluster/metrics.go\<close>.
  \<^item> \<open>BrokerMain\<close>: \<open>cmd/bunnymq/main.go\<close>, \<open>api/metrics_server.go\<close> and \<open>api/pprof_server.go\<close>.
  \<^item> \<open>Props...\<close>: the properties of these components and examples that meet their hypotheses.
\<close>

text \<open>
  \<^bold>\<open>Interfaces.\<close>  Where a component relies on another only through a contract, the contract is a
  locale, and its interpretation on the definitions of the provider is its proof.
  \<^item> \<open>entry_index\<close>, \<open>floor_index\<close>, \<open>ceil_index\<close>: an index as the segment uses it.
  \<^item> \<open>log_store\<close>: the storage as the partition state machine uses it.
  \<^item> \<open>assignor\<close>: a distribution of partitions over members, met by \<open>rangeAssign\<close> and by the
    rebalancing of the metadata state machine.
  \<^item> \<open>meta_host\<close>: a host for metadata.  A lookup answers from the state of the local replica, and a
    proposal is applied after commands of other nodes.  Four hosts meet it; among them are one with an
    arbitrary schedule of other nodes and one of a node with partition replicas.
  \<^item> \<open>raft_library\<close>: what is relied on in dragonboat; every node host that meets it gives a
    \<open>meta_host\<close>.
  \<^item> \<open>quiet_host\<close>: a host on which nothing else happens, for the cluster coordinator.
  \<^item> \<open>seek_closed\<close>, \<open>positions_inv\<close>, \<open>produce_meter\<close>: what the calls of a client keep.
  \<^item> \<open>grpc_chain\<close>: how the gRPC library runs a chain of interceptors.

  \<^bold>\<open>What is shown.\<close>
  \<^item> Storage: \<open>DecodeBatch\<close> inverts \<open>EncodeBatch\<close>, whose results are well-formed.  \<open>Append\<close> extends the
    abstract log, a read returns whole consecutive batches of it, \<open>TruncateTo\<close> cuts it, retention
    only removes batches from its front, and opening the directory after a crash gives it back.
  \<^item> State machines: replay after a crash applies every entry once, except for a crash in the first
    update.  Metadata keeps its invariant along every run, and replicas agree whatever the iteration
    orders of their maps.
  \<^item> Coordinators: what is produced is what is fetched, also by a fetch that waited; topics get
    their partitions and replicas spread over nodes; reconciliation converges whatever the order of
    its goroutines; joining, leaving and sweeping keep every partition with exactly one owner;
    commits are authorised; \<open>Bootstrap\<close> returns.
  \<^item> Clients: what \<open>Send\<close> stores \<open>Poll\<close> delivers, once and in order; a consumer resumes at committed
    offsets; the number of attempts is bounded; a created topic is in the printed table.
  \<^item> Process: the adapter around the raft host and the interceptors of the servers leave the verified
    behaviour as it is; the process comes up, and gives back what it took when it ends; the metrics
    show the state of the storage and the leaders that were recorded.
  \<^item> Errors: a few theorems state behaviour that is surely not wanted, such as a poll that runs into a
    rebalance; they are there because the code behaves so.

  \<^bold>\<open>Bounds.\<close>  No definition has fuel.  Loops over data are structural or have a termination proof by
  what is left of the input, and loops that wait are given their observations.  A property with a
  size limit has the limit of the code: batches of at most 4 MiB (\<open>maxBatchBytes\<close>), offsets below
  \<open>2\<^sup>6\<^sup>3\<close>, and timeouts for which the conversion to nanoseconds does not overflow.

  \<^bold>\<open>Not modelled.\<close>
  \<^item> The consensus protocol, snapshots between nodes and membership: dragonboat is a parameter.  In
    the node host \<open>psim_node\<close>, on which the interfaces are instantiated, shards do not start or stop
    on request; starting and stopping is studied on \<open>node_host\<close> of \<open>ClusterLemmas\<close>.
  \<^item> The wire format of gRPC, TLS, and the stubs that protoc generates: a call is a function of the
    network record, and an error keeps the error value in place of its text.
  \<^item> The JSON text of metadata commands, retention settings and printed records: a command is
    represented by what decoding its text gives (\<open>wire\<close>), the decoder of retention settings is a
    parameter.
  \<^item> The backoff between attempts: it is computed with floats and only takes time.
  \<^item> Memory: files are byte lists, a memory-mapped index is the bytes of its file, mutexes are the
    boundaries between the steps of a model, and two goroutines interleave at these steps only.
  \<^item> The libraries viper and cobra, which read the configuration file and the flags, Prometheus, which
    keeps the values of metrics as floats, and zap, which writes the logs.
  \<^item> \<open>internal/observability\<close>, \<open>internal/log\<close>, \<open>internal/metrics\<close> and \<open>tools\<close>: settings of libraries and empty
    packages.
\<close>

end
